(* ===== verification/YchPrelude.thy ===== *)
theory YchPrelude
  imports Main "HOL-Library.Word"
begin

text \<open>
  Shared vocabulary of the development: the integer types of
  \<^verbatim>\<open>Kernel/Include/Krnlych.h\<close>, the result type of operations that can fault, and the
  lemmas about bits, words and updated functions that several components use.
\<close>

unbundle bit_operations_syntax

named_theorems bitmap_simps \<open>reading and writing single bits of bytes and bitmaps\<close>
named_theorems kres_simps \<open>evaluation of operations that may fault\<close>

section \<open>Integer types\<close>

text \<open>
  The kernel uses the LP64 model: \<^verbatim>\<open>DWORD\<close>, \<^verbatim>\<open>UINT\<close> are 32 bits wide,
  \<^verbatim>\<open>QWORD\<close>, \<^verbatim>\<open>SIZE\<close>, \<^verbatim>\<open>ULONG\<close>, \<^verbatim>\<open>UINTPTR\<close> are 64 bits wide.
\<close>

type_synonym BYTE = "8 word"
type_synonym WORD = "16 word"
type_synonym DWORD = "32 word"
type_synonym QWORD = "64 word"

type_synonym UCHAR = "8 word"
type_synonym USHORT = "16 word"
type_synonym UINT = "32 word"
type_synonym SIZE = "64 word"
type_synonym ULONG = "64 word"
type_synonym UINTPTR = "64 word"

definition KR_CEILDIV :: "'a::len word \<Rightarrow> 'a word \<Rightarrow> 'a word" where
  "KR_CEILDIV Dividend Divisor = (Dividend + Divisor - 1) div Divisor"

definition HIDWORD :: "QWORD \<Rightarrow> DWORD" where
  "HIDWORD QW = ucast (drop_bit 32 QW)"

definition LODWORD :: "QWORD \<Rightarrow> DWORD" where
  "LODWORD QW = ucast QW"

definition DWORD_MAX :: DWORD where "DWORD_MAX = NOT 0"
definition QWORD_MAX :: QWORD where "QWORD_MAX = NOT 0"

text \<open>Memory as the code sees it through a pointer: every address holds a byte.\<close>

type_synonym memory = "UINTPTR \<Rightarrow> BYTE"

text \<open>The bytes of an integer in memory, lowest first.\<close>

definition le16 :: "WORD \<Rightarrow> BYTE list" where
  "le16 v = [ucast v, ucast (drop_bit 8 v)]"

definition le32 :: "DWORD \<Rightarrow> BYTE list" where
  "le32 v = [ucast v, ucast (drop_bit 8 v), ucast (drop_bit 16 v), ucast (drop_bit 24 v)]"

definition le64 :: "QWORD \<Rightarrow> BYTE list" where
  "le64 v = le32 (ucast v) @ le32 (ucast (drop_bit 32 v))"

section \<open>Operations that can fault\<close>

text \<open>
  \<open>Meltdown c\<close> is a call of \<^verbatim>\<open>Krnlmeltdown\<close> with code \<open>c\<close>, which never
  returns. \<open>OutOfBounds\<close> and \<open>NullDeref\<close> are accesses the C program may not make.
  \<open>DivideError\<close> is the trap of a division by zero, \<open>UndefinedShift\<close> a shift by at least the width of its operand. \<open>Deadlock\<close> is a wait for a spinlock that its only possible owner, the caller, holds.
  \<open>OutOfFuel\<close> says that the bound a model puts on a loop was reached.
\<close>

datatype kfault = OutOfBounds | NullDeref | Deadlock | DivideError | UndefinedShift | OutOfFuel | Meltdown ULONG

type_synonym 'a kres = "kfault + 'a"

definition kbind :: "'a kres \<Rightarrow> ('a \<Rightarrow> 'b kres) \<Rightarrow> 'b kres" where
  "kbind m f = (case m of Inl e \<Rightarrow> Inl e | Inr x \<Rightarrow> f x)"

lemma kbind_Inr [simp, kres_simps]: "kbind (Inr x) f = f x"
  by (simp add: kbind_def)

lemma kbind_Inl [simp, kres_simps]: "kbind (Inl e) f = Inl e"
  by (simp add: kbind_def)

lemma kbind_eq_Inr: "kbind m f = Inr y \<longleftrightarrow> (\<exists>x. m = Inr x \<and> f x = Inr y)"
  by (cases m) auto

lemma kbind_cong [fundef_cong]:
  "m = m' \<Longrightarrow> (\<And>x. m' = Inr x \<Longrightarrow> f x = f' x) \<Longrightarrow> kbind m f = kbind m' f'"
  by (cases m') auto

text \<open>As a simplifier congruence it keeps evaluation out of the continuation until the result is known.\<close>

lemma kbind_weak_cong: "m = m' \<Longrightarrow> kbind m f = kbind m' f"
  by simp

section \<open>Loops over lists\<close>

text \<open>A loop that runs its body for each element of a list, in order.\<close>

primrec each :: "('x \<Rightarrow> 's \<Rightarrow> 's kres) \<Rightarrow> 'x list \<Rightarrow> 's \<Rightarrow> 's kres" where
  "each g [] s = Inr s"
| "each g (x # xs) s = kbind (g x s) (each g xs)"

lemma each_append: "each g (xs @ ys) s = kbind (each g xs s) (each g ys)"
  by (induction xs arbitrary: s) (simp_all add: kbind_def split: sum.splits)

lemma each_concat: "each g (concat xss) s = each (each g) xss s"
  by (induction xss arbitrary: s) (auto simp: each_append kbind_def split: sum.splits)

lemma each_map: "each g (map h xs) s = each (g \<circ> h) xs s"
  by (induction xs arbitrary: s) (simp_all add: kbind_def split: sum.splits)

lemma each_filter: "each g (filter P xs) s = each (\<lambda>x s. if P x then g x s else Inr s) xs s"
  by (induction xs arbitrary: s) (simp_all add: kbind_def split: sum.splits)

lemma each_cong: "(\<And>x s. x \<in> set xs \<Longrightarrow> g x s = h x s) \<Longrightarrow> each g xs s = each h xs s"
  by (induction xs arbitrary: s) (simp_all add: kbind_def split: sum.splits)

lemma each_if: "each (\<lambda>x s. if c then g x s else Inr s) xs s = (if c then each g xs s else Inr s)"
  by (induction xs arbitrary: s) auto

lemma each_product: "each g (List.product xs ys) s = each (\<lambda>x. each (\<lambda>y. g (x, y)) ys) xs s"
  by (induction xs arbitrary: s) (simp_all add: each_append each_map comp_def kbind_def split: sum.splits)

section \<open>Single bits\<close>

text \<open>The C idioms \<^verbatim>\<open>v |= 1 << n\<close>, \<^verbatim>\<open>v &= ~(1 << n)\<close> and \<^verbatim>\<open>v & (1 << n)\<close>.\<close>

definition bset :: "'a::len word \<Rightarrow> nat \<Rightarrow> 'a word" where
  "bset v n = v OR push_bit n 1"

definition bclr :: "'a::len word \<Rightarrow> nat \<Rightarrow> 'a word" where
  "bclr v n = v AND NOT (push_bit n 1)"

definition btest :: "'a::len word \<Rightarrow> nat \<Rightarrow> bool" where
  "btest v n \<longleftrightarrow> v AND push_bit n 1 \<noteq> 0"

lemma bit_push_1: "bit (2 ^ n :: 'a::len word) m \<longleftrightarrow> m = n \<and> n < LENGTH('a)"
  by (auto simp: bit_exp_iff)

lemma bit_bset [bitmap_simps]:
  "bit (bset (v :: 'a::len word) n) m \<longleftrightarrow> bit v m \<or> (m = n \<and> n < LENGTH('a))"
  by (auto simp: bset_def bit_or_iff bit_push_1)

lemma bit_bclr [bitmap_simps]:
  "bit (bclr (v :: 'a::len word) n) m \<longleftrightarrow> bit v m \<and> m \<noteq> n"
  by (auto simp: bclr_def bit_and_iff bit_not_iff bit_push_1 dest: bit_imp_le_length)

lemma btest_bit [bitmap_simps]: "btest (v :: 'a::len word) n \<longleftrightarrow> bit v n"
proof -
  have "v AND 2 ^ n = (if bit v n then 2 ^ n else 0)"
    by (rule bit_word_eqI) (auto simp: bit_and_iff bit_push_1)
  moreover have "(2 :: 'a word) ^ n \<noteq> 0" if "bit v n"
    using that by (auto dest: bit_imp_le_length)
  ultimately show ?thesis by (simp add: btest_def)
qed

lemma bit_byte_FF [bitmap_simps]: "bit (0xFF :: BYTE) n \<longleftrightarrow> n < 8"
proof -
  have "(0xFF :: BYTE) = mask 8" by (simp add: mask_eq_exp_minus_1)
  then show ?thesis by (simp only: bit_mask_iff) simp
qed

lemma bit_int_FF [bitmap_simps]: "bit (0xFF :: int) n \<longleftrightarrow> n < 8"
proof -
  have "(0xFF :: int) = mask 8" by (simp add: mask_eq_exp_minus_1)
  then show ?thesis by (simp only: bit_mask_iff) simp
qed

lemma bit_small:
  assumes "unat (w :: 'a::len word) < 2 ^ k" "k \<le> n"
  shows "\<not> bit w n"
proof -
  have "unat w < 2 ^ n" using assms by (meson less_le_trans one_le_numeral power_increasing)
  then have "\<not> bit (unat w) n" by (simp add: bit_iff_odd)
  then show ?thesis by (simp add: bit_unsigned_iff)
qed

text \<open>\<^verbatim>\<open>__builtin_ctzl\<close>: the index of the lowest set bit (the width for zero, which C leaves open).\<close>

definition ctz :: "'a::len word \<Rightarrow> nat" where
  "ctz w = (case find (bit w) [0..<LENGTH('a)] of None \<Rightarrow> LENGTH('a) | Some n \<Rightarrow> n)"

lemma ctz_bit:
  assumes "(w :: 'a::len word) \<noteq> 0"
  shows "ctz w < LENGTH('a)" "bit w (ctz w)" "k < ctz w \<Longrightarrow> \<not> bit w k"
proof -
  obtain n where n: "bit w n" using assms by (auto simp: bit_eq_iff)
  then have "n < LENGTH('a)" by (rule bit_imp_le_length)
  then obtain m where m: "find (bit w) [0..<LENGTH('a)] = Some m"
    using n by (cases "find (bit w) [0..<LENGTH('a)]") (auto simp: find_None_iff)
  then have "m < LENGTH('a)" "bit w m" "\<forall>j < m. \<not> bit w j"
    by (auto simp: find_Some_iff)
  then show "ctz w < LENGTH('a)" "bit w (ctz w)" "k < ctz w \<Longrightarrow> \<not> bit w k"
    using m by (simp_all add: ctz_def)
qed

lemma ctz_eqI:
  assumes "bit (w :: 'a::len word) n" "\<And>k. k < n \<Longrightarrow> \<not> bit w k"
  shows "ctz w = n"
proof -
  have "w \<noteq> 0" using assms(1) by auto
  note c = ctz_bit [OF this]
  show ?thesis using c(2) c(3) [of n] assms by (metis linorder_neqE_nat)
qed

section \<open>Words as naturals\<close>

lemma unat_Suc_word:
  "unat (w :: 'a::len word) + 1 < 2 ^ LENGTH('a) \<Longrightarrow> unat (w + 1) = unat w + 1"
  by (simp add: unat_word_ariths)

lemma unat_Suc_less: "(w :: 'a::len word) < k \<Longrightarrow> unat (w + 1) = unat w + 1"
proof (rule unat_Suc_word)
  assume "w < k"
  then have "unat w + 1 \<le> unat k" by (simp add: word_less_nat_alt)
  also have "unat k < 2 ^ LENGTH('a)" by (rule unsigned_less)
  finally show "unat w + 1 < 2 ^ LENGTH('a)" .
qed

lemma unat_plus_le:
  "unat (x :: 'a::len word) + unat y < 2 ^ LENGTH('a) \<Longrightarrow> unat (x + y) = unat x + unat y"
  by (simp add: unat_word_ariths)

lemma unat_minus_le: "(y :: 'a::len word) \<le> x \<Longrightarrow> unat (x - y) = unat x - unat y"
  by (rule unat_sub)

lemma unat_div_numeral: "unat ((x :: 'a::len word) div y) = unat x div unat y"
  by (rule unat_div)

lemma unat_lt_exp: "unat (w :: 'a::len word) < 2 ^ LENGTH('a)"
  by (rule unsigned_less)

lemma unat_dword_lt: "unat (w :: DWORD) < 4294967296"
  using unsigned_less [of w] by simp

lemma unat_qword_lt: "unat (w :: QWORD) < 18446744073709551616"
  using unsigned_less [of w] by simp

lemma unat_ucast_up:
  "LENGTH('a) \<le> LENGTH('b) \<Longrightarrow> unat (ucast (w :: 'a::len word) :: 'b::len word) = unat w"
  by (metis unsigned_ucast_eq take_bit_nat_eq_self unsigned_less power_increasing one_le_numeral order_less_le_trans)

lemma word_eq_unat: "(x :: 'a::len word) = y \<longleftrightarrow> unat x = unat y"
  by (simp add: word_unat_eq_iff)

lemma sint_of_nat_small: "a < 2 ^ (LENGTH('a) - 1) \<Longrightarrow> sint (of_nat a :: 'a::len word) = int a"
  by (simp add: signed_of_nat signed_take_bit_int_eq_self_iff) (rule order_trans [of _ 0], simp_all)

lemma unat_of_nat_small: "a < 2 ^ LENGTH('a) \<Longrightarrow> unat (of_nat a :: 'a::len word) = a"
  by (simp add: unsigned_of_nat take_bit_nat_eq_self)

lemma ucast_of_nat_up:
  assumes "n < 2 ^ LENGTH('a)" "LENGTH('a) \<le> LENGTH('b)"
  shows "(ucast (of_nat n :: 'a::len word) :: 'b::len word) = of_nat n"
proof -
  have "n < 2 ^ LENGTH('b)" using assms by (metis le_less_trans less_imp_le_nat not_le one_less_numeral_iff power_increasing_iff semiring_norm(76))
  then show ?thesis using assms by (simp add: word_eq_unat unat_ucast_up unat_of_nat_small)
qed

lemma uint_of_nat_small: "a < 2 ^ LENGTH('a) \<Longrightarrow> uint (of_nat a :: 'a::len word) = int a"
  by (metis of_nat_unat unat_of_nat_small)

lemma word_of_nat_less: "b < 2 ^ LENGTH('a) \<Longrightarrow> (of_nat b < (L :: 'a::len word)) = (b < unat L)"
  by (simp add: word_less_nat_alt unat_of_nat_small)

section \<open>Masks and power-of-two alignment\<close>

lemma word_and_not_mask: "(x :: 'a::len word) AND NOT (mask k) = push_bit k (drop_bit k x)"
  by (rule bit_word_eqI) (auto simp: bit_and_iff bit_not_iff bit_mask_iff bit_push_bit_iff bit_drop_bit_eq)

lemma unat_and_not_mask: "unat ((x :: 'a::len word) AND NOT (mask k)) = unat x div 2 ^ k * 2 ^ k"
proof -
  have "unat x div 2 ^ k * 2 ^ k \<le> unat x" by simp
  then have lt: "unat x div 2 ^ k * 2 ^ k < 2 ^ LENGTH('a)"
    by (rule le_less_trans) (rule unsigned_less)
  have "unat (push_bit k (drop_bit k x)) = take_bit LENGTH('a) (push_bit k (drop_bit k (unat x)))"
    by (simp add: unsigned_push_bit_eq unsigned_drop_bit_eq take_bit_nat_eq_self)
  also have "\<dots> = unat x div 2 ^ k * 2 ^ k"
    using lt by (simp add: push_bit_eq_mult drop_bit_eq_div take_bit_nat_eq_self)
  finally show ?thesis by (simp add: word_and_not_mask)
qed

lemma unat_and_mask: "unat ((x :: 'a::len word) AND mask k) = unat x mod 2 ^ k"
  by (metis take_bit_eq_mask take_bit_eq_mod unsigned_take_bit_eq)

lemma unat_mask: "k < LENGTH('a) \<Longrightarrow> unat (mask k :: 'a::len word) = 2 ^ k - 1"
proof -
  assume k: "k < LENGTH('a)"
  have "unat (mask k :: 'a word) = unat (of_nat (mask k) :: 'a word)"
    by (simp add: of_nat_mask_eq)
  also have "\<dots> = take_bit LENGTH('a) (mask k)"
    by (simp add: unsigned_of_nat)
  also have "\<dots> = mask k"
    using k by (simp add: take_bit_nat_eq_self mask_eq_exp_minus_1 le_less_trans [OF diff_le_self])
  finally show ?thesis by (simp add: mask_eq_exp_minus_1)
qed

lemma pow2_minus_1: "(2 :: 'a::len word) ^ k - 1 = mask k"
  by (simp add: mask_eq_exp_minus_1)

text \<open>
  The C idiom \<^verbatim>\<open>(x + (a - 1)) & ~(a - 1)\<close>, used by the bootstrap arena, the heap and
  the MMIO range allocator.
\<close>

definition align_up :: "'a::len word \<Rightarrow> 'a word \<Rightarrow> 'a word" where
  "align_up x a = (x + (a - 1)) AND NOT (a - 1)"

lemma unat_align_up:
  assumes "a = 2 ^ k" "k < LENGTH('a)" "unat (x :: 'a::len word) + (2 ^ k - 1) < 2 ^ LENGTH('a)"
  shows "unat (align_up x a) = (unat x + (2 ^ k - 1)) div 2 ^ k * 2 ^ k"
proof -
  have "unat (mask k :: 'a word) = 2 ^ k - 1"
    using assms(2) by (simp add: unat_mask)
  then have "unat (x + mask k) = unat x + (2 ^ k - 1)"
    using assms(3) by (simp add: unat_plus_le)
  then show ?thesis
    using assms(1) by (simp add: align_up_def pow2_minus_1 unat_and_not_mask)
qed

lemma nat_round_up:
  assumes "0 < (a::nat)"
  shows "n \<le> (n + (a - 1)) div a * a" "(n + (a - 1)) div a * a < n + a"
    "a dvd (n + (a - 1)) div a * a"
proof -
  have eq: "(n + (a - 1)) div a * a = n + (a - 1) - (n + (a - 1)) mod a"
    by (simp add: minus_mod_eq_div_mult)
  have "(n + (a - 1)) mod a < a" using assms by simp
  with eq show "n \<le> (n + (a - 1)) div a * a" by linarith
  from eq assms show "(n + (a - 1)) div a * a < n + a" by linarith
qed simp

lemma align_up_bounds:
  assumes "a = 2 ^ k" "k < LENGTH('a)" "unat (x :: 'a::len word) + (2 ^ k - 1) < 2 ^ LENGTH('a)"
  shows "unat x \<le> unat (align_up x a)" "unat (align_up x a) < unat x + 2 ^ k"
    "2 ^ k dvd unat (align_up x a)"
  using nat_round_up [of "2 ^ k" "unat x"] by (simp_all add: unat_align_up [OF assms])

lemma align_up_id:
  assumes "a = 2 ^ k" "k < LENGTH('a)" "2 ^ k dvd unat (x :: 'a::len word)"
  shows "align_up x a = x"
proof -
  have "x AND mask k = 0"
    using assms(3) by (simp add: word_eq_unat unat_and_mask)
  then have "x + mask k = x OR mask k"
    by (rule disjunctive_add_eq_or)
  then have "align_up x a = (x OR mask k) AND NOT (mask k)"
    using assms(1) by (simp add: align_up_def pow2_minus_1)
  also have "\<dots> = x"
  proof (rule bit_word_eqI)
    fix n assume "n < LENGTH('a)"
    from \<open>x AND mask k = 0\<close> have "\<not> bit (x AND mask k) n" by simp
    then show "bit ((x OR mask k) AND NOT (mask k)) n = bit x n"
      using \<open>n < LENGTH('a)\<close> by (auto simp: bit_and_iff bit_or_iff bit_not_iff)
  qed
  finally show ?thesis .
qed

end
