(* ===== verification/BootstrapArena.thy ===== *)
theory BootstrapArena
  imports YchPrelude
begin

text \<open>
  The bootstrap arena of \<^verbatim>\<open>Kernel/Source/Memory/BootstrapArena.c\<close>: a bump allocator over
  one range of kernel memory, used before the physical memory manager runs. The locale
  \<open>bump_arena\<close> states what its clients (memory map, page bitmaps, direct map) rely on; it is
  interpreted on the model of the code.
\<close>

definition KR_BOOTSTRAP_ARENA_ALIGNMENT :: SIZE where
  "KR_BOOTSTRAP_ARENA_ALIGNMENT = 16"

text \<open>The three pointers \<^verbatim>\<open>g_pBootstrapArenaBase/Ptr/End\<close>.\<close>

record arena =
  ArenaBase :: UINTPTR
  ArenaPtr :: UINTPTR
  ArenaEnd :: UINTPTR

definition KrInitBootstrapArena :: "arena \<Rightarrow> UINTPTR \<Rightarrow> SIZE \<Rightarrow> bool \<times> arena" where
  "KrInitBootstrapArena a pBase szArena =
     (if szArena = 0 \<or> (ArenaBase a \<noteq> 0 \<or> ArenaPtr a \<noteq> 0 \<or> ArenaEnd a \<noteq> 0) then (False, a)
      else (True, a\<lparr>ArenaBase := pBase, ArenaPtr := pBase, ArenaEnd := pBase + szArena\<rparr>))"

definition KrBootstrapArenaAlign :: "arena \<Rightarrow> UINT \<Rightarrow> bool \<times> arena" where
  "KrBootstrapArenaAlign a Alignment =
     (let pAligned = (ArenaPtr a + ucast Alignment - 1) AND NOT (ucast Alignment - 1)
      in if pAligned > ArenaEnd a then (False, a)
         else (True, a\<lparr>ArenaPtr := pAligned\<rparr>))"

definition KrBootstrapArenaAcquire :: "arena \<Rightarrow> SIZE \<Rightarrow> UINTPTR \<times> arena" where
  "KrBootstrapArenaAcquire a N =
     (let N' = (N + KR_BOOTSTRAP_ARENA_ALIGNMENT - 1) AND NOT (KR_BOOTSTRAP_ARENA_ALIGNMENT - 1)
      in if N' = 0 \<or> ArenaPtr a + N' > ArenaEnd a then (0, a)
         else (ArenaPtr a, a\<lparr>ArenaPtr := ArenaPtr a + N'\<rparr>))"

definition KrBootstrapArenaRelease :: "arena \<Rightarrow> UINTPTR \<Rightarrow> arena" where
  "KrBootstrapArenaRelease a pPtr = a"

definition KrBootstrapArenaGetSpaceLeft :: "arena \<Rightarrow> SIZE" where
  "KrBootstrapArenaGetSpaceLeft a = (if ArenaPtr a \<noteq> 0 then ArenaEnd a - ArenaPtr a else 0)"

definition KrBootstrapArenaGetBase :: "arena \<Rightarrow> UINTPTR" where
  "KrBootstrapArenaGetBase a = ArenaBase a"

definition KrBootstrapArenaGetPtr :: "arena \<Rightarrow> UINTPTR" where
  "KrBootstrapArenaGetPtr a = ArenaPtr a"

definition KrBootstrapArenaGetEnd :: "arena \<Rightarrow> UINTPTR" where
  "KrBootstrapArenaGetEnd a = ArenaEnd a"

section \<open>Invariant and behaviour\<close>

text \<open>The cursor stays inside the arena and 16-byte aligned; the base is not null.\<close>

definition arena_ok :: "arena \<Rightarrow> bool" where
  "arena_ok a \<longleftrightarrow> 0 < ArenaBase a \<and> ArenaBase a \<le> ArenaPtr a \<and> ArenaPtr a \<le> ArenaEnd a \<and>
     16 dvd unat (ArenaPtr a)"

text \<open>A request the cursor arithmetic cannot wrap on.\<close>

definition arena_fits :: "arena \<Rightarrow> SIZE \<Rightarrow> bool" where
  "arena_fits a N \<longleftrightarrow> unat (ArenaPtr a) + unat N + 15 < 2 ^ 64"

lemma arena_round: "(N + KR_BOOTSTRAP_ARENA_ALIGNMENT - 1) AND NOT (KR_BOOTSTRAP_ARENA_ALIGNMENT - 1) = align_up N 16"
  by (simp add: align_up_def KR_BOOTSTRAP_ARENA_ALIGNMENT_def add.commute)

lemma arena_acquire_ok:
  assumes "arena_ok a" "arena_fits a N" "KrBootstrapArenaAcquire a N = (p, a')" "p \<noteq> 0"
  shows "arena_ok a'" "p = ArenaPtr a" "unat p + unat N \<le> unat (ArenaPtr a')"
    "ArenaBase a' = ArenaBase a" "ArenaEnd a' = ArenaEnd a"
proof -
  let ?N = "align_up N 16"
  have b: "unat N \<le> unat ?N" "unat ?N < unat N + 16" "16 dvd unat ?N"
    using align_up_bounds [of "16 :: SIZE" 4 N] assms(2) by (auto simp: arena_fits_def)
  then have s: "unat (ArenaPtr a + ?N) = unat (ArenaPtr a) + unat ?N"
    using assms(2) by (intro unat_plus_le) (simp add: arena_fits_def)
  have r: "ArenaPtr a + ?N \<le> ArenaEnd a" "p = ArenaPtr a" "a' = a\<lparr>ArenaPtr := ArenaPtr a + ?N\<rparr>"
    using assms(3,4) by (auto simp: KrBootstrapArenaAcquire_def arena_round Let_def not_less split: if_splits)
  then show "arena_ok a'" "p = ArenaPtr a" "unat p + unat N \<le> unat (ArenaPtr a')"
    "ArenaBase a' = ArenaBase a" "ArenaEnd a' = ArenaEnd a"
    using assms(1) b s by (auto simp: arena_ok_def word_le_nat_alt)
qed

lemma arena_acquire_fail:
  "KrBootstrapArenaAcquire a N = (0, a') \<Longrightarrow> arena_ok a \<Longrightarrow> a' = a"
  by (auto simp: KrBootstrapArenaAcquire_def arena_ok_def Let_def split: if_splits)

lemma arena_acquire_some:
  assumes "arena_ok a" "N \<noteq> 0" "unat (ArenaPtr a) + unat N + 15 \<le> unat (ArenaEnd a)"
  shows "\<exists>a'. KrBootstrapArenaAcquire a N = (ArenaPtr a, a') \<and> ArenaPtr a \<noteq> 0 \<and> arena_ok a' \<and> arena_fits a N \<and>
    ArenaBase a' = ArenaBase a \<and> ArenaEnd a' = ArenaEnd a \<and>
    unat (ArenaPtr a) + unat N \<le> unat (ArenaPtr a') \<and> unat (ArenaPtr a') \<le> unat (ArenaPtr a) + unat N + 15"
proof -
  let ?N = "align_up N 16"
  have fit: "arena_fits a N"
    using assms(3) unat_qword_lt [of "ArenaEnd a"] by (simp add: arena_fits_def)
  have b: "unat N \<le> unat ?N" "unat ?N < unat N + 16"
    using align_up_bounds [of "16 :: SIZE" 4 N] fit by (auto simp: arena_fits_def)
  then have s: "unat (ArenaPtr a + ?N) = unat (ArenaPtr a) + unat ?N"
    using fit by (intro unat_plus_le) (simp add: arena_fits_def)
  have n0: "?N \<noteq> 0" and p0: "ArenaPtr a \<noteq> 0"
    using b(1) assms(1,2) by (auto simp: arena_ok_def word_le_nat_alt unat_eq_0 word_gt_0)
  have "\<not> ArenaPtr a + ?N > ArenaEnd a" using assms(3) b s by (simp add: word_less_nat_alt)
  then have eq: "KrBootstrapArenaAcquire a N = (ArenaPtr a, a\<lparr>ArenaPtr := ArenaPtr a + ?N\<rparr>)"
    using n0 by (simp add: KrBootstrapArenaAcquire_def arena_round Let_def)
  show ?thesis using eq arena_acquire_ok(1) [OF assms(1) fit eq p0] p0 fit b s by simp
qed

lemma arena_align_id: "arena_ok a \<Longrightarrow> KrBootstrapArenaAlign a 16 = (True, a)"
proof -
  assume ok: "arena_ok a"
  have ucast_16: "(ucast (16 :: UINT) :: UINTPTR) = 16" by simp
  have "(ArenaPtr a + ucast (16 :: UINT) - 1) AND NOT (ucast (16 :: UINT) - 1 :: UINTPTR) = align_up (ArenaPtr a) 16"
    by (simp only: align_up_def add_diff_eq ucast_16)
  also have "\<dots> = ArenaPtr a"
    using align_up_id [of "16 :: UINTPTR" 4 "ArenaPtr a"] ok by (simp add: arena_ok_def)
  finally have e: "(ArenaPtr a + ucast (16 :: UINT) - 1) AND NOT (ucast (16 :: UINT) - 1 :: UINTPTR) = ArenaPtr a" .
  have "\<not> ArenaPtr a > ArenaEnd a" using ok by (simp add: arena_ok_def not_less)
  then show ?thesis by (simp only: KrBootstrapArenaAlign_def Let_def e if_False) (cases a, simp)
qed

section \<open>The interface the clients use\<close>

locale bump_arena =
  fixes acquire :: "'a \<Rightarrow> SIZE \<Rightarrow> UINTPTR \<times> 'a"
    and cursor :: "'a \<Rightarrow> nat"
    and limit :: "'a \<Rightarrow> nat"
    and fits :: "'a \<Rightarrow> SIZE \<Rightarrow> bool"
    and ok :: "'a \<Rightarrow> bool"
  assumes acquire_ok: "ok a \<Longrightarrow> fits a N \<Longrightarrow> acquire a N = (p, a') \<Longrightarrow> p \<noteq> 0 \<Longrightarrow> ok a'"
    and acquire_block: "ok a \<Longrightarrow> fits a N \<Longrightarrow> acquire a N = (p, a') \<Longrightarrow> p \<noteq> 0 \<Longrightarrow>
      cursor a \<le> unat p \<and> unat p + unat N \<le> cursor a'"
    and acquire_limit: "ok a \<Longrightarrow> fits a N \<Longrightarrow> acquire a N = (p, a') \<Longrightarrow> p \<noteq> 0 \<Longrightarrow>
      limit a' = limit a \<and> cursor a' \<le> limit a"
    and acquire_null: "ok a \<Longrightarrow> acquire a N = (0, a') \<Longrightarrow> a' = a"
begin

text \<open>Two blocks acquired one after the other do not overlap and lie inside the arena.\<close>

lemma two_blocks_disjoint:
  assumes "ok a" "fits a N" "acquire a N = (p, a')" "p \<noteq> 0"
    and "fits a' M" "acquire a' M = (q, a'')" "q \<noteq> 0"
  shows "unat p + unat N \<le> unat q" "unat q + unat M \<le> limit a"
proof -
  have "ok a'" using acquire_ok [OF assms(1-4)] .
  then have q: "cursor a' \<le> unat q \<and> unat q + unat M \<le> cursor a''" and l: "limit a'' = limit a' \<and> cursor a'' \<le> limit a'"
    using acquire_block acquire_limit assms(5-7) by blast+
  have "unat p + unat N \<le> cursor a'" "limit a' = limit a"
    using acquire_block [OF assms(1-4)] acquire_limit [OF assms(1-4)] by auto
  with q l show "unat p + unat N \<le> unat q" "unat q + unat M \<le> limit a" by auto
qed

end

interpretation barena: bump_arena KrBootstrapArenaAcquire "\<lambda>a. unat (ArenaPtr a)" "\<lambda>a. unat (ArenaEnd a)"
  arena_fits arena_ok
proof
  fix a a' :: arena and N :: SIZE and p :: UINTPTR
  assume h: "arena_ok a" "arena_fits a N" "KrBootstrapArenaAcquire a N = (p, a')" "p \<noteq> 0"
  note f = arena_acquire_ok [OF h]
  show "arena_ok a'" by (rule f)
  show "unat (ArenaPtr a) \<le> unat p \<and> unat p + unat N \<le> unat (ArenaPtr a')" using f by simp
  show "unat (ArenaEnd a') = unat (ArenaEnd a) \<and> unat (ArenaPtr a') \<le> unat (ArenaEnd a)"
    using f by (simp add: arena_ok_def word_le_nat_alt)
next
  fix a a' :: arena and N :: SIZE
  assume "arena_ok a" "KrBootstrapArenaAcquire a N = (0, a')"
  then show "a' = a" by (rule arena_acquire_fail [rotated])
qed

end
