(* ===== verification/MemoryMap.thy ===== *)
theory MemoryMap
  imports BootstrapArena "HOL-Library.Multiset"
begin

text \<open>
  The firmware memory map: the descriptors of
  \<^verbatim>\<open>BootContract/Include/BootContract/Structures.h\<close>, the region types that
  \<^verbatim>\<open>Kernel/Source/Memory/Physmemmgmt.c\<close> classifies, and
  \<^verbatim>\<open>Kernel/Source/Init/KrInitMemmap.c\<close>, which copies the map, sorts it with quicksort and
  builds the canonical map of merged usable regions.
\<close>

section \<open>Descriptors\<close>

record KrMemoryDescriptor =
  PhysicalBase :: QWORD
  PageCount :: QWORD
  Attributes :: QWORD
  Type :: DWORD
  Pad :: DWORD

record KrMemoryMapInfo =
  PhysicalAddress :: QWORD
  MemoryMapSize :: QWORD
  EntryCount :: QWORD
  PageSize :: DWORD

definition KR_MEMORY_TYPE_RESERVED :: DWORD where "KR_MEMORY_TYPE_RESERVED = 0"
definition KR_MEMORY_TYPE_LOADER_CODE :: DWORD where "KR_MEMORY_TYPE_LOADER_CODE = 1"
definition KR_MEMORY_TYPE_LOADER_DATA :: DWORD where "KR_MEMORY_TYPE_LOADER_DATA = 2"
definition KR_MEMORY_TYPE_BOOT_SERVICES_CODE :: DWORD where "KR_MEMORY_TYPE_BOOT_SERVICES_CODE = 3"
definition KR_MEMORY_TYPE_BOOT_SERVICES_DATA :: DWORD where "KR_MEMORY_TYPE_BOOT_SERVICES_DATA = 4"
definition KR_MEMORY_TYPE_RUNTIME_SERVICES_CODE :: DWORD where "KR_MEMORY_TYPE_RUNTIME_SERVICES_CODE = 5"
definition KR_MEMORY_TYPE_RUNTIME_SERVICES_DATA :: DWORD where "KR_MEMORY_TYPE_RUNTIME_SERVICES_DATA = 6"
definition KR_MEMORY_TYPE_CONVENTIONAL_MEMORY :: DWORD where "KR_MEMORY_TYPE_CONVENTIONAL_MEMORY = 7"
definition KR_MEMORY_TYPE_UNUSABLE_MEMORY :: DWORD where "KR_MEMORY_TYPE_UNUSABLE_MEMORY = 8"
definition KR_MEMORY_TYPE_ACPI_RECLAIM_MEMORY :: DWORD where "KR_MEMORY_TYPE_ACPI_RECLAIM_MEMORY = 9"
definition KR_MEMORY_TYPE_ACPI_MEMORY_NVS :: DWORD where "KR_MEMORY_TYPE_ACPI_MEMORY_NVS = 10"
definition KR_MEMORY_TYPE_MMIO :: DWORD where "KR_MEMORY_TYPE_MMIO = 11"
definition KR_MEMORY_TYPE_MMIO_PORT_SPACE :: DWORD where "KR_MEMORY_TYPE_MMIO_PORT_SPACE = 12"
definition KR_MEMORY_TYPE_PAL_CODE :: DWORD where "KR_MEMORY_TYPE_PAL_CODE = 13"
definition KR_MEMORY_TYPE_PERSISTENT_MEMORY :: DWORD where "KR_MEMORY_TYPE_PERSISTENT_MEMORY = 14"

lemmas region_type_defs =
  KR_MEMORY_TYPE_RESERVED_def KR_MEMORY_TYPE_LOADER_CODE_def KR_MEMORY_TYPE_LOADER_DATA_def
  KR_MEMORY_TYPE_BOOT_SERVICES_CODE_def KR_MEMORY_TYPE_BOOT_SERVICES_DATA_def
  KR_MEMORY_TYPE_RUNTIME_SERVICES_CODE_def KR_MEMORY_TYPE_RUNTIME_SERVICES_DATA_def
  KR_MEMORY_TYPE_CONVENTIONAL_MEMORY_def KR_MEMORY_TYPE_UNUSABLE_MEMORY_def
  KR_MEMORY_TYPE_ACPI_RECLAIM_MEMORY_def KR_MEMORY_TYPE_ACPI_MEMORY_NVS_def
  KR_MEMORY_TYPE_MMIO_def KR_MEMORY_TYPE_MMIO_PORT_SPACE_def KR_MEMORY_TYPE_PAL_CODE_def
  KR_MEMORY_TYPE_PERSISTENT_MEMORY_def

definition KrIsUsableMemoryRegionType :: "DWORD \<Rightarrow> bool" where
  "KrIsUsableMemoryRegionType dwType \<longleftrightarrow>
     dwType = KR_MEMORY_TYPE_LOADER_CODE \<or> dwType = KR_MEMORY_TYPE_LOADER_DATA \<or>
     dwType = KR_MEMORY_TYPE_BOOT_SERVICES_CODE \<or> dwType = KR_MEMORY_TYPE_BOOT_SERVICES_DATA \<or>
     dwType = KR_MEMORY_TYPE_CONVENTIONAL_MEMORY \<or> dwType = KR_MEMORY_TYPE_ACPI_RECLAIM_MEMORY"

definition KrMemoryRegionTypeToString :: "DWORD \<Rightarrow> string" where
  "KrMemoryRegionTypeToString dwType =
    (if dwType = KR_MEMORY_TYPE_RESERVED then ''KR_MEMORY_TYPE_RESERVED''
     else if dwType = KR_MEMORY_TYPE_LOADER_CODE then ''KR_MEMORY_TYPE_LOADER_CODE''
     else if dwType = KR_MEMORY_TYPE_LOADER_DATA then ''KR_MEMORY_TYPE_LOADER_DATA''
     else if dwType = KR_MEMORY_TYPE_BOOT_SERVICES_CODE then ''KR_MEMORY_TYPE_BOOT_SERVICES_CODE''
     else if dwType = KR_MEMORY_TYPE_BOOT_SERVICES_DATA then ''KR_MEMORY_TYPE_BOOT_SERVICES_DATA''
     else if dwType = KR_MEMORY_TYPE_RUNTIME_SERVICES_CODE then ''KR_MEMORY_TYPE_RUNTIME_SERVICES_CODE''
     else if dwType = KR_MEMORY_TYPE_RUNTIME_SERVICES_DATA then ''KR_MEMORY_TYPE_RUNTIME_SERVICES_DATA''
     else if dwType = KR_MEMORY_TYPE_CONVENTIONAL_MEMORY then ''KR_MEMORY_TYPE_CONVENTIONAL_MEMORY''
     else if dwType = KR_MEMORY_TYPE_UNUSABLE_MEMORY then ''KR_MEMORY_TYPE_UNUSABLE_MEMORY''
     else if dwType = KR_MEMORY_TYPE_ACPI_RECLAIM_MEMORY then ''KR_MEMORY_TYPE_ACPI_RECLAIM_MEMORY''
     else if dwType = KR_MEMORY_TYPE_ACPI_MEMORY_NVS then ''KR_MEMORY_TYPE_ACPI_MEMORY_NVS''
     else if dwType = KR_MEMORY_TYPE_MMIO then ''KR_MEMORY_TYPE_MMIO''
     else if dwType = KR_MEMORY_TYPE_MMIO_PORT_SPACE then ''KR_MEMORY_TYPE_MMIO_PORT_SPACE''
     else if dwType = KR_MEMORY_TYPE_PAL_CODE then ''KR_MEMORY_TYPE_PAL_CODE''
     else if dwType = KR_MEMORY_TYPE_PERSISTENT_MEMORY then ''KR_MEMORY_TYPE_PERSISTENT_MEMORY''
     else ''(NULLPTR)'')"

section \<open>Sorting\<close>

text \<open>
  The array of descriptors is a list; an index outside it is the fault \<open>OutOfBounds\<close>. The
  indices are the 32-bit \<^verbatim>\<open>UINT\<close>s of the code, so \<open>pi - 1\<close> wraps at 0. \<open>i\<close> is a
  signed \<^verbatim>\<open>INT\<close> there and starts at \<open>Start - 1\<close>.
\<close>

definition aget :: "'a list \<Rightarrow> int \<Rightarrow> 'a kres" where
  "aget xs i = (if 0 \<le> i \<and> i < int (length xs) then Inr (xs ! nat i) else Inl OutOfBounds)"

definition KrSwapMemdescs :: "'a list \<Rightarrow> int \<Rightarrow> int \<Rightarrow> 'a list kres" where
  "KrSwapMemdescs xs iL iR =
     kbind (aget xs iL) (\<lambda>l. kbind (aget xs iR) (\<lambda>r. Inr (xs[nat iL := r, nat iR := l])))"

function PartLoop :: "KrMemoryDescriptor list \<Rightarrow> UINTPTR \<Rightarrow> UINT \<Rightarrow> 32 word \<Rightarrow> UINT \<Rightarrow>
    (32 word \<times> KrMemoryDescriptor list) kres" where
  "PartLoop xs Pivot Limit i j =
     (if j < Limit then
        kbind (aget xs (uint j)) (\<lambda>d.
          if PhysicalBase d < Pivot then
            kbind (KrSwapMemdescs xs (sint (i + 1)) (uint j)) (\<lambda>ys. PartLoop ys Pivot Limit (i + 1) (j + 1))
          else PartLoop xs Pivot Limit i (j + 1))
      else Inr (i, xs))"
  by pat_completeness auto
termination
proof (relation "measure (\<lambda>(xs, Pivot, Limit, i, j). unat Limit - unat j)")
  show "wf (measure (\<lambda>(xs, Pivot, Limit, i, j). unat Limit - unat j))" by simp
next
  fix xs :: "KrMemoryDescriptor list" and P i and Limit j :: UINT
  assume "j < Limit"
  then have "unat (j + 1) = unat j + 1" "unat j < unat Limit"
    by (simp_all add: unat_Suc_less word_less_nat_alt)
  then show "((ys, P, Limit, i', j + 1), xs, P, Limit, i, j) \<in> measure (\<lambda>(xs, Pivot, Limit, i, j). unat Limit - unat j)"
    for ys i' by simp
  then show "((xs, P, Limit, i, j + 1), xs, P, Limit, i, j) \<in> measure (\<lambda>(xs, Pivot, Limit, i, j). unat Limit - unat j)"
    by simp
qed

definition KrPartDescarray :: "KrMemoryDescriptor list \<Rightarrow> UINT \<Rightarrow> UINT \<Rightarrow> (UINT \<times> KrMemoryDescriptor list) kres" where
  "KrPartDescarray Array Start Limit =
     kbind (aget Array (uint Limit)) (\<lambda>d.
       kbind (PartLoop Array (PhysicalBase d) Limit (Start - 1) Start) (\<lambda>(i, ys).
         kbind (KrSwapMemdescs ys (sint (i + 1)) (uint Limit)) (\<lambda>zs. Inr (i + 1, zs))))"

text \<open>The \<^verbatim>\<open>while\<close> loop continues with the larger side; both sides take fuel.\<close>

fun KrQuicksortMemmap :: "nat \<Rightarrow> KrMemoryDescriptor list \<Rightarrow> UINT \<Rightarrow> UINT \<Rightarrow> KrMemoryDescriptor list kres" where
  "KrQuicksortMemmap 0 Map Start Limit = Inl OutOfFuel"
| "KrQuicksortMemmap (Suc f) Map Start Limit =
     (if Start < Limit then
        kbind (KrPartDescarray Map Start Limit) (\<lambda>(pi, ys).
          if pi - Start < Limit - pi
          then kbind (KrQuicksortMemmap f ys Start (pi - 1)) (\<lambda>zs. KrQuicksortMemmap f zs (pi + 1) Limit)
          else kbind (KrQuicksortMemmap f ys (pi + 1) Limit) (\<lambda>zs. KrQuicksortMemmap f zs Start (pi - 1)))
      else Inr Map)"

section \<open>The canonical map\<close>

text \<open>
  \<open>PeekAhead\<close> is the inner \<^verbatim>\<open>while\<close> of the canonical pass: it swallows the usable
  descriptors that continue the region and returns the summed page count with the descriptors
  that remain.
\<close>

fun PeekAhead :: "DWORD \<Rightarrow> UINTPTR \<Rightarrow> ULONG \<Rightarrow> KrMemoryDescriptor list \<Rightarrow> ULONG \<times> KrMemoryDescriptor list" where
  "PeekAhead PgSize PhysAddrRegionBase CanonicalPageCount [] = (CanonicalPageCount, [])"
| "PeekAhead PgSize PhysAddrRegionBase CanonicalPageCount (d # ds) =
     (if \<not> KrIsUsableMemoryRegionType (Type d) \<or>
         PhysAddrRegionBase + CanonicalPageCount * ucast PgSize \<noteq> PhysicalBase d
      then (CanonicalPageCount, d # ds)
      else PeekAhead PgSize PhysAddrRegionBase (CanonicalPageCount + PageCount d) ds)"

lemma PeekAhead_length: "PeekAhead ps b c ds = (c', rest) \<Longrightarrow> length rest \<le> length ds"
  by (induction ps b c ds rule: PeekAhead.induct) (auto split: if_splits)

definition canonical_desc :: "UINTPTR \<Rightarrow> ULONG \<Rightarrow> KrMemoryDescriptor" where
  "canonical_desc b c = \<lparr>PhysicalBase = b, PageCount = c, Attributes = 0,
     Type = KR_MEMORY_TYPE_CONVENTIONAL_MEMORY, Pad = 0\<rparr>"

function CanonicalPass :: "DWORD \<Rightarrow> KrMemoryDescriptor list \<Rightarrow> KrMemoryDescriptor list" where
  "CanonicalPass PgSize [] = []"
| "CanonicalPass PgSize (d # ds) =
     (if \<not> KrIsUsableMemoryRegionType (Type d) then CanonicalPass PgSize ds
      else let (c, rest) = PeekAhead PgSize (PhysicalBase d) (PageCount d) ds
           in canonical_desc (PhysicalBase d) c # CanonicalPass PgSize rest)"
  by pat_completeness auto
termination
  by (relation "measure (\<lambda>(p, ds). length ds)") (auto simp: less_Suc_eq_le dest: PeekAhead_length [OF sym])

record memmap_state =
  MemoryMapInfo :: KrMemoryMapInfo
  MemoryMapPtr :: UINTPTR
  MemoryMapArr :: "KrMemoryDescriptor list"
  CanonicalMapPtr :: UINTPTR
  CanonicalMapArr :: "KrMemoryDescriptor list"

text \<open>
  \<open>fw\<close> is the array of \<open>EntryCount\<close> descriptors at the physical address that the boot loader
  passes. Copying into a null block, or writing entries of the canonical map there, is a fault.
\<close>

definition KrInitMemmap :: "arena \<Rightarrow> KrMemoryMapInfo \<Rightarrow> KrMemoryDescriptor list \<Rightarrow> (arena \<times> memmap_state) kres" where
  "KrInitMemmap a info fw =
     (let (_, a1) = KrBootstrapArenaAlign a 16;
          (p, a2) = KrBootstrapArenaAcquire a1 (MemoryMapSize info)
      in if p = 0 then Inl NullDeref
         else kbind (KrQuicksortMemmap (length fw + 1) fw 0 (ucast (EntryCount info - 1))) (\<lambda>sorted_map.
           let (_, a3) = KrBootstrapArenaAlign a2 16;
               (q, a4) = KrBootstrapArenaAcquire a3 (MemoryMapSize info);
               canon = CanonicalPass (PageSize info) sorted_map
           in if q = 0 \<and> canon \<noteq> [] then Inl NullDeref
              else Inr (a4, \<lparr>MemoryMapInfo = info, MemoryMapPtr = p, MemoryMapArr = sorted_map,
                             CanonicalMapPtr = q, CanonicalMapArr = canon\<rparr>)))"

section \<open>Partition and quicksort\<close>

lemma aget_nat [simp]: "k < length xs \<Longrightarrow> aget xs (int k) = Inr (xs ! k)"
  by (simp add: aget_def)

lemma swap_nat [simp]: "\<lbrakk>a < length xs; b < length xs\<rbrakk> \<Longrightarrow>
   KrSwapMemdescs xs (int a) (int b) = Inr (xs[a := xs ! b, b := xs ! a])"
  by (simp add: KrSwapMemdescs_def)

definition key :: "KrMemoryDescriptor list \<Rightarrow> nat \<Rightarrow> QWORD" where
  "key xs k = PhysicalBase (xs ! k)"

definition part_at :: "KrMemoryDescriptor list \<Rightarrow> QWORD \<Rightarrow> nat \<Rightarrow> nat \<Rightarrow> nat \<Rightarrow> bool" where
  "part_at xs P s a b \<longleftrightarrow> (\<forall>k. s \<le> k \<and> k < a \<longrightarrow> key xs k < P) \<and> (\<forall>k. a \<le> k \<and> k < b \<longrightarrow> P \<le> key xs k)"

lemma key_swap: "\<lbrakk>a < length xs; b < length xs\<rbrakk> \<Longrightarrow> key (xs[a := xs ! b, b := xs ! a]) k = (if k = a then key xs b else if k = b then key xs a else key xs k)"
  by (auto simp: key_def nth_list_update)

lemma part_swap: "\<lbrakk>part_at xs P s a b; key xs b < P; s \<le> a; a \<le> b; b < length xs\<rbrakk> \<Longrightarrow>
   part_at (xs[a := xs ! b, b := xs ! a]) P s (Suc a) (Suc b)"
  by (auto simp: part_at_def key_swap less_Suc_eq)

lemma part_keep: "\<lbrakk>part_at xs P s a b; \<not> key xs b < P; s \<le> a; a \<le> b\<rbrakk> \<Longrightarrow> part_at xs P s a (Suc b)"
  by (auto simp: part_at_def less_Suc_eq)

definition same_outside :: "'a list \<Rightarrow> 'a list \<Rightarrow> nat \<Rightarrow> nat \<Rightarrow> bool" where
  "same_outside xs ys s l \<longleftrightarrow> (\<forall>k. k < s \<or> l \<le> k \<longrightarrow> ys ! k = xs ! k)"

declare PartLoop.simps [simp del]

lemma PartLoop_ok:
  assumes "s \<le> a" "a \<le> b" "b \<le> unat L" "unat L < length xs" "length xs \<le> 2 ^ 31" "part_at xs P s a b"
  shows "\<exists>a' ys. PartLoop xs P L (of_nat a - 1) (of_nat b) = Inr (of_nat a' - 1, ys) \<and>
    a \<le> a' \<and> a' \<le> unat L \<and> mset ys = mset xs \<and> length ys = length xs \<and> same_outside xs ys s (unat L) \<and>
    part_at ys P s a' (unat L) \<and>
    ((s < a \<or> (b = s \<and> s < unat L \<and> key xs s < P)) \<longrightarrow> ys ! s = xs ! s \<and> s < a')"
  using assms
proof (induction "unat L - b" arbitrary: a b xs rule: less_induct)
  case less
  have b32: "b < 2 ^ 32" and a31: "a < 2 ^ 31" using less.prems by auto
  show ?case
  proof (cases "b < unat L")
    case False
    then have "b = unat L" using less.prems by simp
    then show ?thesis
      using less.prems by (intro exI [of _ a] exI [of _ xs]) (subst PartLoop.simps, auto simp: same_outside_def)
  next
    case True
    have ub: "uint (of_nat b :: UINT) = int b" using b32 by (simp add: uint_of_nat_small)
    have lt: "(of_nat b :: UINT) < L" using True b32 by (simp add: word_of_nat_less)
    have Sb: "(of_nat b :: UINT) + 1 = of_nat (Suc b)" by simp
    show ?thesis
    proof (cases "key xs b < P")
      case t: True
      let ?ys = "xs[a := xs ! b, b := xs ! a]"
      have sa: "sint (of_nat a :: UINT) = int a" using a31 by (simp add: sint_of_nat_small)
      have eq: "PartLoop xs P L (of_nat a - 1) (of_nat b) = PartLoop ?ys P L (of_nat (Suc a) - 1) (of_nat (Suc b))"
        using lt ub sa t True less.prems by (subst PartLoop.simps) (simp add: key_def add.commute)
      have "\<exists>a' ys. PartLoop ?ys P L (of_nat (Suc a) - 1) (of_nat (Suc b)) = Inr (of_nat a' - 1, ys) \<and>
        Suc a \<le> a' \<and> a' \<le> unat L \<and> mset ys = mset ?ys \<and> length ys = length ?ys \<and> same_outside ?ys ys s (unat L) \<and>
        part_at ys P s a' (unat L) \<and>
        ((s < Suc a \<or> (Suc b = s \<and> s < unat L \<and> key ?ys s < P)) \<longrightarrow> ys ! s = ?ys ! s \<and> s < a')"
        using less.prems True t by (intro less.hyps) (auto intro!: part_swap)
      then obtain a' ys where r: "PartLoop ?ys P L (of_nat (Suc a) - 1) (of_nat (Suc b)) = Inr (of_nat a' - 1, ys)"
        "Suc a \<le> a'" "a' \<le> unat L" "mset ys = mset ?ys" "length ys = length ?ys" "same_outside ?ys ys s (unat L)"
        "part_at ys P s a' (unat L)" "ys ! s = ?ys ! s" "s < a'"
        using less.prems(1) by auto
      have "mset ?ys = mset xs" using less.prems True by (intro mset_swap) auto
      moreover have "same_outside xs ys s (unat L)"
        using r(6) True less.prems by (auto simp: same_outside_def nth_list_update)
      moreover have "s < a \<or> b = s \<longrightarrow> ys ! s = xs ! s"
        using r(8) less.prems True by (auto simp: nth_list_update)
      ultimately show ?thesis using r eq by (intro exI [of _ a'] exI [of _ ys]) auto
    next
      case f: False
      have eq: "PartLoop xs P L (of_nat a - 1) (of_nat b) = PartLoop xs P L (of_nat a - 1) (of_nat (Suc b))"
        using lt ub f True less.prems by (subst PartLoop.simps) (simp add: key_def add.commute)
      have "\<exists>a' ys. PartLoop xs P L (of_nat a - 1) (of_nat (Suc b)) = Inr (of_nat a' - 1, ys) \<and>
        a \<le> a' \<and> a' \<le> unat L \<and> mset ys = mset xs \<and> length ys = length xs \<and> same_outside xs ys s (unat L) \<and>
        part_at ys P s a' (unat L) \<and>
        ((s < a \<or> (Suc b = s \<and> s < unat L \<and> key xs s < P)) \<longrightarrow> ys ! s = xs ! s \<and> s < a')"
        using less.prems True f by (intro less.hyps) (auto intro!: part_keep)
      then show ?thesis unfolding eq using f by blast
    qed
  qed
qed

lemma KrPartDescarray_ok:
  assumes "unat S \<le> unat L" "unat L < length xs" "length xs \<le> 2 ^ 31"
  shows "\<exists>p ys. KrPartDescarray xs S L = Inr (p, ys) \<and> unat S \<le> unat p \<and> unat p \<le> unat L \<and>
    mset ys = mset xs \<and> length ys = length xs \<and> same_outside xs ys (unat S) (unat L + 1) \<and>
    (\<forall>k. unat S \<le> k \<and> k < unat p \<longrightarrow> key ys k < key ys (unat p)) \<and>
    (\<forall>k. unat p < k \<and> k \<le> unat L \<longrightarrow> key ys (unat p) \<le> key ys k) \<and>
    (unat S < unat L \<and> key xs (unat S) < key xs (unat L) \<longrightarrow> ys ! unat S = xs ! unat S \<and> unat S < unat p)"
proof -
  let ?s = "unat S" and ?l = "unat L" and ?P = "key xs (unat L)"
  have p0: "part_at xs ?P ?s ?s ?s" by (auto simp: part_at_def)
  obtain a ys where r: "PartLoop xs ?P L (of_nat ?s - 1) (of_nat ?s) = Inr (of_nat a - 1, ys)"
    "?s \<le> a" "a \<le> ?l" "mset ys = mset xs" "length ys = length xs" "same_outside xs ys ?s ?l"
    "part_at ys ?P ?s a ?l" "?s < ?l \<and> key xs ?s < ?P \<longrightarrow> ys ! ?s = xs ! ?s \<and> ?s < a"
    using PartLoop_ok [of ?s ?s ?s L xs ?P, OF order_refl order_refl assms p0] by auto
  have a31: "a < 2 ^ 31" using r(3) assms by simp
  have ua: "unat (of_nat a :: UINT) = a" using a31 by (simp add: unat_of_nat_small)
  have sa: "sint (of_nat a :: UINT) = int a" using a31 by (simp add: sint_of_nat_small)
  have uL: "uint L = int ?l" and Sn: "of_nat ?s = S" by simp_all
  let ?zs = "ys[a := ys ! ?l, ?l := ys ! a]"
  have eq: "KrPartDescarray xs S L = Inr (of_nat a, ?zs)"
    using r(1) [unfolded Sn] r(3,5) assms(2) sa by (simp add: KrPartDescarray_def key_def uL del: of_nat_unat)
  have kl: "key ys ?l = ?P" using r(6) by (simp add: same_outside_def key_def)
  have kz: "key ?zs k = (if k = a then ?P else if k = ?l then key ys a else key ys k)" for k
    using key_swap [of a ys ?l k] r(3,5) assms(2) kl by simp
  have "mset ?zs = mset xs" using r(3,4,5) assms(2) by (subst mset_swap) auto
  moreover have "same_outside xs ?zs ?s (?l + 1)"
    using r(2,3,5,6) by (auto simp: same_outside_def nth_list_update)
  moreover have "\<forall>k. ?s \<le> k \<and> k < a \<longrightarrow> key ?zs k < key ?zs a"
    using r(3,7) by (auto simp: kz part_at_def)
  moreover have "\<forall>k. a < k \<and> k \<le> ?l \<longrightarrow> key ?zs a \<le> key ?zs k"
    using r(7) by (auto simp: kz part_at_def)
  moreover have "?s < ?l \<and> key xs ?s < ?P \<longrightarrow> ?zs ! ?s = xs ! ?s \<and> ?s < a"
    using r(8) r(3) by (auto simp: nth_list_update)
  ultimately show ?thesis
    using eq ua r(2,3,5) by (intro exI [of _ "of_nat a"] exI [of _ ?zs]) auto
qed


lemma same_outside_trans:
  "\<lbrakk>same_outside xs ys s l; same_outside ys zs s' l'; s \<le> s'; l' \<le> l\<rbrakk> \<Longrightarrow> same_outside xs zs s l"
  by (auto simp: same_outside_def)

lemma range_perm:
  assumes "mset ys = mset xs" "same_outside xs ys s l" "s \<le> l" "l \<le> length xs" "s \<le> k" "k < l"
  shows "\<exists>k'. s \<le> k' \<and> k' < l \<and> ys ! k = xs ! k'"
proof -
  have len: "length ys = length xs" using assms(1) by (rule mset_eq_length)
  have split: "zs = take s zs @ take (l - s) (drop s zs) @ drop l zs" for zs :: "'a list"
    using assms(3) by (metis append_take_drop_id drop_drop le_add_diff_inverse2)
  have t: "take s ys = take s xs" and d: "drop l ys = drop l xs"
    using assms(2,3,4) len by (auto simp: same_outside_def intro!: nth_equalityI)
  have "mset (take s zs) + (mset (take (l - s) (drop s zs)) + mset (drop l zs)) = mset zs" for zs :: "'a list"
    using split [of zs] by (metis mset_append)
  from this [of xs] this [of ys] assms(1) t d
  have "mset (take (l - s) (drop s ys)) = mset (take (l - s) (drop s xs))"
    by (metis add_left_cancel add_right_cancel)
  then have st: "set (take (l - s) (drop s ys)) = set (take (l - s) (drop s xs))"
    by (rule mset_eq_setD)
  have "take (l - s) (drop s ys) ! (k - s) \<in> set (take (l - s) (drop s ys))"
    using assms len by (intro nth_mem) auto
  then have "ys ! k \<in> set (take (l - s) (drop s xs))"
    using assms len by (simp add: st)
  then obtain m where "m < l - s" "ys ! k = xs ! (s + m)"
    using assms(4) by (auto simp: in_set_conv_nth)
  then show ?thesis by (intro exI [of _ "s + m"]) auto
qed

definition sorted_on :: "KrMemoryDescriptor list \<Rightarrow> nat \<Rightarrow> nat \<Rightarrow> bool" where
  "sorted_on xs s l \<longleftrightarrow> (\<forall>i j. s \<le> i \<and> i < j \<and> j < l \<longrightarrow> key xs i \<le> key xs j)"

definition min_first :: "KrMemoryDescriptor list \<Rightarrow> bool" where
  "min_first xs \<longleftrightarrow> xs \<noteq> [] \<and> (\<forall>d \<in> set (tl xs). PhysicalBase (hd xs) < PhysicalBase d)"

lemma min_first_perm:
  assumes "min_first xs" "mset ys = mset xs" "ys ! 0 = xs ! 0"
  shows "min_first ys"
proof -
  have ne: "xs \<noteq> []" "ys \<noteq> []" using assms by (auto simp: min_first_def)
  then have "hd ys = hd xs" using assms(3) by (simp add: hd_conv_nth)
  moreover from this ne assms(2) have "mset (tl ys) = mset (tl xs)"
    by (metis add_mset_add_single add_right_cancel list.exhaust_sel mset.simps(2))
  then have "set (tl ys) = set (tl xs)" by (rule mset_eq_setD)
  ultimately show ?thesis using assms(1) ne by (simp add: min_first_def)
qed

lemma min_first_key: "min_first xs \<Longrightarrow> 0 < k \<Longrightarrow> k < length xs \<Longrightarrow> key xs 0 < key xs k"
  by (cases xs) (auto simp: min_first_def key_def nth_Cons')

lemma sorted_glue:
  assumes p: "s \<le> p" "p < l" "l \<le> length ys" "length zs = length ys"
    and lt: "\<forall>k. s \<le> k \<and> k < p \<longrightarrow> key ys k < key ys p"
    and ge: "\<forall>k. p < k \<and> k < l \<longrightarrow> key ys p \<le> key ys k"
    and left: "\<And>k. s \<le> k \<Longrightarrow> k < p \<Longrightarrow> \<exists>k'. s \<le> k' \<and> k' < p \<and> zs ! k = ys ! k'"
    and right: "\<And>k. p < k \<Longrightarrow> k < l \<Longrightarrow> \<exists>k'. p < k' \<and> k' < l \<and> zs ! k = ys ! k'"
    and mid: "zs ! p = ys ! p"
    and srt: "sorted_on zs s p" "sorted_on zs (Suc p) l"
  shows "sorted_on zs s l"
  unfolding sorted_on_def
proof (intro allI impI)
  fix i j assume ij: "s \<le> i \<and> i < j \<and> j < l"
  have lo: "key zs k < key ys p" if "s \<le> k" "k < p" for k
    using left [OF that] lt by (auto simp: key_def)
  have hi: "key ys p \<le> key zs k" if "p < k" "k < l" for k
    using right [OF that] ge by (auto simp: key_def)
  have m: "key zs p = key ys p" using mid by (simp add: key_def)
  consider "j < p" | "p < i" | "i < p" "p < j" | "i = p" | "j = p" by linarith
  then show "key zs i \<le> key zs j"
  proof cases
    case 1 then show ?thesis using srt(1) ij by (auto simp: sorted_on_def)
  next
    case 2 then show ?thesis using srt(2) ij by (auto simp: sorted_on_def)
  next
    case 3 then show ?thesis using lo [of i] hi [of j] ij by auto
  next
    case 4 then show ?thesis using hi [of j] m ij by auto
  next
    case 5 then show ?thesis using lo [of i] m ij by auto
  qed
qed


lemma sorted_on_outside:
  "\<lbrakk>sorted_on zs s1 l1; same_outside zs ws s2 l2; l1 \<le> s2 \<or> l2 \<le> s1\<rbrakk> \<Longrightarrow> sorted_on ws s1 l1"
  by (fastforce simp: sorted_on_def same_outside_def key_def)

lemma seq_perm:
  assumes "same_outside ys zs s1 l1" "same_outside zs ws s2 l2" "mset zs = mset ys" "mset ws = mset zs"
    and "l1 \<le> s2 \<or> l2 \<le> s1" "l1 \<le> length ys" "l2 \<le> length ys"
  shows "\<lbrakk>s1 \<le> k; k < l1\<rbrakk> \<Longrightarrow> \<exists>k'. s1 \<le> k' \<and> k' < l1 \<and> ws ! k = ys ! k'"
    and "\<lbrakk>s2 \<le> k; k < l2\<rbrakk> \<Longrightarrow> \<exists>k'. s2 \<le> k' \<and> k' < l2 \<and> ws ! k = ys ! k'"
proof -
  have len: "length zs = length ys" using assms(3) by (rule mset_eq_length)
  show "\<exists>k'. s1 \<le> k' \<and> k' < l1 \<and> ws ! k = ys ! k'" if "s1 \<le> k" "k < l1"
  proof -
    have "ws ! k = zs ! k" using assms(2,5) that by (auto simp: same_outside_def)
    then show ?thesis using range_perm [OF assms(3,1) _ assms(6) that] that by simp
  qed
  show "\<exists>k'. s2 \<le> k' \<and> k' < l2 \<and> ws ! k = ys ! k'" if k2: "s2 \<le> k" "k < l2"
  proof -
    obtain k' where k': "s2 \<le> k'" "k' < l2" "ws ! k = zs ! k'"
      using range_perm [OF assms(4,2) _ _ k2] assms(7) len k2 by auto
    moreover have "zs ! k' = ys ! k'" using assms(1,5) k' by (auto simp: same_outside_def)
    ultimately show ?thesis by auto
  qed
qed

lemma quicksort_ok:
  assumes "length xs \<le> 2 ^ 31" "S < L \<Longrightarrow> unat L < length xs" "unat L + 1 - unat S < f"
    and "unat S = 0 \<Longrightarrow> min_first xs"
  shows "\<exists>ys. KrQuicksortMemmap f xs S L = Inr ys \<and> mset ys = mset xs \<and>
    same_outside xs ys (unat S) (unat L + 1) \<and> sorted_on ys (unat S) (unat L + 1)"
  using assms
proof (induction f arbitrary: xs S L)
  case 0
  then show ?case by simp
next
  case (Suc f)
  show ?case
  proof (cases "S < L")
    case False
    then show ?thesis by (auto simp: same_outside_def sorted_on_def word_less_nat_alt)
  next
    case True
    let ?s = "unat S" and ?l = "unat L"
    have sl: "?s < ?l" "?l < length xs" using True Suc.prems(2) by (auto simp: word_less_nat_alt)
    obtain p ys where r: "KrPartDescarray xs S L = Inr (p, ys)" "?s \<le> unat p" "unat p \<le> ?l"
      "mset ys = mset xs" "length ys = length xs" "same_outside xs ys ?s (?l + 1)"
      and lt: "\<forall>k. ?s \<le> k \<and> k < unat p \<longrightarrow> key ys k < key ys (unat p)"
      and ge: "\<forall>k. unat p < k \<and> k \<le> ?l \<longrightarrow> key ys (unat p) \<le> key ys k"
      and fst: "key xs ?s < key xs ?l \<longrightarrow> ys ! ?s = xs ! ?s \<and> ?s < unat p"
      using KrPartDescarray_ok [of S L xs] Suc.prems(1) sl by auto
    have mf: "min_first ys \<and> 0 < unat p" if "?s = 0"
      using fst min_first_key [OF Suc.prems(4) [OF that], of ?l] min_first_perm [OF Suc.prems(4) [OF that] r(4)] sl that
      by auto
    have p0: "0 < unat p" using mf r(2) by (cases "?s = 0") auto
    then have pm: "unat (p - 1) = unat p - 1"
      using unat_minus_le [of 1 p] by (simp add: word_le_nat_alt)
    have pp: "unat (p + 1) = unat p + 1"
      using r(3) sl Suc.prems(1) by (intro unat_Suc_word) simp
    have lenle: "length ys \<le> 2 ^ 31" using r(5) Suc.prems(1) by simp
    have leftR: "\<exists>zs'. KrQuicksortMemmap f zs S (p - 1) = Inr zs' \<and> mset zs' = mset zs \<and>
        same_outside zs zs' ?s (unat p) \<and> sorted_on zs' ?s (unat p)"
      if "length zs = length ys" "?s = 0 \<Longrightarrow> min_first zs" for zs
    proof -
      have "\<exists>zs'. KrQuicksortMemmap f zs S (p - 1) = Inr zs' \<and> mset zs' = mset zs \<and>
        same_outside zs zs' ?s (unat (p - 1) + 1) \<and> sorted_on zs' ?s (unat (p - 1) + 1)"
        using that lenle pm r(3,5) sl Suc.prems(3) p0 by (intro Suc.IH) auto
      then show ?thesis using pm p0 by simp
    qed
    have rightR: "\<exists>zs'. KrQuicksortMemmap f zs (p + 1) L = Inr zs' \<and> mset zs' = mset zs \<and>
        same_outside zs zs' (unat p + 1) (?l + 1) \<and> sorted_on zs' (unat p + 1) (?l + 1)"
      if "length zs = length ys" for zs
      using Suc.IH [of zs "p + 1" L] that lenle pp r(2,3,5) sl Suc.prems(3) by auto
    have pl: "?s \<le> unat p" "unat p < ?l + 1" "?l + 1 \<le> length ys" using r(2,3,5) sl by auto
    have glue: "sorted_on ws ?s (?l + 1)"
      if "\<And>k. \<lbrakk>?s \<le> k; k < unat p\<rbrakk> \<Longrightarrow> \<exists>k'. ?s \<le> k' \<and> k' < unat p \<and> ws ! k = ys ! k'"
        "\<And>k. \<lbrakk>unat p + 1 \<le> k; k < ?l + 1\<rbrakk> \<Longrightarrow> \<exists>k'. unat p + 1 \<le> k' \<and> k' < ?l + 1 \<and> ws ! k = ys ! k'"
        "ws ! unat p = ys ! unat p" "length ws = length ys"
        "sorted_on ws ?s (unat p)" "sorted_on ws (unat p + 1) (?l + 1)" for ws
      by (rule sorted_glue [OF pl that(4) lt _ that(1) _ that(3,5)])
        (use ge that(2,6) in \<open>auto simp: Suc_le_eq\<close>)
    show ?thesis
    proof (cases "p - S < L - p")
      case lr: True
      obtain zs where z: "KrQuicksortMemmap f ys S (p - 1) = Inr zs" "mset zs = mset ys"
          "same_outside ys zs ?s (unat p)" "sorted_on zs ?s (unat p)"
        using leftR [OF refl] mf by auto
      then have lz: "length zs = length ys" by (auto dest: mset_eq_length)
      then obtain ws where w: "KrQuicksortMemmap f zs (p + 1) L = Inr ws" "mset ws = mset zs"
          "same_outside zs ws (unat p + 1) (?l + 1)" "sorted_on ws (unat p + 1) (?l + 1)"
        using rightR by blast
      have lw: "length ws = length ys" using w(2) lz by (auto dest: mset_eq_length)
      have "sorted_on ws ?s (?l + 1)"
      proof (rule glue [OF _ _ _ lw _ w(4)])
        show "sorted_on ws ?s (unat p)" using sorted_on_outside [OF z(4) w(3)] by simp
        show "ws ! unat p = ys ! unat p" using z(3) w(3) by (simp add: same_outside_def)
      qed (use seq_perm [OF z(3) w(3) z(2) w(2)] pl in auto)
      moreover have "same_outside xs ws ?s (?l + 1)"
        using r(6) z(3) w(3) pl by (auto simp: same_outside_def)
      ultimately show ?thesis using True r(1,4) lr z w by simp
    next
      case rl: False
      obtain zs where z: "KrQuicksortMemmap f ys (p + 1) L = Inr zs" "mset zs = mset ys"
          "same_outside ys zs (unat p + 1) (?l + 1)" "sorted_on zs (unat p + 1) (?l + 1)"
        using rightR [OF refl] by auto
      then have lz: "length zs = length ys" by (auto dest: mset_eq_length)
      have "zs ! 0 = ys ! 0" using z(3) by (simp add: same_outside_def)
      then have "min_first zs" if "?s = 0" using mf [OF that] z(2) min_first_perm by blast
      then obtain ws where w: "KrQuicksortMemmap f zs S (p - 1) = Inr ws" "mset ws = mset zs"
          "same_outside zs ws ?s (unat p)" "sorted_on ws ?s (unat p)"
        using leftR [OF lz] by auto
      have lw: "length ws = length ys" using w(2) lz by (auto dest: mset_eq_length)
      have "sorted_on ws ?s (?l + 1)"
      proof (rule glue [OF _ _ _ lw w(4)])
        show "sorted_on ws (unat p + 1) (?l + 1)" using sorted_on_outside [OF z(4) w(3)] by simp
        show "ws ! unat p = ys ! unat p" using z(3) w(3) by (simp add: same_outside_def)
      qed (use seq_perm [OF z(3) w(3) z(2) w(2)] pl in auto)
      moreover have "same_outside xs ws ?s (?l + 1)"
        using r(6) z(3) w(3) pl by (auto simp: same_outside_def)
      ultimately show ?thesis using True r(1,4) rl z w by simp
    qed
  qed
qed

lemma quicksort_whole:
  assumes "length xs \<le> 2 ^ 31" "min_first xs"
  shows "\<exists>ys. KrQuicksortMemmap (length xs + 1) xs 0 (of_nat (length xs) - 1) = Inr ys \<and> mset ys = mset xs \<and>
    sorted (map PhysicalBase ys)"
proof -
  have ne: "0 < length xs" using assms(2) by (simp add: min_first_def)
  have "(of_nat (length xs) :: UINT) - 1 = of_nat (length xs - 1)" using ne by (cases "length xs") simp_all
  then have L: "unat (of_nat (length xs) - 1 :: UINT) = length xs - 1"
    using assms(1) by (simp add: unat_of_nat_small)
  obtain ys where y: "KrQuicksortMemmap (length xs + 1) xs 0 (of_nat (length xs) - 1) = Inr ys" "mset ys = mset xs"
      "sorted_on ys 0 (length xs)"
    using quicksort_ok [of xs 0 "of_nat (length xs) - 1" "length xs + 1"] assms L ne by auto
  then have "length ys = length xs" by (auto dest: mset_eq_length)
  with y show ?thesis by (auto simp: sorted_on_def key_def sorted_iff_nth_mono_less)
qed

section \<open>Coverage of the canonical map\<close>

text \<open>The physical addresses of a region, and the regions that end inside the address space.\<close>

definition region :: "DWORD \<Rightarrow> KrMemoryDescriptor \<Rightarrow> nat set" where
  "region PgSize d = {unat (PhysicalBase d) ..< unat (PhysicalBase d) + unat (PageCount d) * unat PgSize}"

definition region_fits :: "DWORD \<Rightarrow> KrMemoryDescriptor \<Rightarrow> bool" where
  "region_fits PgSize d \<longleftrightarrow> unat (PhysicalBase d) + unat (PageCount d) * unat PgSize < 2 ^ 64"

definition usable_bytes :: "DWORD \<Rightarrow> KrMemoryDescriptor list \<Rightarrow> nat set" where
  "usable_bytes PgSize ds = (\<Union>d \<in> {d \<in> set ds. KrIsUsableMemoryRegionType (Type d)}. region PgSize d)"

lemma region_canonical [simp]:
  "region P (canonical_desc b c) = {unat b ..< unat b + unat c * unat P}"
  by (simp add: region_def canonical_desc_def)

lemma usable_bytes_simps [simp]:
  "usable_bytes P [] = {}"
  "usable_bytes P (d # ds) = (if KrIsUsableMemoryRegionType (Type d) then region P d else {}) \<union> usable_bytes P ds"
  by (auto simp: usable_bytes_def)

lemma unat_times_le:
  "unat (x :: 'a::len word) * unat y < 2 ^ LENGTH('a) \<Longrightarrow> unat (x * y) = unat x * unat y"
  by (simp add: unat_word_ariths)

lemma region_end:
  fixes b c :: QWORD and P :: DWORD
  assumes "unat b + unat c * unat P < 2 ^ 64"
  shows "unat (b + c * ucast P) = unat b + unat c * unat P"
proof -
  have u: "unat (ucast P :: QWORD) = unat P" by (simp add: unat_ucast_up)
  then have "unat (c * ucast P) = unat c * unat P"
    using assms by (subst unat_times_le) (auto simp: u)
  then show ?thesis using assms by (subst unat_plus_le) auto
qed

lemma PeekAhead_bytes:
  assumes "PeekAhead P b c ds = (c', rest)" "P \<noteq> 0" "unat b + unat c * unat P < 2 ^ 64"
    and "\<forall>d \<in> set ds. region_fits P d"
  shows "{unat b ..< unat b + unat c * unat P} \<union> usable_bytes P ds =
      {unat b ..< unat b + unat c' * unat P} \<union> usable_bytes P rest \<and> (\<forall>d \<in> set rest. region_fits P d)"
  using assms
proof (induction P b c ds rule: PeekAhead.induct)
  case (2 P b c d ds)
  show ?case
  proof (cases "\<not> KrIsUsableMemoryRegionType (Type d) \<or> b + c * ucast P \<noteq> PhysicalBase d")
    case True
    then have "c' = c" "rest = d # ds" using "2.prems"(1) by simp_all
    then show ?thesis using "2.prems"(4) by simp
  next
    case False
    have e: "unat (PhysicalBase d) = unat b + unat c * unat P"
      using False region_end [OF "2.prems"(3)] by simp
    have f: "unat b + (unat c + unat (PageCount d)) * unat P < 2 ^ 64"
      using "2.prems"(4) e by (simp add: region_fits_def add_mult_distrib)
    have P1: "1 \<le> unat P" using "2.prems"(2) by (simp add: Suc_le_eq unat_gt_0)
    have "unat c + unat (PageCount d) \<le> (unat c + unat (PageCount d)) * unat P"
      using mult_le_mono2 [OF P1] by (simp only: mult_1_right)
    then have "unat c + unat (PageCount d) < 2 ^ 64" using f by linarith
    then have s: "unat (c + PageCount d) = unat c + unat (PageCount d)"
      by (intro unat_plus_le) simp
    have pk: "PeekAhead P b (c + PageCount d) ds = (c', rest)" using False "2.prems"(1) by simp
    have IH: "{unat b ..< unat b + (unat c + unat (PageCount d)) * unat P} \<union> usable_bytes P ds =
      {unat b ..< unat b + unat c' * unat P} \<union> usable_bytes P rest \<and> (\<forall>d \<in> set rest. region_fits P d)"
      using "2.IH" [OF False pk "2.prems"(2)] f s "2.prems"(4) by simp
    have "{unat b ..< unat b + (unat c + unat (PageCount d)) * unat P} =
        {unat b ..< unat b + unat c * unat P} \<union> region P d"
      by (auto simp: region_def e add_mult_distrib)
    with IH False show ?thesis by (simp add: Un_assoc)
  qed
qed simp

lemma canonical_covers:
  assumes "P \<noteq> 0" "\<forall>d \<in> set ds. region_fits P d"
  shows "(\<Union>d \<in> set (CanonicalPass P ds). region P d) = usable_bytes P ds"
  using assms
proof (induction P ds rule: CanonicalPass.induct)
  case (2 P d ds)
  obtain c rest where pk: "PeekAhead P (PhysicalBase d) (PageCount d) ds = (c, rest)" by fastforce
  have b: "unat (PhysicalBase d) + unat (PageCount d) * unat P < 2 ^ 64"
    using 2 by (simp add: region_fits_def)
  show ?case
  proof (cases "KrIsUsableMemoryRegionType (Type d)")
    case True
    have k: "region P d \<union> usable_bytes P ds =
        {unat (PhysicalBase d) ..< unat (PhysicalBase d) + unat c * unat P} \<union> usable_bytes P rest"
      "\<forall>d \<in> set rest. region_fits P d"
      using PeekAhead_bytes [OF pk "2.prems"(1) b] "2.prems" by (simp_all add: region_def [of P d])
    have "(\<Union>d \<in> set (CanonicalPass P rest). region P d) = usable_bytes P rest"
      using "2.IH"(2) [OF _ pk [symmetric]] True "2.prems" k(2) by simp
    then show ?thesis using True pk k(1) "2.prems" by simp
  next
    case False
    then show ?thesis using 2 by simp
  qed
qed simp

lemma canonical_length: "length (CanonicalPass P ds) \<le> length ds"
proof (induction P ds rule: CanonicalPass.induct)
  case (2 P d ds)
  obtain c rest where pk: "PeekAhead P (PhysicalBase d) (PageCount d) ds = (c, rest)" by fastforce
  show ?case
    using 2 pk PeekAhead_length [OF pk] by (cases "KrIsUsableMemoryRegionType (Type d)") (auto intro: order_trans)
qed simp

lemma usable_bytes_perm: "mset xs = mset ys \<Longrightarrow> usable_bytes P xs = usable_bytes P ys"
  by (drule mset_eq_setD) (simp add: usable_bytes_def)

section \<open>Properties\<close>


definition wit_desc :: "QWORD \<Rightarrow> DWORD \<Rightarrow> KrMemoryDescriptor" where
  "wit_desc b t = \<lparr>PhysicalBase = b, PageCount = 1, Attributes = 0, Type = t, Pad = 0\<rparr>"

definition wit_map :: "KrMemoryDescriptor list" where
  "wit_map = [wit_desc 0 7, wit_desc 0x2000 7, wit_desc 0x1000 7]"

definition wit_info :: KrMemoryMapInfo where
  "wit_info = \<lparr>PhysicalAddress = 0, MemoryMapSize = 120, EntryCount = 3, PageSize = 4096\<rparr>"


text \<open>
  Without the condition on the lowest region the index \<open>pi - 1\<close> wraps: a map of two
  entries in descending order makes quicksort read far outside the array.
\<close>

lemma quicksort_descending_oob:
  "KrQuicksortMemmap (Suc (Suc f)) [wit_desc 0x1000 7, wit_desc 0 7] 0 1 = Inl OutOfBounds"
proof -
  have m1: "uint (- 1 :: UINT) = 4294967295" "sint (- 1 :: UINT) = -1" by code_simp+
  have p: "KrPartDescarray [wit_desc 0x1000 7, wit_desc 0 7] 0 1 = Inr (0, [wit_desc 0 7, wit_desc 0x1000 7])"
    by code_simp
  have q: "KrPartDescarray [wit_desc 0 7, wit_desc 0x1000 7] 0 (- 1) = Inl OutOfBounds"
    by (simp add: KrPartDescarray_def m1 aget_def)
  have lt: "(0 :: UINT) < - 1" by code_simp
  have "KrQuicksortMemmap (Suc f) [wit_desc 0 7, wit_desc 0x1000 7] 0 (- 1) = Inl OutOfBounds"
    by (simp only: KrQuicksortMemmap.simps q lt if_True kbind_Inl)
  then show ?thesis
    by (simp add: KrQuicksortMemmap.simps(2) [of "Suc f"] p del: KrQuicksortMemmap.simps)
qed

end
