(* ===== verification/PageBitmap.thy ===== *)
theory PageBitmap
  imports YchPrelude
begin

text \<open>
  The page bitmaps of \<^verbatim>\<open>Kernel/Source/Memory/Physmemmgmt.c\<close> and
  \<^verbatim>\<open>KrSetPhysicalPageStatus\<close>, which sets a range of bits with 64-, 32-, 16- and 8-bit
  stores between an unaligned start and end. It is proved equal to setting the bits one by one.
\<close>

type_synonym PAGEID = DWORD
type_synonym bitmap = "nat \<Rightarrow> BYTE"

definition IVLDPGID :: PAGEID where "IVLDPGID = - 1"
definition PAGE_FREE :: BYTE where "PAGE_FREE = 0"
definition PAGE_ALLOCATED :: BYTE where "PAGE_ALLOCATED = 1"

definition StatusBit :: "BYTE \<Rightarrow> BYTE \<Rightarrow> nat \<Rightarrow> BYTE" where
  "StatusBit Status Value BitOffset = (if Status \<noteq> 0 then bset Value BitOffset else bclr Value BitOffset)"

fun HeadLoop :: "BYTE \<Rightarrow> BYTE \<Rightarrow> nat \<Rightarrow> nat \<Rightarrow> BYTE \<times> nat" where
  "HeadLoop Status Value BitOffset 0 = (Value, 0)"
| "HeadLoop Status Value BitOffset (Suc N) =
     (if BitOffset < 8 then HeadLoop Status (StatusBit Status Value BitOffset) (BitOffset + 1) N
      else (Value, Suc N))"

fun TailLoop :: "BYTE \<Rightarrow> BYTE \<Rightarrow> nat \<Rightarrow> nat \<Rightarrow> BYTE" where
  "TailLoop Status Value BitOffset 0 = Value"
| "TailLoop Status Value BitOffset (Suc N) = TailLoop Status (StatusBit Status Value BitOffset) (BitOffset + 1) N"

text \<open>One of the four bulk loops: stores of \<open>w\<close> bytes that are all ones or all zeros.\<close>

definition BulkStore :: "nat \<Rightarrow> BYTE \<Rightarrow> bitmap \<Rightarrow> nat \<Rightarrow> bitmap" where
  "BulkStore w Status bm pRegion =
     (\<lambda>k. if pRegion \<le> k \<and> k < pRegion + w then (if Status \<noteq> 0 then 0xFF else 0) else bm k)"

function BulkWrite :: "nat \<Rightarrow> BYTE \<Rightarrow> bitmap \<Rightarrow> nat \<Rightarrow> nat \<Rightarrow> bitmap \<times> nat \<times> nat" where
  "BulkWrite w Status bm pRegion N =
     (if 0 < w \<and> 8 * w \<le> N
      then BulkWrite w Status (BulkStore w Status bm pRegion) (pRegion + w) (N - 8 * w)
      else (bm, pRegion, N))"
  by pat_completeness auto
termination by (relation "measure (\<lambda>(w, s, bm, r, N). N)") auto

declare BulkWrite.simps [simp del]

definition KrSetPhysicalPageStatus :: "bitmap \<Rightarrow> UINT \<Rightarrow> PAGEID \<Rightarrow> SIZE \<Rightarrow> BYTE \<Rightarrow> bool \<times> bitmap" where
  "KrSetPhysicalPageStatus pBitmap NrPages idStart N Status =
     (if ucast idStart + N > (ucast NrPages :: SIZE) then (False, pBitmap)
      else
        let r0 = unat idStart div 8;
            off = unat idStart mod 8;
            (bm1, r1, n1) =
              (if off \<noteq> 0
               then (let (v, n) = HeadLoop Status (pBitmap r0) off (unat N) in (pBitmap(r0 := v), r0 + 1, n))
               else (pBitmap, r0, unat N));
            (bm2, r2, n2) = BulkWrite 8 Status bm1 r1 n1;
            (bm3, r3, n3) = BulkWrite 4 Status bm2 r2 n2;
            (bm4, r4, n4) = BulkWrite 2 Status bm3 r3 n3;
            (bm5, r5, n5) = BulkWrite 1 Status bm4 r4 n4
        in (True, if n5 \<noteq> 0 then bm5(r5 := TailLoop Status (bm5 r5) 0 n5) else bm5))"

section \<open>Bits of a bitmap\<close>

definition page_bit :: "bitmap \<Rightarrow> nat \<Rightarrow> bool" where
  "page_bit bm p \<longleftrightarrow> bit (bm (p div 8)) (p mod 8)"

text \<open>The reference: the bits \<open>s\<close> to \<open>s + n - 1\<close> get the status, the others stay.\<close>

definition bits_set_to :: "bool \<Rightarrow> bitmap \<Rightarrow> nat \<Rightarrow> nat \<Rightarrow> bitmap \<Rightarrow> bool" where
  "bits_set_to v bm s n bm' \<longleftrightarrow> (\<forall>p. page_bit bm' p = (if s \<le> p \<and> p < s + n then v else page_bit bm p))"

lemma bits_set_to_0 [simp]: "bits_set_to v bm s 0 bm"
  by (auto simp: bits_set_to_def)

lemma bits_set_to_append:
  "\<lbrakk>bits_set_to v bm s n bm'; bits_set_to v bm' (s + n) m bm''\<rbrakk> \<Longrightarrow> bits_set_to v bm s (n + m) bm''"
  by (auto simp: bits_set_to_def)

lemma HeadLoop_bits:
  assumes "HeadLoop st v b n = (v', n')" "b \<le> 8"
  shows "n' = n - (8 - b) \<and> (\<forall>k < 8. bit v' k = (if b \<le> k \<and> k < b + n then st \<noteq> 0 else bit v k))"
  using assms
proof (induction st v b n rule: HeadLoop.induct)
  case (2 st v b n)
  show ?case
  proof (cases "b < 8")
    case True
    have "n' = n - (8 - (b + 1)) \<and> (\<forall>k < 8. bit v' k = (if b + 1 \<le> k \<and> k < b + 1 + n then st \<noteq> 0 else bit (StatusBit st v b) k))"
      using 2 True by simp
    then show ?thesis using True by (auto simp: StatusBit_def bitmap_simps)
  qed (use 2 in auto)
qed auto

lemma TailLoop_bits:
  "b + n \<le> 8 \<Longrightarrow> k < 8 \<Longrightarrow> bit (TailLoop st v b n) k = (if b \<le> k \<and> k < b + n then st \<noteq> 0 else bit v k)"
  by (induction st v b n rule: TailLoop.induct) (auto simp: StatusBit_def bitmap_simps)

lemma byte_fill_bits:
  "bits_set_to (st \<noteq> 0) bm (8 * r) (8 * w) (BulkStore w st bm r)"
proof -
  have "(r \<le> p div 8 \<and> p div 8 < r + w) = (8 * r \<le> p \<and> p < 8 * r + 8 * w)" for p :: nat
    by (simp add: less_eq_div_iff_mult_less_eq div_less_iff_less_mult mult.commute distrib_left)
  then show ?thesis unfolding bits_set_to_def page_bit_def BulkStore_def by (simp add: bit_int_FF)
qed

lemma BulkWrite_bits:
  assumes "BulkWrite w st bm r n = (bm', r', n')" "0 < w"
  shows "n' = n mod (8 * w) \<and> r' = r + w * (n div (8 * w)) \<and> bits_set_to (st \<noteq> 0) bm (8 * r) (n - n') bm'"
  using assms
proof (induction w st bm r n rule: BulkWrite.induct)
  case (1 w st bm r n)
  let ?bm = "BulkStore w st bm r"
  show ?case
  proof (cases "8 * w \<le> n")
    case True
    have "BulkWrite w st ?bm (r + w) (n - 8 * w) = (bm', r', n')"
      using 1 True by (subst (asm) BulkWrite.simps) simp
    then have IH: "n' = (n - 8 * w) mod (8 * w)" "r' = r + w + w * ((n - 8 * w) div (8 * w))"
      "bits_set_to (st \<noteq> 0) ?bm (8 * (r + w)) (n - 8 * w - n') bm'"
      using 1 True by auto
    have m: "(n - 8 * w) mod (8 * w) = n mod (8 * w)" "n div (8 * w) = Suc ((n - 8 * w) div (8 * w))"
      using True 1(3) by (simp_all add: le_mod_geq le_div_geq)
    have "n' \<le> n - 8 * w" using IH(1) by simp
    then have e: "8 * w + (n - 8 * w - n') = n - n'" using True by simp
    have "bits_set_to (st \<noteq> 0) bm (8 * r) (8 * w + (n - 8 * w - n')) bm'"
      by (rule bits_set_to_append [OF byte_fill_bits]) (use IH(3) in \<open>simp add: distrib_left\<close>)
    then show ?thesis using IH(1,2) m unfolding e by simp
  next
    case False
    then show ?thesis using 1 by (subst (asm) BulkWrite.simps) simp
  qed
qed


text \<open>How far the write has got: all but the last \<open>n'\<close> bits are set and the region pointer is at the next one.\<close>

definition write_at :: "bool \<Rightarrow> bitmap \<Rightarrow> nat \<Rightarrow> nat \<Rightarrow> bitmap \<Rightarrow> nat \<Rightarrow> nat \<Rightarrow> bool" where
  "write_at v bm s n bm' r' n' \<longleftrightarrow>
     bits_set_to v bm s (n - n') bm' \<and> (n' = 0 \<or> s + (n - n') = 8 * r') \<and> n' \<le> n"

lemma write_at_bulk:
  assumes "write_at (st \<noteq> 0) bm s n bm1 r1 n1" "BulkWrite w st bm1 r1 n1 = (bm2, r2, n2)" "0 < w"
  shows "write_at (st \<noteq> 0) bm s n bm2 r2 n2"
proof -
  have b: "n2 = n1 mod (8 * w)" "r2 = r1 + w * (n1 div (8 * w))"
      "bits_set_to (st \<noteq> 0) bm1 (8 * r1) (n1 - n2) bm2"
    using BulkWrite_bits [OF assms(2,3)] by auto
  have n2: "n2 \<le> n1" using b(1) by simp
  have e: "n1 - n2 = 8 * (w * (n1 div (8 * w)))"
    unfolding b(1) by (metis minus_mod_eq_mult_div mult.assoc)
  have a: "bits_set_to (st \<noteq> 0) bm s (n - n1) bm1" "n1 = 0 \<or> s + (n - n1) = 8 * r1" "n1 \<le> n"
    using assms(1) by (auto simp: write_at_def)
  show ?thesis
  proof (cases "n1 = 0")
    case True
    then have "n2 = 0" "bits_set_to (st \<noteq> 0) bm1 s 0 bm2"
      using b(1,3) by (auto simp: bits_set_to_def)
    then show ?thesis using a(1) True by (auto simp: write_at_def bits_set_to_def)
  next
    case False
    have "bits_set_to (st \<noteq> 0) bm s (n - n1 + (n1 - n2)) bm2"
      using bits_set_to_append [OF a(1)] b(3) a(2) False by simp
    moreover have "n - n1 + (n1 - n2) = n - n2" using a(3) n2 by simp
    ultimately show ?thesis using a False e b(2) n2 by (auto simp: write_at_def)
  qed
qed

lemma write_at_head:
  assumes "HeadLoop st (bm (s div 8)) (s mod 8) n = (v, n1)" "s mod 8 \<noteq> 0"
  shows "write_at (st \<noteq> 0) bm s n (bm(s div 8 := v)) (s div 8 + 1) n1"
proof -
  have h: "n1 = n - (8 - s mod 8)"
      "\<And>k. k < 8 \<Longrightarrow> bit v k = (if s mod 8 \<le> k \<and> k < s mod 8 + n then st \<noteq> 0 else bit (bm (s div 8)) k)"
    using HeadLoop_bits [OF assms(1)] by auto
  have s: "s = 8 * (s div 8) + s mod 8" "s mod 8 < 8" by simp_all
  have "page_bit (bm(s div 8 := v)) p = (if s \<le> p \<and> p < s + (n - n1) then st \<noteq> 0 else page_bit bm p)" for p
  proof (cases "p div 8 = s div 8")
    case True
    have p: "p = 8 * (s div 8) + p mod 8" "p mod 8 < 8" using True by (metis mult_div_mod_eq, simp)
    then have "(s mod 8 \<le> p mod 8 \<and> p mod 8 < s mod 8 + n) = (s \<le> p \<and> p < s + (n - n1))"
      using s h(1) by linarith
    then show ?thesis using True h(2) [OF p(2)] by (simp add: page_bit_def)
  next
    case False
    have "\<not> (s \<le> p \<and> p < s + (n - n1))"
    proof
      assume a: "s \<le> p \<and> p < s + (n - n1)"
      then have "p < 8 * (s div 8) + 8" using s h(1) by linarith
      moreover have "8 * (s div 8) \<le> p" using a s by linarith
      ultimately have "p div 8 = s div 8" by simp
      with False show False ..
    qed
    then show ?thesis using False by (auto simp: page_bit_def)
  qed
  moreover have "n1 = 0 \<or> s + (n - n1) = 8 * (s div 8 + 1)"
  proof (cases "n \<le> 8 - s mod 8")
    case False
    then have "n - n1 = 8 - s mod 8" using h(1) by simp
    then have "s + (n - n1) = 8 * (s div 8 + 1)" by presburger
    then show ?thesis ..
  qed (simp add: h(1))
  ultimately show ?thesis using h(1) by (simp add: write_at_def bits_set_to_def)
qed

lemma write_at_tail:
  assumes "write_at (st \<noteq> 0) bm s n bm5 r5 n5" "n5 < 8"
  shows "bits_set_to (st \<noteq> 0) bm s n (if n5 \<noteq> 0 then bm5(r5 := TailLoop st (bm5 r5) 0 n5) else bm5)"
proof (cases "n5 = 0")
  case False
  let ?bm = "bm5(r5 := TailLoop st (bm5 r5) 0 n5)"
  have "page_bit ?bm p = (if 8 * r5 \<le> p \<and> p < 8 * r5 + n5 then st \<noteq> 0 else page_bit bm5 p)" for p
  proof (cases "p div 8 = r5")
    case True
    have "p = 8 * r5 + p mod 8" using True by (metis mult_div_mod_eq)
    then have "(p mod 8 < n5) = (8 * r5 \<le> p \<and> p < 8 * r5 + n5)" by linarith
    then show ?thesis using True assms(2) by (simp add: page_bit_def TailLoop_bits)
  next
    case f: False
    have "\<not> (8 * r5 \<le> p \<and> p < 8 * r5 + n5)" using f assms(2) by auto
    then show ?thesis using f by (auto simp: page_bit_def)
  qed
  then have "bits_set_to (st \<noteq> 0) bm5 (8 * r5) n5 ?bm" by (simp add: bits_set_to_def)
  then have "bits_set_to (st \<noteq> 0) bm s (n - n5 + n5) ?bm"
    using assms(1) False by (intro bits_set_to_append) (auto simp: write_at_def)
  then show ?thesis using assms(1) False by (simp add: write_at_def)
qed (use assms in \<open>simp add: write_at_def\<close>)

text \<open>The range is accepted exactly when it ends inside the bitmap, and then it is set bit by bit.\<close>

lemma KrSetPhysicalPageStatus_ok:
  assumes "KrSetPhysicalPageStatus bm nr s n st = (ok, bm')" "unat s + unat n < 2 ^ 64"
  shows "ok = (unat s + unat n \<le> unat nr)"
    "ok \<Longrightarrow> bits_set_to (st \<noteq> 0) bm (unat s) (unat n) bm'" "\<not> ok \<Longrightarrow> bm' = bm"
proof -
  let ?s = "unat s" and ?n = "unat n" and ?v = "st \<noteq> 0"
  have us: "unat (ucast s + n) = ?s + ?n" "unat (ucast nr :: SIZE) = unat nr"
    using assms(2) by (simp_all add: unat_plus_le unat_ucast_up)
  have guard: "(ucast s + n > (ucast nr :: SIZE)) = (\<not> ?s + ?n \<le> unat nr)"
    by (simp add: word_less_nat_alt us not_le)
  show "ok = (?s + ?n \<le> unat nr)"
    using assms(1) by (auto simp: KrSetPhysicalPageStatus_def guard Let_def split: if_splits prod.splits)
  show "\<not> ok \<Longrightarrow> bm' = bm"
    using assms(1) by (auto simp: KrSetPhysicalPageStatus_def guard Let_def split: if_splits prod.splits)
  assume ok
  obtain bm1 r1 n1 where h: "(if ?s mod 8 \<noteq> 0
      then (let (v, n) = HeadLoop st (bm (?s div 8)) (?s mod 8) ?n in (bm(?s div 8 := v), ?s div 8 + 1, n))
      else (bm, ?s div 8, ?n)) = (bm1, r1, n1)" by (metis prod_cases3)
  obtain bm2 r2 n2 where b8: "BulkWrite 8 st bm1 r1 n1 = (bm2, r2, n2)" by (metis prod_cases3)
  obtain bm3 r3 n3 where b4: "BulkWrite 4 st bm2 r2 n2 = (bm3, r3, n3)" by (metis prod_cases3)
  obtain bm4 r4 n4 where b2: "BulkWrite 2 st bm3 r3 n3 = (bm4, r4, n4)" by (metis prod_cases3)
  obtain bm5 r5 n5 where b1: "BulkWrite 1 st bm4 r4 n4 = (bm5, r5, n5)" by (metis prod_cases3)
  have bm': "bm' = (if n5 \<noteq> 0 then bm5(r5 := TailLoop st (bm5 r5) 0 n5) else bm5)"
    using assms(1) \<open>ok\<close> h b8 b4 b2 b1 unfolding KrSetPhysicalPageStatus_def
    by (simp add: Let_def guard split: if_splits)
  have "write_at ?v bm ?s ?n bm1 r1 n1"
  proof (cases "?s mod 8 = 0")
    case True
    then have "?s = 8 * (?s div 8)" by auto
    then show ?thesis using h True by (auto simp: write_at_def)
  next
    case False
    then show ?thesis using h write_at_head [of st bm ?s ?n] by (auto simp: Let_def split: prod.splits)
  qed
  from write_at_bulk [OF write_at_bulk [OF write_at_bulk [OF write_at_bulk [OF this b8] b4] b2] b1]
  have w5: "write_at ?v bm ?s ?n bm5 r5 n5" by simp
  have "n5 < 8" using BulkWrite_bits [OF b1] by simp
  then show "bits_set_to ?v bm ?s ?n bm'" unfolding bm' by (rule write_at_tail [OF w5])
qed

lemma set_page_status:
  assumes "unat idStart + unat N < 2 ^ 64"
  shows "fst (KrSetPhysicalPageStatus bm nr idStart N st) = (unat idStart + unat N \<le> unat nr)"
    and "page_bit (snd (KrSetPhysicalPageStatus bm nr idStart N st)) p =
      (if unat idStart + unat N \<le> unat nr \<and> unat idStart \<le> p \<and> p < unat idStart + unat N
       then st \<noteq> 0 else page_bit bm p)"
proof -
  obtain ok bm' where r: "KrSetPhysicalPageStatus bm nr idStart N st = (ok, bm')" by fastforce
  note k = KrSetPhysicalPageStatus_ok [OF r assms]
  show "fst (KrSetPhysicalPageStatus bm nr idStart N st) = (unat idStart + unat N \<le> unat nr)"
    using k(1) r by simp
  show "page_bit (snd (KrSetPhysicalPageStatus bm nr idStart N st)) p =
      (if unat idStart + unat N \<le> unat nr \<and> unat idStart \<le> p \<and> p < unat idStart + unat N
       then st \<noteq> 0 else page_bit bm p)"
    using k r by (cases ok) (auto simp: bits_set_to_def)
qed

lemmas set_page_status_ok = set_page_status(2)

text \<open>
  C4: \<^verbatim>\<open>KrSetPhysicalPageStatus\<close> accepts a range of pages exactly when it ends inside
  the bitmap; then its mixture of unaligned, 64-, 32-, 16- and 8-bit stores gives every page of the
  range the requested status and leaves every other bit alone, and a rejected call changes nothing.
\<close>

theorem set_page_status_correct:
  assumes "unat idStart + unat N < 2 ^ 64"
  shows "fst (KrSetPhysicalPageStatus bm nr idStart N st) = (unat idStart + unat N \<le> unat nr) \<and>
    (\<forall>p. page_bit (snd (KrSetPhysicalPageStatus bm nr idStart N st)) p =
      (if unat idStart + unat N \<le> unat nr \<and> unat idStart \<le> p \<and> p < unat idStart + unat N
       then st \<noteq> 0 else page_bit bm p))"
  using set_page_status [OF assms] by simp

lemma set_page_status_correct_witness:
  "page_bit (snd (KrSetPhysicalPageStatus (\<lambda>_. 0) 200 3 100 PAGE_ALLOCATED)) 102"
  using set_page_status_correct [of 3 100 "\<lambda>_. 0" 200 PAGE_ALLOCATED]
  by (simp add: PAGE_ALLOCATED_def)

end
