(* ===== verification/Spinlock.thy ===== *)
theory Spinlock
  imports YchPrelude
begin

text \<open>
  The spinlock of \<^verbatim>\<open>Kernel/Source/CPU/Spinlock.asm\<close> and
  \<^verbatim>\<open>Kernel/Include/CPU/Spinlock.h\<close>. Bit 0 of \<^verbatim>\<open>dwState\<close> is the lock.
  The first part is what a single caller sees, used by the components that take a lock; the second part
  is the instruction-level step relation of several processors that compete for one lock.
\<close>

section \<open>One caller\<close>

text \<open>A caller that finds the lock taken by itself waits for ever: interrupts are off.\<close>

definition AcquireOrWaitSpinlock :: "DWORD \<Rightarrow> DWORD kres" where
  "AcquireOrWaitSpinlock dwState = (if btest dwState 0 then Inl Deadlock else Inr (bset dwState 0))"

definition RelinquishSpinlock :: "DWORD \<Rightarrow> DWORD" where
  "RelinquishSpinlock dwState = 0"

lemma acquire_free [simp]: "AcquireOrWaitSpinlock 0 = Inr 1"
  by (simp add: AcquireOrWaitSpinlock_def btest_def bset_def)

lemma acquire_taken [simp]: "AcquireOrWaitSpinlock 1 = Inl Deadlock"
  by (simp add: AcquireOrWaitSpinlock_def btest_def)

lemma relinquish [simp]: "RelinquishSpinlock l = 0"
  by (simp add: RelinquishSpinlock_def)

section \<open>Processors that compete\<close>

text \<open>
  The program counters of the assembly routine: outside, at the \<^verbatim>\<open>LOCK BTS\<close>, at the
  \<^verbatim>\<open>TEST\<close> of the wait loop, and inside the critical section. \<open>IntsOn\<close> is the
  interrupt flag that \<^verbatim>\<open>CLI\<close> and \<^verbatim>\<open>STI\<close> change.
\<close>

datatype spin_pc = Outside | TryAcquireLock | SpinWaitLock | Critical

record spin_state =
  dwState :: DWORD
  PC :: "nat \<Rightarrow> spin_pc"
  IntsOn :: "nat \<Rightarrow> bool"

definition spin_init :: spin_state where
  "spin_init = \<lparr>dwState = 0, PC = (\<lambda>_. Outside), IntsOn = (\<lambda>_. True)\<rparr>"

inductive spin_step :: "nat \<Rightarrow> spin_state \<Rightarrow> spin_state \<Rightarrow> bool" where
  Call: "PC s c = Outside \<Longrightarrow>
    spin_step c s (s\<lparr>PC := (PC s)(c := TryAcquireLock), IntsOn := (IntsOn s)(c := False)\<rparr>)"
| BtsTaken: "PC s c = TryAcquireLock \<Longrightarrow> btest (dwState s) 0 \<Longrightarrow>
    spin_step c s (s\<lparr>dwState := bset (dwState s) 0, PC := (PC s)(c := SpinWaitLock)\<rparr>)"
| BtsFree: "PC s c = TryAcquireLock \<Longrightarrow> \<not> btest (dwState s) 0 \<Longrightarrow>
    spin_step c s (s\<lparr>dwState := bset (dwState s) 0, PC := (PC s)(c := Critical)\<rparr>)"
| TestTaken: "PC s c = SpinWaitLock \<Longrightarrow> btest (dwState s) 0 \<Longrightarrow> spin_step c s s"
| TestFree: "PC s c = SpinWaitLock \<Longrightarrow> \<not> btest (dwState s) 0 \<Longrightarrow>
    spin_step c s (s\<lparr>PC := (PC s)(c := TryAcquireLock)\<rparr>)"
| Release: "PC s c = Critical \<Longrightarrow>
    spin_step c s (s\<lparr>dwState := 0, PC := (PC s)(c := Outside), IntsOn := (IntsOn s)(c := True)\<rparr>)"

inductive spin_reach :: "spin_state \<Rightarrow> bool" where
  Init: "spin_reach spin_init"
| Step: "spin_reach s \<Longrightarrow> spin_step c s s' \<Longrightarrow> spin_reach s'"

inductive_cases spin_stepE: "spin_step c s s'"

text \<open>The lock bit is set exactly while some processor is in its critical section.\<close>

definition spin_inv :: "spin_state \<Rightarrow> bool" where
  "spin_inv s \<longleftrightarrow> (\<forall>c d. PC s c = Critical \<longrightarrow> PC s d = Critical \<longrightarrow> c = d) \<and>
     (bit (dwState s) 0 \<longleftrightarrow> (\<exists>c. PC s c = Critical)) \<and>
     (\<forall>c. IntsOn s c \<longleftrightarrow> PC s c = Outside)"

lemma spin_inv_init: "spin_inv spin_init"
  by (simp add: spin_inv_def spin_init_def)

lemma spin_inv_step: "spin_step c s s' \<Longrightarrow> spin_inv s \<Longrightarrow> spin_inv s'"
  by (erule spin_stepE)
    (auto simp: spin_inv_def bitmap_simps split: if_splits, (metis spin_pc.distinct(3,5,9,11))+)

lemma spin_inv_reach: "spin_reach s \<Longrightarrow> spin_inv s"
  by (induction rule: spin_reach.induct) (auto intro: spin_inv_init spin_inv_step)

text \<open>
  However the processors' steps interleave, no two of them are ever in the critical section of
  one spinlock, the lock bit is set exactly while one is, and interrupts are off on every processor that
  waits for or holds the lock.
\<close>

theorem spinlock_mutual_exclusion:
  assumes "spin_reach s"
  shows "(\<forall>c d. PC s c = Critical \<longrightarrow> PC s d = Critical \<longrightarrow> c = d) \<and>
    (bit (dwState s) 0 \<longleftrightarrow> (\<exists>c. PC s c = Critical)) \<and> (\<forall>c. IntsOn s c \<longleftrightarrow> PC s c = Outside)"
  using spin_inv_reach [OF assms] by (simp add: spin_inv_def)

lemma spinlock_mutual_exclusion_witness:
  "\<exists>s. spin_reach s \<and> PC s 1 = Critical \<and> \<not> IntsOn s 1 \<and> bit (dwState s) 0"
proof -
  let ?s1 = "spin_init\<lparr>PC := (PC spin_init)(1 := TryAcquireLock), IntsOn := (IntsOn spin_init)(1 := False)\<rparr>"
  let ?s2 = "?s1\<lparr>dwState := bset (dwState ?s1) 0, PC := (PC ?s1)(1 := Critical)\<rparr>"
  have "spin_step 1 spin_init ?s1" by (rule spin_step.Call) (simp add: spin_init_def)
  then have r1: "spin_reach ?s1" by (rule spin_reach.Step [OF spin_reach.Init])
  have "spin_step 1 ?s1 ?s2" by (rule spin_step.BtsFree) (simp_all add: spin_init_def btest_def)
  then have r2: "spin_reach ?s2" by (rule spin_reach.Step [OF r1])
  have c: "PC ?s2 1 = Critical" by simp
  note m = spinlock_mutual_exclusion [OF r2]
  have "bit (dwState ?s2) 0" by (rule m [THEN conjunct2, THEN conjunct1, THEN iffD2]) (rule exI, rule c)
  moreover have "\<not> IntsOn ?s2 1" unfolding m [THEN conjunct2, THEN conjunct2, rule_format] c by simp
  ultimately show ?thesis using r2 c by blast
qed

end
