(* ===== verification/Meltdown.thy ===== *)
theory Meltdown
  imports YchPrelude
begin

text \<open>
  The meltdown codes of \<^verbatim>\<open>Kernel/Include/Core/Private/meltdowncodes.h\<close> and their
  names, \<^verbatim>\<open>Kernel/Source/Core/meltdownstrings.c\<close>.
\<close>

type_synonym MDCODE = ULONG

definition KR_CATEGORY_MDCODE_PROCESSOR :: MDCODE where "KR_CATEGORY_MDCODE_PROCESSOR = 0x1000"
definition KR_CATEGORY_MDCODE_MEMORY :: MDCODE where "KR_CATEGORY_MDCODE_MEMORY = 0x2000"
definition KR_CATEGORY_MDCODE_IO :: MDCODE where "KR_CATEGORY_MDCODE_IO = 0x3000"
definition KR_CATEGORY_MDCODE_DEBUG :: MDCODE where "KR_CATEGORY_MDCODE_DEBUG = 0x4000"
definition KR_CATEGORY_MDCODE_FIRMWARE :: MDCODE where "KR_CATEGORY_MDCODE_FIRMWARE = 0x5000"

definition KR_MDCODE_CRITICAL_PROCESSOR_EXCEPTION :: MDCODE where
  "KR_MDCODE_CRITICAL_PROCESSOR_EXCEPTION = KR_CATEGORY_MDCODE_PROCESSOR + 1"
definition KR_MDCODE_LOCAL_APIC_INIT_FAILURE :: MDCODE where
  "KR_MDCODE_LOCAL_APIC_INIT_FAILURE = KR_CATEGORY_MDCODE_PROCESSOR + 2"
definition KR_MDCODE_SMP_BRINGUP_FAILURE :: MDCODE where
  "KR_MDCODE_SMP_BRINGUP_FAILURE = KR_CATEGORY_MDCODE_PROCESSOR + 3"
definition KR_MDCODE_SMP_SANITY_CHECK_FAILURE :: MDCODE where
  "KR_MDCODE_SMP_SANITY_CHECK_FAILURE = KR_CATEGORY_MDCODE_PROCESSOR + 4"
definition KR_MDCODE_INTERRUPT_VECTORS_OVERRUN :: MDCODE where
  "KR_MDCODE_INTERRUPT_VECTORS_OVERRUN = KR_CATEGORY_MDCODE_PROCESSOR + 5"
definition KR_MDCODE_PHYSMEMMGMT_INIT_FAILURE :: MDCODE where
  "KR_MDCODE_PHYSMEMMGMT_INIT_FAILURE = KR_CATEGORY_MDCODE_MEMORY + 1"
definition KR_MDCODE_PHYSMEMMGMT_TEST_FAILURE :: MDCODE where
  "KR_MDCODE_PHYSMEMMGMT_TEST_FAILURE = KR_CATEGORY_MDCODE_MEMORY + 2"
definition KR_MDCODE_VIRTMEMMGMT_INIT_FAILURE :: MDCODE where
  "KR_MDCODE_VIRTMEMMGMT_INIT_FAILURE = KR_CATEGORY_MDCODE_MEMORY + 3"
definition KR_MDCODE_LOCAL_APIC_MAP_FAILURE :: MDCODE where
  "KR_MDCODE_LOCAL_APIC_MAP_FAILURE = KR_CATEGORY_MDCODE_MEMORY + 4"
definition KR_MDCODE_PAGE_FAULT :: MDCODE where
  "KR_MDCODE_PAGE_FAULT = KR_CATEGORY_MDCODE_MEMORY + 5"
definition KR_MDCODE_DMAP_SETUP_OOM :: MDCODE where
  "KR_MDCODE_DMAP_SETUP_OOM = KR_CATEGORY_MDCODE_MEMORY + 6"
definition KR_MDCODE_PMM_META_OOM :: MDCODE where
  "KR_MDCODE_PMM_META_OOM = KR_CATEGORY_MDCODE_MEMORY + 7"
definition KR_MDCODE_PINNED_PAGE_RELINQUISHED :: MDCODE where
  "KR_MDCODE_PINNED_PAGE_RELINQUISHED = KR_CATEGORY_MDCODE_MEMORY + 8"
definition KR_MDCODE_RNA_INIT_FAILURE :: MDCODE where
  "KR_MDCODE_RNA_INIT_FAILURE = KR_CATEGORY_MDCODE_MEMORY + 9"
definition KR_MDCODE_KERNEL_ADDRESS_SPACE_CREATION_FAILURE :: MDCODE where
  "KR_MDCODE_KERNEL_ADDRESS_SPACE_CREATION_FAILURE = KR_CATEGORY_MDCODE_MEMORY + 10"
definition KR_MDCODE_KERNEL_HEAP_INITIALIZATION_FAILURE :: MDCODE where
  "KR_MDCODE_KERNEL_HEAP_INITIALIZATION_FAILURE = KR_CATEGORY_MDCODE_MEMORY + 11"
definition KR_MDCODE_MMIO_DEVICE_MAP_FAILURE :: MDCODE where
  "KR_MDCODE_MMIO_DEVICE_MAP_FAILURE = KR_CATEGORY_MDCODE_MEMORY + 12"
definition KR_MDCODE_AP_STACK_ALLOC_FAILURE :: MDCODE where
  "KR_MDCODE_AP_STACK_ALLOC_FAILURE = KR_CATEGORY_MDCODE_MEMORY + 13"
definition KR_MDCODE_IO_APICS_INIT_FAILURE :: MDCODE where
  "KR_MDCODE_IO_APICS_INIT_FAILURE = KR_CATEGORY_MDCODE_IO + 1"
definition KR_MDCODE_GENERAL_DEBUG :: MDCODE where
  "KR_MDCODE_GENERAL_DEBUG = KR_CATEGORY_MDCODE_DEBUG + 1"
definition KR_MDCODE_KERNEL_START_RETURNS :: MDCODE where
  "KR_MDCODE_KERNEL_START_RETURNS = KR_CATEGORY_MDCODE_DEBUG + 2"
definition KR_MDCODE_DMAP_SETUP_DEVCHECK :: MDCODE where
  "KR_MDCODE_DMAP_SETUP_DEVCHECK = KR_CATEGORY_MDCODE_DEBUG + 3"
definition KR_MDCODE_ISSUE_IPI_DEVCHECK :: MDCODE where
  "KR_MDCODE_ISSUE_IPI_DEVCHECK = KR_CATEGORY_MDCODE_DEBUG + 4"
definition KR_MDCODE_HIGH_CR3_RESIDENT_DEVCHECK :: MDCODE where
  "KR_MDCODE_HIGH_CR3_RESIDENT_DEVCHECK = KR_CATEGORY_MDCODE_DEBUG + 5"
definition KR_MDCODE_AP_BOOTSTRAP_LOW_ID_MAP_FAIL :: MDCODE where
  "KR_MDCODE_AP_BOOTSTRAP_LOW_ID_MAP_FAIL = KR_CATEGORY_MDCODE_DEBUG + 6"
definition KR_MDCODE_BOGUS_NMI_REASON :: MDCODE where
  "KR_MDCODE_BOGUS_NMI_REASON = KR_CATEGORY_MDCODE_DEBUG + 7"
definition KR_MDCODE_NMI_NO_DATA_PROVIDED :: MDCODE where
  "KR_MDCODE_NMI_NO_DATA_PROVIDED = KR_CATEGORY_MDCODE_DEBUG + 8"
definition KR_MDCODE_ABSURD_CONCURRENT_SLEEPS :: MDCODE where
  "KR_MDCODE_ABSURD_CONCURRENT_SLEEPS = KR_CATEGORY_MDCODE_DEBUG + 9"
definition KR_MDCODE_SLEEP_INSIDE_TIMER_CALLBACK :: MDCODE where
  "KR_MDCODE_SLEEP_INSIDE_TIMER_CALLBACK = KR_CATEGORY_MDCODE_DEBUG + 10"
definition KR_MDCODE_DEADLOCK_DETECTED :: MDCODE where
  "KR_MDCODE_DEADLOCK_DETECTED = KR_CATEGORY_MDCODE_DEBUG + 11"
definition KR_MDCODE_UNOWNED_SPIN_UNLOCK :: MDCODE where
  "KR_MDCODE_UNOWNED_SPIN_UNLOCK = KR_CATEGORY_MDCODE_DEBUG + 12"
definition KR_MDCODE_CORRUPT_ACPI_RSDP :: MDCODE where
  "KR_MDCODE_CORRUPT_ACPI_RSDP = KR_CATEGORY_MDCODE_FIRMWARE + 1"
definition KR_MDCODE_ACPI_SDT_CHECKSUM_NV :: MDCODE where
  "KR_MDCODE_ACPI_SDT_CHECKSUM_NV = KR_CATEGORY_MDCODE_FIRMWARE + 2"
definition KR_MDCODE_ACPI_TABLE_NOT_FOUND :: MDCODE where
  "KR_MDCODE_ACPI_TABLE_NOT_FOUND = KR_CATEGORY_MDCODE_FIRMWARE + 3"
definition KR_MDCODE_ACPI_TABLE_CORRUPT :: MDCODE where
  "KR_MDCODE_ACPI_TABLE_CORRUPT = KR_CATEGORY_MDCODE_FIRMWARE + 4"

lemmas mdcode_defs =
  KR_CATEGORY_MDCODE_PROCESSOR_def
  KR_CATEGORY_MDCODE_MEMORY_def
  KR_CATEGORY_MDCODE_IO_def
  KR_CATEGORY_MDCODE_DEBUG_def
  KR_CATEGORY_MDCODE_FIRMWARE_def
  KR_MDCODE_CRITICAL_PROCESSOR_EXCEPTION_def
  KR_MDCODE_LOCAL_APIC_INIT_FAILURE_def
  KR_MDCODE_SMP_BRINGUP_FAILURE_def
  KR_MDCODE_SMP_SANITY_CHECK_FAILURE_def
  KR_MDCODE_INTERRUPT_VECTORS_OVERRUN_def
  KR_MDCODE_PHYSMEMMGMT_INIT_FAILURE_def
  KR_MDCODE_PHYSMEMMGMT_TEST_FAILURE_def
  KR_MDCODE_VIRTMEMMGMT_INIT_FAILURE_def
  KR_MDCODE_LOCAL_APIC_MAP_FAILURE_def
  KR_MDCODE_PAGE_FAULT_def
  KR_MDCODE_DMAP_SETUP_OOM_def
  KR_MDCODE_PMM_META_OOM_def
  KR_MDCODE_PINNED_PAGE_RELINQUISHED_def
  KR_MDCODE_RNA_INIT_FAILURE_def
  KR_MDCODE_KERNEL_ADDRESS_SPACE_CREATION_FAILURE_def
  KR_MDCODE_KERNEL_HEAP_INITIALIZATION_FAILURE_def
  KR_MDCODE_MMIO_DEVICE_MAP_FAILURE_def
  KR_MDCODE_AP_STACK_ALLOC_FAILURE_def
  KR_MDCODE_IO_APICS_INIT_FAILURE_def
  KR_MDCODE_GENERAL_DEBUG_def
  KR_MDCODE_KERNEL_START_RETURNS_def
  KR_MDCODE_DMAP_SETUP_DEVCHECK_def
  KR_MDCODE_ISSUE_IPI_DEVCHECK_def
  KR_MDCODE_HIGH_CR3_RESIDENT_DEVCHECK_def
  KR_MDCODE_AP_BOOTSTRAP_LOW_ID_MAP_FAIL_def
  KR_MDCODE_BOGUS_NMI_REASON_def
  KR_MDCODE_NMI_NO_DATA_PROVIDED_def
  KR_MDCODE_ABSURD_CONCURRENT_SLEEPS_def
  KR_MDCODE_SLEEP_INSIDE_TIMER_CALLBACK_def
  KR_MDCODE_DEADLOCK_DETECTED_def
  KR_MDCODE_UNOWNED_SPIN_UNLOCK_def
  KR_MDCODE_CORRUPT_ACPI_RSDP_def
  KR_MDCODE_ACPI_SDT_CHECKSUM_NV_def
  KR_MDCODE_ACPI_TABLE_NOT_FOUND_def
  KR_MDCODE_ACPI_TABLE_CORRUPT_def

text \<open>Every code that the header declares.\<close>

definition mdcodes :: "MDCODE list" where
  "mdcodes = [
    KR_MDCODE_CRITICAL_PROCESSOR_EXCEPTION,
    KR_MDCODE_LOCAL_APIC_INIT_FAILURE,
    KR_MDCODE_SMP_BRINGUP_FAILURE,
    KR_MDCODE_SMP_SANITY_CHECK_FAILURE,
    KR_MDCODE_INTERRUPT_VECTORS_OVERRUN,
    KR_MDCODE_PHYSMEMMGMT_INIT_FAILURE,
    KR_MDCODE_PHYSMEMMGMT_TEST_FAILURE,
    KR_MDCODE_VIRTMEMMGMT_INIT_FAILURE,
    KR_MDCODE_LOCAL_APIC_MAP_FAILURE,
    KR_MDCODE_PAGE_FAULT,
    KR_MDCODE_DMAP_SETUP_OOM,
    KR_MDCODE_PMM_META_OOM,
    KR_MDCODE_PINNED_PAGE_RELINQUISHED,
    KR_MDCODE_RNA_INIT_FAILURE,
    KR_MDCODE_KERNEL_ADDRESS_SPACE_CREATION_FAILURE,
    KR_MDCODE_KERNEL_HEAP_INITIALIZATION_FAILURE,
    KR_MDCODE_MMIO_DEVICE_MAP_FAILURE,
    KR_MDCODE_AP_STACK_ALLOC_FAILURE,
    KR_MDCODE_IO_APICS_INIT_FAILURE,
    KR_MDCODE_GENERAL_DEBUG,
    KR_MDCODE_KERNEL_START_RETURNS,
    KR_MDCODE_DMAP_SETUP_DEVCHECK,
    KR_MDCODE_ISSUE_IPI_DEVCHECK,
    KR_MDCODE_HIGH_CR3_RESIDENT_DEVCHECK,
    KR_MDCODE_AP_BOOTSTRAP_LOW_ID_MAP_FAIL,
    KR_MDCODE_BOGUS_NMI_REASON,
    KR_MDCODE_NMI_NO_DATA_PROVIDED,
    KR_MDCODE_ABSURD_CONCURRENT_SLEEPS,
    KR_MDCODE_SLEEP_INSIDE_TIMER_CALLBACK,
    KR_MDCODE_DEADLOCK_DETECTED,
    KR_MDCODE_UNOWNED_SPIN_UNLOCK,
    KR_MDCODE_CORRUPT_ACPI_RSDP,
    KR_MDCODE_ACPI_SDT_CHECKSUM_NV,
    KR_MDCODE_ACPI_TABLE_NOT_FOUND,
    KR_MDCODE_ACPI_TABLE_CORRUPT]"

text \<open>The cases of the \<^verbatim>\<open>switch\<close>, in its order.\<close>

definition mddesc_cases :: "(MDCODE \<times> string) list" where
  "mddesc_cases = [
    (KR_MDCODE_CRITICAL_PROCESSOR_EXCEPTION, ''KR_MDCODE_CRITICAL_PROCESSOR_EXCEPTION''),
    (KR_MDCODE_LOCAL_APIC_INIT_FAILURE, ''KR_MDCODE_LOCAL_APIC_INIT_FAILURE''),
    (KR_MDCODE_SMP_BRINGUP_FAILURE, ''KR_MDCODE_SMP_BRINGUP_FAILURE''),
    (KR_MDCODE_SMP_SANITY_CHECK_FAILURE, ''KR_MDCODE_SMP_SANITY_CHECK_FAILURE''),
    (KR_MDCODE_INTERRUPT_VECTORS_OVERRUN, ''KR_MDCODE_INTERRUPT_VECTORS_OVERRUN''),
    (KR_MDCODE_PHYSMEMMGMT_INIT_FAILURE, ''KR_MDCODE_PHYSMEMMGMT_INIT_FAILURE''),
    (KR_MDCODE_PHYSMEMMGMT_TEST_FAILURE, ''KR_MDCODE_PHYSMEMMGMT_TEST_FAILURE''),
    (KR_MDCODE_VIRTMEMMGMT_INIT_FAILURE, ''KR_MDCODE_VIRTMEMMGMT_INIT_FAILURE''),
    (KR_MDCODE_LOCAL_APIC_MAP_FAILURE, ''KR_MDCODE_LOCAL_APIC_MAP_FAILURE''),
    (KR_MDCODE_PAGE_FAULT, ''KR_MDCODE_PAGE_FAULT''),
    (KR_MDCODE_DMAP_SETUP_OOM, ''KR_MDCODE_DMAP_SETUP_OOM''),
    (KR_MDCODE_PMM_META_OOM, ''KR_MDCODE_PMM_META_OOM''),
    (KR_MDCODE_PINNED_PAGE_RELINQUISHED, ''KR_MDCODE_PINNED_PAGE_RELINQUISHED''),
    (KR_MDCODE_RNA_INIT_FAILURE, ''KR_MDCODE_RNA_INIT_FAILURE''),
    (KR_MDCODE_KERNEL_ADDRESS_SPACE_CREATION_FAILURE, ''KR_MDCODE_KERNEL_ADDRESS_SPACE_CREATION_FAILURE''),
    (KR_MDCODE_KERNEL_HEAP_INITIALIZATION_FAILURE, ''KR_MDCODE_KERNEL_HEAP_INITIALIZATION_FAILURE''),
    (KR_MDCODE_MMIO_DEVICE_MAP_FAILURE, ''KR_MDCODE_MMIO_DEVICE_MAP_FAILURE''),
    (KR_MDCODE_AP_STACK_ALLOC_FAILURE, ''KR_MDCODE_AP_STACK_ALLOC_FAILURE''),
    (KR_MDCODE_IO_APICS_INIT_FAILURE, ''KR_MDCODE_IO_APICS_INIT_FAILURE''),
    (KR_MDCODE_GENERAL_DEBUG, ''KR_MDCODE_GENERAL_DEBUG''),
    (KR_MDCODE_KERNEL_START_RETURNS, ''KR_MDCODE_KERNEL_START_RETURNS''),
    (KR_MDCODE_DMAP_SETUP_DEVCHECK, ''KR_MDCODE_DMAP_SETUP_DEVCHECK''),
    (KR_MDCODE_ISSUE_IPI_DEVCHECK, ''KR_MDCODE_ISSUE_IPI_DEVCHECK''),
    (KR_MDCODE_HIGH_CR3_RESIDENT_DEVCHECK, ''KR_MDCODE_HIGH_CR3_RESIDENT_DEVCHECK''),
    (KR_MDCODE_AP_BOOTSTRAP_LOW_ID_MAP_FAIL, ''KR_MDCODE_AP_BOOTSTRAP_LOW_ID_MAP_FAIL''),
    (KR_MDCODE_BOGUS_NMI_REASON, ''KR_MDCODE_BOGUS_NMI_REASON''),
    (KR_MDCODE_ABSURD_CONCURRENT_SLEEPS, ''KR_MDCODE_ABSURD_CONCURRENT_SLEEPS''),
    (KR_MDCODE_SLEEP_INSIDE_TIMER_CALLBACK, ''KR_MDCODE_SLEEP_INSIDE_TIMER_CALLBACK''),
    (KR_MDCODE_DEADLOCK_DETECTED, ''KR_MDCODE_DEADLOCK_DETECTED''),
    (KR_MDCODE_UNOWNED_SPIN_UNLOCK, ''KR_MDCODE_UNOWNED_SPIN_UNLOCK''),
    (KR_MDCODE_CORRUPT_ACPI_RSDP, ''KR_MDCODE_CORRUPT_ACPI_RSDP''),
    (KR_MDCODE_ACPI_SDT_CHECKSUM_NV, ''KR_MDCODE_ACPI_SDT_CHECKSUM_NV''),
    (KR_MDCODE_ACPI_TABLE_NOT_FOUND, ''KR_MDCODE_ACPI_TABLE_NOT_FOUND''),
    (KR_MDCODE_ACPI_TABLE_CORRUPT, ''KR_MDCODE_ACPI_TABLE_CORRUPT'')]"

definition Krnlmddesc :: "MDCODE \<Rightarrow> string" where
  "Krnlmddesc mdCode = (case map_of mddesc_cases mdCode of Some s \<Rightarrow> s | None \<Rightarrow> ''IVLDMDCODE'')"

text \<open>
  The codes of the header are pairwise different, the names identify them, and every code but
  \<^verbatim>\<open>KR_MDCODE_NMI_NO_DATA_PROVIDED\<close>, which the table of names lacks, has a name.
\<close>

theorem mddesc_names_codes:
  "distinct mdcodes \<and> distinct (map snd mddesc_cases) \<and> set (map fst mddesc_cases) = set mdcodes - {KR_MDCODE_NMI_NO_DATA_PROVIDED} \<and>
    Krnlmddesc KR_MDCODE_NMI_NO_DATA_PROVIDED = ''IVLDMDCODE''"
proof (intro conjI)
  show "distinct mdcodes" by (simp add: mdcodes_def mdcode_defs)
  show "distinct (map snd mddesc_cases)" by (simp add: mddesc_cases_def)
  show "Krnlmddesc KR_MDCODE_NMI_NO_DATA_PROVIDED = ''IVLDMDCODE''" by code_simp
  show "set (map fst mddesc_cases) = set mdcodes - {KR_MDCODE_NMI_NO_DATA_PROVIDED}"
    by (auto simp: mdcodes_def mddesc_cases_def mdcode_defs)
qed

end
