(* ===== verification/Physmem.thy ===== *)
theory Physmem
  imports MemoryMap PageBitmap Spinlock Meltdown
begin

text \<open>
  The physical memory manager, \<^verbatim>\<open>Kernel/Source/Memory/Physmemmgmt.c\<close> and
  \<^verbatim>\<open>Kernel/Include/Memory/Physmemmgmt.h\<close>: the state \<^verbatim>\<open>g_StatePMM\<close> with
  its two bitmaps and the array of page metadata, initialisation, and the acquisition, relinquishing and
  reservation of pages. The two bitmaps are blocks of the bootstrap arena and do not overlap, so each is a
  function of its own from byte index to byte.
\<close>

section \<open>State\<close>

definition KR_PAGE_SIZE :: "'a::len word" where "KR_PAGE_SIZE = 4096"

definition PAGE_ACQ_SPARSE :: DWORD where "PAGE_ACQ_SPARSE = 1"
definition PAGE_ACQ_DENSE :: DWORD where "PAGE_ACQ_DENSE = 2"
definition PAGE_ACQ_BASE_OUT_ONLY :: DWORD where "PAGE_ACQ_BASE_OUT_ONLY = 4"
definition PAGE_ACQ_FOR_USER :: DWORD where "PAGE_ACQ_FOR_USER = 8"

definition PAGE_TYPE_INVALID :: BYTE where "PAGE_TYPE_INVALID = 0"
definition PAGE_TYPE_GENERAL :: BYTE where "PAGE_TYPE_GENERAL = 1"
definition PAGE_TYPE_PAGE_STRUCT :: BYTE where "PAGE_TYPE_PAGE_STRUCT = 2"
definition PAGE_TYPE_RNA :: BYTE where "PAGE_TYPE_RNA = 3"
definition PAGE_TYPE_BOOKKEEPING :: BYTE where "PAGE_TYPE_BOOKKEEPING = 4"
definition PAGE_TYPE_RESERVED :: BYTE where "PAGE_TYPE_RESERVED = 5"

definition PAGE_FLAG_PINNED :: BYTE where "PAGE_FLAG_PINNED = 1"
definition PAGE_FLAG_USER :: BYTE where "PAGE_FLAG_USER = 2"

record KrPhysicalPageMeta =
  RefCount :: WORD
  Auxiliary :: WORD
  Flags :: BYTE
  PgType :: BYTE

datatype PmmInitStage = PMM_INIT_STAGE_NONE | PMM_INIT_STAGE_BASIC | PMM_INIT_STAGE_BOOKKEEPING

fun stage_value :: "PmmInitStage \<Rightarrow> nat" where
  "stage_value PMM_INIT_STAGE_NONE = 0"
| "stage_value PMM_INIT_STAGE_BASIC = 1"
| "stage_value PMM_INIT_STAGE_BOOKKEEPING = 2"

text \<open>The code compares the stages as the integers of the enumeration.\<close>

instantiation PmmInitStage :: linorder
begin

definition less_eq_PmmInitStage :: "PmmInitStage \<Rightarrow> PmmInitStage \<Rightarrow> bool" where
  "less_eq_PmmInitStage x y \<longleftrightarrow> stage_value x \<le> stage_value y"

definition less_PmmInitStage :: "PmmInitStage \<Rightarrow> PmmInitStage \<Rightarrow> bool" where
  "less_PmmInitStage x y \<longleftrightarrow> stage_value x < stage_value y"

instance
proof
  fix x y z :: PmmInitStage
  show "x \<le> y \<Longrightarrow> y \<le> x \<Longrightarrow> x = y" by (cases x; cases y) (simp_all add: less_eq_PmmInitStage_def)
qed (auto simp: less_eq_PmmInitStage_def less_PmmInitStage_def)

end

lemmas stage_order = less_eq_PmmInitStage_def less_PmmInitStage_def

record KrPhysmemmgmtState =
  InitStage :: PmmInitStage
  PaddrMetaArray :: UINTPTR
  VaddrMetaArray :: UINTPTR
  MetaArray :: "PAGEID \<Rightarrow> KrPhysicalPageMeta"
  PaddrHighest :: UINTPTR
  pAdvisoryBitmap :: UINTPTR
  pPrimaryBitmap :: UINTPTR
  AdvisoryBitmap :: bitmap
  PrimaryBitmap :: bitmap
  BitmapSize :: SIZE
  NrPages :: UINT
  TotalPages :: ULONG
  UnusablePages :: ULONG
  AcquiredPages :: ULONG
  AcquireHint :: PAGEID
  PmSpinlock :: DWORD

section \<open>Queries\<close>

definition KrIsValidPageID :: "KrPhysmemmgmtState \<Rightarrow> PAGEID \<Rightarrow> bool" where
  "KrIsValidPageID g PageID \<longleftrightarrow> PageID \<noteq> IVLDPGID \<and> PageID < NrPages g"

text \<open>The product of a \<^verbatim>\<open>PAGEID\<close> and an \<^verbatim>\<open>int\<close> is computed in 32 bits and widened afterwards.\<close>

definition KrGetPhysicalPageAddress :: "KrPhysmemmgmtState \<Rightarrow> PAGEID \<Rightarrow> UINTPTR" where
  "KrGetPhysicalPageAddress g PageID =
     (if \<not> KrIsValidPageID g PageID then 0 else ucast (PageID * KR_PAGE_SIZE))"

definition KrGetPhysicalPageID :: "KrPhysmemmgmtState \<Rightarrow> UINTPTR \<Rightarrow> PAGEID" where
  "KrGetPhysicalPageID g PhysAddr =
     (if PhysAddr > PaddrHighest g then IVLDPGID else ucast (PhysAddr div KR_PAGE_SIZE))"

definition KrIsPhysicalPageReserved :: "KrPhysmemmgmtState \<Rightarrow> PAGEID \<Rightarrow> bool" where
  "KrIsPhysicalPageReserved g PageID \<longleftrightarrow>
     (if \<not> KrIsValidPageID g PageID then False
      else btest (AdvisoryBitmap g (unat (PageID div 8))) (unat (PageID mod 8)))"

definition KrGetPageMeta :: "KrPhysmemmgmtState \<Rightarrow> PAGEID \<Rightarrow> KrPhysicalPageMeta" where
  "KrGetPageMeta g PageID = MetaArray g PageID"

definition KrGetPhysmemmgmtState :: "KrPhysmemmgmtState \<Rightarrow> KrPhysmemmgmtState" where
  "KrGetPhysmemmgmtState g = g"

section \<open>Metadata and hints\<close>

function BulkMetaLoop :: "PAGEID \<Rightarrow> PAGEID \<Rightarrow> KrPhysicalPageMeta \<Rightarrow> (PAGEID \<Rightarrow> KrPhysicalPageMeta) \<Rightarrow>
    (PAGEID \<Rightarrow> KrPhysicalPageMeta)" where
  "BulkMetaLoop ID Limit m metas =
     (if ID < Limit then BulkMetaLoop (ID + 1) Limit m (metas(ID := m)) else metas)"
  by pat_completeness auto
termination
  by (relation "measure (\<lambda>(ID, Limit, m, metas). unat Limit - unat ID)")
    (auto simp: unat_Suc_less word_less_nat_alt)

declare BulkMetaLoop.simps [simp del]

definition KrBulkSetPagesMeta :: "KrPhysmemmgmtState \<Rightarrow> PAGEID \<Rightarrow> UINT \<Rightarrow> KrPhysicalPageMeta \<Rightarrow> KrPhysmemmgmtState" where
  "KrBulkSetPagesMeta g StartID N m = g\<lparr>MetaArray := BulkMetaLoop 0 (StartID + N) m (MetaArray g)\<rparr>"

definition KrReservePhysicalPage :: "KrPhysmemmgmtState \<Rightarrow> PAGEID \<Rightarrow> bool \<times> KrPhysmemmgmtState" where
  "KrReservePhysicalPage g PageID =
     (if \<not> KrIsValidPageID g PageID then (False, g)
      else
        let Index = unat (PageID div 8); Offset = unat (PageID mod 8)
        in if \<not> btest (PrimaryBitmap g Index) Offset then (False, g)
           else
             let g1 = g\<lparr>AdvisoryBitmap := (AdvisoryBitmap g)(Index := bset (AdvisoryBitmap g Index) Offset),
                        UnusablePages := UnusablePages g + 1\<rparr>
             in (True,
                 if InitStage g \<ge> PMM_INIT_STAGE_BOOKKEEPING
                 then g1\<lparr>MetaArray := (MetaArray g1)(PageID :=
                        (MetaArray g1 PageID)\<lparr>Flags := Flags (MetaArray g1 PageID) OR PAGE_FLAG_PINNED\<rparr>)\<rparr>
                 else g1))"

definition KrSetPhysicalPageAcquisitionHint :: "KrPhysmemmgmtState \<Rightarrow> PAGEID \<Rightarrow> bool \<times> KrPhysmemmgmtState" where
  "KrSetPhysicalPageAcquisitionHint g PageID =
     (if \<not> KrIsValidPageID g PageID then (False, g) else (True, g\<lparr>AcquireHint := PageID\<rparr>))"

section \<open>Acquisition\<close>

text \<open>
  \<open>HuntRegion\<close> is the inner loop over the bits of one byte of the primary bitmap, \<open>HuntLoop\<close> the
  outer loop over the bytes. \<open>out\<close> is the memory at \<^verbatim>\<open>pOutIDs\<close>.
\<close>

function HuntRegion :: "KrPhysmemmgmtState \<Rightarrow> DWORD \<Rightarrow> UINT \<Rightarrow> nat \<Rightarrow> nat \<Rightarrow> PAGEID \<Rightarrow> UINT \<Rightarrow>
    (nat \<Rightarrow> PAGEID) \<Rightarrow> PAGEID \<times> UINT \<times> (nat \<Rightarrow> PAGEID)" where
  "HuntRegion g dwMethod uToAcquire i BitOffset PageID uNoAcquired out =
     (if BitOffset < 8 \<and> uNoAcquired < uToAcquire then
        let (n, out') =
          (if btest (PrimaryBitmap g i) BitOffset \<or> KrIsPhysicalPageReserved g PageID
           then (if dwMethod AND PAGE_ACQ_DENSE \<noteq> 0 then 0 else uNoAcquired, out)
           else if dwMethod AND PAGE_ACQ_BASE_OUT_ONLY \<noteq> 0
           then (uNoAcquired + 1, if uNoAcquired = 0 then out(0 := PageID) else out)
           else (uNoAcquired + 1, out(unat uNoAcquired := PageID)))
        in HuntRegion g dwMethod uToAcquire i (BitOffset + 1) (PageID + 1) n out'
      else (PageID, uNoAcquired, out))"
  by pat_completeness auto
termination
  by (relation "measure (\<lambda>(g, m, u, i, b, p, n, out). 8 - b)") auto

declare HuntRegion.simps [simp del]

function HuntLoop :: "KrPhysmemmgmtState \<Rightarrow> DWORD \<Rightarrow> UINT \<Rightarrow> bool \<Rightarrow> PAGEID \<Rightarrow> nat \<Rightarrow> PAGEID \<Rightarrow> UINT \<Rightarrow>
    (nat \<Rightarrow> PAGEID) \<Rightarrow> UINT \<times> (nat \<Rightarrow> PAGEID)" where
  "HuntLoop g dwMethod uToAcquire bIsReroll InitialSearchID i PageID uNoAcquired out =
     (if i < unat (BitmapSize g) \<and> uNoAcquired < uToAcquire \<and> (if bIsReroll then PageID < InitialSearchID else True)
      then let (p, n, out') = HuntRegion g dwMethod uToAcquire i (unat (PageID mod 8)) PageID uNoAcquired out
           in HuntLoop g dwMethod uToAcquire bIsReroll InitialSearchID (i + 1) p n out'
      else (uNoAcquired, out))"
  by pat_completeness auto
termination
  by (relation "measure (\<lambda>(g, m, u, r, s, i, p, n, out). unat (BitmapSize g) - i)") auto

declare HuntLoop.simps [simp del]

text \<open>
  From the label \<^verbatim>\<open>Hunt\<close>: the search from the first page and, when it did not find
  enough, the search of the pages skipped; a dense streak does not survive the wrap-around.
\<close>

definition Hunt :: "KrPhysmemmgmtState \<Rightarrow> DWORD \<Rightarrow> UINT \<Rightarrow> PAGEID \<Rightarrow> (nat \<Rightarrow> PAGEID) \<Rightarrow> UINT \<times> (nat \<Rightarrow> PAGEID)" where
  "Hunt g dwMethod uToAcquire PageID out =
     (let (n1, out1) = HuntLoop g dwMethod uToAcquire False PageID (unat (PageID div 8)) PageID 0 out
      in if PageID \<noteq> 0 \<and> n1 < uToAcquire
         then HuntLoop g dwMethod uToAcquire True PageID 0 0
                (if dwMethod AND PAGE_ACQ_DENSE \<noteq> 0 then 0 else n1) out1
         else (n1, out1))"

text \<open>The run of consecutive identifiers at \<open>i\<close>: every entry is compared with entry \<open>i\<close> plus one.\<close>

function RunEnd :: "(nat \<Rightarrow> PAGEID) \<Rightarrow> nat \<Rightarrow> nat \<Rightarrow> nat \<Rightarrow> nat" where
  "RunEnd out n i j = (if j < n \<and> out i + 1 = out j then RunEnd out n i (j + 1) else j)"
  by pat_completeness auto
termination by (relation "measure (\<lambda>(out, n, i, j). n - j)") auto

declare RunEnd.simps [simp del]

lemma RunEnd_ge: "j \<le> RunEnd out n i j"
  by (induction out n i j rule: RunEnd.induct) (subst RunEnd.simps, auto)

definition SetPrimary :: "KrPhysmemmgmtState \<Rightarrow> PAGEID \<Rightarrow> SIZE \<Rightarrow> KrPhysmemmgmtState" where
  "SetPrimary g ID N = g\<lparr>PrimaryBitmap := snd (KrSetPhysicalPageStatus (PrimaryBitmap g) (NrPages g) ID N PAGE_ALLOCATED)\<rparr>"

definition ClaimRun :: "KrPhysmemmgmtState \<Rightarrow> KrPhysicalPageMeta \<Rightarrow> PAGEID \<Rightarrow> UINT \<Rightarrow> KrPhysmemmgmtState" where
  "ClaimRun g m ID N =
     (let g1 = SetPrimary g ID (ucast N)
      in if InitStage g1 \<ge> PMM_INIT_STAGE_BOOKKEEPING then KrBulkSetPagesMeta g1 ID N m else g1)"

function ClaimSparse :: "KrPhysmemmgmtState \<Rightarrow> KrPhysicalPageMeta \<Rightarrow> (nat \<Rightarrow> PAGEID) \<Rightarrow> nat \<Rightarrow> nat \<Rightarrow> KrPhysmemmgmtState" where
  "ClaimSparse g m out n i =
     (if i < n then let j = RunEnd out n i (i + 1) in ClaimSparse (ClaimRun g m (out i) (of_nat (j - i))) m out n j
      else g)"
  by pat_completeness auto
termination
proof (relation "measure (\<lambda>(g, m, out, n, i). n - i)")
  fix g :: KrPhysmemmgmtState and m out and n i j :: nat
  assume "i < n" "j = RunEnd out n i (i + 1)"
  then show "((ClaimRun g m (out i) (of_nat (j - i)), m, out, n, j), g, m, out, n, i) \<in>
      measure (\<lambda>(g, m, out, n, i). n - i)"
    using RunEnd_ge [of "i + 1" out n i] by simp
qed simp

declare ClaimSparse.simps [simp del]

definition pad_out :: "(nat \<Rightarrow> PAGEID) \<Rightarrow> nat \<Rightarrow> nat \<Rightarrow> (nat \<Rightarrow> PAGEID)" where
  "pad_out out n cap = (\<lambda>k. if n \<le> k \<and> k < cap then IVLDPGID else out k)"

definition UnlockPmm :: "KrPhysmemmgmtState \<Rightarrow> KrPhysmemmgmtState" where
  "UnlockPmm g = g\<lparr>PmSpinlock := RelinquishSpinlock (PmSpinlock g)\<rparr>"

definition AcquiredMeta :: "BYTE \<Rightarrow> DWORD \<Rightarrow> KrPhysicalPageMeta" where
  "AcquiredMeta PageType dwMethod = \<lparr>RefCount = 1, Auxiliary = 0,
     Flags = (if dwMethod AND PAGE_ACQ_FOR_USER \<noteq> 0 then PAGE_FLAG_USER else 0), PgType = PageType\<rparr>"

definition PmAcquirePages :: "KrPhysmemmgmtState \<Rightarrow> (nat \<Rightarrow> PAGEID) \<Rightarrow> UINT \<Rightarrow> BYTE \<Rightarrow> DWORD \<Rightarrow> PAGEID \<Rightarrow>
    (DWORD \<times> (nat \<Rightarrow> PAGEID) \<times> KrPhysmemmgmtState) kres" where
  "PmAcquirePages g out uToAcquire PageType dwMethod HintID =
    (if uToAcquire = 0 then Inr (0, out, g)
     else if (dwMethod AND PAGE_ACQ_SPARSE \<noteq> 0 \<and> dwMethod AND PAGE_ACQ_DENSE \<noteq> 0) \<or>
             (dwMethod AND PAGE_ACQ_SPARSE \<noteq> 0 \<and> dwMethod AND PAGE_ACQ_BASE_OUT_ONLY \<noteq> 0)
     then Inr (0, out, g)
     else kbind (AcquireOrWaitSpinlock (PmSpinlock g)) (\<lambda>l.
       let g0 = g\<lparr>PmSpinlock := l\<rparr>;
           PageID = (if HintID = IVLDPGID then (if AcquireHint g0 = IVLDPGID then 0 else AcquireHint g0) else HintID)
       in if \<not> KrIsValidPageID g0 PageID then Inr (0, out, UnlockPmm g0)
          else
            let (n2, out2) = Hunt g0 dwMethod uToAcquire PageID out
            in if n2 = 0 then Inr (0, out2, UnlockPmm g0)
               else
                 let out3 = (if dwMethod AND PAGE_ACQ_BASE_OUT_ONLY \<noteq> 0 then out2
                             else pad_out out2 (unat n2) (unat uToAcquire));
                     m = AcquiredMeta PageType dwMethod;
                     g1 = (if dwMethod AND PAGE_ACQ_DENSE \<noteq> 0 then ClaimRun g0 m (out3 0) n2
                           else ClaimSparse g0 m out3 (unat n2) 0);
                     g2 = g1\<lparr>AcquiredPages := AcquiredPages g1 + ucast n2,
                             AcquireHint := (if dwMethod AND PAGE_ACQ_BASE_OUT_ONLY \<noteq> 0 then out3 0 + n2
                                             else out3 (unat (n2 - 1)) + 1)\<rparr>
                 in Inr (n2, out3, UnlockPmm g2)))"

definition PmAcquirePage :: "KrPhysmemmgmtState \<Rightarrow> BYTE \<Rightarrow> PAGEID \<Rightarrow> (PAGEID \<times> KrPhysmemmgmtState) kres" where
  "PmAcquirePage g PageType HintID =
     kbind (PmAcquirePages g (\<lambda>_. IVLDPGID) 1 PageType PAGE_ACQ_SPARSE HintID)
       (\<lambda>(n, out, g'). Inr (if n \<noteq> 0 then out 0 else IVLDPGID, g'))"

section \<open>Relinquishing\<close>

definition ReleaseBit :: "KrPhysmemmgmtState \<Rightarrow> PAGEID \<Rightarrow> bool \<times> KrPhysmemmgmtState" where
  "ReleaseBit g PageID =
     (let Index = unat (PageID div 8); BitOffset = unat (PageID mod 8)
      in if Index \<ge> unat (BitmapSize g) then (False, UnlockPmm g)
         else if btest (PrimaryBitmap g Index) BitOffset
         then (True, UnlockPmm (g\<lparr>PrimaryBitmap := (PrimaryBitmap g)(Index := bclr (PrimaryBitmap g Index) BitOffset),
                                 AcquiredPages := AcquiredPages g - 1\<rparr>))
         else (False, UnlockPmm g))"

definition PmRelinquishPage :: "KrPhysmemmgmtState \<Rightarrow> PAGEID \<Rightarrow> (bool \<times> KrPhysmemmgmtState) kres" where
  "PmRelinquishPage g PageID =
     (if KrIsPhysicalPageReserved g PageID then Inr (False, g)
      else kbind (AcquireOrWaitSpinlock (PmSpinlock g)) (\<lambda>l.
        let g0 = g\<lparr>PmSpinlock := l\<rparr>
        in if InitStage g0 \<ge> PMM_INIT_STAGE_BOOKKEEPING
           then
             let m = KrGetPageMeta g0 PageID
             in if Flags m AND PAGE_FLAG_PINNED \<noteq> 0 then Inl (Meltdown KR_MDCODE_PINNED_PAGE_RELINQUISHED)
                else if RefCount m = 0 then Inr (False, UnlockPmm g0)
                else
                  let g1 = g0\<lparr>MetaArray := (MetaArray g0)(PageID := m\<lparr>RefCount := RefCount m - 1\<rparr>)\<rparr>
                  in if RefCount m - 1 \<noteq> 0 then Inr (True, UnlockPmm g1) else Inr (ReleaseBit g1 PageID)
           else Inr (ReleaseBit g0 PageID)))"

section \<open>Initialisation\<close>

definition pmm_zero :: KrPhysmemmgmtState where
  "pmm_zero = \<lparr>InitStage = PMM_INIT_STAGE_NONE, PaddrMetaArray = 0, VaddrMetaArray = 0,
     MetaArray = (\<lambda>_. \<lparr>RefCount = 0, Auxiliary = 0, Flags = 0, PgType = 0\<rparr>), PaddrHighest = 0,
     pAdvisoryBitmap = 0, pPrimaryBitmap = 0, AdvisoryBitmap = (\<lambda>_. 0), PrimaryBitmap = (\<lambda>_. 0),
     BitmapSize = 0, NrPages = 0, TotalPages = 0, UnusablePages = 0, AcquiredPages = 0, AcquireHint = 0,
     PmSpinlock = 0\<rparr>"

text \<open>The first pass over the firmware map and the second over the canonical map.\<close>

definition DiscoverRegion :: "KrMemoryDescriptor \<Rightarrow> KrPhysmemmgmtState \<Rightarrow> KrPhysmemmgmtState" where
  "DiscoverRegion d g0 =
     (let g = g0\<lparr>TotalPages := TotalPages g0 + PageCount d\<rparr>
      in if KrIsUsableMemoryRegionType (Type d)
         then (let AddrRegionEnd = PhysicalBase d + PageCount d * KR_PAGE_SIZE
               in if AddrRegionEnd > PaddrHighest g then g\<lparr>PaddrHighest := AddrRegionEnd\<rparr> else g)
         else g\<lparr>UnusablePages := UnusablePages g + PageCount d\<rparr>)"

definition SetAdvisory :: "PAGEID \<Rightarrow> SIZE \<Rightarrow> BYTE \<Rightarrow> KrPhysmemmgmtState \<Rightarrow> KrPhysmemmgmtState" where
  "SetAdvisory ID N st g = g\<lparr>AdvisoryBitmap := snd (KrSetPhysicalPageStatus (AdvisoryBitmap g) (NrPages g) ID N st)\<rparr>"

definition FreeRegion :: "KrMemoryDescriptor \<Rightarrow> KrPhysmemmgmtState \<Rightarrow> KrPhysmemmgmtState" where
  "FreeRegion d g =
     (let idPage = PhysicalBase d div KR_PAGE_SIZE;
          g1 = (if AcquireHint g = 0 \<or> AcquireHint g = IVLDPGID then g\<lparr>AcquireHint := ucast idPage\<rparr> else g)
      in SetAdvisory (ucast idPage) (PageCount d) PAGE_FREE g1)"

definition MeasurePages :: "KrPhysmemmgmtState \<Rightarrow> KrPhysmemmgmtState" where
  "MeasurePages g =
     (let nr = ucast ((PaddrHighest g + KR_PAGE_SIZE - 1) div KR_PAGE_SIZE)
      in g\<lparr>NrPages := nr, BitmapSize := ucast ((nr + 7) div 8)\<rparr>)"

definition BuildAdvisory :: "KrMemoryDescriptor list \<Rightarrow> UINTPTR \<Rightarrow> SIZE \<Rightarrow> KrPhysmemmgmtState \<Rightarrow> KrPhysmemmgmtState" where
  "BuildAdvisory Canonical AddrPhysicalBase ReserveSize g =
     (let g1 = g\<lparr>AdvisoryBitmap := (\<lambda>k. if k < unat (BitmapSize g) then 0xFF else AdvisoryBitmap g k)\<rparr>;
          g2 = fold FreeRegion Canonical g1;
          g3 = SetAdvisory (ucast (AddrPhysicalBase div KR_PAGE_SIZE)) (ReserveSize div KR_PAGE_SIZE) PAGE_ALLOCATED g2
      in SetAdvisory 0 (1024 * 1024 div KR_PAGE_SIZE) PAGE_ALLOCATED g3)"

definition CopyPrimary :: "KrPhysmemmgmtState \<Rightarrow> KrPhysmemmgmtState" where
  "CopyPrimary g = g\<lparr>PrimaryBitmap := (\<lambda>k. if k < unat (BitmapSize g) then AdvisoryBitmap g k else PrimaryBitmap g k)\<rparr>"

definition KrInitPhysmemmgmt :: "KrPhysmemmgmtState \<Rightarrow> arena \<Rightarrow> KrMemoryDescriptor list \<Rightarrow> KrMemoryDescriptor list \<Rightarrow>
    UINTPTR \<Rightarrow> SIZE \<Rightarrow> bool \<times> arena \<times> KrPhysmemmgmtState" where
  "KrInitPhysmemmgmt g a MemMap Canonical AddrPhysicalBase ReserveSize =
    (if InitStage g > PMM_INIT_STAGE_NONE then (False, a, g)
     else
       let g1 = MeasurePages (fold DiscoverRegion MemMap g);
           (pA, a1) = KrBootstrapArenaAcquire a (BitmapSize g1);
           g2 = g1\<lparr>pAdvisoryBitmap := pA\<rparr>
       in if pA = 0 then (False, a1, g2)
          else
            let g3 = BuildAdvisory Canonical AddrPhysicalBase ReserveSize g2;
                (pP, a2) = KrBootstrapArenaAcquire a1 (BitmapSize g3);
                g4 = g3\<lparr>pPrimaryBitmap := pP\<rparr>
            in if pP = 0 then (False, a2, g4)
               else (True, a2, (CopyPrimary g4)\<lparr>InitStage := PMM_INIT_STAGE_BASIC\<rparr>))"

function RelinquishRange :: "PAGEID \<Rightarrow> PAGEID \<Rightarrow> KrPhysmemmgmtState \<Rightarrow> KrPhysmemmgmtState kres" where
  "RelinquishRange ID Limit g =
     (if ID < Limit then kbind (PmRelinquishPage g ID) (\<lambda>(_, g'). RelinquishRange (ID + 1) Limit g') else Inr g)"
  by pat_completeness auto
termination
  by (relation "measure (\<lambda>(ID, Limit, g). unat Limit - unat ID)") (auto simp: unat_Suc_less word_less_nat_alt)

declare RelinquishRange.simps [simp del]

definition ReserveMeta :: "PAGEID \<Rightarrow> KrPhysmemmgmtState \<Rightarrow> KrPhysmemmgmtState" where
  "ReserveMeta ID g = g\<lparr>MetaArray := (MetaArray g)(ID := (MetaArray g ID)\<lparr>RefCount := 1, PgType := PAGE_TYPE_RESERVED\<rparr>)\<rparr>"

definition ReserveAcquired :: "KrPhysmemmgmtState \<Rightarrow> KrPhysmemmgmtState" where
  "ReserveAcquired g =
     fold (\<lambda>i g. let PagesState = PrimaryBitmap g i
                 in fold (\<lambda>j g. if btest PagesState j then ReserveMeta (of_nat (i * 8 + j)) g else g) [0..<8] g)
       [0..<unat (BitmapSize g)] g"

text \<open>
  \<open>PhysToVirt\<close> is \<^verbatim>\<open>KrPhysToVirt\<close> of the virtual memory manager. A metadata entry is six bytes;
  the entries that lie wholly in the zeroed pages are zeroed.
\<close>

definition KrInitPhysMetaArray :: "(UINTPTR \<Rightarrow> UINTPTR) \<Rightarrow> KrPhysmemmgmtState \<Rightarrow> (bool \<times> KrPhysmemmgmtState) kres" where
  "KrInitPhysMetaArray PhysToVirt g =
    (if InitStage g < PMM_INIT_STAGE_BASIC \<or> InitStage g > PMM_INIT_STAGE_BOOKKEEPING then Inr (False, g)
     else
       let MetasPerPhysicalPage = KR_PAGE_SIZE div 6 :: UINT;
           Needed = ucast (KR_CEILDIV (TotalPages g) (ucast MetasPerPhysicalPage)) :: UINT
       in kbind (PmAcquirePages g (\<lambda>_. 0) Needed PAGE_TYPE_BOOKKEEPING (PAGE_ACQ_DENSE OR PAGE_ACQ_BASE_OUT_ONLY) IVLDPGID)
            (\<lambda>(n, out, g1).
              let BasePage = out 0
              in if n < Needed then kbind (RelinquishRange BasePage (BasePage + n) g1) (\<lambda>g2. Inr (False, g2))
                 else
                   let pa = KrGetPhysicalPageAddress g1 BasePage;
                       g2 = g1\<lparr>PaddrMetaArray := pa, VaddrMetaArray := PhysToVirt pa,
                               MetaArray := (\<lambda>ID. if unat ID * 6 + 6 \<le> unat (n * KR_PAGE_SIZE)
                                  then \<lparr>RefCount = 0, Auxiliary = 0, Flags = 0, PgType = 0\<rparr> else MetaArray g1 ID)\<rparr>
                   in Inr (True, ReserveAcquired g2)))"

end
