(* ===== verification/PhysmemAcquire.thy ===== *)
theory PhysmemAcquire
  imports Physmem
begin

text \<open>
  What the physical memory manager promises: the invariant \<open>pmm_ok\<close>, the two search loops of
  \<^verbatim>\<open>PmAcquirePages\<close> as one scan over page numbers, and the behaviour of acquisition,
  relinquishing, reservation and initialisation in terms of the set of taken pages.
\<close>

section \<open>Pages as numbers\<close>

definition taken :: "KrPhysmemmgmtState \<Rightarrow> nat \<Rightarrow> bool" where
  "taken g p \<longleftrightarrow> page_bit (PrimaryBitmap g) p"

definition reserved :: "KrPhysmemmgmtState \<Rightarrow> nat \<Rightarrow> bool" where
  "reserved g p \<longleftrightarrow> p < unat (NrPages g) \<and> page_bit (AdvisoryBitmap g) p"

definition free_page :: "KrPhysmemmgmtState \<Rightarrow> nat \<Rightarrow> bool" where
  "free_page g p \<longleftrightarrow> \<not> taken g p \<and> \<not> reserved g p"

definition bitmap_pages :: "KrPhysmemmgmtState \<Rightarrow> nat" where
  "bitmap_pages g = 8 * unat (BitmapSize g)"

text \<open>
  The bitmap has one bit for every page and at most seven more; those are set, and so are the bits
  of reserved pages. Between two calls nobody holds the lock.
\<close>

definition pmm_wf :: "KrPhysmemmgmtState \<Rightarrow> bool" where
  "pmm_wf g \<longleftrightarrow> unat (NrPages g) + 7 < 2 ^ 32 \<and> unat (BitmapSize g) = (unat (NrPages g) + 7) div 8 \<and>
     (\<forall>p. unat (NrPages g) \<le> p \<and> p < bitmap_pages g \<longrightarrow> taken g p) \<and>
     (\<forall>p. reserved g p \<longrightarrow> taken g p)"

definition pmm_ok :: "KrPhysmemmgmtState \<Rightarrow> bool" where
  "pmm_ok g \<longleftrightarrow> pmm_wf g \<and> PmSpinlock g = 0"

lemma pmm_wf_bounds:
  assumes "pmm_wf g"
  shows "unat (NrPages g) + 7 < 2 ^ 32" "unat (NrPages g) \<le> bitmap_pages g" "bitmap_pages g < 2 ^ 32"
proof -
  let ?n = "unat (NrPages g)"
  have a: "?n + 7 < 2 ^ 32" "bitmap_pages g = 8 * ((?n + 7) div 8)"
    using assms by (simp_all add: pmm_wf_def bitmap_pages_def)
  then show "?n + 7 < 2 ^ 32" by simp
  have "8 * ((?n + 7) div 8) \<le> ?n + 7" by simp
  with a show "bitmap_pages g < 2 ^ 32" by simp
  have "?n \<le> 8 * ((?n + 7) div 8)" by presburger
  with a show "?n \<le> bitmap_pages g" by simp
qed

lemma free_page_valid: "pmm_wf g \<Longrightarrow> free_page g p \<Longrightarrow> p < bitmap_pages g \<Longrightarrow> p < unat (NrPages g)"
  by (meson free_page_def not_le pmm_wf_def)

lemma free_page_taken: "pmm_wf g \<Longrightarrow> free_page g p \<longleftrightarrow> \<not> taken g p"
  by (auto simp: free_page_def pmm_wf_def)

lemma unat_page: "p < 2 ^ 32 \<Longrightarrow> unat (of_nat p :: PAGEID) = p"
  by (simp add: unat_of_nat_small)

lemma page_div_mod:
  assumes "p < 2 ^ 32"
  shows "unat ((of_nat p :: PAGEID) div 8) = p div 8" "unat ((of_nat p :: PAGEID) mod 8) = p mod 8"
  using unat_page [OF assms] by (simp_all add: unat_div unat_mod)

lemma valid_page:
  assumes "pmm_wf g" "p < 2 ^ 32"
  shows "KrIsValidPageID g (of_nat p) \<longleftrightarrow> p < unat (NrPages g)"
proof -
  have "unat IVLDPGID = 2 ^ 32 - 1"
    by (simp add: IVLDPGID_def unsigned_minus_1_eq_mask mask_eq_exp_minus_1)
  then have "of_nat p = IVLDPGID \<Longrightarrow> p = 2 ^ 32 - 1"
    using unat_page [OF assms(2)] by simp
  then show ?thesis
    using unat_page [OF assms(2)] pmm_wf_bounds(1) [OF assms(1)]
    by (auto simp: KrIsValidPageID_def word_less_nat_alt)
qed

lemma reserved_page:
  assumes "pmm_wf g" "p < 2 ^ 32"
  shows "KrIsPhysicalPageReserved g (of_nat p) \<longleftrightarrow> reserved g p"
  using valid_page [OF assms] page_div_mod [OF assms(2)]
  by (simp add: KrIsPhysicalPageReserved_def reserved_def page_bit_def btest_bit)

section \<open>The search as a scan\<close>

definition dense :: "DWORD \<Rightarrow> bool" where "dense m \<longleftrightarrow> m AND PAGE_ACQ_DENSE \<noteq> 0"
definition base_only :: "DWORD \<Rightarrow> bool" where "base_only m \<longleftrightarrow> m AND PAGE_ACQ_BASE_OUT_ONLY \<noteq> 0"

definition hunt_step :: "KrPhysmemmgmtState \<Rightarrow> DWORD \<Rightarrow> nat \<Rightarrow> UINT \<times> (nat \<Rightarrow> PAGEID) \<Rightarrow> UINT \<times> (nat \<Rightarrow> PAGEID)" where
  "hunt_step g m p s =
     (if \<not> free_page g p then (if dense m then 0 else fst s, snd s)
      else if base_only m then (fst s + 1, if fst s = 0 then (snd s)(0 := of_nat p) else snd s)
      else (fst s + 1, (snd s)(unat (fst s) := of_nat p)))"

primrec scan :: "KrPhysmemmgmtState \<Rightarrow> DWORD \<Rightarrow> UINT \<Rightarrow> nat list \<Rightarrow> UINT \<times> (nat \<Rightarrow> PAGEID) \<Rightarrow> UINT \<times> (nat \<Rightarrow> PAGEID)" where
  "scan g m need [] s = s"
| "scan g m need (p # ps) s = (if fst s < need then scan g m need ps (hunt_step g m p s) else s)"

lemma scan_done: "\<not> fst s < need \<Longrightarrow> scan g m need ps s = s"
  by (cases ps) auto

lemma scan_append: "scan g m need (xs @ ys) s = scan g m need ys (scan g m need xs s)"
  by (induction xs arbitrary: s) (auto simp: scan_done)

lemma HuntRegion_scan:
  assumes "pmm_wf g" "8 * i + 8 < 2 ^ 32" "b \<le> 8"
  shows "\<exists>P. HuntRegion g m need i b (of_nat (8 * i + b)) n out = (P, scan g m need [8 * i + b..<8 * i + 8] (n, out)) \<and>
    (fst (scan g m need [8 * i + b..<8 * i + 8] (n, out)) < need \<longrightarrow> P = of_nat (8 * i + 8))"
  using assms(3)
proof (induction "8 - b" arbitrary: b n out)
  case 0
  then show ?case by (subst HuntRegion.simps) (auto simp: algebra_simps)
next
  case (Suc d)
  let ?p = "8 * i + b"
  have b: "b < 8" "?p < 2 ^ 32" "d = 8 - (b + 1)" using Suc assms(2) by auto
  have l: "[?p..<8 * i + 8] = ?p # [8 * i + (b + 1)..<8 * i + 8]"
    using b(1) by (simp add: upt_conv_Cons)
  show ?case
  proof (cases "n < need")
    case False
    then show ?thesis by (subst HuntRegion.simps) (simp add: scan_done)
  next
    case True
    have f: "btest (PrimaryBitmap g i) b \<or> KrIsPhysicalPageReserved g (of_nat ?p) \<longleftrightarrow> \<not> free_page g ?p"
      using b(1) reserved_page [OF assms(1) b(2)] by (simp add: free_page_def taken_def page_bit_def btest_bit)
    obtain n' out' where st: "hunt_step g m ?p (n, out) = (n', out')" by fastforce
    have "HuntRegion g m need i b (of_nat ?p) n out = HuntRegion g m need i (b + 1) (of_nat (8 * i + (b + 1))) n' out'"
      using st True b(1) unfolding HuntRegion.simps [of g m need i b] f
      by (auto simp: hunt_step_def dense_def base_only_def Let_def algebra_simps split: if_splits)
    then show ?thesis using Suc.hyps(1) [OF b(3), of n' out'] b(1) True st by (simp only: l) simp
  qed
qed

lemma upt_append_le: "a \<le> b \<Longrightarrow> b \<le> c \<Longrightarrow> [a..<c] = [a..<b] @ [b..<c]"
  by (metis le_Suc_ex upt_add_eq_append)

lemma HuntLoop_scan:
  assumes "pmm_wf g" "b < 8" "8 * i + b < 2 ^ 32"
  shows "HuntLoop g m need False S i (of_nat (8 * i + b)) n out = scan g m need [8 * i + b..<bitmap_pages g] (n, out)"
  using assms(2,3)
proof (induction "unat (BitmapSize g) - i" arbitrary: i b n out)
  case 0
  then show ?case by (subst HuntLoop.simps) (simp add: bitmap_pages_def)
next
  case (Suc d)
  have i: "i < unat (BitmapSize g)" "8 * i + 8 \<le> bitmap_pages g" "8 * i + 8 < 2 ^ 32"
    using Suc.hyps(2) pmm_wf_bounds(3) [OF assms(1)] by (simp_all add: bitmap_pages_def)
  show ?case
  proof (cases "n < need")
    case False
    then show ?thesis by (subst HuntLoop.simps) (simp add: scan_done)
  next
    case True
    have pm: "unat ((of_nat (8 * i + b) :: PAGEID) mod 8) = b"
      using page_div_mod(2) [OF Suc.prems(2)] Suc.prems(1) by simp
    let ?s = "scan g m need [8 * i + b..<8 * i + 8] (n, out)"
    obtain P where P: "HuntRegion g m need i b (of_nat (8 * i + b)) n out = (P, ?s)"
        "fst ?s < need \<Longrightarrow> P = of_nat (8 * i + 8)"
      using HuntRegion_scan [OF assms(1) i(3), of b] Suc.prems(1) by (metis less_imp_le)
    have split: "[8 * i + b..<bitmap_pages g] = [8 * i + b..<8 * i + 8] @ [8 * i + 8..<bitmap_pages g]"
      using i(2) Suc.prems(1) upt_append_le [of "8 * i + b" "8 * i + 8" "bitmap_pages g"] by simp
    have eq: "HuntLoop g m need False S i (of_nat (8 * i + b)) n out = HuntLoop g m need False S (i + 1) P (fst ?s) (snd ?s)"
      using True i(1) P(1) by (subst HuntLoop.simps) (simp add: pm del: of_nat_add of_nat_mult split: prod.splits)
    show ?thesis
    proof (cases "fst ?s < need")
      case False
      then show ?thesis unfolding eq split scan_append by (subst HuntLoop.simps) (simp add: scan_done)
    next
      case t: True
      have "HuntLoop g m need False S (i + 1) (of_nat (8 * (i + 1) + 0)) (fst ?s) (snd ?s) =
          scan g m need [8 * (i + 1) + 0..<bitmap_pages g] (fst ?s, snd ?s)"
        using Suc.hyps(2) i(3) by (intro Suc.hyps(1)) auto
      then show ?thesis unfolding eq split scan_append P(2) [OF t] by (simp add: algebra_simps)
    qed
  qed
qed

text \<open>The bound of the second search is tested once per byte, so it runs to the end of the byte of the first page.\<close>

definition round8 :: "nat \<Rightarrow> nat" where "round8 s = 8 * ((s + 7) div 8)"

lemma round8_less: "8 * i < s \<longleftrightarrow> 8 * i < round8 s" "8 * i < s \<Longrightarrow> 8 * i + 8 \<le> round8 s"
proof -
  have "s \<le> round8 s" "round8 s < s + 8" "8 dvd round8 s"
    using nat_round_up [of 8 s] by (simp_all add: round8_def mult.commute)
  then obtain k where "round8 s = 8 * k" "s \<le> 8 * k" "8 * k < s + 8" by auto
  moreover have "i < k" if "8 * i < s" using that \<open>s \<le> 8 * k\<close> by linarith
  ultimately show "8 * i < s \<longleftrightarrow> 8 * i < round8 s" "8 * i < s \<Longrightarrow> 8 * i + 8 \<le> round8 s" by fastforce+
qed

lemma HuntLoop_reroll_scan:
  assumes "pmm_wf g" "unat S \<le> unat (NrPages g)" "8 * i < 2 ^ 32"
  shows "HuntLoop g m need True S i (of_nat (8 * i)) n out = scan g m need [8 * i..<round8 (unat S)] (n, out)"
  using assms(3)
proof (induction "unat (BitmapSize g) - i" arbitrary: i n out)
  case 0
  have "round8 (unat S) \<le> bitmap_pages g"
    using assms(1,2) by (simp add: round8_def bitmap_pages_def pmm_wf_def div_le_mono)
  with 0 show ?case by (subst HuntLoop.simps) (simp add: bitmap_pages_def)
next
  case (Suc d)
  have i: "i < unat (BitmapSize g)" "8 * i + 8 < 2 ^ 32"
    using Suc.hyps(2) pmm_wf_bounds(3) [OF assms(1)] by (simp_all add: bitmap_pages_def)
  have lt: "(of_nat (8 * i) < S) = (8 * i < unat S)"
    using Suc.prems by (intro word_of_nat_less) simp
  have rd: "8 * i < unat S \<longleftrightarrow> 8 * i < round8 (unat S)" "8 * i < unat S \<Longrightarrow> 8 * i + 8 \<le> round8 (unat S)"
    by (rule round8_less)+
  show ?case
  proof (cases "n < need \<and> 8 * i < unat S")
    case False
    then show ?thesis
      using lt rd(1) by (subst HuntLoop.simps) (auto simp: scan_done)
  next
    case True
    have pm: "unat ((of_nat (8 * i) :: PAGEID) mod 8) = 0"
      using page_div_mod(2) [OF Suc.prems] by simp
    let ?s = "scan g m need [8 * i..<8 * i + 8] (n, out)"
    obtain P where P: "HuntRegion g m need i 0 (of_nat (8 * i)) n out = (P, ?s)"
        "fst ?s < need \<Longrightarrow> P = of_nat (8 * i + 8)"
      using HuntRegion_scan [OF assms(1) i(2), of 0 m need n out] by auto
    have split: "[8 * i..<round8 (unat S)] = [8 * i..<8 * i + 8] @ [8 * i + 8..<round8 (unat S)]"
      using rd(2) True upt_append_le [of "8 * i" "8 * i + 8" "round8 (unat S)"] by simp
    have eq: "HuntLoop g m need True S i (of_nat (8 * i)) n out = HuntLoop g m need True S (i + 1) P (fst ?s) (snd ?s)"
      using True i(1) P(1) lt by (subst HuntLoop.simps) (simp add: pm del: of_nat_add of_nat_mult split: prod.splits)
    show ?thesis
    proof (cases "fst ?s < need")
      case False
      then show ?thesis unfolding eq split scan_append by (subst HuntLoop.simps) (simp add: scan_done)
    next
      case t: True
      have "HuntLoop g m need True S (i + 1) (of_nat (8 * (i + 1))) (fst ?s) (snd ?s) =
          scan g m need [8 * (i + 1)..<round8 (unat S)] (fst ?s, snd ?s)"
        using Suc.hyps(2) i(2) by (intro Suc.hyps(1)) auto
      then show ?thesis unfolding eq split scan_append P(2) [OF t] by (simp add: algebra_simps)
    qed
  qed
qed

section \<open>What the scan finds\<close>

definition write_out :: "(nat \<Rightarrow> PAGEID) \<Rightarrow> nat \<Rightarrow> nat list \<Rightarrow> (nat \<Rightarrow> PAGEID)" where
  "write_out out k fs = (\<lambda>j. if k \<le> j \<and> j < k + length fs then of_nat (fs ! (j - k)) else out j)"

lemma write_out_Nil [simp]: "write_out out k [] = out"
  by (rule ext) (auto simp: write_out_def)

lemma write_out_Cons: "write_out out k (p # fs) = write_out (out(k := of_nat p)) (Suc k) fs"
  by (rule ext) (auto simp: write_out_def nth_Cons' Suc_diff_le less_Suc_eq_le not_less_eq_eq)

lemma write_out_append: "write_out (write_out out k xs) (k + length xs) ys = write_out out k (xs @ ys)"
  by (rule ext) (auto simp: write_out_def nth_append)

lemma scan_sparse:
  assumes "\<not> dense m" "\<not> base_only m" "k \<le> unat need"
  shows "scan g m need ps (of_nat k, out) =
    (of_nat (k + length (take (unat need - k) (filter (free_page g) ps))),
     write_out out k (take (unat need - k) (filter (free_page g) ps)))"
  using assms(3)
proof (induction ps arbitrary: k out)
  case (Cons p ps)
  have uk: "unat (of_nat k :: UINT) = k" using Cons.prems unat_dword_lt [of need] by (simp add: unat_of_nat_small)
  have lt: "(of_nat k :: UINT) < need \<longleftrightarrow> k < unat need" by (simp add: word_less_nat_alt uk)
  show ?case
  proof (cases "k < unat need")
    case True
    then obtain d where d: "unat need - k = Suc d" "unat need - Suc k = d" by (metis Suc_diff_Suc)
    show ?thesis
    proof (cases "free_page g p")
      case f: True
      have "scan g m need (p # ps) (of_nat k, out) = scan g m need ps (of_nat (Suc k), out(k := of_nat p))"
        using True lt f assms(1,2) uk by (simp add: hunt_step_def algebra_simps)
      then show ?thesis using Cons.IH [of "Suc k"] True f d by (simp add: write_out_Cons algebra_simps)
    next
      case f: False
      then show ?thesis using Cons.IH [of k] True lt assms(1) by (simp add: hunt_step_def)
    qed
  next
    case False
    then show ?thesis using lt by simp
  qed
qed simp

text \<open>In dense mode the last \<open>n\<close> pages before the position are free and listed in order.\<close>

definition dense_run :: "KrPhysmemmgmtState \<Rightarrow> DWORD \<Rightarrow> nat \<Rightarrow> nat \<Rightarrow> UINT \<times> (nat \<Rightarrow> PAGEID) \<Rightarrow> bool" where
  "dense_run g m a p s \<longleftrightarrow> a + unat (fst s) \<le> p \<and> (\<forall>q. p - unat (fst s) \<le> q \<and> q < p \<longrightarrow> free_page g q) \<and>
     (fst s \<noteq> 0 \<longrightarrow> snd s 0 = of_nat (p - unat (fst s))) \<and>
     (\<not> base_only m \<longrightarrow> (\<forall>j < unat (fst s). snd s j = of_nat (p - unat (fst s) + j)))"

lemma dense_run_0: "a \<le> p \<Longrightarrow> dense_run g m a p (0, out)"
  by (auto simp: dense_run_def)

lemma dense_run_step:
  assumes "dense m" "dense_run g m a p s" "fst s < need"
  shows "dense_run g m a (Suc p) (hunt_step g m p s)"
proof (cases "free_page g p")
  case False
  have "a \<le> Suc p" using assms(2) by (auto simp: dense_run_def)
  then show ?thesis using False assms(1) by (auto simp: hunt_step_def dense_run_def)
next
  case True
  have u: "unat (fst s + 1) = unat (fst s) + 1" using assms(3) by (rule unat_Suc_less)
  have free: "free_page g q" if "p - unat (fst s) \<le> q" "q < Suc p" for q
    using that True assms(2) by (auto simp: dense_run_def less_Suc_eq)
  have r: "a + unat (fst s) \<le> p" "fst s \<noteq> 0 \<Longrightarrow> snd s 0 = of_nat (p - unat (fst s))"
      "\<not> base_only m \<Longrightarrow> j < unat (fst s) \<Longrightarrow> snd s j = of_nat (p - unat (fst s) + j)" for j
    using assms(2) by (auto simp: dense_run_def)
  have z: "fst s = 0 \<longleftrightarrow> unat (fst s) = 0" by (simp add: unat_eq_0)
  show ?thesis
    using True r free by (auto simp: hunt_step_def dense_run_def u z less_Suc_eq)
qed

lemma dense_run_scan:
  assumes "dense m" "dense_run g m a p s" "p \<le> c"
  shows "\<exists>p' \<le> c. dense_run g m a p' (scan g m need [p..<c] s)"
  using assms(2,3)
proof (induction "c - p" arbitrary: p s)
  case (Suc d)
  have l: "[p..<c] = p # [Suc p..<c]" using Suc.hyps(2) by (simp add: upt_conv_Cons)
  show ?case
  proof (cases "fst s < need")
    case True
    have "\<exists>p' \<le> c. dense_run g m a p' (scan g m need [Suc p..<c] (hunt_step g m p s))"
      using Suc dense_run_step [OF assms(1) Suc.prems(1) True] by (intro Suc.hyps(1)) auto
    then show ?thesis using True by (simp add: l)
  next
    case False
    then show ?thesis using Suc.prems by (auto simp: scan_done)
  qed
qed auto

lemma scan_le_need: "fst s \<le> need \<Longrightarrow> fst (scan g m need ps s) \<le> need"
proof (induction ps arbitrary: s)
  case (Cons p ps)
  have "fst (hunt_step g m p s) \<le> need" if "fst s < need"
  proof -
    have "unat (fst s + 1) \<le> unat need" using that unat_Suc_less [OF that] by (simp add: word_less_nat_alt)
    then have "fst s + 1 \<le> need" by (simp add: word_le_nat_alt)
    then show ?thesis using Cons.prems by (auto simp: hunt_step_def)
  qed
  then show ?case using Cons by auto
qed simp

section \<open>Claiming the pages found\<close>

lemma ClaimRun_fields [simp]:
  "NrPages (ClaimRun g m ID N) = NrPages g" "BitmapSize (ClaimRun g m ID N) = BitmapSize g"
  "AdvisoryBitmap (ClaimRun g m ID N) = AdvisoryBitmap g" "InitStage (ClaimRun g m ID N) = InitStage g"
  "AcquiredPages (ClaimRun g m ID N) = AcquiredPages g" "AcquireHint (ClaimRun g m ID N) = AcquireHint g"
  "PmSpinlock (ClaimRun g m ID N) = PmSpinlock g" "TotalPages (ClaimRun g m ID N) = TotalPages g"
  "UnusablePages (ClaimRun g m ID N) = UnusablePages g" "PaddrHighest (ClaimRun g m ID N) = PaddrHighest g"
  by (simp_all add: ClaimRun_def SetPrimary_def KrBulkSetPagesMeta_def Let_def)

lemma ClaimRun_taken:
  assumes "unat ID + unat N \<le> unat (NrPages g)"
  shows "taken (ClaimRun g m ID N) p \<longleftrightarrow> taken g p \<or> (unat ID \<le> p \<and> p < unat ID + unat N)"
proof -
  have u: "unat (ucast N :: SIZE) = unat N" by (simp add: unat_ucast_up)
  have "unat ID + unat (ucast N :: SIZE) < 2 ^ 64"
    using unat_dword_lt [of ID] unat_dword_lt [of N] by (simp add: u)
  note k = set_page_status_ok [OF this, of "PrimaryBitmap g" "NrPages g" PAGE_ALLOCATED p]
  have "PrimaryBitmap (ClaimRun g m ID N) = snd (KrSetPhysicalPageStatus (PrimaryBitmap g) (NrPages g) ID (ucast N) PAGE_ALLOCATED)"
    by (simp add: ClaimRun_def SetPrimary_def KrBulkSetPagesMeta_def Let_def)
  then show ?thesis using assms k by (auto simp: taken_def u PAGE_ALLOCATED_def)
qed

lemma ClaimSparse_fields [simp]:
  "NrPages (ClaimSparse g m out n i) = NrPages g" "BitmapSize (ClaimSparse g m out n i) = BitmapSize g"
  "AdvisoryBitmap (ClaimSparse g m out n i) = AdvisoryBitmap g" "InitStage (ClaimSparse g m out n i) = InitStage g"
  "AcquiredPages (ClaimSparse g m out n i) = AcquiredPages g" "AcquireHint (ClaimSparse g m out n i) = AcquireHint g"
  "PmSpinlock (ClaimSparse g m out n i) = PmSpinlock g" "TotalPages (ClaimSparse g m out n i) = TotalPages g"
  "UnusablePages (ClaimSparse g m out n i) = UnusablePages g" "PaddrHighest (ClaimSparse g m out n i) = PaddrHighest g"
  by (induction g m out n i rule: ClaimSparse.induct; subst ClaimSparse.simps; simp add: Let_def)+

text \<open>A run that the comparison with entry \<open>i\<close> finds has at most two entries, as no page follows itself.\<close>

definition no_stutter :: "(nat \<Rightarrow> PAGEID) \<Rightarrow> nat \<Rightarrow> bool" where
  "no_stutter out n \<longleftrightarrow> (\<forall>k. k + 2 < n \<longrightarrow> out k + 1 = out (k + 1) \<longrightarrow> out (k + 2) \<noteq> out (k + 1))"

lemma RunEnd_cases:
  assumes "no_stutter out n" "i < n"
  shows "RunEnd out n i (i + 1) = (if i + 1 < n \<and> out i + 1 = out (i + 1) then i + 2 else i + 1)"
proof -
  have "RunEnd out n i (i + 2) = i + 2" if "out i + 1 = out (i + 1)"
    using assms(1) that by (subst RunEnd.simps) (force simp: no_stutter_def)
  then show ?thesis by (subst RunEnd.simps) simp
qed

lemma ex_from: "i < n \<Longrightarrow> (\<exists>k. i \<le> k \<and> k < n \<and> Q k) \<longleftrightarrow> Q i \<or> (\<exists>k. Suc i \<le> k \<and> k < n \<and> Q k)"
  by (metis Suc_le_eq le_eq_less_or_eq)

lemma ClaimSparse_taken:
  assumes "no_stutter out n" "\<forall>k < n. unat (out k) < unat (NrPages g)" "i \<le> n"
  shows "taken (ClaimSparse g m out n i) p \<longleftrightarrow> taken g p \<or> (\<exists>k. i \<le> k \<and> k < n \<and> unat (out k) = p)"
  using assms(2,3)
proof (induction "n - i" arbitrary: g i rule: less_induct)
  case less
  show ?case
  proof (cases "i < n")
    case False
    then show ?thesis using less.prems by (subst ClaimSparse.simps) auto
  next
    case True
    have ui: "unat (out i) < unat (NrPages g)" using less.prems True by simp
    let ?g1 = "ClaimRun g m (out i) 1" and ?g2 = "ClaimRun g m (out i) 2"
    show ?thesis
    proof (cases "i + 1 < n \<and> out i + 1 = out (i + 1)")
      case two: True
      have j: "RunEnd out n i (Suc i) = i + 2" using RunEnd_cases [OF assms(1) True] two by simp
      have u2: "unat (out (i + 1)) = unat (out i) + 1" "unat (out (i + 1)) < unat (NrPages g)"
      proof -
        have "unat (out i + 1) = unat (out i) + 1"
          using ui by (intro unat_Suc_less [of _ "NrPages g"]) (simp add: word_less_nat_alt)
        then show "unat (out (i + 1)) = unat (out i) + 1" using two by simp
        show "unat (out (i + 1)) < unat (NrPages g)" using less.prems(1) two by blast
      qed
      have "taken (ClaimSparse g m out n i) p \<longleftrightarrow> taken (ClaimSparse ?g2 m out n (i + 2)) p"
        using True j by (subst ClaimSparse.simps) (simp add: Let_def)
      also have "\<dots> \<longleftrightarrow> taken ?g2 p \<or> (\<exists>k. i + 2 \<le> k \<and> k < n \<and> unat (out k) = p)"
        using less.prems two by (intro less.hyps) auto
      also have "taken ?g2 p \<longleftrightarrow> taken g p \<or> unat (out i) = p \<or> unat (out (i + 1)) = p"
        using u2 ui by (subst ClaimRun_taken) auto
      also have "(taken g p \<or> unat (out i) = p \<or> unat (out (i + 1)) = p) \<or> (\<exists>k. i + 2 \<le> k \<and> k < n \<and> unat (out k) = p) \<longleftrightarrow>
          taken g p \<or> (\<exists>k. i \<le> k \<and> k < n \<and> unat (out k) = p)"
        using True two ex_from [of i n] ex_from [of "Suc i" n] by simp
      finally show ?thesis .
    next
      case one: False
      have j: "RunEnd out n i (Suc i) = i + 1" using RunEnd_cases [OF assms(1) True] one by auto
      have "taken (ClaimSparse g m out n i) p \<longleftrightarrow> taken (ClaimSparse ?g1 m out n (i + 1)) p"
        using True j by (subst ClaimSparse.simps) (simp add: Let_def)
      also have "\<dots> \<longleftrightarrow> taken ?g1 p \<or> (\<exists>k. i + 1 \<le> k \<and> k < n \<and> unat (out k) = p)"
        using less.prems True by (intro less.hyps) auto
      also have "taken ?g1 p \<longleftrightarrow> taken g p \<or> unat (out i) = p"
        using ui by (subst ClaimRun_taken) auto
      also have "(taken g p \<or> unat (out i) = p) \<or> (\<exists>k. i + 1 \<le> k \<and> k < n \<and> unat (out k) = p) \<longleftrightarrow>
          taken g p \<or> (\<exists>k. i \<le> k \<and> k < n \<and> unat (out k) = p)"
        using True ex_from [of i n] by simp
      finally show ?thesis .
    qed
  qed
qed

section \<open>Sparse acquisition\<close>

text \<open>
  The pages a sparse request finds, in order: the free pages from the first page to the end of the bitmap,
  then those from 0 to the end of the byte of the first page.
\<close>

definition candidates :: "KrPhysmemmgmtState \<Rightarrow> nat \<Rightarrow> nat list" where
  "candidates g s = filter (free_page g) ([s..<bitmap_pages g] @ [0..<round8 s])"

definition found :: "KrPhysmemmgmtState \<Rightarrow> nat \<Rightarrow> nat \<Rightarrow> nat list" where
  "found g s need = take need (candidates g s)"

lemma round8_le: "pmm_wf g \<Longrightarrow> s \<le> unat (NrPages g) \<Longrightarrow> round8 s \<le> bitmap_pages g"
  by (simp add: round8_def bitmap_pages_def pmm_wf_def div_le_mono)

lemma candidates_free:
  assumes "pmm_wf g" "s < unat (NrPages g)" "p \<in> set (candidates g s)"
  shows "free_page g p" "p < unat (NrPages g)"
proof -
  show f: "free_page g p" using assms(3) by (auto simp: candidates_def)
  have "p < bitmap_pages g" using assms(2,3) round8_le [OF assms(1), of s] by (auto simp: candidates_def)
  then show "p < unat (NrPages g)" using free_page_valid [OF assms(1) f] by simp
qed

lemma candidates_all:
  assumes "pmm_wf g" "s < unat (NrPages g)" "free_page g p" "p < bitmap_pages g"
  shows "p \<in> set (candidates g s)"
proof -
  have "s \<le> round8 s" by (simp add: round8_def)
  then show ?thesis using assms by (auto simp: candidates_def)
qed

lemma candidates_stutter:
  assumes "k + 2 < length (candidates g s)" "candidates g s ! k + 1 = candidates g s ! (k + 1)"
  shows "candidates g s ! (k + 2) \<noteq> candidates g s ! (k + 1)"
proof
  let ?A = "filter (free_page g) [s..<bitmap_pages g]" and ?C = "filter (free_page g) [0..<round8 s]"
  let ?L = "?A @ ?C"
  assume eq: "candidates g s ! (k + 2) = candidates g s ! (k + 1)"
  have L: "candidates g s = ?L" by (simp add: candidates_def)
  have A: "sorted_wrt (<) ?A" and C: "sorted_wrt (<) ?C" by (simp_all add: sorted_wrt_filter)
  have len: "k + 2 < length ?L" using assms(1) L by simp
  show False
  proof (cases "k + 2 < length ?A \<or> length ?A \<le> k + 1")
    case True
    then have "?L ! (k + 1) < ?L ! (k + 2)"
    proof
      assume "k + 2 < length ?A"
      then show ?thesis using sorted_wrt_nth_less [OF A, of "k + 1" "k + 2"] by (simp add: nth_append)
    next
      assume a: "length ?A \<le> k + 1"
      then have "k + 1 - length ?A < k + 2 - length ?A" "k + 2 - length ?A < length ?C" using len by auto
      then have "?C ! (k + 1 - length ?A) < ?C ! (k + 2 - length ?A)" by (rule sorted_wrt_nth_less [OF C])
      then show ?thesis using a by (simp add: nth_append)
    qed
    then show False using eq L by simp
  next
    case False
    then have k: "length ?A = k + 2" by simp
    then have a: "?A ! k + 1 = ?A ! (k + 1)" "?C ! 0 = ?A ! (k + 1)"
      using assms(2) eq unfolding L by (simp_all add: nth_append)
    have "?A ! k \<in> set ?A" using k by (intro nth_mem) simp
    then have fr: "free_page g (?A ! k)" by simp
    have c0: "?C ! 0 \<in> set ?C" using len k by (intro nth_mem) simp
    then have "?A ! k < round8 s" using a by auto
    then have "?A ! k \<in> set ?C" using fr by simp
    then obtain i where i: "i < length ?C" "?C ! i = ?A ! k" by (metis in_set_conv_nth)
    have "?C ! 0 \<le> ?C ! i"
      using sorted_wrt_nth_less [OF C, of 0 i] i(1) by (cases "i = 0") auto
    then show False using a i(2) by simp
  qed
qed

lemma candidates_distinct: "8 dvd s \<Longrightarrow> distinct (candidates g s)"
  by (auto simp: candidates_def round8_def)

lemma found_distinct:
  assumes "8 dvd s \<or> need \<le> length (filter (free_page g) [s..<bitmap_pages g])"
  shows "distinct (found g s need)"
  using assms
proof
  assume "8 dvd s"
  then show ?thesis using candidates_distinct by (simp add: found_def)
next
  assume "need \<le> length (filter (free_page g) [s..<bitmap_pages g])"
  then show ?thesis by (simp add: found_def candidates_def)
qed

text \<open>The page at which a request starts to look.\<close>

definition start_page :: "KrPhysmemmgmtState \<Rightarrow> PAGEID \<Rightarrow> PAGEID" where
  "start_page g HintID = (if HintID = IVLDPGID then (if AcquireHint g = IVLDPGID then 0 else AcquireHint g) else HintID)"

definition sparse_method :: "DWORD \<Rightarrow> bool" where
  "sparse_method m \<longleftrightarrow> m AND PAGE_ACQ_DENSE = 0 \<and> m AND PAGE_ACQ_BASE_OUT_ONLY = 0"

lemma lock_irrelevant [simp]:
  "pmm_wf (g\<lparr>PmSpinlock := l\<rparr>) = pmm_wf g" "start_page (g\<lparr>PmSpinlock := l\<rparr>) h = start_page g h"
  "KrIsValidPageID (g\<lparr>PmSpinlock := l\<rparr>) p = KrIsValidPageID g p"
  "found (g\<lparr>PmSpinlock := l\<rparr>) s n = found g s n"
  "free_page (g\<lparr>PmSpinlock := l\<rparr>) = free_page g" "bitmap_pages (g\<lparr>PmSpinlock := l\<rparr>) = bitmap_pages g"
proof -
  show f: "free_page (g\<lparr>PmSpinlock := l\<rparr>) = free_page g"
    by (simp add: fun_eq_iff free_page_def taken_def reserved_def)
  show "found (g\<lparr>PmSpinlock := l\<rparr>) s n = found g s n"
    by (simp add: found_def candidates_def f bitmap_pages_def)
qed (simp_all add: pmm_wf_def start_page_def KrIsValidPageID_def taken_def reserved_def bitmap_pages_def)

text \<open>Both searches together, for a valid first page.\<close>

lemma hunt_sparse:
  fixes need :: UINT
  assumes "pmm_wf g" "sparse_method m" "P = start_page g h" "KrIsValidPageID g P"
  defines "fs \<equiv> found g (unat P) (unat need)"
  shows "Hunt g m need P out = (of_nat (length fs), write_out out 0 fs)"
proof -
  let ?s = "unat P"
  have d: "\<not> dense m" "\<not> base_only m" using assms(2) by (auto simp: sparse_method_def dense_def base_only_def)
  have s: "?s < unat (NrPages g)" using assms(4) by (simp add: KrIsValidPageID_def word_less_nat_alt)
  have P: "P = of_nat (8 * (?s div 8) + ?s mod 8)" by simp
  have "HuntLoop g m need False P (?s div 8) P 0 out = scan g m need [?s..<bitmap_pages g] (0, out)"
    using HuntLoop_scan [OF assms(1), of "?s mod 8" "?s div 8" m need P 0 out] unat_dword_lt [of P] by simp
  then have h1: "HuntLoop g m need False P (unat (P div 8)) P 0 out = scan g m need [?s..<bitmap_pages g] (0, out)"
    by (simp add: unat_div)
  have h2: "HuntLoop g m need True P 0 0 n o' = scan g m need [0..<round8 ?s] (n, o')" for n o'
    using HuntLoop_reroll_scan [OF assms(1), of P 0 m need n o'] s by simp
  have z: "P = 0 \<Longrightarrow> round8 ?s = 0" by (simp add: round8_def)
  have "scan g m need ([?s..<bitmap_pages g] @ [0..<round8 ?s]) (of_nat 0, out) = (of_nat (length fs), write_out out 0 fs)"
    using scan_sparse [OF d, of 0 need g "[?s..<bitmap_pages g] @ [0..<round8 ?s]" out]
    by (simp add: fs_def found_def candidates_def)
  moreover have "(case scan g m need [?s..<bitmap_pages g] (0, out) of (n1, out1) \<Rightarrow>
      if P \<noteq> 0 \<and> n1 < need then scan g m need [0..<round8 ?s] (n1, out1) else (n1, out1)) =
      scan g m need ([?s..<bitmap_pages g] @ [0..<round8 ?s]) (0, out)"
    using z by (auto simp: scan_append scan_done split: prod.splits)
  ultimately show ?thesis
    using d(1) by (simp add: Hunt_def h1 h2 dense_def cong: if_cong)
qed

text \<open>Everything a state keeps when its primary bitmap and its counters change.\<close>

definition same_frame :: "KrPhysmemmgmtState \<Rightarrow> KrPhysmemmgmtState \<Rightarrow> bool" where
  "same_frame g g' \<longleftrightarrow> NrPages g' = NrPages g \<and> BitmapSize g' = BitmapSize g \<and> AdvisoryBitmap g' = AdvisoryBitmap g \<and>
     InitStage g' = InitStage g \<and> TotalPages g' = TotalPages g \<and> UnusablePages g' = UnusablePages g \<and>
     PaddrHighest g' = PaddrHighest g"

lemma same_frame_eqs:
  "same_frame g g' \<Longrightarrow> bitmap_pages g' = bitmap_pages g \<and> reserved g' = reserved g \<and> KrIsValidPageID g' = KrIsValidPageID g"
  unfolding same_frame_def by (intro conjI ext) (simp_all add: bitmap_pages_def reserved_def KrIsValidPageID_def)

lemma pmm_ok_more_taken:
  assumes "pmm_ok g" "same_frame g g'" "PmSpinlock g' = 0" "\<And>p. taken g p \<Longrightarrow> taken g' p"
  shows "pmm_ok g'"
  using assms same_frame_eqs [OF assms(2)] by (auto simp: pmm_ok_def pmm_wf_def same_frame_def)

text \<open>The identifiers written for the pages found are those pages, and no run of them is longer than two.\<close>

lemma sparse_out:
  assumes wf: "pmm_wf g" and s: "s < unat (NrPages g)" and fs: "fs = found g s n"
    and o: "\<And>k. k < length fs \<Longrightarrow> out k = of_nat (fs ! k)"
  shows "no_stutter out (length fs)" "\<forall>k < length fs. unat (out k) < unat (NrPages g)"
    "(\<exists>k < length fs. unat (out k) = p) \<longleftrightarrow> p \<in> set fs"
proof -
  have small: "fs ! k < 2 ^ 32" "fs ! k < unat (NrPages g)" if "k < length fs" for k
    using candidates_free [OF wf s, of "fs ! k"] nth_mem [OF that] unat_dword_lt [of "NrPages g"]
    by (auto simp: fs found_def dest: in_set_takeD)
  have u: "unat (out k) = fs ! k" if "k < length fs" for k
    using o [OF that] small(1) [OF that] by (simp add: unat_page)
  show "\<forall>k < length fs. unat (out k) < unat (NrPages g)" using u small by simp
  show "(\<exists>k < length fs. unat (out k) = p) \<longleftrightarrow> p \<in> set fs" using u by (auto simp: in_set_conv_nth)
  show "no_stutter out (length fs)"
    unfolding no_stutter_def
  proof (intro allI impI)
    fix k assume k: "k + 2 < length fs" "out k + 1 = out (k + 1)"
    have kc: "k + 2 < length (candidates g s)" using k(1) by (simp add: fs found_def)
    have nth: "fs ! j = candidates g s ! j" if "j \<le> k + 2" for j using k(1) that by (simp add: fs found_def)
    have "out k < NrPages g" using u [of k] small(2) [of k] k(1) by (simp add: word_less_nat_alt)
    then have "fs ! k + 1 = fs ! (k + 1)"
      using unat_Suc_less [of "out k" "NrPages g"] k u [of k] u [of "k + 1"] by simp
    then have "fs ! (k + 2) \<noteq> fs ! (k + 1)" using candidates_stutter [OF kc] nth by simp
    then show "out (k + 2) \<noteq> out (k + 1)" using u [of "k + 2"] u [of "k + 1"] k(1) by auto
  qed
qed

text \<open>The whole function in sparse mode.\<close>

lemma acquire_sparse:
  assumes ok: "pmm_ok g" and m: "sparse_method m" and need: "need \<noteq> 0"
    and valid: "KrIsValidPageID g (start_page g h)"
  defines "fs \<equiv> found g (unat (start_page g h)) (unat need)"
  shows "\<exists>out' g'. PmAcquirePages g out need ty m h = Inr (of_nat (length fs), out', g') \<and>
    (\<forall>k < length fs. out' k = of_nat (fs ! k)) \<and>
    (fs \<noteq> [] \<longrightarrow> (\<forall>k. length fs \<le> k \<and> k < unat need \<longrightarrow> out' k = IVLDPGID)) \<and>
    (\<forall>k. unat need \<le> k \<longrightarrow> out' k = out k) \<and>
    (\<forall>p. taken g' p \<longleftrightarrow> taken g p \<or> p \<in> set fs) \<and> same_frame g g' \<and> pmm_ok g' \<and>
    AcquiredPages g' = AcquiredPages g + of_nat (length fs) \<and>
    AcquireHint g' = (if fs = [] then AcquireHint g else of_nat (last fs) + 1)"
proof -
  let ?P = "start_page g h" and ?g0 = "g\<lparr>PmSpinlock := 1\<rparr>"
  have s: "unat ?P < unat (NrPages g)" using valid by (simp add: KrIsValidPageID_def word_less_nat_alt)
  have wf: "pmm_wf g" and lock: "PmSpinlock g = 0" using ok by (simp_all add: pmm_ok_def)
  have dm: "m AND PAGE_ACQ_DENSE = 0" "m AND PAGE_ACQ_BASE_OUT_ONLY = 0"
    using m by (auto simp: sparse_method_def)
  have start: "(if h = IVLDPGID then (if AcquireHint ?g0 = IVLDPGID then 0 else AcquireHint ?g0) else h) = ?P"
    by (simp add: start_page_def)
  have hunt: "Hunt ?g0 m need ?P out = (of_nat (length fs), write_out out 0 fs)"
    using hunt_sparse [of ?g0 m ?P h need out] wf m valid by (simp add: fs_def)
  have fs: "length fs \<le> unat need" "\<And>p. p \<in> set fs \<Longrightarrow> free_page g p \<and> p < unat (NrPages g)"
    using candidates_free [OF wf s] by (auto simp: fs_def found_def dest: in_set_takeD)
  have un: "unat (of_nat (length fs) :: UINT) = length fs"
    using fs(1) unat_dword_lt [of need] by (simp add: unat_of_nat_small)
  show ?thesis
  proof (cases "fs = []")
    case True
    have "PmAcquirePages g out need ty m h = Inr (0, out, UnlockPmm ?g0)"
      using need hunt True valid by (simp add: PmAcquirePages_def start lock dm Let_def)
    moreover have "UnlockPmm ?g0 = g" using lock by (simp add: UnlockPmm_def)
    ultimately show ?thesis using True ok by (simp add: same_frame_def)
  next
    case False
    let ?o = "pad_out (write_out out 0 fs) (length fs) (unat need)"
    let ?g1 = "ClaimSparse ?g0 (AcquiredMeta ty m) ?o (length fs) 0"
    let ?g' = "UnlockPmm (?g1\<lparr>AcquiredPages := AcquiredPages g + of_nat (length fs), AcquireHint := of_nat (last fs) + 1\<rparr>)"
    have n0: "(of_nat (length fs) :: UINT) \<noteq> 0" using un False by (metis length_0_conv unat_0)
    have "unat (of_nat (length fs) - 1 :: UINT) = length fs - 1"
      using un n0 False unat_minus_le [of 1 "of_nat (length fs) :: UINT"] by (simp add: word_le_nat_alt unat_gt_0 Suc_le_eq)
    then have last: "?o (unat (of_nat (length fs) - 1 :: UINT)) = of_nat (last fs)"
      using False by (cases "length fs") (auto simp: pad_out_def write_out_def last_conv_nth)
    have uc: "(ucast (of_nat (length fs) :: UINT) :: QWORD) = of_nat (length fs)"
      using fs(1) unat_dword_lt [of need] by (intro ucast_of_nat_up) auto
    have eq: "PmAcquirePages g out need ty m h = Inr (of_nat (length fs), ?o, ?g')"
      using need hunt False valid n0 last uc by (simp add: PmAcquirePages_def start lock dm Let_def un)
    have o: "?o k = (if k < length fs then of_nat (fs ! k) else if k < unat need then IVLDPGID else out k)" for k
      using fs(1) by (auto simp: pad_out_def write_out_def)
    note so = sparse_out [OF wf s fs_def [THEN meta_eq_to_obj_eq], of ?o]
    have tk: "taken ?g' p \<longleftrightarrow> taken g p \<or> p \<in> set fs" for p
      using ClaimSparse_taken [OF so(1), of ?g0 0 "AcquiredMeta ty m" p] so(2,3) o
      by (auto simp: taken_def UnlockPmm_def)
    have fr: "same_frame g ?g'" "PmSpinlock ?g' = 0" by (simp_all add: same_frame_def UnlockPmm_def)
    then have "pmm_ok ?g'" using tk by (intro pmm_ok_more_taken [OF ok]) auto
    then show ?thesis
      using eq o fr tk False fs(1) by (intro exI [of _ ?o] exI [of _ ?g']) (simp add: UnlockPmm_def)
  qed
qed

section \<open>Dense acquisition\<close>

lemma scan_all_free:
  assumes "dense m" "\<forall>p \<in> set ps. free_page g p" "fst s \<le> need"
  shows "unat (fst (scan g m need ps s)) = min (unat need) (unat (fst s) + length ps)"
  using assms(2,3)
proof (induction ps arbitrary: s)
  case Nil
  then show ?case by (simp add: word_le_nat_alt)
next
  case (Cons p ps)
  show ?case
  proof (cases "fst s < need")
    case True
    have u: "unat (fst s + 1) = unat (fst s) + 1" by (rule unat_Suc_less [OF True])
    then have le: "fst s + 1 \<le> need" using True by (simp add: word_le_nat_alt word_less_nat_alt)
    have st: "fst (hunt_step g m p s) = fst s + 1" using Cons.prems by (simp add: hunt_step_def)
    then have "unat (fst (scan g m need ps (hunt_step g m p s))) = min (unat need) (unat (fst s) + 1 + length ps)"
      using Cons.IH [of "hunt_step g m p s"] Cons.prems le u by simp
    then show ?thesis using True by simp
  next
    case False
    then show ?thesis using Cons.prems by (simp add: word_le_nat_alt word_less_nat_alt)
  qed
qed

lemma scan_full: "fst s = need \<Longrightarrow> scan g m need ps s = s"
  by (simp add: scan_done)

lemma scan_dense_complete:
  assumes "dense m" "a \<le> b" "b + unat need \<le> c" "\<forall>q. b \<le> q \<and> q < b + unat need \<longrightarrow> free_page g q" "fst s \<le> need"
  shows "fst (scan g m need [a..<c] s) = need"
proof -
  have split: "[a..<c] = [a..<b] @ [b..<b + unat need] @ [b + unat need..<c]"
    using assms(2,3) upt_append_le [of a b c] upt_append_le [of b "b + unat need" c] by simp
  let ?s1 = "scan g m need [a..<b] s"
  have "unat (fst (scan g m need [b..<b + unat need] ?s1)) = unat need"
    using assms(1,4) scan_le_need [OF assms(5)] by (subst scan_all_free) auto
  then have "fst (scan g m need [b..<b + unat need] ?s1) = need" by (simp add: word_eq_unat)
  then show ?thesis unfolding split scan_append by (simp add: scan_full)
qed

text \<open>A block of the requested length that one of the two searches covers.\<close>

definition dense_block :: "KrPhysmemmgmtState \<Rightarrow> nat \<Rightarrow> nat \<Rightarrow> bool" where
  "dense_block g s n \<longleftrightarrow> (\<exists>b. (\<forall>q. b \<le> q \<and> q < b + n \<longrightarrow> free_page g q) \<and>
     (s \<le> b \<and> b + n \<le> bitmap_pages g \<or> b + n \<le> round8 s))"

lemma hunt_dense:
  fixes need :: UINT
  assumes wf: "pmm_wf g" and m: "dense m" and valid: "KrIsValidPageID g P" and h: "Hunt g m need P out = (n, out')"
  shows "n \<le> need" "\<exists>p \<le> bitmap_pages g. dense_run g m 0 p (n, out')"
    "dense_block g (unat P) (unat need) \<Longrightarrow> n = need"
proof -
  let ?s = "unat P" and ?c = "bitmap_pages g"
  have s: "?s < unat (NrPages g)" using valid by (simp add: KrIsValidPageID_def word_less_nat_alt)
  have sc: "?s \<le> ?c" using s pmm_wf_bounds(2) [OF wf] by simp
  define s1 where "s1 = scan g m need [?s..<?c] (0, out)"
  define s2 where "s2 = scan g m need [0..<round8 ?s] (0, snd s1)"
  have "HuntLoop g m need False P (?s div 8) P 0 out = s1"
    using HuntLoop_scan [OF wf, of "?s mod 8" "?s div 8" m need P 0 out] unat_dword_lt [of P] by (simp add: s1_def)
  moreover have "HuntLoop g m need True P 0 0 0 (snd s1) = s2"
    using HuntLoop_reroll_scan [OF wf, of P 0 m need 0 "snd s1"] s by (simp add: s2_def)
  ultimately have r: "(n, out') = (if P \<noteq> 0 \<and> fst s1 < need then s2 else s1)"
    using h m by (auto simp: Hunt_def unat_div dense_def split: prod.splits if_splits)
  have le: "fst s1 \<le> need" "fst s2 \<le> need" by (simp_all add: s1_def s2_def scan_le_need)
  then show "n \<le> need" using r by (metis fst_conv)
  have r1: "\<exists>p \<le> ?c. dense_run g m ?s p s1"
    unfolding s1_def by (rule dense_run_scan [OF m dense_run_0 [OF order_refl] sc])
  then have d1: "\<exists>p \<le> ?c. dense_run g m 0 p s1" by (auto simp: dense_run_def)
  have d2: "\<exists>p \<le> round8 ?s. dense_run g m 0 p s2"
    unfolding s2_def by (rule dense_run_scan [OF m dense_run_0 [OF order_refl]]) simp
  then have d2: "\<exists>p \<le> ?c. dense_run g m 0 p s2" using round8_le [OF wf, of ?s] s by (meson less_imp_le order_trans)
  show "\<exists>p \<le> ?c. dense_run g m 0 p (n, out')" unfolding r using d1 d2 by simp
  show "n = need" if blk: "dense_block g ?s (unat need)"
  proof -
    obtain b where b: "\<forall>q. b \<le> q \<and> q < b + unat need \<longrightarrow> free_page g q"
        "?s \<le> b \<and> b + unat need \<le> ?c \<or> b + unat need \<le> round8 ?s"
      using blk by (auto simp: dense_block_def)
    from b(2) show ?thesis
    proof
      assume "?s \<le> b \<and> b + unat need \<le> ?c"
      then have "fst s1 = need" unfolding s1_def using scan_dense_complete [OF m _ _ b(1)] by simp
      then show ?thesis using r by (auto split: if_splits)
    next
      assume e: "b + unat need \<le> round8 ?s"
      then have "fst s2 = need" unfolding s2_def using scan_dense_complete [OF m _ e b(1), of 0] by simp
      moreover have "fst s1 = need" if "\<not> (P \<noteq> 0 \<and> fst s1 < need)"
      proof (cases "P = 0")
        case True
        then have "need = 0" using e by (simp add: round8_def unat_eq_0)
        then show ?thesis using le(1) by simp
      next
        case False
        then show ?thesis using that le(1) by simp
      qed
      ultimately show ?thesis using r by (metis fst_conv)
    qed
  qed
qed

lemma acquire_dense:
  assumes ok: "pmm_ok g" and m: "m AND PAGE_ACQ_DENSE \<noteq> 0" "m AND PAGE_ACQ_SPARSE = 0" and need: "need \<noteq> 0"
    and valid: "KrIsValidPageID g (start_page g h)"
  shows "\<exists>n out' g'. PmAcquirePages g out need ty m h = Inr (n, out', g') \<and> n \<le> need \<and> pmm_ok g' \<and> same_frame g g' \<and>
    (n = 0 \<longrightarrow> g' = g) \<and>
    (n \<noteq> 0 \<longrightarrow> unat (out' 0) + unat n \<le> unat (NrPages g) \<and>
      (\<forall>q. unat (out' 0) \<le> q \<and> q < unat (out' 0) + unat n \<longrightarrow> free_page g q) \<and>
      (\<forall>p. taken g' p \<longleftrightarrow> taken g p \<or> (unat (out' 0) \<le> p \<and> p < unat (out' 0) + unat n)) \<and>
      (m AND PAGE_ACQ_BASE_OUT_ONLY = 0 \<longrightarrow> (\<forall>j < unat n. out' j = out' 0 + of_nat j)) \<and>
      AcquiredPages g' = AcquiredPages g + ucast n \<and> AcquireHint g' = out' 0 + n) \<and>
    (dense_block g (unat (start_page g h)) (unat need) \<longrightarrow> n = need)"
proof -
  let ?P = "start_page g h" and ?g0 = "g\<lparr>PmSpinlock := 1\<rparr>"
  have wf: "pmm_wf g" and lock: "PmSpinlock g = 0" using ok by (simp_all add: pmm_ok_def)
  have start: "(if h = IVLDPGID then (if AcquireHint ?g0 = IVLDPGID then 0 else AcquireHint ?g0) else h) = ?P"
    by (simp add: start_page_def)
  obtain n out1 where hunt: "Hunt ?g0 m need ?P out = (n, out1)" by fastforce
  have h: "n \<le> need" "\<exists>p \<le> bitmap_pages g. dense_run ?g0 m 0 p (n, out1)"
      "dense_block ?g0 (unat ?P) (unat need) \<Longrightarrow> n = need"
    using hunt_dense [of ?g0 m ?P need out n out1] wf m valid hunt by (auto simp: dense_def)
  have blk: "dense_block ?g0 = dense_block g" by (simp add: dense_block_def fun_eq_iff)
  show ?thesis
  proof (cases "n = 0")
    case True
    have "PmAcquirePages g out need ty m h = Inr (0, out1, UnlockPmm ?g0)"
      using need hunt True valid m by (simp add: PmAcquirePages_def start lock Let_def)
    moreover have "UnlockPmm ?g0 = g" using lock by (simp add: UnlockPmm_def)
    ultimately show ?thesis using True ok h blk by (simp add: same_frame_def)
  next
    case False
    obtain p where p: "p \<le> bitmap_pages g" "dense_run g m 0 p (n, out1)" using h(2) by (auto simp: dense_run_def)
    let ?b = "p - unat n"
    let ?o = "if m AND PAGE_ACQ_BASE_OUT_ONLY \<noteq> 0 then out1 else pad_out out1 (unat n) (unat need)"
    have np: "unat n \<le> p" "0 < unat n" using p(2) False by (auto simp: dense_run_def unat_gt_0)
    have free: "free_page g q" if "?b \<le> q" "q < p" for q using p(2) that by (simp add: dense_run_def)
    have pn: "p \<le> unat (NrPages g)"
      using free_page_valid [OF wf free [of "p - 1"]] np p(1) by fastforce
    have o0: "?o 0 = of_nat ?b" using p(2) False np by (auto simp: dense_run_def pad_out_def)
    have b32: "?b < 2 ^ 32" using pn unat_dword_lt [of "NrPages g"] by simp
    then have u0: "unat (?o 0) = ?b" unfolding o0 by (rule unat_page)
    have oj: "?o j = ?o 0 + of_nat j" if "m AND PAGE_ACQ_BASE_OUT_ONLY = 0" "j < unat n" for j
      using p(2) that np unfolding o0 by (simp add: dense_run_def pad_out_def base_only_def)
    let ?g1 = "ClaimRun ?g0 (AcquiredMeta ty m) (?o 0) n"
    let ?g' = "UnlockPmm (?g1\<lparr>AcquiredPages := AcquiredPages g + ucast n, AcquireHint := ?o 0 + n\<rparr>)"
    have lastn: "?o (unat (n - 1)) + 1 = ?o 0 + n" if "m AND PAGE_ACQ_BASE_OUT_ONLY = 0"
      using oj [OF that, of "unat (n - 1)"] np unat_minus_le [of 1 n] by (simp add: word_le_nat_alt Suc_le_eq)
    have eq: "PmAcquirePages g out need ty m h = Inr (n, ?o, ?g')"
      using need hunt False valid m lastn
      by (cases "m AND PAGE_ACQ_BASE_OUT_ONLY = 0") (simp_all add: PmAcquirePages_def start lock Let_def)
    have tk: "taken ?g' q \<longleftrightarrow> taken g q \<or> (unat (?o 0) \<le> q \<and> q < unat (?o 0) + unat n)" for q
      using ClaimRun_taken [of "?o 0" n ?g0 "AcquiredMeta ty m" q] u0 np pn by (simp add: taken_def UnlockPmm_def)
    have fr: "same_frame g ?g'" "PmSpinlock ?g' = 0" by (simp_all add: same_frame_def UnlockPmm_def)
    then have ok': "pmm_ok ?g'" using tk by (intro pmm_ok_more_taken [OF ok]) auto
    have cnt: "AcquiredPages ?g' = AcquiredPages g + ucast n" "AcquireHint ?g' = ?o 0 + n"
      by (simp_all add: UnlockPmm_def)
    have rng: "unat (?o 0) + unat n \<le> unat (NrPages g)" using u0 np pn by simp
    have fr2: "free_page g q" if "unat (?o 0) \<le> q" "q < unat (?o 0) + unat n" for q
      using free [of q] that u0 np by simp
    have full: "n = need" if "dense_block g (unat ?P) (unat need)" using h(3) that blk by simp
    show ?thesis using eq h(1) ok' fr(1) False rng fr2 tk oj cnt full by blast
  qed
qed

section \<open>Relinquishing, reserving and counting\<close>

definition free_pages :: "KrPhysmemmgmtState \<Rightarrow> nat set" where
  "free_pages g = {p. p < unat (NrPages g) \<and> free_page g p}"

text \<open>The counter of acquired pages and the number of free pages always add up to the same.\<close>

definition page_total :: "KrPhysmemmgmtState \<Rightarrow> ULONG" where
  "page_total g = AcquiredPages g + of_nat (card (free_pages g))"

lemma finite_free_pages [simp]: "finite (free_pages g)"
  by (rule finite_subset [of _ "{..<unat (NrPages g)}"]) (auto simp: free_pages_def)

lemma free_pages_taken: "pmm_wf g \<Longrightarrow> free_pages g = {p. p < unat (NrPages g) \<and> \<not> taken g p}"
  by (auto simp: free_pages_def free_page_taken)

lemma page_total_take:
  assumes "pmm_wf g" "pmm_wf g'" "NrPages g' = NrPages g" "\<And>p. taken g' p \<longleftrightarrow> taken g p \<or> p \<in> S"
    and "S \<subseteq> free_pages g" "AcquiredPages g' = AcquiredPages g + of_nat (card S)"
  shows "page_total g' = page_total g"
proof -
  have "free_pages g' = free_pages g - S"
    using assms(1-4) by (auto simp: free_pages_taken)
  then have "card (free_pages g') = card (free_pages g) - card S"
    using assms(5) by (simp add: card_Diff_subset finite_subset [OF assms(5)])
  moreover have "card S \<le> card (free_pages g)" using assms(5) by (simp add: card_mono)
  ultimately show ?thesis using assms(6) by (simp add: page_total_def of_nat_diff)
qed

definition set_free :: "KrPhysmemmgmtState \<Rightarrow> PAGEID \<Rightarrow> KrPhysmemmgmtState" where
  "set_free g ID = g\<lparr>PrimaryBitmap := (PrimaryBitmap g)(unat (ID div 8) := bclr (PrimaryBitmap g (unat (ID div 8))) (unat (ID mod 8))),
     AcquiredPages := AcquiredPages g - 1\<rparr>"

lemma page_bit_upd:
  "page_bit (bm(p div 8 := bclr (bm (p div 8)) (p mod 8))) q \<longleftrightarrow> page_bit bm q \<and> q \<noteq> p"
  "page_bit (bm(p div 8 := bset (bm (p div 8)) (p mod 8))) q \<longleftrightarrow> page_bit bm q \<or> q = p"
proof -
  have "q = p \<longleftrightarrow> q div 8 = p div 8 \<and> q mod 8 = p mod 8" by (metis mult_div_mod_eq)
  then show "page_bit (bm(p div 8 := bclr (bm (p div 8)) (p mod 8))) q \<longleftrightarrow> page_bit bm q \<and> q \<noteq> p"
    "page_bit (bm(p div 8 := bset (bm (p div 8)) (p mod 8))) q \<longleftrightarrow> page_bit bm q \<or> q = p"
    by (auto simp: page_bit_def bitmap_simps)
qed

lemma set_free_taken: "taken (set_free g ID) q \<longleftrightarrow> taken g q \<and> q \<noteq> unat ID"
  by (simp add: taken_def set_free_def unat_div unat_mod page_bit_upd)

lemma ReleaseBit_eq:
  assumes "unat ID < bitmap_pages g" "PmSpinlock g = 1"
  shows "ReleaseBit g ID = (taken g (unat ID), (if taken g (unat ID) then set_free g ID else g)\<lparr>PmSpinlock := 0\<rparr>)"
proof -
  have "unat ID div 8 < unat (BitmapSize g)" using assms(1) by (simp add: bitmap_pages_def div_less_iff_less_mult mult.commute)
  then have "\<not> unat (BitmapSize g) \<le> unat (ID div 8)" by (simp add: unat_div)
  then show ?thesis
    by (simp add: ReleaseBit_def Let_def btest_bit taken_def page_bit_def unat_div unat_mod UnlockPmm_def set_free_def)
qed

lemma set_free_ok:
  assumes "pmm_wf g" "unat ID < unat (NrPages g)" "taken g (unat ID)" "\<not> reserved g (unat ID)"
  shows "pmm_wf (set_free g ID)" "page_total (set_free g ID) = page_total g"
proof -
  have f: "NrPages (set_free g ID) = NrPages g" "AdvisoryBitmap (set_free g ID) = AdvisoryBitmap g"
    "BitmapSize (set_free g ID) = BitmapSize g" by (simp_all add: set_free_def)
  have r: "reserved (set_free g ID) = reserved g" by (rule ext) (simp add: reserved_def f)
  have bp: "bitmap_pages (set_free g ID) = bitmap_pages g" by (simp add: bitmap_pages_def f)
  show wf: "pmm_wf (set_free g ID)"
    using assms f r bp by (auto simp: pmm_wf_def set_free_taken)
  have "page_total g = page_total (set_free g ID)"
  proof (rule page_total_take [OF wf assms(1), of "{unat ID}"])
    show "taken g p \<longleftrightarrow> taken (set_free g ID) p \<or> p \<in> {unat ID}" for p using assms(3) by (auto simp: set_free_taken)
    show "{unat ID} \<subseteq> free_pages (set_free g ID)"
      using assms(2) f(1) by (auto simp: free_pages_taken [OF wf] set_free_taken)
    show "AcquiredPages g = AcquiredPages (set_free g ID) + of_nat (card {unat ID})" by (simp add: set_free_def)
  qed (simp add: f)
  then show "page_total (set_free g ID) = page_total g" by simp
qed

lemma valid_id: "pmm_wf g \<Longrightarrow> unat ID < unat (NrPages g) \<Longrightarrow> KrIsValidPageID g ID"
  using valid_page [of g "unat ID"] unat_dword_lt [of ID] by simp

lemma reserved_id: "pmm_wf g \<Longrightarrow> KrIsPhysicalPageReserved g ID \<longleftrightarrow> reserved g (unat ID)"
  using reserved_page [of g "unat ID"] unat_dword_lt [of ID] by simp

lemma meta_irrelevant [simp]:
  "pmm_wf (g\<lparr>MetaArray := ma\<rparr>) = pmm_wf g" "taken (g\<lparr>MetaArray := ma\<rparr>) = taken g"
  "reserved (g\<lparr>MetaArray := ma\<rparr>) = reserved g" "page_total (g\<lparr>MetaArray := ma\<rparr>) = page_total g"
  "set_free (g\<lparr>MetaArray := ma\<rparr>) ID = (set_free g ID)\<lparr>MetaArray := ma\<rparr>"
  "PmSpinlock (set_free g ID) = PmSpinlock g" "reserved (set_free g ID) = reserved g"
proof -
  show t: "taken (g\<lparr>MetaArray := ma\<rparr>) = taken g" and r: "reserved (g\<lparr>MetaArray := ma\<rparr>) = reserved g"
    by (simp_all add: taken_def reserved_def fun_eq_iff)
  show "pmm_wf (g\<lparr>MetaArray := ma\<rparr>) = pmm_wf g" by (simp add: pmm_wf_def t r bitmap_pages_def)
  show "page_total (g\<lparr>MetaArray := ma\<rparr>) = page_total g" by (simp add: page_total_def free_pages_def free_page_def t r)
qed (simp_all add: set_free_def reserved_def fun_eq_iff)

lemma relinquish_basic:
  assumes ok: "pmm_ok g" and v: "unat ID < unat (NrPages g)" and nr: "\<not> reserved g (unat ID)"
    and st: "InitStage g < PMM_INIT_STAGE_BOOKKEEPING"
  shows "PmRelinquishPage g ID = Inr (taken g (unat ID), if taken g (unat ID) then set_free g ID else g)"
proof -
  have wf: "pmm_wf g" and lock: "PmSpinlock g = 0" using ok by (simp_all add: pmm_ok_def)
  have sz: "unat ID < bitmap_pages (g\<lparr>PmSpinlock := 1\<rparr>)" using pmm_wf_bounds(2) [OF wf] v by simp
  have "ReleaseBit (g\<lparr>PmSpinlock := 1\<rparr>) ID = (taken g (unat ID), if taken g (unat ID) then set_free g ID else g)"
    using lock by (subst ReleaseBit_eq [OF sz]) (auto simp: taken_def set_free_def)
  then show ?thesis
    using not_le [of PMM_INIT_STAGE_BOOKKEEPING "InitStage g"] st nr reserved_id [OF wf]
    by (simp add: PmRelinquishPage_def lock Let_def)
qed

section \<open>Properties\<close>

lemma relinquish_all:
  assumes "pmm_ok g" "unat ID < unat (NrPages g)"
  defines "m \<equiv> MetaArray g ID"
  shows "reserved g (unat ID) \<Longrightarrow> PmRelinquishPage g ID = Inr (False, g)"
    and "\<not> reserved g (unat ID) \<Longrightarrow> InitStage g < PMM_INIT_STAGE_BOOKKEEPING \<Longrightarrow>
      PmRelinquishPage g ID = Inr (taken g (unat ID), if taken g (unat ID) then set_free g ID else g)"
    and "\<not> reserved g (unat ID) \<Longrightarrow> InitStage g \<ge> PMM_INIT_STAGE_BOOKKEEPING \<Longrightarrow> Flags m AND PAGE_FLAG_PINNED \<noteq> 0 \<Longrightarrow>
      PmRelinquishPage g ID = Inl (Meltdown KR_MDCODE_PINNED_PAGE_RELINQUISHED)"
    and "\<not> reserved g (unat ID) \<Longrightarrow> InitStage g \<ge> PMM_INIT_STAGE_BOOKKEEPING \<Longrightarrow> Flags m AND PAGE_FLAG_PINNED = 0 \<Longrightarrow>
      PmRelinquishPage g ID =
        (let g1 = g\<lparr>MetaArray := (MetaArray g)(ID := m\<lparr>RefCount := RefCount m - 1\<rparr>)\<rparr>
         in if RefCount m = 0 then Inr (False, g) else if RefCount m \<noteq> 1 then Inr (True, g1)
            else Inr (taken g (unat ID), if taken g (unat ID) then set_free g1 ID else g1))"
    and "PmRelinquishPage g ID = Inr (ok, g') \<Longrightarrow>
      pmm_ok g' \<and> page_total g' = page_total g \<and> (\<forall>p. p \<noteq> unat ID \<longrightarrow> taken g' p = taken g p) \<and> reserved g' = reserved g"
proof -
  have wf: "pmm_wf g" and lock: "PmSpinlock g = 0" using assms(1) by (simp_all add: pmm_ok_def)
  have sz: "unat ID < bitmap_pages g" using pmm_wf_bounds(2) [OF wf] assms(2) by simp
  note rs = reserved_id [OF wf]
  have rel: "ReleaseBit (g\<lparr>PmSpinlock := 1, MetaArray := ma\<rparr>) ID =
      (taken g (unat ID), (if taken g (unat ID) then set_free (g\<lparr>MetaArray := ma\<rparr>) ID else g\<lparr>MetaArray := ma\<rparr>))" for ma
    using lock sz by (subst ReleaseBit_eq) (auto simp: bitmap_pages_def taken_def set_free_def)
  have unl: "UnlockPmm (g\<lparr>PmSpinlock := 1\<rparr>) = g" using lock by (simp add: UnlockPmm_def)
  show r: "reserved g (unat ID) \<Longrightarrow> PmRelinquishPage g ID = Inr (False, g)"
    by (simp add: PmRelinquishPage_def rs)
  show b: "\<not> reserved g (unat ID) \<Longrightarrow> InitStage g < PMM_INIT_STAGE_BOOKKEEPING \<Longrightarrow>
      PmRelinquishPage g ID = Inr (taken g (unat ID), if taken g (unat ID) then set_free g ID else g)"
    by (rule relinquish_basic [OF assms(1,2)])
  show pn: "\<not> reserved g (unat ID) \<Longrightarrow> InitStage g \<ge> PMM_INIT_STAGE_BOOKKEEPING \<Longrightarrow> Flags m AND PAGE_FLAG_PINNED \<noteq> 0 \<Longrightarrow>
      PmRelinquishPage g ID = Inl (Meltdown KR_MDCODE_PINNED_PAGE_RELINQUISHED)"
    by (simp add: PmRelinquishPage_def rs lock Let_def m_def KrGetPageMeta_def)
  show k: "\<not> reserved g (unat ID) \<Longrightarrow> InitStage g \<ge> PMM_INIT_STAGE_BOOKKEEPING \<Longrightarrow> Flags m AND PAGE_FLAG_PINNED = 0 \<Longrightarrow>
      PmRelinquishPage g ID =
        (let g1 = g\<lparr>MetaArray := (MetaArray g)(ID := m\<lparr>RefCount := RefCount m - 1\<rparr>)\<rparr>
         in if RefCount m = 0 then Inr (False, g) else if RefCount m \<noteq> 1 then Inr (True, g1)
            else Inr (taken g (unat ID), if taken g (unat ID) then set_free g1 ID else g1))"
    using lock by (simp add: PmRelinquishPage_def rs Let_def m_def KrGetPageMeta_def unl rel UnlockPmm_def)
  show "pmm_ok g' \<and> page_total g' = page_total g \<and> (\<forall>p. p \<noteq> unat ID \<longrightarrow> taken g' p = taken g p) \<and> reserved g' = reserved g"
    if "PmRelinquishPage g ID = Inr (ok, g')"
  proof -
    have sf: "pmm_ok (set_free g ID) \<and> page_total (set_free g ID) = page_total g \<and>
        (\<forall>p. p \<noteq> unat ID \<longrightarrow> taken (set_free g ID) p = taken g p)"
      if "taken g (unat ID)" "\<not> reserved g (unat ID)"
      using set_free_ok [OF wf assms(2) that] lock by (simp add: pmm_ok_def set_free_taken)
    consider "reserved g (unat ID)" | "\<not> reserved g (unat ID)" "InitStage g < PMM_INIT_STAGE_BOOKKEEPING"
      | "\<not> reserved g (unat ID)" "InitStage g \<ge> PMM_INIT_STAGE_BOOKKEEPING" "Flags m AND PAGE_FLAG_PINNED \<noteq> 0"
      | "\<not> reserved g (unat ID)" "InitStage g \<ge> PMM_INIT_STAGE_BOOKKEEPING" "Flags m AND PAGE_FLAG_PINNED = 0"
      by (meson not_le)
    then show ?thesis
    proof cases
      case 1 then show ?thesis using that r assms(1) by simp
    next
      case 2 then show ?thesis using that b sf assms(1) by (auto split: if_splits)
    next
      case 3 then show ?thesis using that pn by simp
    next
      case 4 then show ?thesis using that k sf assms(1) by (auto simp: Let_def pmm_ok_def split: if_splits)
    qed
  qed
qed

lemmas relinquish_ok = relinquish_all(5)

text \<open>
  C3: Relinquishing an existing page. A reserved page is refused. Before the metadata array is in use
  an allocated page becomes free, and a free one is refused. Afterwards a pinned page is a meltdown, a page
  without references is refused, one of several references is dropped, and the last one frees the page. No
  other page changes, the lock is free again and acquired plus free pages stay constant.
\<close>

theorem relinquish_correct:
  assumes "pmm_ok g" "unat ID < unat (NrPages g)"
  defines "m \<equiv> MetaArray g ID"
  defines "g1 \<equiv> g\<lparr>MetaArray := (MetaArray g)(ID := m\<lparr>RefCount := RefCount m - 1\<rparr>)\<rparr>"
  shows "PmRelinquishPage g ID =
      (if reserved g (unat ID) then Inr (False, g)
       else if InitStage g < PMM_INIT_STAGE_BOOKKEEPING
       then Inr (taken g (unat ID), if taken g (unat ID) then set_free g ID else g)
       else if Flags m AND PAGE_FLAG_PINNED \<noteq> 0 then Inl (Meltdown KR_MDCODE_PINNED_PAGE_RELINQUISHED)
       else if RefCount m = 0 then Inr (False, g)
       else if RefCount m \<noteq> 1 then Inr (True, g1)
       else Inr (taken g (unat ID), if taken g (unat ID) then set_free g1 ID else g1)) \<and>
    (\<forall>ok g'. PmRelinquishPage g ID = Inr (ok, g') \<longrightarrow>
      pmm_ok g' \<and> page_total g' = page_total g \<and> (\<forall>p. p \<noteq> unat ID \<longrightarrow> taken g' p = taken g p) \<and> reserved g' = reserved g)"
proof (rule conjI)
  note all = relinquish_all [OF assms(1,2), folded m_def]
  consider "reserved g (unat ID)" | "\<not> reserved g (unat ID)" "InitStage g < PMM_INIT_STAGE_BOOKKEEPING"
    | "\<not> reserved g (unat ID)" "\<not> InitStage g < PMM_INIT_STAGE_BOOKKEEPING" "Flags m AND PAGE_FLAG_PINNED \<noteq> 0"
    | "\<not> reserved g (unat ID)" "\<not> InitStage g < PMM_INIT_STAGE_BOOKKEEPING" "Flags m AND PAGE_FLAG_PINNED = 0"
    by blast
  then show "PmRelinquishPage g ID =
      (if reserved g (unat ID) then Inr (False, g)
       else if InitStage g < PMM_INIT_STAGE_BOOKKEEPING
       then Inr (taken g (unat ID), if taken g (unat ID) then set_free g ID else g)
       else if Flags m AND PAGE_FLAG_PINNED \<noteq> 0 then Inl (Meltdown KR_MDCODE_PINNED_PAGE_RELINQUISHED)
       else if RefCount m = 0 then Inr (False, g)
       else if RefCount m \<noteq> 1 then Inr (True, g1)
       else Inr (taken g (unat ID), if taken g (unat ID) then set_free g1 ID else g1))"
  proof cases
    case 1 then show ?thesis using all(1) by simp
  next
    case 2 then show ?thesis using all(2) by simp
  next
    case 3 then show ?thesis using all(3) by (simp add: not_less)
  next
    case 4 then show ?thesis using all(4) by (simp add: not_less [symmetric] g1_def Let_def)
  qed
  show "\<forall>ok g'. PmRelinquishPage g ID = Inr (ok, g') \<longrightarrow>
      pmm_ok g' \<and> page_total g' = page_total g \<and> (\<forall>p. p \<noteq> unat ID \<longrightarrow> taken g' p = taken g p) \<and> reserved g' = reserved g"
    using relinquish_ok [OF assms(1,2)] by blast
qed

text \<open>A small manager with sixteen pages, of which page 5 is allocated.\<close>

definition wit_pmm :: KrPhysmemmgmtState where
  "wit_pmm = pmm_zero\<lparr>InitStage := PMM_INIT_STAGE_BASIC, NrPages := 16, BitmapSize := 2, AcquiredPages := 1,
     PrimaryBitmap := (\<lambda>_. 0)(0 := bset 0 5)\<rparr>"

lemma wit_taken: "taken wit_pmm p \<longleftrightarrow> p = 5"
  using page_bit_upd(2) [of "\<lambda>_. 0" 5 p] by (simp add: wit_pmm_def taken_def) (simp add: page_bit_def)

lemma wit_reserved: "\<not> reserved wit_pmm p"
  by (simp add: wit_pmm_def reserved_def pmm_zero_def page_bit_def)

lemma wit_ok: "pmm_ok wit_pmm"
  by (auto simp: pmm_ok_def pmm_wf_def wit_taken wit_reserved bitmap_pages_def) (auto simp: wit_pmm_def pmm_zero_def)

lemma relinquish_correct_witness:
  "PmRelinquishPage wit_pmm 5 = Inr (True, set_free wit_pmm 5) \<and> PmRelinquishPage wit_pmm 6 = Inr (False, wit_pmm)"
proof -
  have "unat (5 :: PAGEID) < unat (NrPages wit_pmm)" "unat (6 :: PAGEID) < unat (NrPages wit_pmm)"
    "InitStage wit_pmm < PMM_INIT_STAGE_BOOKKEEPING"
    by (simp_all add: wit_pmm_def stage_order)
  then show ?thesis
    using relinquish_correct [OF wit_ok, of 5, THEN conjunct1] relinquish_correct [OF wit_ok, of 6, THEN conjunct1]
    by (simp add: wit_taken wit_reserved)
qed

lemma candidates_length:
  assumes "pmm_wf g" "s < unat (NrPages g)"
  shows "card (free_pages g) \<le> length (candidates g s)"
proof -
  have "free_pages g \<subseteq> set (candidates g s)"
    using candidates_all [OF assms] pmm_wf_bounds(2) [OF assms(1)] by (auto simp: free_pages_def)
  then show ?thesis using card_mono [of "set (candidates g s)"] card_length le_trans by blast
qed

text \<open>
  C1: A sparse request that starts at an existing page returns at most the number of pages asked for,
  all of them free before and allocated afterwards, marks the rest of the output array invalid, changes no
  other page and releases the lock; it returns as many as asked for whenever that many pages are free. When
  the first page is a multiple of eight the pages are distinct and acquired plus free pages stay constant.
\<close>

theorem acquire_pages_sparse:
  assumes "pmm_ok g" "sparse_method m" "need \<noteq> 0" "KrIsValidPageID g (start_page g h)"
  shows "\<exists>n out' g'. PmAcquirePages g out need ty m h = Inr (n, out', g') \<and> n \<le> need \<and> pmm_ok g' \<and> same_frame g g' \<and>
    (\<forall>k < unat n. free_page g (unat (out' k)) \<and> unat (out' k) < unat (NrPages g)) \<and>
    (n \<noteq> 0 \<longrightarrow> (\<forall>k. unat n \<le> k \<and> k < unat need \<longrightarrow> out' k = IVLDPGID)) \<and>
    (\<forall>p. taken g' p \<longleftrightarrow> taken g p \<or> (\<exists>k < unat n. unat (out' k) = p)) \<and>
    (unat need \<le> card (free_pages g) \<longrightarrow> n = need) \<and>
    (8 dvd unat (start_page g h) \<longrightarrow> inj_on out' {..<unat n} \<and> page_total g' = page_total g)"
proof -
  let ?s = "unat (start_page g h)"
  define fs where "fs = found g ?s (unat need)"
  have wf: "pmm_wf g" using assms(1) by (simp add: pmm_ok_def)
  have s: "?s < unat (NrPages g)" using assms(4) by (simp add: KrIsValidPageID_def word_less_nat_alt)
  obtain out' g' where r: "PmAcquirePages g out need ty m h = Inr (of_nat (length fs), out', g')"
    and o: "\<forall>k < length fs. out' k = of_nat (fs ! k)"
    and pad: "fs \<noteq> [] \<longrightarrow> (\<forall>k. length fs \<le> k \<and> k < unat need \<longrightarrow> out' k = IVLDPGID)"
    and tk: "\<forall>p. taken g' p \<longleftrightarrow> taken g p \<or> p \<in> set fs" and fr: "same_frame g g'" "pmm_ok g'"
    and cnt: "AcquiredPages g' = AcquiredPages g + of_nat (length fs)"
    using acquire_sparse [OF assms, of out ty] unfolding fs_def by blast
  have len: "length fs \<le> unat need" by (simp add: fs_def found_def)
  have un: "unat (of_nat (length fs) :: UINT) = length fs"
    using len unat_dword_lt [of need] by (simp add: unat_of_nat_small)
  have fsp: "free_page g p" "p < unat (NrPages g)" if "p \<in> set fs" for p
    using candidates_free [OF wf s, of p] that by (auto simp: fs_def found_def dest: in_set_takeD)
  have u: "unat (out' k) = fs ! k" if "k < length fs" for k
    using o that fsp(2) [OF nth_mem [OF that]] unat_dword_lt [of "NrPages g"] by (simp add: unat_page)
  have img: "(\<exists>k < length fs. unat (out' k) = p) \<longleftrightarrow> p \<in> set fs" for p using u by (auto simp: in_set_conv_nth)
  have full: "of_nat (length fs) = need" if "unat need \<le> card (free_pages g)"
    using candidates_length [OF wf s] that un by (simp add: fs_def found_def word_eq_unat)
  have dist: "inj_on out' {..<length fs} \<and> page_total g' = page_total g" if "8 dvd ?s"
  proof
    have d: "distinct fs" unfolding fs_def using found_distinct that by blast
    show "inj_on out' {..<length fs}"
      using d u by (intro inj_onI) (metis lessThan_iff nth_eq_iff_index_eq)
    have wf': "pmm_wf g'" and nr: "NrPages g' = NrPages g" using fr by (auto simp: pmm_ok_def same_frame_def)
    show "page_total g' = page_total g"
      by (rule page_total_take [OF wf wf' nr, of "set fs"])
        (use tk fsp cnt d in \<open>auto simp: free_pages_def distinct_card\<close>)
  qed
  have le: "of_nat (length fs) \<le> need" using len un by (simp add: word_le_nat_alt)
  have pad': "of_nat (length fs) \<noteq> (0 :: UINT) \<longrightarrow> (\<forall>k. length fs \<le> k \<and> k < unat need \<longrightarrow> out' k = IVLDPGID)"
    using pad by auto
  show ?thesis
    using r fr le u fsp img tk full dist pad'
    by (intro exI [of _ "of_nat (length fs)"] exI [of _ out'] exI [of _ g']) (simp add: un)
qed

lemma wit_start: "KrIsValidPageID wit_pmm (start_page wit_pmm 0)" "start_page wit_pmm 0 = 0"
  by (simp_all add: wit_pmm_def KrIsValidPageID_def start_page_def IVLDPGID_def)

lemma acquire_pages_sparse_witness:
  "\<exists>n out' g'. PmAcquirePages wit_pmm (\<lambda>_. 0) 3 PAGE_TYPE_GENERAL PAGE_ACQ_SPARSE 0 = Inr (n, out', g') \<and>
     inj_on out' {..<unat n} \<and> page_total g' = page_total wit_pmm"
  using acquire_pages_sparse [OF wit_ok _ _ wit_start(1), of PAGE_ACQ_SPARSE 3 "\<lambda>_. 0" PAGE_TYPE_GENERAL]
  by (auto simp: wit_start(2) sparse_method_def PAGE_ACQ_SPARSE_def PAGE_ACQ_DENSE_def PAGE_ACQ_BASE_OUT_ONLY_def)

text \<open>
  A request that has to wrap around re-examines the whole byte of its first page, so it can hand out
  the same page twice: when the only free page lies between a first page that is not a multiple of eight and
  the end of its byte, a request for two pages returns that page twice and counts it twice.
\<close>

theorem acquire_wrap_duplicates:
  assumes "pmm_ok g" "sparse_method m" "KrIsValidPageID g (start_page g h)"
    and "\<And>q. free_page g q \<longleftrightarrow> q = p" "unat (start_page g h) \<le> p" "p < round8 (unat (start_page g h))"
  shows "\<exists>out' g'. PmAcquirePages g out 2 ty m h = Inr (2, out', g') \<and> unat (out' 0) = p \<and> unat (out' 1) = p \<and>
    card (free_pages g) = 1 \<and> AcquiredPages g' = AcquiredPages g + 2"
proof -
  let ?s = "unat (start_page g h)"
  have wf: "pmm_wf g" using assms(1) by (simp add: pmm_ok_def)
  have s: "?s < unat (NrPages g)" using assms(3) by (simp add: KrIsValidPageID_def word_less_nat_alt)
  have pb: "p < bitmap_pages g" using assms(6) round8_le [OF wf, of ?s] s by simp
  have pv: "p < unat (NrPages g)" using free_page_valid [OF wf _ pb] assms(4) by simp
  have "free_page g = (\<lambda>q. q = p)" using assms(4) by (intro ext)
  then have fe: "filter (free_page g) xs = filter (\<lambda>q. q = p) xs" for xs by metis
  have single: "filter (\<lambda>q. q = p) [a..<b] = [p]" if "a \<le> p" "p < b" for a b
    using that by (simp add: upt_append_le [of a p b] upt_conv_Cons [of p b] filter_False)
  have fs: "found g ?s (unat (2 :: UINT)) = [p, p]"
    using single [of ?s "bitmap_pages g"] single [of 0 "round8 ?s"] assms(5,6) pb
    by (simp add: found_def candidates_def fe)
  have "free_pages g = {p}" using assms(4) pv by (auto simp: free_pages_def)
  moreover have "unat (of_nat p :: PAGEID) = p" using pv unat_dword_lt [of "NrPages g"] by (simp add: unat_page)
  moreover obtain out' g' where "PmAcquirePages g out 2 ty m h = Inr (of_nat (length [p, p]), out', g')"
    "\<forall>k < length [p, p]. out' k = of_nat ([p, p] ! k)" "AcquiredPages g' = AcquiredPages g + of_nat (length [p, p])"
    using acquire_sparse [OF assms(1,2) _ assms(3), of 2 out ty] unfolding fs by auto
  ultimately show ?thesis by (intro exI [of _ out'] exI [of _ g']) simp
qed

definition wit_full :: KrPhysmemmgmtState where
  "wit_full = pmm_zero\<lparr>InitStage := PMM_INIT_STAGE_BASIC, NrPages := 16, BitmapSize := 2, AcquiredPages := 15,
     PrimaryBitmap := (\<lambda>_. 0xFF)(0 := bclr 0xFF 5)\<rparr>"

lemma wit_full_taken: "taken wit_full p \<longleftrightarrow> p \<noteq> 5"
  using page_bit_upd(1) [of "\<lambda>_. 0xFF" 5 p] by (simp add: wit_full_def taken_def) (simp add: page_bit_def bit_int_FF)

lemma wit_full_free: "free_page wit_full p \<longleftrightarrow> p = 5"
  by (simp add: free_page_def wit_full_taken) (simp add: wit_full_def reserved_def pmm_zero_def page_bit_def)

lemma acquire_wrap_duplicates_witness:
  "\<exists>out' g'. PmAcquirePages wit_full (\<lambda>_. 0) 2 PAGE_TYPE_GENERAL PAGE_ACQ_SPARSE 4 = Inr (2, out', g') \<and>
     out' 0 = 5 \<and> out' 1 = 5 \<and> AcquiredPages g' = 17"
proof -
  have ok: "pmm_ok wit_full"
    by (auto simp: pmm_ok_def pmm_wf_def wit_full_taken bitmap_pages_def)
      (auto simp: wit_full_def pmm_zero_def reserved_def page_bit_def)
  have st: "start_page wit_full 4 = 4" "KrIsValidPageID wit_full 4" "AcquiredPages wit_full = 15"
    by (simp_all add: wit_full_def start_page_def KrIsValidPageID_def IVLDPGID_def)
  have "sparse_method PAGE_ACQ_SPARSE"
    by (simp add: sparse_method_def PAGE_ACQ_SPARSE_def PAGE_ACQ_DENSE_def PAGE_ACQ_BASE_OUT_ONLY_def)
  from acquire_wrap_duplicates [OF ok this, of 4 5 "\<lambda>_. 0" PAGE_TYPE_GENERAL]
  obtain out' g' where "PmAcquirePages wit_full (\<lambda>_. 0) 2 PAGE_TYPE_GENERAL PAGE_ACQ_SPARSE 4 = Inr (2, out', g')"
    "unat (out' 0) = 5" "unat (out' 1) = 5" "AcquiredPages g' = AcquiredPages wit_full + 2"
    using st wit_full_free by (auto simp: round8_def)
  moreover from this have "out' 0 = 5" "out' 1 = 5" by (simp_all add: word_eq_unat)
  ultimately show ?thesis using st(3) by auto
qed

text \<open>
  C2: A dense request returns a block of consecutive pages of at most the requested length that were
  all free and are now allocated, and changes no other page; the output array lists them in order unless only
  the base was asked for, and the hint moves past the block. When a free block of the requested length lies
  in one of the two ranges the search covers, the request is satisfied in full.
\<close>

theorem acquire_pages_dense:
  assumes "pmm_ok g" "m AND PAGE_ACQ_DENSE \<noteq> 0" "m AND PAGE_ACQ_SPARSE = 0" "need \<noteq> 0"
    and "KrIsValidPageID g (start_page g h)"
  shows "\<exists>n out' g'. PmAcquirePages g out need ty m h = Inr (n, out', g') \<and> n \<le> need \<and> pmm_ok g' \<and> same_frame g g' \<and>
    page_total g' = page_total g \<and> (n = 0 \<longrightarrow> g' = g) \<and>
    (n \<noteq> 0 \<longrightarrow> unat (out' 0) + unat n \<le> unat (NrPages g) \<and>
      (\<forall>q. unat (out' 0) \<le> q \<and> q < unat (out' 0) + unat n \<longrightarrow> free_page g q) \<and>
      (\<forall>p. taken g' p \<longleftrightarrow> taken g p \<or> (unat (out' 0) \<le> p \<and> p < unat (out' 0) + unat n)) \<and>
      (m AND PAGE_ACQ_BASE_OUT_ONLY = 0 \<longrightarrow> (\<forall>j < unat n. out' j = out' 0 + of_nat j)) \<and>
      AcquireHint g' = out' 0 + n) \<and>
    (dense_block g (unat (start_page g h)) (unat need) \<longrightarrow> n = need)"
proof -
  have wf: "pmm_wf g" using assms(1) by (simp add: pmm_ok_def)
  obtain n out' g' where r: "PmAcquirePages g out need ty m h = Inr (n, out', g')" "n \<le> need" "pmm_ok g'" "same_frame g g'"
      "n = 0 \<longrightarrow> g' = g" and
    p: "n \<noteq> 0 \<longrightarrow> unat (out' 0) + unat n \<le> unat (NrPages g) \<and>
      (\<forall>q. unat (out' 0) \<le> q \<and> q < unat (out' 0) + unat n \<longrightarrow> free_page g q) \<and>
      (\<forall>p. taken g' p \<longleftrightarrow> taken g p \<or> (unat (out' 0) \<le> p \<and> p < unat (out' 0) + unat n)) \<and>
      (m AND PAGE_ACQ_BASE_OUT_ONLY = 0 \<longrightarrow> (\<forall>j < unat n. out' j = out' 0 + of_nat j)) \<and>
      AcquiredPages g' = AcquiredPages g + ucast n \<and> AcquireHint g' = out' 0 + n" and
    full: "dense_block g (unat (start_page g h)) (unat need) \<longrightarrow> n = need"
    using acquire_dense [OF assms, of out ty] by blast
  have "page_total g' = page_total g"
  proof (cases "n = 0")
    case False
    let ?S = "{unat (out' 0) ..< unat (out' 0) + unat n}"
    have u: "(of_nat (unat n) :: QWORD) = ucast n" by simp
    note rng = p [THEN mp, OF False, THEN conjunct1] and fr = p [THEN mp, OF False, THEN conjunct2, THEN conjunct1]
    show ?thesis
    proof (rule page_total_take [OF wf _ _ , of g' ?S])
      show "pmm_wf g'" "NrPages g' = NrPages g" using r(3,4) by (auto simp: pmm_ok_def same_frame_def)
      show "taken g' q \<longleftrightarrow> taken g q \<or> q \<in> ?S" for q using p False by simp
      show "?S \<subseteq> free_pages g" using rng fr by (auto simp: free_pages_def)
      show "AcquiredPages g' = AcquiredPages g + of_nat (card ?S)" using p False u by simp
    qed
  qed (use r(5) in simp)
  then show ?thesis using r p full by blast
qed

lemma acquire_pages_dense_witness:
  "\<exists>out' g'. PmAcquirePages wit_pmm (\<lambda>_. 0) 8 PAGE_TYPE_GENERAL (PAGE_ACQ_DENSE OR PAGE_ACQ_BASE_OUT_ONLY) 0 = Inr (8, out', g') \<and>
     page_total g' = page_total wit_pmm"
proof -
  have f: "free_page wit_pmm q \<longleftrightarrow> q \<noteq> 5" for q by (simp add: free_page_def wit_taken wit_reserved)
  have "dense_block wit_pmm 0 8"
    unfolding dense_block_def f by (rule exI [of _ 6]) (simp add: wit_pmm_def bitmap_pages_def)
  moreover have "(PAGE_ACQ_DENSE OR PAGE_ACQ_BASE_OUT_ONLY) AND PAGE_ACQ_DENSE \<noteq> 0"
    "(PAGE_ACQ_DENSE OR PAGE_ACQ_BASE_OUT_ONLY) AND PAGE_ACQ_SPARSE = 0"
    by (simp_all add: PAGE_ACQ_SPARSE_def PAGE_ACQ_DENSE_def PAGE_ACQ_BASE_OUT_ONLY_def)
  ultimately show ?thesis
    using acquire_pages_dense [OF wit_ok _ _ _ wit_start(1), of "PAGE_ACQ_DENSE OR PAGE_ACQ_BASE_OUT_ONLY" 8 "\<lambda>_. 0" PAGE_TYPE_GENERAL]
    by (auto simp: wit_start(2))
qed

section \<open>Single pages\<close>

lemma acquire_page:
  assumes "pmm_ok g" "KrIsValidPageID g (start_page g h)"
  shows "\<exists>ID g'. PmAcquirePage g ty h = Inr (ID, g') \<and> pmm_ok g' \<and> same_frame g g' \<and>
    (ID = IVLDPGID \<longleftrightarrow> free_pages g = {}) \<and> (ID = IVLDPGID \<longrightarrow> taken g' = taken g \<and> AcquiredPages g' = AcquiredPages g) \<and>
    (ID \<noteq> IVLDPGID \<longrightarrow> unat ID \<in> free_pages g \<and> (\<forall>p. taken g' p \<longleftrightarrow> taken g p \<or> p = unat ID) \<and>
      AcquiredPages g' = AcquiredPages g + 1)"
proof -
  let ?s = "unat (start_page g h)"
  have wf: "pmm_wf g" using assms(1) by (simp add: pmm_ok_def)
  have s: "?s < unat (NrPages g)" using assms(2) by (simp add: KrIsValidPageID_def word_less_nat_alt)
  have m: "sparse_method PAGE_ACQ_SPARSE"
    by (simp add: sparse_method_def PAGE_ACQ_SPARSE_def PAGE_ACQ_DENSE_def PAGE_ACQ_BASE_OUT_ONLY_def)
  define fs where "fs = found g ?s (unat (1 :: UINT))"
  obtain out' g' where r: "PmAcquirePages g (\<lambda>_. IVLDPGID) 1 ty PAGE_ACQ_SPARSE h = Inr (of_nat (length fs), out', g')"
    "\<forall>k < length fs. out' k = of_nat (fs ! k)" "\<forall>p. taken g' p \<longleftrightarrow> taken g p \<or> p \<in> set fs"
    "same_frame g g'" "pmm_ok g'" "AcquiredPages g' = AcquiredPages g + of_nat (length fs)"
    using acquire_sparse [OF assms(1) m _ assms(2), of 1 "\<lambda>_. IVLDPGID" ty] unfolding fs_def by auto
  show ?thesis
  proof (cases "candidates g ?s")
    case Nil
    then have "fs = []" by (simp add: fs_def found_def)
    moreover have "free_pages g = {}"
      using candidates_all [OF wf s] Nil pmm_wf_bounds(2) [OF wf] by (force simp: free_pages_def)
    ultimately show ?thesis using r by (simp add: PmAcquirePage_def fun_eq_iff)
  next
    case (Cons p ps)
    then have fs: "fs = [p]" by (simp add: fs_def found_def)
    have p: "free_page g p" "p < unat (NrPages g)" using candidates_free [OF wf s, of p] Cons by simp_all
    have u: "unat (of_nat p :: PAGEID) = p" using p(2) unat_dword_lt [of "NrPages g"] by (simp add: unat_page)
    have "of_nat p \<noteq> IVLDPGID" using valid_page [OF wf, of p] p(2) unat_dword_lt [of "NrPages g"] by (auto simp: KrIsValidPageID_def)
    then show ?thesis using r p u fs by (auto simp: PmAcquirePage_def free_pages_def)
  qed
qed

text \<open>
  C6: Acquiring one page from an existing hint returns the invalid identifier exactly when no page is
  free; otherwise the page is free before and allocated afterwards and no other page changes. Relinquishing
  that page while the metadata array is not in use gives it back: the allocated pages and the counter are as
  before.
\<close>

theorem acquire_relinquish_roundtrip:
  assumes "pmm_ok g" "KrIsValidPageID g (start_page g h)" "InitStage g < PMM_INIT_STAGE_BOOKKEEPING"
  shows "\<exists>ID g'. PmAcquirePage g ty h = Inr (ID, g') \<and> pmm_ok g' \<and> page_total g' = page_total g \<and>
    (ID = IVLDPGID \<longleftrightarrow> free_pages g = {}) \<and> (ID = IVLDPGID \<longrightarrow> taken g' = taken g) \<and>
    (ID \<noteq> IVLDPGID \<longrightarrow> unat ID \<in> free_pages g \<and> free_pages g' = free_pages g - {unat ID} \<and>
      (\<exists>g''. PmRelinquishPage g' ID = Inr (True, g'') \<and> pmm_ok g'' \<and> taken g'' = taken g \<and> AcquiredPages g'' = AcquiredPages g))"
proof -
  obtain ID g' where r: "PmAcquirePage g ty h = Inr (ID, g')" "pmm_ok g'" "same_frame g g'"
    "ID = IVLDPGID \<longleftrightarrow> free_pages g = {}" "ID = IVLDPGID \<longrightarrow> taken g' = taken g \<and> AcquiredPages g' = AcquiredPages g"
    "ID \<noteq> IVLDPGID \<longrightarrow> unat ID \<in> free_pages g \<and> (\<forall>p. taken g' p \<longleftrightarrow> taken g p \<or> p = unat ID) \<and> AcquiredPages g' = AcquiredPages g + 1"
    using acquire_page [OF assms(1,2), of ty] by blast
  have wf: "pmm_wf g" "pmm_wf g'" using assms(1) r(2) by (simp_all add: pmm_ok_def)
  have nr: "NrPages g' = NrPages g" "InitStage g' = InitStage g" "reserved g' = reserved g"
    using r(3) same_frame_eqs [OF r(3)] by (simp_all add: same_frame_def)
  show ?thesis
  proof (cases "ID = IVLDPGID")
    case True
    then have "free_pages g' = free_pages g" using r(5) wf nr by (simp add: free_pages_taken)
    then show ?thesis using True r by (simp add: page_total_def)
  next
    case False
    note f = r(6) [rule_format, OF False]
    have fp: "free_pages g' = free_pages g - {unat ID}" using f wf nr by (auto simp: free_pages_taken)
    have tot: "page_total g' = page_total g"
      by (rule page_total_take [OF wf nr(1), of "{unat ID}"]) (use f in auto)
    have v: "unat ID < unat (NrPages g')" and nres: "\<not> reserved g' (unat ID)" and tk: "taken g' (unat ID)"
      using f nr by (auto simp: free_pages_def free_page_def)
    have rel: "PmRelinquishPage g' ID = Inr (True, set_free g' ID)"
      using relinquish_basic [OF r(2) v nres] assms(3) nr(2) tk by simp
    have "taken (set_free g' ID) = taken g"
      using f by (auto simp: fun_eq_iff set_free_taken free_pages_def free_page_def)
    moreover have "pmm_ok (set_free g' ID)"
      using set_free_ok [OF wf(2) v tk nres] r(2) by (simp add: pmm_ok_def)
    moreover have "AcquiredPages (set_free g' ID) = AcquiredPages g" using f by (simp add: set_free_def)
    ultimately show ?thesis using r f fp tot rel False by blast
  qed
qed

lemma acquire_relinquish_roundtrip_witness:
  "\<exists>ID g' g''. PmAcquirePage wit_pmm PAGE_TYPE_GENERAL 0 = Inr (ID, g') \<and> ID \<noteq> IVLDPGID \<and>
     PmRelinquishPage g' ID = Inr (True, g'') \<and> AcquiredPages g'' = AcquiredPages wit_pmm"
proof -
  have "0 \<in> free_pages wit_pmm"
    by (simp add: free_pages_def free_page_def wit_taken wit_reserved) (simp add: wit_pmm_def)
  then have "free_pages wit_pmm \<noteq> {}" by auto
  moreover have "InitStage wit_pmm < PMM_INIT_STAGE_BOOKKEEPING" by (simp add: wit_pmm_def stage_order)
  ultimately show ?thesis
    using acquire_relinquish_roundtrip [OF wit_ok wit_start(1), of PAGE_TYPE_GENERAL] by metis
qed

section \<open>Any sequence of calls\<close>

lemma ClaimRun_mono: "taken g p \<Longrightarrow> taken (ClaimRun g m ID N) p"
proof -
  assume t: "taken g p"
  have u: "unat (ucast N :: SIZE) = unat N" by (simp add: unat_ucast_up)
  have "unat ID + unat (ucast N :: SIZE) < 2 ^ 64"
    using unat_dword_lt [of ID] unat_dword_lt [of N] by (simp add: u)
  note k = set_page_status_ok [OF this, of "PrimaryBitmap g" "NrPages g" PAGE_ALLOCATED p]
  then show ?thesis
    using t by (simp add: taken_def ClaimRun_def SetPrimary_def KrBulkSetPagesMeta_def Let_def PAGE_ALLOCATED_def)
qed

lemma ClaimSparse_mono: "taken g p \<Longrightarrow> taken (ClaimSparse g m out n i) p"
  by (induction g m out n i rule: ClaimSparse.induct) (subst ClaimSparse.simps, auto simp: Let_def ClaimRun_mono)

definition pmm_grows :: "KrPhysmemmgmtState \<Rightarrow> KrPhysmemmgmtState \<Rightarrow> bool" where
  "pmm_grows g g' \<longleftrightarrow> pmm_ok g' \<and> same_frame g g' \<and> (\<forall>p. taken g p \<longrightarrow> taken g' p)"

lemma claim_grows:
  assumes "pmm_ok g" "same_frame g g1" "\<And>p. taken g p \<Longrightarrow> taken g1 p"
  shows "pmm_grows g (UnlockPmm (g1\<lparr>AcquiredPages := a, AcquireHint := b\<rparr>))"
proof -
  let ?g = "UnlockPmm (g1\<lparr>AcquiredPages := a, AcquireHint := b\<rparr>)"
  have "same_frame g ?g" "PmSpinlock ?g = 0" using assms(2) by (simp_all add: same_frame_def UnlockPmm_def)
  moreover have "\<And>p. taken g p \<Longrightarrow> taken ?g p" using assms(3) by (simp add: taken_def UnlockPmm_def)
  ultimately show ?thesis using pmm_ok_more_taken [OF assms(1)] by (simp add: pmm_grows_def)
qed

lemma claim_run_grows:
  "pmm_ok g \<Longrightarrow> pmm_grows g (UnlockPmm (ClaimRun (g\<lparr>PmSpinlock := l\<rparr>) x y z\<lparr>AcquiredPages := a, AcquireHint := b\<rparr>))"
  using ClaimRun_mono [of "g\<lparr>PmSpinlock := l\<rparr>"] by (intro claim_grows) (simp_all add: same_frame_def taken_def)

lemma claim_sparse_grows:
  "pmm_ok g \<Longrightarrow> pmm_grows g (UnlockPmm (ClaimSparse (g\<lparr>PmSpinlock := l\<rparr>) x y z i\<lparr>AcquiredPages := a, AcquireHint := b\<rparr>))"
  using ClaimSparse_mono [of "g\<lparr>PmSpinlock := l\<rparr>"] by (intro claim_grows) (simp_all add: same_frame_def taken_def)

lemma acquire_any:
  assumes "pmm_ok g" "PmAcquirePages g out need ty m h = Inr (n, out', g')"
  shows "pmm_grows g g'"
proof -
  have lock: "PmSpinlock g = 0" using assms(1) by (simp add: pmm_ok_def)
  have unl: "UnlockPmm (g\<lparr>PmSpinlock := 1\<rparr>) = g" using lock by (simp add: UnlockPmm_def)
  have refl: "pmm_grows g g" using assms(1) by (simp add: pmm_grows_def same_frame_def)
  show ?thesis
    using assms(2) lock refl claim_run_grows [OF assms(1)] claim_sparse_grows [OF assms(1)]
    by (auto simp: PmAcquirePages_def Let_def unl split: if_splits prod.splits)
qed

lemma reserve_ok:
  assumes "pmm_ok g" "KrReservePhysicalPage g ID = (ok, g')"
  shows "pmm_ok g' \<and> NrPages g' = NrPages g \<and> taken g' = taken g \<and> ok = (KrIsValidPageID g ID \<and> taken g (unat ID)) \<and>
    (\<forall>p. reserved g' p \<longleftrightarrow> reserved g p \<or> (ok \<and> p = unat ID))"
proof -
  have wf: "pmm_wf g" using assms(1) by (simp add: pmm_ok_def)
  have t: "btest (PrimaryBitmap g (unat ID div 8)) (unat ID mod 8) = taken g (unat ID)"
    by (simp add: btest_bit taken_def page_bit_def)
  show ?thesis
  proof (cases "KrIsValidPageID g ID \<and> taken g (unat ID)")
    case False
    then show ?thesis using assms by (auto simp: KrReservePhysicalPage_def Let_def t unat_div unat_mod split: if_splits)
  next
    case True
    then have v: "unat ID < unat (NrPages g)" by (simp add: KrIsValidPageID_def word_less_nat_alt)
    have g': "ok" "NrPages g' = NrPages g" "BitmapSize g' = BitmapSize g" "PrimaryBitmap g' = PrimaryBitmap g"
      "PmSpinlock g' = PmSpinlock g"
      "AdvisoryBitmap g' = (AdvisoryBitmap g)(unat ID div 8 := bset (AdvisoryBitmap g (unat ID div 8)) (unat ID mod 8))"
      using True assms(2) by (auto simp: KrReservePhysicalPage_def Let_def t unat_div unat_mod split: if_splits)
    have tk: "taken g' = taken g" by (simp add: taken_def fun_eq_iff g')
    have rs: "reserved g' p \<longleftrightarrow> reserved g p \<or> p = unat ID" for p
      using v by (auto simp: reserved_def g' page_bit_upd)
    have "pmm_ok g'"
      using assms(1) True by (auto simp: pmm_ok_def pmm_wf_def g' bitmap_pages_def rs tk)
    then show ?thesis using True g' tk rs by simp
  qed
qed

text \<open>
  One call of the interface. A page is only relinquished if it exists: an identifier past the last page
  clears one of the guard bits at the end of the bitmap.
\<close>

inductive pmm_step :: "KrPhysmemmgmtState \<Rightarrow> KrPhysmemmgmtState \<Rightarrow> bool" where
  AcquireMany: "PmAcquirePages g out need ty m h = Inr (n, out', g') \<Longrightarrow> pmm_step g g'"
| AcquireOne: "PmAcquirePage g ty h = Inr (ID, g') \<Longrightarrow> pmm_step g g'"
| Relinquish: "unat ID < unat (NrPages g) \<Longrightarrow> PmRelinquishPage g ID = Inr (ok, g') \<Longrightarrow> pmm_step g g'"
| Reserve: "KrReservePhysicalPage g ID = (ok, g') \<Longrightarrow> pmm_step g g'"
| SetHint: "KrSetPhysicalPageAcquisitionHint g ID = (ok, g') \<Longrightarrow> pmm_step g g'"

inductive_cases pmm_stepE: "pmm_step g g'"

lemma pmm_step_ok:
  assumes "pmm_step g g'" "pmm_ok g"
  shows "pmm_ok g' \<and> NrPages g' = NrPages g \<and> (\<forall>p. reserved g p \<longrightarrow> reserved g' p)"
  using assms(1)
proof (cases rule: pmm_step.cases)
  case (AcquireMany out need ty m h n out')
  then have "pmm_ok g'" "same_frame g g'" using acquire_any [OF assms(2)] by (auto simp: pmm_grows_def)
  then show ?thesis using same_frame_eqs [of g g'] by (simp add: same_frame_def)
next
  case (AcquireOne ty h ID)
  then obtain n out' where "PmAcquirePages g (\<lambda>_. IVLDPGID) 1 ty PAGE_ACQ_SPARSE h = Inr (n, out', g')"
    by (auto simp: PmAcquirePage_def kbind_eq_Inr)
  then have "pmm_ok g'" "same_frame g g'" using acquire_any [OF assms(2)] by (auto simp: pmm_grows_def)
  then show ?thesis using same_frame_eqs [of g g'] by (simp add: same_frame_def)
next
  case (Relinquish ID ok)
  have "NrPages g' = NrPages g"
    using Relinquish(2) by (auto simp: PmRelinquishPage_def kbind_eq_Inr ReleaseBit_def UnlockPmm_def Let_def split: if_splits)
  then show ?thesis using relinquish_ok [OF assms(2) Relinquish] by simp
next
  case (Reserve ID ok)
  then show ?thesis using reserve_ok [OF assms(2) Reserve] by simp
next
  case (SetHint ID ok)
  then show ?thesis
    using assms(2) by (auto simp: KrSetPhysicalPageAcquisitionHint_def pmm_ok_def pmm_wf_def reserved_def taken_def bitmap_pages_def
        split: if_splits)
qed



end
