(* ===== verification/PhysmemInit.thy ===== *)
theory PhysmemInit
  imports PhysmemAcquire
begin

text \<open>
  Initialisation of the physical memory manager from the memory maps: it establishes the invariant, and the
  free pages are those of the canonical map outside the kernel image and above 1 MiB. Also the two
  conversions between page identifiers and physical addresses.
\<close>

definition page_range :: "nat \<Rightarrow> nat \<Rightarrow> nat set" where
  "page_range s n = {s ..< s + n}"

definition desc_pages :: "KrMemoryDescriptor \<Rightarrow> nat set" where
  "desc_pages d = page_range (unat (PhysicalBase d) div 4096) (unat (PageCount d))"

lemma SetAdvisory_fields [simp]:
  "NrPages (SetAdvisory ID N st g) = NrPages g" "BitmapSize (SetAdvisory ID N st g) = BitmapSize g"
  "PrimaryBitmap (SetAdvisory ID N st g) = PrimaryBitmap g" "InitStage (SetAdvisory ID N st g) = InitStage g"
  "PmSpinlock (SetAdvisory ID N st g) = PmSpinlock g" "pAdvisoryBitmap (SetAdvisory ID N st g) = pAdvisoryBitmap g"
  "AcquiredPages (SetAdvisory ID N st g) = AcquiredPages g"
  by (simp_all add: SetAdvisory_def)

lemma FreeRegion_fields [simp]:
  "NrPages (FreeRegion d g) = NrPages g" "BitmapSize (FreeRegion d g) = BitmapSize g"
  "PrimaryBitmap (FreeRegion d g) = PrimaryBitmap g" "InitStage (FreeRegion d g) = InitStage g"
  "PmSpinlock (FreeRegion d g) = PmSpinlock g" "pAdvisoryBitmap (FreeRegion d g) = pAdvisoryBitmap g"
  "AcquiredPages (FreeRegion d g) = AcquiredPages g"
  by (simp_all add: FreeRegion_def Let_def)

lemma fold_FreeRegion_fields [simp]:
  "NrPages (fold FreeRegion ds g) = NrPages g" "BitmapSize (fold FreeRegion ds g) = BitmapSize g"
  "PrimaryBitmap (fold FreeRegion ds g) = PrimaryBitmap g" "InitStage (fold FreeRegion ds g) = InitStage g"
  "PmSpinlock (fold FreeRegion ds g) = PmSpinlock g" "pAdvisoryBitmap (fold FreeRegion ds g) = pAdvisoryBitmap g"
  "AcquiredPages (fold FreeRegion ds g) = AcquiredPages g"
  by (induction ds arbitrary: g) simp_all

lemma fold_Discover_fields [simp]:
  "PmSpinlock (fold DiscoverRegion ds g) = PmSpinlock g" "InitStage (fold DiscoverRegion ds g) = InitStage g"
  "AcquiredPages (fold DiscoverRegion ds g) = AcquiredPages g"
  by (induction ds arbitrary: g) (simp_all add: DiscoverRegion_def Let_def)

lemma pmm_zero_init [simp]: "InitStage pmm_zero = PMM_INIT_STAGE_NONE" "PmSpinlock pmm_zero = 0" "AcquiredPages pmm_zero = 0"
  by (simp_all add: pmm_zero_def)

lemma SetAdvisory_bit:
  assumes "unat ID + unat N \<le> unat (NrPages g)"
  shows "page_bit (AdvisoryBitmap (SetAdvisory ID N st g)) p =
    (if p \<in> page_range (unat ID) (unat N) then st \<noteq> 0 else page_bit (AdvisoryBitmap g) p)"
proof -
  have "unat ID + unat N < 2 ^ 64" using assms unat_dword_lt [of "NrPages g"] by simp
  note set_page_status_ok [OF this, of "AdvisoryBitmap g" "NrPages g" st p]
  then show ?thesis using assms by (simp add: SetAdvisory_def page_range_def)
qed

lemma page_of_addr:
  fixes a :: QWORD
  assumes "unat a div 4096 < 2 ^ 32"
  shows "unat (ucast (a div KR_PAGE_SIZE) :: PAGEID) = unat a div 4096"
proof -
  have "unat (a div KR_PAGE_SIZE) = unat a div 4096" by (simp add: KR_PAGE_SIZE_def unat_div)
  then show ?thesis using assms by (simp add: unsigned_ucast_eq take_bit_nat_eq_self)
qed

lemma fold_FreeRegion_bit:
  assumes "\<forall>d \<in> set ds. unat (PhysicalBase d) div 4096 + unat (PageCount d) \<le> unat (NrPages g)"
  shows "page_bit (AdvisoryBitmap (fold FreeRegion ds g)) p \<longleftrightarrow>
    page_bit (AdvisoryBitmap g) p \<and> (\<forall>d \<in> set ds. p \<notin> desc_pages d)"
  using assms
proof (induction ds arbitrary: g)
  case (Cons d ds)
  have le: "unat (PhysicalBase d) div 4096 + unat (PageCount d) \<le> unat (NrPages g)" using Cons.prems by simp
  then have "unat (PhysicalBase d) div 4096 < 2 ^ 32" using unat_dword_lt [of "NrPages g"] by simp
  note id = page_of_addr [OF this]
  have "page_bit (AdvisoryBitmap (FreeRegion d g)) p \<longleftrightarrow> page_bit (AdvisoryBitmap g) p \<and> p \<notin> desc_pages d"
    using SetAdvisory_bit [of "ucast (PhysicalBase d div KR_PAGE_SIZE)" "PageCount d"] le id
    by (simp add: FreeRegion_def Let_def desc_pages_def PAGE_FREE_def)
  then show ?case using Cons.IH [of "FreeRegion d g"] Cons.prems by auto
qed simp

text \<open>The number of pages that the first pass finds.\<close>

definition highest :: "KrMemoryDescriptor list \<Rightarrow> nat" where
  "highest MemMap = unat (PaddrHighest (fold DiscoverRegion MemMap pmm_zero))"

definition page_count :: "KrMemoryDescriptor list \<Rightarrow> nat" where
  "page_count MemMap = (highest MemMap + 4095) div 4096"

definition bitmap_bytes :: "KrMemoryDescriptor list \<Rightarrow> nat" where
  "bitmap_bytes MemMap = (page_count MemMap + 7) div 8"

lemma MeasurePages_words:
  assumes "highest MemMap + 4095 < 2 ^ 64" "page_count MemMap + 7 < 2 ^ 32"
  defines "g \<equiv> MeasurePages (fold DiscoverRegion MemMap pmm_zero)"
  shows "unat (NrPages g) = page_count MemMap" "unat (BitmapSize g) = bitmap_bytes MemMap"
proof -
  let ?h = "PaddrHighest (fold DiscoverRegion MemMap pmm_zero)"
  have h: "?h + KR_PAGE_SIZE - 1 = ?h + 4095" "unat (?h + 4095) = unat ?h + 4095"
    using assms(1) unat_plus_le [of ?h 4095] by (simp_all add: KR_PAGE_SIZE_def highest_def)
  have "unat ((?h + 4095) div KR_PAGE_SIZE) = page_count MemMap"
    using h(2) by (simp add: KR_PAGE_SIZE_def unat_div page_count_def highest_def)
  then show nr: "unat (NrPages g) = page_count MemMap"
    using assms(2) by (simp add: g_def MeasurePages_def Let_def h(1) unsigned_ucast_eq take_bit_nat_eq_self)
  have "unat (NrPages g + 7) = page_count MemMap + 7" using assms(2) nr by (subst unat_plus_le) simp_all
  moreover have "BitmapSize g = ucast ((NrPages g + 7) div 8)" by (simp add: g_def MeasurePages_def Let_def)
  ultimately show "unat (BitmapSize g) = bitmap_bytes MemMap"
    by (simp add: unat_ucast_up unat_div bitmap_bytes_def)
qed

text \<open>The pages that are free once the manager is up.\<close>

definition usable_pages :: "KrMemoryDescriptor list \<Rightarrow> UINTPTR \<Rightarrow> SIZE \<Rightarrow> nat set" where
  "usable_pages Canonical base rsv =
     {p. (\<exists>d \<in> set Canonical. p \<in> desc_pages d) \<and>
         p \<notin> page_range (unat base div 4096) (unat rsv div 4096) \<and> 256 \<le> p}"

definition init_fits :: "KrMemoryDescriptor list \<Rightarrow> KrMemoryDescriptor list \<Rightarrow> UINTPTR \<Rightarrow> SIZE \<Rightarrow> arena \<Rightarrow> bool" where
  "init_fits MemMap Canonical base rsv a \<longleftrightarrow>
     highest MemMap + 4095 < 2 ^ 64 \<and> page_count MemMap + 7 < 2 ^ 32 \<and> 256 \<le> page_count MemMap \<and>
     (\<forall>d \<in> set Canonical. unat (PhysicalBase d) div 4096 + unat (PageCount d) \<le> page_count MemMap) \<and>
     unat base div 4096 + unat rsv div 4096 \<le> page_count MemMap \<and>
     arena_ok a \<and> unat (ArenaPtr a) + 2 * (bitmap_bytes MemMap + 15) \<le> unat (ArenaEnd a)"

lemma BuildAdvisory_fields [simp]:
  "NrPages (BuildAdvisory c b r g) = NrPages g" "BitmapSize (BuildAdvisory c b r g) = BitmapSize g"
  "InitStage (BuildAdvisory c b r g) = InitStage g" "PmSpinlock (BuildAdvisory c b r g) = PmSpinlock g"
  "pAdvisoryBitmap (BuildAdvisory c b r g) = pAdvisoryBitmap g" "AcquiredPages (BuildAdvisory c b r g) = AcquiredPages g"
  by (simp_all add: BuildAdvisory_def Let_def)

lemma BuildAdvisory_bits:
  assumes nr: "unat (NrPages g) = page_count MemMap" and fit: "init_fits MemMap Canonical base rsv a"
    and p: "p < bitmap_pages g"
  shows "page_bit (AdvisoryBitmap (BuildAdvisory Canonical base rsv g)) p \<longleftrightarrow> p \<notin> usable_pages Canonical base rsv"
proof -
  define g1 where "g1 = g\<lparr>AdvisoryBitmap := (\<lambda>k. if k < unat (BitmapSize g) then 0xFF else AdvisoryBitmap g k)\<rparr>"
  define g2 where "g2 = fold FreeRegion Canonical g1"
  define g3 where "g3 = SetAdvisory (ucast (base div KR_PAGE_SIZE)) (rsv div KR_PAGE_SIZE) PAGE_ALLOCATED g2"
  have n: "NrPages g1 = NrPages g" "NrPages g2 = NrPages g" "NrPages g3 = NrPages g"
    by (simp_all add: g1_def g2_def g3_def)
  have f: "\<forall>d \<in> set Canonical. unat (PhysicalBase d) div 4096 + unat (PageCount d) \<le> unat (NrPages g1)"
    "unat base div 4096 + unat rsv div 4096 \<le> unat (NrPages g)" "256 \<le> unat (NrPages g)"
    using nr fit n(1) by (auto simp: init_fits_def)
  have "unat base div 4096 < 2 ^ 32" using f(2) unat_dword_lt [of "NrPages g"] by simp
  note id = page_of_addr [OF this]
  have rs: "unat (rsv div KR_PAGE_SIZE) = unat rsv div 4096" by (simp add: KR_PAGE_SIZE_def unat_div)
  have mb: "unat (1024 * 1024 div KR_PAGE_SIZE :: SIZE) = 256" by (simp add: KR_PAGE_SIZE_def)
  have "page_bit (AdvisoryBitmap g1) p"
    using p by (simp add: g1_def page_bit_def bit_int_FF bitmap_pages_def div_less_iff_less_mult mult.commute)
  then have b2: "page_bit (AdvisoryBitmap g2) p \<longleftrightarrow> (\<forall>d \<in> set Canonical. p \<notin> desc_pages d)"
    unfolding g2_def using fold_FreeRegion_bit [OF f(1)] by simp
  have b3: "page_bit (AdvisoryBitmap g3) p \<longleftrightarrow>
      p \<in> page_range (unat base div 4096) (unat rsv div 4096) \<or> page_bit (AdvisoryBitmap g2) p"
    unfolding g3_def using f(2) n(2) by (subst SetAdvisory_bit) (simp_all add: id rs PAGE_ALLOCATED_def)
  have "page_bit (AdvisoryBitmap (SetAdvisory 0 (1024 * 1024 div KR_PAGE_SIZE) PAGE_ALLOCATED g3)) p \<longleftrightarrow>
      p < 256 \<or> page_bit (AdvisoryBitmap g3) p"
    using f(3) n(3) mb by (subst SetAdvisory_bit) (simp_all add: PAGE_ALLOCATED_def page_range_def)
  moreover have "BuildAdvisory Canonical base rsv g = SetAdvisory 0 (1024 * 1024 div KR_PAGE_SIZE) PAGE_ALLOCATED g3"
    by (simp add: BuildAdvisory_def Let_def g1_def g2_def g3_def)
  ultimately show ?thesis using b2 b3 by (auto simp: usable_pages_def)
qed

text \<open>
  C8: Starting the manager on a memory map whose canonical regions and kernel image lie below the highest
  usable address, with room for two bitmaps in the arena, succeeds. It establishes the invariant with no page
  acquired; exactly the pages of the canonical map that are neither in the kernel's reserved area nor below
  1 MiB are free, every other page is reserved, and the two bitmaps are disjoint blocks of the arena.
\<close>

theorem init_physmem_correct:
  assumes "init_fits MemMap Canonical base rsv a"
  shows "\<exists>a' g. KrInitPhysmemmgmt pmm_zero a MemMap Canonical base rsv = (True, a', g) \<and>
    pmm_ok g \<and> InitStage g = PMM_INIT_STAGE_BASIC \<and> AcquiredPages g = 0 \<and> unat (NrPages g) = page_count MemMap \<and>
    free_pages g = usable_pages Canonical base rsv \<and>
    (\<forall>p < unat (NrPages g). reserved g p \<longleftrightarrow> p \<notin> usable_pages Canonical base rsv) \<and>
    unat (pAdvisoryBitmap g) + bitmap_bytes MemMap \<le> unat (pPrimaryBitmap g) \<and>
    unat (pPrimaryBitmap g) + bitmap_bytes MemMap \<le> unat (ArenaEnd a) \<and> arena_ok a'"
proof -
  define g1 where "g1 = MeasurePages (fold DiscoverRegion MemMap pmm_zero)"
  let ?size = "BitmapSize g1"
  have fits: "highest MemMap + 4095 < 2 ^ 64" "page_count MemMap + 7 < 2 ^ 32" "256 \<le> page_count MemMap"
    "arena_ok a" "unat (ArenaPtr a) + 2 * (bitmap_bytes MemMap + 15) \<le> unat (ArenaEnd a)"
    using assms by (auto simp: init_fits_def)
  have nr: "unat (NrPages g1) = page_count MemMap" and size: "unat ?size = bitmap_bytes MemMap"
    using MeasurePages_words [OF fits(1,2)] by (simp_all add: g1_def)
  have sz0: "?size \<noteq> 0" using size fits(3) by (auto simp: bitmap_bytes_def)
  obtain a1 where a1: "KrBootstrapArenaAcquire a ?size = (ArenaPtr a, a1)" "ArenaPtr a \<noteq> 0" "arena_ok a1"
      "ArenaEnd a1 = ArenaEnd a" "unat (ArenaPtr a1) \<le> unat (ArenaPtr a) + unat ?size + 15" "arena_fits a ?size"
    using arena_acquire_some [OF fits(4) sz0] fits(5) size by auto
  obtain a2 where a2: "KrBootstrapArenaAcquire a1 ?size = (ArenaPtr a1, a2)" "ArenaPtr a1 \<noteq> 0" "arena_ok a2" "arena_fits a1 ?size"
    using arena_acquire_some [OF a1(3) sz0] fits(5) size a1(4,5) by auto
  have disj: "unat (ArenaPtr a) + unat ?size \<le> unat (ArenaPtr a1)" "unat (ArenaPtr a1) + unat ?size \<le> unat (ArenaEnd a)"
    using barena.two_blocks_disjoint [OF fits(4) a1(6,1,2) a2(4,1,2)] by auto
  define g3 where "g3 = BuildAdvisory Canonical base rsv (g1\<lparr>pAdvisoryBitmap := ArenaPtr a\<rparr>)"
  define g where "g = (CopyPrimary (g3\<lparr>pPrimaryBitmap := ArenaPtr a1\<rparr>))\<lparr>InitStage := PMM_INIT_STAGE_BASIC\<rparr>"
  have run: "KrInitPhysmemmgmt pmm_zero a MemMap Canonical base rsv = (True, a2, g)"
    using a1(1,2) a2(1,2)
    by (simp add: KrInitPhysmemmgmt_def Let_def stage_order pmm_zero_init g_def g3_def flip: g1_def)
  have fields: "NrPages g = NrPages g1" "BitmapSize g = ?size" "PmSpinlock g = 0" "AcquiredPages g = 0"
    "pAdvisoryBitmap g = ArenaPtr a" "pPrimaryBitmap g = ArenaPtr a1" "InitStage g = PMM_INIT_STAGE_BASIC"
    "AdvisoryBitmap g = AdvisoryBitmap g3"
    by (simp_all add: g_def g3_def g1_def CopyPrimary_def MeasurePages_def Let_def pmm_zero_def)
  have bp: "bitmap_pages g = 8 * unat ?size" by (simp add: bitmap_pages_def fields)
  have adv: "page_bit (AdvisoryBitmap g3) p \<longleftrightarrow> p \<notin> usable_pages Canonical base rsv" if "p < bitmap_pages g" for p
    unfolding g3_def using BuildAdvisory_bits [OF _ assms] nr that bp by (simp add: bitmap_pages_def)
  have le: "page_count MemMap \<le> bitmap_pages g" unfolding bp size bitmap_bytes_def by presburger
  have tk: "taken g p \<longleftrightarrow> p \<notin> usable_pages Canonical base rsv" if "p < bitmap_pages g" for p
  proof -
    have "p div 8 < unat ?size" using that bp by (simp add: div_less_iff_less_mult mult.commute)
    then have "taken g p = page_bit (AdvisoryBitmap g3) p"
      by (simp add: taken_def g_def CopyPrimary_def page_bit_def) (simp add: g3_def)
    then show ?thesis using adv [OF that] by simp
  qed
  have rs: "reserved g p \<longleftrightarrow> p \<notin> usable_pages Canonical base rsv" if "p < page_count MemMap" for p
    using adv [of p] that le by (simp add: reserved_def fields nr)
  have ub: "p < page_count MemMap" if "p \<in> usable_pages Canonical base rsv" for p
    using that assms by (force simp: usable_pages_def desc_pages_def page_range_def init_fits_def)
  have rlt: "reserved g p \<Longrightarrow> p < page_count MemMap" for p by (simp add: reserved_def fields nr)
  have "taken g p" if "page_count MemMap \<le> p" "p < bitmap_pages g" for p
    using tk [OF that(2)] ub [of p] that(1) by auto
  moreover have "taken g p" if "reserved g p" for p
    using tk [of p] rs [of p] rlt [OF that] that le by simp
  ultimately have wf: "pmm_wf g"
    using fits(2) nr size by (simp add: pmm_wf_def fields bitmap_bytes_def)
  have tk2: "taken g p \<longleftrightarrow> p \<notin> usable_pages Canonical base rsv" if "p < page_count MemMap" for p
    using tk [of p] that le by simp
  have "free_pages g = usable_pages Canonical base rsv"
    unfolding free_pages_taken [OF wf] fields nr
  proof (rule set_eqI)
    show "p \<in> {p. p < page_count MemMap \<and> \<not> taken g p} \<longleftrightarrow> p \<in> usable_pages Canonical base rsv" for p
      using tk2 [of p] ub [of p] by (cases "p < page_count MemMap") auto
  qed
  then show ?thesis
    using run wf rs disj a2(3) size nr by (auto simp: pmm_ok_def fields)
qed

text \<open>A machine with 512 pages of conventional memory above 0 whose kernel takes sixteen pages at 1 MiB.\<close>

definition wit_init_map :: "KrMemoryDescriptor list" where
  "wit_init_map = [\<lparr>PhysicalBase = 0, PageCount = 512, Attributes = 0, Type = KR_MEMORY_TYPE_CONVENTIONAL_MEMORY, Pad = 0\<rparr>]"

definition wit_arena :: arena where
  "wit_arena = \<lparr>ArenaBase = 0x1000, ArenaPtr = 0x1000, ArenaEnd = 0x2000\<rparr>"

lemma init_physmem_correct_witness:
  "\<exists>a' g. KrInitPhysmemmgmt pmm_zero wit_arena wit_init_map wit_init_map 0x100000 0x10000 = (True, a', g) \<and>
     pmm_ok g \<and> 300 \<in> free_pages g \<and> 260 \<notin> free_pages g"
proof -
  have h: "highest wit_init_map = 0x200000"
    by (simp add: highest_def wit_init_map_def DiscoverRegion_def KrIsUsableMemoryRegionType_def KR_PAGE_SIZE_def pmm_zero_def)
  have fit: "init_fits wit_init_map wit_init_map 0x100000 0x10000 wit_arena"
    by (simp add: init_fits_def page_count_def bitmap_bytes_def h wit_arena_def arena_ok_def) (simp add: wit_init_map_def)
  have "300 \<in> usable_pages wit_init_map 0x100000 0x10000" "260 \<notin> usable_pages wit_init_map 0x100000 0x10000"
    by (simp_all add: usable_pages_def page_range_def desc_pages_def wit_init_map_def)
  with init_physmem_correct [OF fit] show ?thesis by metis
qed

section \<open>Addresses\<close>

lemma page_address:
  assumes "KrIsValidPageID g ID"
  shows "unat (KrGetPhysicalPageAddress g ID) = unat ID * 4096 mod 2 ^ 32"
    and "unat ID < 2 ^ 20 \<Longrightarrow> unat ID * 4096 \<le> unat (PaddrHighest g) \<Longrightarrow>
      KrGetPhysicalPageID g (KrGetPhysicalPageAddress g ID) = ID"
    and "2 ^ 20 \<le> unat ID \<Longrightarrow> unat (KrGetPhysicalPageAddress g ID) < unat ID * 4096"
proof -
  show a: "unat (KrGetPhysicalPageAddress g ID) = unat ID * 4096 mod 2 ^ 32"
    using assms by (simp add: KrGetPhysicalPageAddress_def unat_ucast_up KR_PAGE_SIZE_def unat_word_ariths)
  show "KrGetPhysicalPageID g (KrGetPhysicalPageAddress g ID) = ID"
    if "unat ID < 2 ^ 20" "unat ID * 4096 \<le> unat (PaddrHighest g)"
  proof -
    have e: "unat (KrGetPhysicalPageAddress g ID) = unat ID * 4096" using a that(1) by simp
    then have "\<not> KrGetPhysicalPageAddress g ID > PaddrHighest g" using that(2) by (simp add: word_less_nat_alt)
    moreover have "unat (ucast (KrGetPhysicalPageAddress g ID div KR_PAGE_SIZE) :: PAGEID) = unat ID"
      using page_of_addr [of "KrGetPhysicalPageAddress g ID"] e that(1) by simp
    ultimately show ?thesis by (simp add: KrGetPhysicalPageID_def word_eq_unat)
  qed
  have "unat ID * 4096 mod 2 ^ 32 < 2 ^ 32" by simp
  then show "unat (KrGetPhysicalPageAddress g ID) < unat ID * 4096" if "2 ^ 20 \<le> unat ID"
    using a that by simp
qed

text \<open>
  The address of an existing page is its identifier times 4096 only modulo \<open>2 ^ 32\<close>: the product is
  computed in 32 bits. So the conversion to the address and back is the identity for pages below 4 GiB (when the
  highest address is not exceeded), and every page at or above 4 GiB gets the address of a page below.
\<close>

theorem page_address_truncates:
  assumes "KrIsValidPageID g ID"
  shows "unat (KrGetPhysicalPageAddress g ID) = unat ID * 4096 mod 2 ^ 32 \<and>
    (unat ID < 2 ^ 20 \<and> unat ID * 4096 \<le> unat (PaddrHighest g) \<longrightarrow>
      KrGetPhysicalPageID g (KrGetPhysicalPageAddress g ID) = ID) \<and>
    (2 ^ 20 \<le> unat ID \<longrightarrow> unat (KrGetPhysicalPageAddress g ID) < unat ID * 4096)"
  using page_address [OF assms] by blast

lemma page_address_truncates_witness:
  "KrGetPhysicalPageID (pmm_zero\<lparr>NrPages := 0x200000, PaddrHighest := 0x200000000\<rparr>)
     (KrGetPhysicalPageAddress (pmm_zero\<lparr>NrPages := 0x200000, PaddrHighest := 0x200000000\<rparr>) 0x1000) = 0x1000 \<and>
   KrGetPhysicalPageAddress (pmm_zero\<lparr>NrPages := 0x200000, PaddrHighest := 0x200000000\<rparr>) 0x100001 = 0x1000"
proof -
  let ?g = "pmm_zero\<lparr>NrPages := 0x200000, PaddrHighest := 0x200000000\<rparr>"
  have v: "KrIsValidPageID ?g 0x1000" "KrIsValidPageID ?g 0x100001" by (simp_all add: KrIsValidPageID_def IVLDPGID_def)
  show ?thesis
    using page_address_truncates [OF v(1)] page_address_truncates [OF v(2)] by (simp add: word_eq_unat)
qed

lemma relinquish_guard:
  assumes "pmm_ok g" "InitStage g < PMM_INIT_STAGE_BOOKKEEPING" "unat (NrPages g) \<le> unat ID" "unat ID < bitmap_pages g"
  shows "PmRelinquishPage g ID = Inr (True, set_free g ID)" "\<not> pmm_ok (set_free g ID)"
proof -
  have wf: "pmm_wf g" and lock: "PmSpinlock g = 0" using assms(1) by (simp_all add: pmm_ok_def)
  have t: "taken g (unat ID)" using wf assms(3,4) by (simp add: pmm_wf_def)
  have nr: "\<not> KrIsPhysicalPageReserved g ID" using reserved_id [OF wf] assms(3) by (simp add: reserved_def)
  have "ReleaseBit (g\<lparr>PmSpinlock := 1\<rparr>) ID = (True, set_free g ID)"
    using lock t assms(4) by (subst ReleaseBit_eq) (auto simp: taken_def set_free_def)
  then show "PmRelinquishPage g ID = Inr (True, set_free g ID)"
    using not_le [of PMM_INIT_STAGE_BOOKKEEPING "InitStage g"] assms(2) nr by (simp add: PmRelinquishPage_def lock Let_def)
  have "\<not> taken (set_free g ID) (unat ID)" by (simp add: set_free_taken)
  moreover have "NrPages (set_free g ID) = NrPages g" "bitmap_pages (set_free g ID) = bitmap_pages g"
    by (simp_all add: set_free_def bitmap_pages_def)
  ultimately show "\<not> pmm_ok (set_free g ID)" using assms(3,4) by (auto simp: pmm_ok_def pmm_wf_def)
qed

text \<open>
  Relinquishing an identifier past the last page, but inside the last byte of the bitmap, is accepted:
  it clears a guard bit and counts a page as returned that was never acquired, and the invariant is lost.
\<close>

theorem relinquish_guard_bit:
  assumes "pmm_ok g" "InitStage g < PMM_INIT_STAGE_BOOKKEEPING" "unat (NrPages g) \<le> unat ID" "unat ID < bitmap_pages g"
  shows "PmRelinquishPage g ID = Inr (True, set_free g ID) \<and> \<not> pmm_ok (set_free g ID)"
  using relinquish_guard [OF assms] by blast

lemma relinquish_guard_bit_witness:
  "PmRelinquishPage (wit_full\<lparr>NrPages := 13\<rparr>) 14 = Inr (True, set_free (wit_full\<lparr>NrPages := 13\<rparr>) 14)"
proof -
  have f: "taken (wit_full\<lparr>NrPages := 13\<rparr>) p \<longleftrightarrow> p \<noteq> 5" "\<not> reserved (wit_full\<lparr>NrPages := 13\<rparr>) p"
    "bitmap_pages (wit_full\<lparr>NrPages := 13\<rparr>) = 16" "InitStage (wit_full\<lparr>NrPages := 13\<rparr>) = PMM_INIT_STAGE_BASIC"
    "unat (BitmapSize (wit_full\<lparr>NrPages := 13\<rparr>)) = 2" "PmSpinlock (wit_full\<lparr>NrPages := 13\<rparr>) = 0" for p
    using wit_full_taken [of p]
    by (simp_all add: taken_def reserved_def bitmap_pages_def)
      (simp_all add: wit_full_def pmm_zero_def page_bit_def)
  then have "pmm_ok (wit_full\<lparr>NrPages := 13\<rparr>)" by (simp add: pmm_ok_def pmm_wf_def)
  then show ?thesis by (rule relinquish_guard_bit [THEN conjunct1]) (simp_all add: f stage_order)
qed

end
