(* ===== verification/PageSource.thy ===== *)
theory PageSource
  imports PhysmemInit
begin

text \<open>
  What the virtual memory code relies on when it takes single pages: the interface of
  \<^verbatim>\<open>PmAcquirePage\<close> as a locale, interpreted on the physical memory manager, and the addresses of
  pages below 4 GiB.
\<close>

section \<open>A source of pages\<close>

locale page_source =
  fixes acquire :: "'g \<Rightarrow> (PAGEID \<times> 'g) kres"
    and ok :: "'g \<Rightarrow> bool"
    and held :: "'g \<Rightarrow> nat set"
    and pages :: "'g \<Rightarrow> nat"
  assumes acquire_law: "ok g \<Longrightarrow> \<exists>ID g'. acquire g = Inr (ID, g') \<and> ok g' \<and> pages g' = pages g \<and>
      (ID = IVLDPGID \<longrightarrow> held g' = held g) \<and>
      (ID \<noteq> IVLDPGID \<longrightarrow> unat ID < pages g \<and> unat ID \<notin> held g \<and> held g' = insert (unat ID) (held g))"
begin

lemma acquire_total: "ok g \<Longrightarrow> \<exists>r. acquire g = Inr r"
  using acquire_law by blast

lemma acquireD:
  assumes "ok g" "acquire g = Inr (ID, g')"
  shows "ok g'" "pages g' = pages g" "held g \<subseteq> held g'"
    "ID = IVLDPGID \<Longrightarrow> held g' = held g"
    "ID \<noteq> IVLDPGID \<Longrightarrow> unat ID < pages g" "ID \<noteq> IVLDPGID \<Longrightarrow> unat ID \<notin> held g"
    "ID \<noteq> IVLDPGID \<Longrightarrow> held g' = insert (unat ID) (held g)"
  using acquire_law [OF assms(1)] assms(2) by (cases "ID = IVLDPGID"; auto)+

text \<open>A run of acquisitions: the pages it returns, until one is refused.\<close>

primrec acquire_run :: "nat \<Rightarrow> 'g \<Rightarrow> (PAGEID list \<times> 'g) kres" where
  "acquire_run 0 g = Inr ([], g)"
| "acquire_run (Suc n) g = kbind (acquire g) (\<lambda>(ID, g1).
     if ID = IVLDPGID then Inr ([], g1) else kbind (acquire_run n g1) (\<lambda>(ps, g2). Inr (ID # ps, g2)))"

lemma acquire_run_distinct:
  assumes "ok g"
  shows "\<exists>ps g'. acquire_run n g = Inr (ps, g') \<and> ok g' \<and> length ps \<le> n \<and> distinct ps \<and>
    held g' = held g \<union> unat ` set ps \<and> (\<forall>p \<in> set ps. unat p \<notin> held g \<and> unat p < pages g)"
  using assms
proof (induction n arbitrary: g)
  case (Suc n)
  obtain ID g1 where a: "acquire g = Inr (ID, g1)" using acquire_total [OF Suc.prems] by force
  note d = acquireD [OF Suc.prems a]
  show ?case
  proof (cases "ID = IVLDPGID")
    case True
    then show ?thesis using a d by simp
  next
    case False
    obtain ps g' where r: "acquire_run n g1 = Inr (ps, g')" "ok g'" "length ps \<le> n" "distinct ps"
      "held g' = held g1 \<union> unat ` set ps" "\<forall>p \<in> set ps. unat p \<notin> held g1 \<and> unat p < pages g1"
      using Suc.IH [OF d(1)] by blast
    then show ?thesis using a d False by auto
  qed
qed simp

end

section \<open>The physical memory manager as a source of pages\<close>

definition held_pages :: "KrPhysmemmgmtState \<Rightarrow> nat set" where
  "held_pages g = {p. taken g p}"

lemma acquire_any_hint:
  assumes "pmm_ok g"
  shows "\<exists>ID g'. PmAcquirePage g ty h = Inr (ID, g') \<and> pmm_ok g' \<and> NrPages g' = NrPages g \<and>
    (ID = IVLDPGID \<longrightarrow> held_pages g' = held_pages g) \<and>
    (ID \<noteq> IVLDPGID \<longrightarrow> unat ID < unat (NrPages g) \<and> unat ID \<notin> held_pages g \<and> held_pages g' = insert (unat ID) (held_pages g))"
proof (cases "KrIsValidPageID g (start_page g h)")
  case True
  obtain ID g' where r: "PmAcquirePage g ty h = Inr (ID, g')" "pmm_ok g'" "same_frame g g'"
    "ID = IVLDPGID \<longrightarrow> taken g' = taken g"
    "ID \<noteq> IVLDPGID \<longrightarrow> unat ID \<in> free_pages g \<and> (\<forall>p. taken g' p \<longleftrightarrow> taken g p \<or> p = unat ID)"
    using acquire_page [OF assms True, of ty] by blast
  moreover have "NrPages g' = NrPages g" using r(3) by (simp add: same_frame_def)
  ultimately show ?thesis
    by (auto simp: held_pages_def free_pages_def free_page_def)
next
  case False
  have lock: "PmSpinlock g = 0" using assms by (simp add: pmm_ok_def)
  let ?g = "UnlockPmm (g\<lparr> PmSpinlock := 1 \<rparr>)"
  have inv: "\<not> KrIsValidPageID (g\<lparr> PmSpinlock := 1 \<rparr>) (start_page g h)"
    using False by (simp add: KrIsValidPageID_def)
  have sp: "(if h = IVLDPGID then if AcquireHint (g\<lparr> PmSpinlock := 1 \<rparr>) = IVLDPGID then 0
      else AcquireHint (g\<lparr> PmSpinlock := 1 \<rparr>) else h) = start_page g h"
    by (simp add: start_page_def)
  have c: "(1 :: UINT) \<noteq> 0" "PAGE_ACQ_SPARSE AND PAGE_ACQ_DENSE = 0" "PAGE_ACQ_SPARSE AND PAGE_ACQ_BASE_OUT_ONLY = 0"
    by (simp_all add: PAGE_ACQ_SPARSE_def PAGE_ACQ_DENSE_def PAGE_ACQ_BASE_OUT_ONLY_def)
  have "PmAcquirePages g (\<lambda>_. IVLDPGID) 1 ty PAGE_ACQ_SPARSE h = Inr (0, \<lambda>_. IVLDPGID, ?g)"
    unfolding PmAcquirePages_def Let_def lock acquire_free kbind_Inr sp using inv c by simp
  then have r: "PmAcquirePage g ty h = Inr (IVLDPGID, ?g)" by (simp add: PmAcquirePage_def)
  have "?g = g" using lock by (simp add: UnlockPmm_def RelinquishSpinlock_def)
  then show ?thesis using r assms by simp
qed

interpretation pm: page_source "\<lambda>g. PmAcquirePage g ty IVLDPGID" pmm_ok held_pages "\<lambda>g. unat (NrPages g)" for ty
proof
  fix g assume "pmm_ok g"
  then show "\<exists>ID g'. PmAcquirePage g ty IVLDPGID = Inr (ID, g') \<and> pmm_ok g' \<and> unat (NrPages g') = unat (NrPages g) \<and>
      (ID = IVLDPGID \<longrightarrow> held_pages g' = held_pages g) \<and>
      (ID \<noteq> IVLDPGID \<longrightarrow> unat ID < unat (NrPages g) \<and> unat ID \<notin> held_pages g \<and> held_pages g' = insert (unat ID) (held_pages g))"
    using acquire_any_hint [of g ty IVLDPGID] by metis
qed

section \<open>Addresses of pages below 4 GiB\<close>

text \<open>Below 2^20 pages the 32-bit product of the address does not wrap.\<close>

lemma page_address_small:
  assumes "unat (NrPages g) \<le> 2 ^ 20" "KrIsValidPageID g ID"
  shows "unat (KrGetPhysicalPageAddress g ID) = 4096 * unat ID"
proof -
  have "unat ID < unat (NrPages g)" using assms(2) by (simp add: KrIsValidPageID_def word_less_nat_alt)
  then have l: "unat ID < 2 ^ 20" using assms(1) by linarith
  then have "unat (ID * 4096) = unat ID * 4096"
    by (simp add: unat_word_ariths)
  then show ?thesis
    using assms(2) by (simp add: KrGetPhysicalPageAddress_def KR_PAGE_SIZE_def unat_ucast_up)
qed

lemma page_address_inj:
  assumes "unat (NrPages g) \<le> 2 ^ 20" "KrIsValidPageID g ID" "KrIsValidPageID g ID'"
    "KrGetPhysicalPageAddress g ID = KrGetPhysicalPageAddress g ID'"
  shows "ID = ID'"
  using page_address_small [OF assms(1,2)] page_address_small [OF assms(1,3)] assms(4) by (simp add: word_eq_unat)

end
