(* ===== verification/Krtl.thy ===== *)
theory Krtl
  imports YchPrelude
begin

text \<open>
  The kernel runtime library: \<^verbatim>\<open>Kernel/Source/KRTL/Krnlmem.c\<close>,
  \<^verbatim>\<open>Krnlchar.c\<close> and \<^verbatim>\<open>Krnlstring.c\<close>, over a memory of bytes.
  Addresses are 64-bit and wrap.
\<close>

section \<open>Buffers\<close>

function KrtlContiguousSetBuffer :: "memory \<Rightarrow> UINTPTR \<Rightarrow> BYTE \<Rightarrow> SIZE \<Rightarrow> memory" where
  "KrtlContiguousSetBuffer mem pDest Value N =
     (if N = 0 then mem else KrtlContiguousSetBuffer (mem(pDest := Value)) (pDest + 1) Value (N - 1))"
  by pat_completeness auto
termination
  by (relation "measure (\<lambda>(mem, p, v, n). unat n)") (auto simp: unat_minus_one unat_gt_0)

declare KrtlContiguousSetBuffer.simps [simp del]

definition KrtlContiguousZeroBuffer :: "memory \<Rightarrow> UINTPTR \<Rightarrow> SIZE \<Rightarrow> memory" where
  "KrtlContiguousZeroBuffer mem pDest N = KrtlContiguousSetBuffer mem pDest 0 N"

text \<open>
  The loop condition compares first and decrements \<open>N\<close> only when the bytes are equal; the decrement
  happens in the test that ends the loop too.
\<close>

function BufferEqualLoop :: "memory \<Rightarrow> UINTPTR \<Rightarrow> UINTPTR \<Rightarrow> SIZE \<Rightarrow> SIZE" where
  "BufferEqualLoop mem pLeft pRight N =
     (if mem pLeft = mem pRight
      then (if N = 0 then N - 1 else BufferEqualLoop mem (pLeft + 1) (pRight + 1) (N - 1))
      else N)"
  by pat_completeness auto
termination
  by (relation "measure (\<lambda>(mem, l, r, n). unat n)") (auto simp: unat_minus_one unat_gt_0)

declare BufferEqualLoop.simps [simp del]

definition KrtlBufferEqual :: "memory \<Rightarrow> UINTPTR \<Rightarrow> UINTPTR \<Rightarrow> SIZE \<Rightarrow> bool" where
  "KrtlBufferEqual mem pLHS pRHS N \<longleftrightarrow> BufferEqualLoop mem pLHS pRHS N = 0"

definition KrtlIsPowerOfTwoAligned :: "UINTPTR \<Rightarrow> UINT \<Rightarrow> bool" where
  "KrtlIsPowerOfTwoAligned Address PowerOfTwoAlignment \<longleftrightarrow> Address AND ucast (PowerOfTwoAlignment - 1) = 0"

definition KrtlAlignUpToPowerOfTwo :: "UINTPTR \<Rightarrow> UINT \<Rightarrow> UINTPTR" where
  "KrtlAlignUpToPowerOfTwo Address PowerOfTwoAlignment =
     (Address + ucast (PowerOfTwoAlignment - 1)) AND NOT (ucast PowerOfTwoAlignment - 1)"

section \<open>Characters\<close>

text \<open>\<^verbatim>\<open>CHAR\<close> is signed; \<open>ch\<close> is the code of a character literal.\<close>

type_synonym CCHAR = "8 word"

definition ch :: "char \<Rightarrow> CCHAR" where "ch c = of_char c"

definition in_chars :: "CCHAR \<Rightarrow> char \<Rightarrow> char \<Rightarrow> bool" where
  "in_chars Ch lo hi \<longleftrightarrow> sint (ch lo) \<le> sint Ch \<and> sint Ch \<le> sint (ch hi)"

definition KrtlIsCharDigit :: "CCHAR \<Rightarrow> bool" where
  "KrtlIsCharDigit Ch \<longleftrightarrow> in_chars Ch (CHR ''0'') (CHR ''9'')"

definition KrtlIsCharUpper :: "CCHAR \<Rightarrow> bool" where
  "KrtlIsCharUpper Ch \<longleftrightarrow> in_chars Ch (CHR ''A'') (CHR ''Z'')"

definition KrtlIsCharLower :: "CCHAR \<Rightarrow> bool" where
  "KrtlIsCharLower Ch \<longleftrightarrow> in_chars Ch (CHR ''a'') (CHR ''z'')"

definition KrtlIsCharAlpha :: "CCHAR \<Rightarrow> bool" where
  "KrtlIsCharAlpha Ch \<longleftrightarrow> KrtlIsCharLower Ch \<or> KrtlIsCharUpper Ch"

definition KrtlIsCharPunct :: "CCHAR \<Rightarrow> bool" where
  "KrtlIsCharPunct Ch \<longleftrightarrow> in_chars Ch (CHR ''!'') (CHR ''/'') \<or> in_chars Ch (CHR '':'') (CHR ''@'') \<or>
     in_chars Ch (CHR ''['') (CHR 0x60) \<or> in_chars Ch (CHR ''{'') (CHR ''~'')"

definition KrtlIsCharPrint :: "CCHAR \<Rightarrow> bool" where
  "KrtlIsCharPrint Ch \<longleftrightarrow> KrtlIsCharAlpha Ch \<or> KrtlIsCharDigit Ch \<or> KrtlIsCharPunct Ch \<or> Ch = ch (CHR '' '')"

section \<open>Numbers to strings\<close>

definition KRTL_RADIX_OCTAL :: UINT where "KRTL_RADIX_OCTAL = 8"
definition KRTL_RADIX_DECIMAL :: UINT where "KRTL_RADIX_DECIMAL = 10"
definition KRTL_RADIX_HEXADECIMAL :: UINT where "KRTL_RADIX_HEXADECIMAL = 16"

function KrtlReverseString :: "memory \<Rightarrow> UINTPTR \<Rightarrow> UINTPTR \<Rightarrow> memory" where
  "KrtlReverseString mem pStr pStrEnd =
     (if pStr < pStrEnd
      then KrtlReverseString (mem(pStr := mem pStrEnd, pStrEnd := mem pStr)) (pStr + 1) (pStrEnd - 1)
      else mem)"
  by pat_completeness auto
termination
proof (relation "measure (\<lambda>(mem, p, q). unat q - unat p)")
  fix mem :: memory and p q :: UINTPTR
  assume lt: "p < q"
  then have "unat (p + 1) = unat p + 1" "unat (q - 1) \<le> unat q" "unat p < unat q"
    using unat_Suc_less [OF lt] unat_minus_le [of 1 q]
    by (auto simp: word_less_nat_alt word_le_nat_alt Suc_le_eq)
  then show "((mem(p := mem q, q := mem p), p + 1, q - 1), mem, p, q) \<in> measure (\<lambda>(mem, p, q). unat q - unat p)"
    by simp
qed simp

declare KrtlReverseString.simps [simp del]

definition KrtlDigitChar :: "QWORD \<Rightarrow> bool \<Rightarrow> CCHAR" where
  "KrtlDigitChar r Upper =
     (if r < 10 then ucast (r + ucast (ch (CHR ''0'')))
      else ucast ((r - 10) + ucast (if Upper then ch (CHR ''A'') else ch (CHR ''a''))))"

text \<open>The digit loop; \<open>Radix\<close> is the \<^verbatim>\<open>INT\<close> of the call, widened with its sign.\<close>

fun UnsignedDigits :: "nat \<Rightarrow> memory \<Rightarrow> UINTPTR \<Rightarrow> QWORD \<Rightarrow> QWORD \<Rightarrow> bool \<Rightarrow> (memory \<times> UINTPTR) kres" where
  "UnsignedDigits 0 mem pDest Value Radix Upper = Inl OutOfFuel"
| "UnsignedDigits (Suc f) mem pDest Value Radix Upper =
     (if Value = 0 then Inr (mem, pDest)
      else if Radix = 0 then Inl DivideError
      else UnsignedDigits f (mem(pDest := KrtlDigitChar (Value mod Radix) Upper)) (pDest + 1) (Value div Radix) Radix Upper)"

definition KrtlUnsignedToString :: "memory \<Rightarrow> UINTPTR \<Rightarrow> QWORD \<Rightarrow> UINT \<Rightarrow> bool \<Rightarrow> memory kres" where
  "KrtlUnsignedToString mem pDest Value Radix Upper =
     (if Value = 0 then Inr (mem(pDest := ch (CHR ''0''), pDest + 1 := 0))
      else kbind (UnsignedDigits 65 mem pDest Value (scast Radix) Upper) (\<lambda>(mem1, p).
        Inr (KrtlReverseString (mem1(p := 0)) pDest (p - 1))))"

text \<open>
  Signed division truncates towards zero. Negating the smallest value wraps to itself, and its digits are
  then taken from negative remainders.
\<close>

definition sdiv64 :: "QWORD \<Rightarrow> QWORD \<Rightarrow> QWORD" where
  "sdiv64 a b = word_of_int (sgn (sint a) * sgn (sint b) * (\<bar>sint a\<bar> div \<bar>sint b\<bar>))"

definition smod64 :: "QWORD \<Rightarrow> QWORD \<Rightarrow> QWORD" where
  "smod64 a b = a - sdiv64 a b * b"

fun SignedDigits :: "nat \<Rightarrow> memory \<Rightarrow> UINTPTR \<Rightarrow> QWORD \<Rightarrow> QWORD \<Rightarrow> bool \<Rightarrow> (memory \<times> UINTPTR) kres" where
  "SignedDigits 0 mem pDest Value Radix Upper = Inl OutOfFuel"
| "SignedDigits (Suc f) mem pDest Value Radix Upper =
     (if Value = 0 then Inr (mem, pDest)
      else if Radix = 0 then Inl DivideError
      else SignedDigits f (mem(pDest := KrtlDigitChar (smod64 Value Radix) Upper)) (pDest + 1) (sdiv64 Value Radix) Radix Upper)"

definition KrtlSignedToString :: "memory \<Rightarrow> UINTPTR \<Rightarrow> QWORD \<Rightarrow> UINT \<Rightarrow> bool \<Rightarrow> memory kres" where
  "KrtlSignedToString mem pDest Value Radix Upper =
     (if Value = 0 then Inr (mem(pDest := ch (CHR ''0''), pDest + 1 := 0))
      else
        let bHasSign = (sint Value < 0)
        in kbind (SignedDigits 65 mem pDest (if bHasSign then - Value else Value) (scast Radix) Upper) (\<lambda>(mem1, p).
             let (mem2, p2) = (if bHasSign then (mem1(p := ch (CHR ''-'')), p + 1) else (mem1, p))
             in Inr (KrtlReverseString (mem2(p2 := 0)) pDest (p2 - 1))))"

text \<open>The scan starts at the second character. A string that never ends runs out of fuel.\<close>

fun StringScan :: "nat \<Rightarrow> memory \<Rightarrow> UINTPTR \<Rightarrow> UINTPTR kres" where
  "StringScan 0 mem pIt = Inl OutOfFuel"
| "StringScan (Suc f) mem pIt = (if mem (pIt + 1) \<noteq> 0 then StringScan f mem (pIt + 1) else Inr (pIt + 1))"

definition KrtlStringSize :: "nat \<Rightarrow> memory \<Rightarrow> UINTPTR \<Rightarrow> SIZE kres" where
  "KrtlStringSize f mem pString = kbind (StringScan f mem pString) (\<lambda>pIt. Inr (pIt - pString))"

section \<open>Formatting\<close>

text \<open>
  The format is the list of its characters before the terminator, the variadic arguments a list of 64-bit
  values each of which is read at the width of its conversion, and the output the characters written so far.
  Numbers are printed into a local buffer, measured and copied.
\<close>

definition mem_bytes :: "memory \<Rightarrow> UINTPTR \<Rightarrow> nat \<Rightarrow> BYTE list" where
  "mem_bytes mem p n = map (\<lambda>i. mem (p + of_nat i)) [0..<n]"

definition FmtBuffer :: "memory kres \<Rightarrow> UINTPTR \<Rightarrow> BYTE list kres" where
  "FmtBuffer r p = kbind r (\<lambda>m. kbind (KrtlStringSize 128 m p) (\<lambda>n. Inr (mem_bytes m p (unat n))))"

text \<open>The local buffer lies at some address; what it holds before does not matter.\<close>

definition FmtUnsigned :: "QWORD \<Rightarrow> UINT \<Rightarrow> bool \<Rightarrow> BYTE list kres" where
  "FmtUnsigned v Radix Upper = FmtBuffer (KrtlUnsignedToString (\<lambda>_. 0) 1 v Radix Upper) 1"

definition FmtSigned :: "QWORD \<Rightarrow> BYTE list kres" where
  "FmtSigned v = FmtBuffer (KrtlSignedToString (\<lambda>_. 0) 1 v KRTL_RADIX_DECIMAL False) 1"

definition chars :: "string \<Rightarrow> BYTE list" where "chars s = map ch s"

definition va_arg :: "QWORD list \<Rightarrow> (QWORD \<Rightarrow> BYTE list kres) \<Rightarrow> (BYTE list \<times> QWORD list) kres" where
  "va_arg args f = (case args of [] \<Rightarrow> Inl OutOfBounds | a # as \<Rightarrow> kbind (f a) (\<lambda>bs. Inr (bs, as)))"

definition as_UINT :: "QWORD \<Rightarrow> QWORD" where "as_UINT a = ucast (ucast a :: UINT)"
definition as_INT :: "QWORD \<Rightarrow> QWORD" where "as_INT a = scast (ucast a :: UINT)"

definition FmtString :: "nat \<Rightarrow> memory \<Rightarrow> UINTPTR \<Rightarrow> BYTE list kres" where
  "FmtString f mem Str =
     (if Str \<noteq> 0 then kbind (KrtlStringSize f mem Str) (\<lambda>n. Inr (mem_bytes mem Str (unat (ucast n :: UINT))))
      else Inr (chars ''(NULL)'' @ [0]))"

definition Conversion :: "nat \<Rightarrow> memory \<Rightarrow> BYTE \<Rightarrow> QWORD list \<Rightarrow> (BYTE list \<times> QWORD list) kres option" where
  "Conversion f mem k args =
     (if k = ch (CHR ''c'') then Some (va_arg args (\<lambda>a. Inr [ucast a]))
      else if k = ch (CHR ''B'') then
        Some (va_arg args (\<lambda>a. Inr (chars (if as_UINT a \<noteq> 0 then ''TRUE'' else ''FALSE''))))
      else if k = ch (CHR ''b'') then
        Some (va_arg args (\<lambda>a. Inr (chars (if as_UINT a \<noteq> 0 then ''true'' else ''false''))))
      else if k = ch (CHR ''s'') then Some (va_arg args (FmtString f mem))
      else if k = ch (CHR ''d'') \<or> k = ch (CHR ''i'') then Some (va_arg args (\<lambda>a. FmtSigned (as_INT a)))
      else if k = ch (CHR ''u'') then Some (va_arg args (\<lambda>a. FmtUnsigned (as_UINT a) KRTL_RADIX_DECIMAL False))
      else if k = ch (CHR ''o'') then Some (va_arg args (\<lambda>a. FmtUnsigned (as_UINT a) KRTL_RADIX_OCTAL False))
      else if k = ch (CHR ''X'') then Some (va_arg args (\<lambda>a. FmtUnsigned (as_UINT a) KRTL_RADIX_HEXADECIMAL True))
      else if k = ch (CHR ''x'') then Some (va_arg args (\<lambda>a. FmtUnsigned (as_UINT a) KRTL_RADIX_HEXADECIMAL False))
      else if k = ch (CHR ''p'') then
        Some (va_arg args (\<lambda>a. kbind (FmtUnsigned a KRTL_RADIX_HEXADECIMAL True) (\<lambda>bs. Inr (chars ''0x'' @ bs))))
      else None)"

definition ConversionR :: "BYTE \<Rightarrow> QWORD list \<Rightarrow> (BYTE list \<times> QWORD list) kres option" where
  "ConversionR k args =
     (if k = ch (CHR ''u'') then Some (va_arg args (\<lambda>a. FmtUnsigned a KRTL_RADIX_DECIMAL False))
      else if k = ch (CHR ''X'') then Some (va_arg args (\<lambda>a. FmtUnsigned a KRTL_RADIX_HEXADECIMAL True))
      else if k = ch (CHR ''x'') then Some (va_arg args (\<lambda>a. FmtUnsigned a KRTL_RADIX_HEXADECIMAL False))
      else None)"

function KrtlFormatStringVariadic :: "nat \<Rightarrow> memory \<Rightarrow> UINT \<Rightarrow> BYTE list \<Rightarrow> QWORD list \<Rightarrow> BYTE list \<Rightarrow> (int \<times> BYTE list) kres" where
  "KrtlFormatStringVariadic f mem Limit Format args Out =
     (case Format of
        [] \<Rightarrow> Inr (int (length Out), Out)
      | c # rest \<Rightarrow>
          if Limit \<noteq> - 1 \<and> int (length Out) \<ge> sint Limit then Inr (int (length Out), Out)
          else if c \<noteq> ch (CHR ''%'') then KrtlFormatStringVariadic f mem Limit rest args (Out @ [c])
          else (case rest of
                  [] \<Rightarrow> Inr (- 1, Out)
                | k # rest' \<Rightarrow>
                    if k = ch (CHR ''%'')
                    then KrtlFormatStringVariadic f mem Limit rest' args (Out @ [case rest' of [] \<Rightarrow> 0 | x # _ \<Rightarrow> x])
                    else if k = ch (CHR ''R'') then
                      (case rest' of
                         [] \<Rightarrow> Inr (- 1, Out)
                       | k' # rest'' \<Rightarrow>
                           (case ConversionR k' args of
                              None \<Rightarrow> Inr (- 1, Out)
                            | Some r \<Rightarrow> kbind r (\<lambda>(bs, args'). KrtlFormatStringVariadic f mem Limit rest'' args' (Out @ bs))))
                    else
                      (case Conversion f mem k args of
                         None \<Rightarrow> Inr (- 1, Out)
                       | Some r \<Rightarrow> kbind r (\<lambda>(bs, args'). KrtlFormatStringVariadic f mem Limit rest' args' (Out @ bs)))))"
  by pat_completeness auto
termination by (relation "measure (\<lambda>(f, mem, l, fmt, args, out). length fmt)") auto

declare KrtlFormatStringVariadic.simps [simp del]

section \<open>Buffers are filled and compared\<close>

lemma unat_pred: "(n :: 'a::len word) \<noteq> 0 \<Longrightarrow> unat (n - 1) = unat n - 1"
  by (simp add: unat_minus_one)

lemma set_buffer:
  assumes "unat p + unat n \<le> 2 ^ 64"
  shows "KrtlContiguousSetBuffer mem p v n a = (if unat p \<le> unat a \<and> unat a < unat p + unat n then v else mem a)"
  using assms
proof (induction mem p v n rule: KrtlContiguousSetBuffer.induct)
  case (1 mem p v n)
  show ?case
  proof (cases "n = 0")
    case True
    then show ?thesis by (subst KrtlContiguousSetBuffer.simps) auto
  next
    case False
    have n: "unat (n - 1) = unat n - 1" "0 < unat n" using False unat_pred by (auto simp: unat_gt_0)
    show ?thesis
    proof (cases "unat n = 1")
      case True
      then have n1: "n = 1" by (simp add: word_eq_unat)
      have "KrtlContiguousSetBuffer mem p v n = mem(p := v)"
        unfolding n1 by (subst KrtlContiguousSetBuffer.simps, subst KrtlContiguousSetBuffer.simps) simp
      moreover have "(a = p) = (unat p \<le> unat a \<and> unat a < unat p + unat n)" unfolding word_eq_unat True by auto
      ultimately show ?thesis by simp
    next
      case f: False
      have p: "unat (p + 1) = unat p + 1" using 1(2) f n(2) by (intro unat_Suc_word) simp
      define m where "m = mem(p := v)"
      have e: "KrtlContiguousSetBuffer mem p v n = KrtlContiguousSetBuffer m (p + 1) v (n - 1)"
        using False by (subst KrtlContiguousSetBuffer.simps) (simp add: m_def)
      have ma: "m a = (if unat a = unat p then v else mem a)" by (simp add: m_def word_eq_unat [of a p])
      have "KrtlContiguousSetBuffer m (p + 1) v (n - 1) a =
          (if unat p + 1 \<le> unat a \<and> unat a < unat p + 1 + (unat n - 1) then v else m a)"
        using 1(1) [OF False, folded m_def] 1(2) n p by simp
      then show ?thesis unfolding e using n(2) ma by auto
    qed
  qed
qed

lemma buffer_equal_loop:
  "BufferEqualLoop mem l r n = 0 \<longleftrightarrow>
    (\<forall>i < unat n. mem (l + of_nat i) = mem (r + of_nat i)) \<and> mem (l + n) \<noteq> mem (r + n)"
proof (induction mem l r n rule: BufferEqualLoop.induct)
  case (1 mem l r n)
  show ?case
  proof (cases "n = 0")
    case True
    then show ?thesis by (subst BufferEqualLoop.simps) simp
  next
    case n0: False
    have "0 < unat n" using n0 by (simp add: unat_gt_0)
    then have n: "unat n = Suc (unat (n - 1))" using unat_pred [OF n0] by simp
    have shift: "(\<forall>i < unat n. mem (l + of_nat i) = mem (r + of_nat i)) \<longleftrightarrow>
        mem l = mem r \<and> (\<forall>i < unat (n - 1). mem (l + 1 + of_nat i) = mem (r + 1 + of_nat i))"
      unfolding n by (auto simp: less_Suc_eq_0_disj add.assoc)
    show ?thesis
    proof (cases "mem l = mem r")
      case True
      then show ?thesis using 1 [OF True n0] n0 shift by (subst BufferEqualLoop.simps) simp
    next
      case False
      then show ?thesis using n0 shift by (subst BufferEqualLoop.simps) simp
    qed
  qed
qed

section \<open>Strings in memory\<close>

definition bytes_at :: "memory \<Rightarrow> UINTPTR \<Rightarrow> BYTE list \<Rightarrow> bool" where
  "bytes_at mem p bs \<longleftrightarrow> (\<forall>i < length bs. mem (p + of_nat i) = bs ! i)"

definition same_except :: "memory \<Rightarrow> memory \<Rightarrow> UINTPTR \<Rightarrow> nat \<Rightarrow> bool" where
  "same_except mem mem' p n \<longleftrightarrow> (\<forall>a. \<not> (unat p \<le> unat a \<and> unat a < unat p + n) \<longrightarrow> mem' a = mem a)"

lemma addr_nat: "P < 2 ^ 64 \<Longrightarrow> unat (of_nat P :: UINTPTR) = P"
  by (simp add: unat_of_nat_small)

lemma reverse_string:
  assumes "0 < P \<or> 0 < n" "P < 2 ^ 64 \<and> P + n \<le> 2 ^ 64" "a < 2 ^ 64"
  shows "KrtlReverseString mem (of_nat P) (of_nat (P + n - 1)) (of_nat a) =
    (if P \<le> a \<and> a < P + n then mem (of_nat (2 * P + n - 1 - a)) else mem (of_nat a))"
  using assms(1,2)
proof (induction n arbitrary: P mem rule: less_induct)
  case (less n)
  let ?p = "of_nat P :: UINTPTR" and ?q = "of_nat (P + n - 1) :: UINTPTR"
  have uP: "unat ?p = P" using less.prems by (intro addr_nat) simp
  have uq: "unat ?q = P + n - 1" using less.prems by (intro addr_nat) linarith
  show ?case
  proof (cases "n < 2")
    case True
    have "\<not> ?p < ?q" unfolding word_less_nat_alt uP uq using True by simp
    moreover have "P \<le> a \<and> a < P + n \<Longrightarrow> 2 * P + n - 1 - a = a" using True by auto
    ultimately show ?thesis by (subst KrtlReverseString.simps) auto
  next
    case False
    have lt: "?p < ?q" unfolding word_less_nat_alt uP uq using False by simp
    have q: "?q - 1 = of_nat (Suc P + (n - 2) - 1)" using False by (cases n; cases "n - 1") (auto simp: algebra_simps)
    define m where "m = mem(?p := mem ?q, ?q := mem ?p)"
    have m: "m (of_nat b) = (if b = P then mem ?q else if b = P + n - 1 then mem ?p else mem (of_nat b))" if "b < 2 ^ 64" for b
    proof -
      have "(of_nat b = ?p) = (b = P)" "(of_nat b = ?q) = (b = P + n - 1)"
        unfolding word_eq_unat uP uq addr_nat [OF that] by (rule refl)+
      then show ?thesis using False by (auto simp: m_def)
    qed
    have "KrtlReverseString mem ?p ?q (of_nat a) = KrtlReverseString m (of_nat (Suc P)) (of_nat (Suc P + (n - 2) - 1)) (of_nat a)"
      using lt q by (subst KrtlReverseString.simps) (simp add: add.commute m_def)
    also have "\<dots> = (if Suc P \<le> a \<and> a < Suc P + (n - 2) then m (of_nat (2 * Suc P + (n - 2) - 1 - a)) else m (of_nat a))"
      using less.prems False by (intro less.IH) auto
    also have "\<dots> = (if P \<le> a \<and> a < P + n then mem (of_nat (2 * P + n - 1 - a)) else mem (of_nat a))"
    proof (cases "Suc P \<le> a \<and> a < Suc P + (n - 2)")
      case True
      then have "2 * Suc P + (n - 2) - 1 - a = 2 * P + n - 1 - a" "2 * P + n - 1 - a < 2 ^ 64"
        "2 * P + n - 1 - a \<noteq> P" "2 * P + n - 1 - a \<noteq> P + n - 1" "P \<le> a \<and> a < P + n" using less.prems False by auto
      moreover define r where "r = 2 * P + n - 1 - a"
      ultimately have r: "2 * Suc P + (n - 2) - 1 - a = r" "r < 2 ^ 64" "r \<noteq> P" "r \<noteq> P + n - 1" "P \<le> a \<and> a < P + n"
        by auto
      show ?thesis unfolding r(1) r_def [symmetric] if_P [OF True] if_P [OF r(5)] using r m [OF r(2)] by simp
    next
      case out: False
      then consider "a = P" | "a = P + n - 1" | "\<not> (P \<le> a \<and> a < P + n)" using False by linarith
      then show ?thesis
      proof cases
        case 1 then show ?thesis using out m [OF assms(3)] False by (simp add: mult_2)
      next
        case 2
        then have "2 * P + n - 1 - a = P" "P \<le> a \<and> a < P + n" "a \<noteq> P" using False by auto
        then show ?thesis using out m [OF assms(3)] 2 by simp
      next
        case 3
        then have "a \<noteq> P" "a \<noteq> P + n - 1" using False by auto
        then show ?thesis unfolding if_not_P [OF out] if_not_P [OF 3] using m [OF assms(3)] by simp
      qed
    qed
    finally show ?thesis .
  qed
qed


lemma bytes_atD: "bytes_at mem p bs \<Longrightarrow> j < length bs \<Longrightarrow> mem (of_nat (unat p + j)) = bs ! j"
  by (simp add: bytes_at_def)

lemma bytes_at_rev:
  assumes "bytes_at mem p bs" "bs \<noteq> []" "unat p + length bs \<le> 2 ^ 64"
  shows "bytes_at (KrtlReverseString mem p (p + of_nat (length bs) - 1)) p (rev bs)"
    "same_except mem (KrtlReverseString mem p (p + of_nat (length bs) - 1)) p (length bs)"
proof -
  let ?P = "unat p" and ?n = "length bs"
  have n: "0 < ?n" using assms(2) by simp
  have e: "p + of_nat ?n - 1 = of_nat (?P + ?n - 1)" using n by (cases bs) (simp_all add: algebra_simps)
  have eP: "of_nat ?P = p" by simp
  have bnd: "?P < 2 ^ 64 \<and> ?P + ?n \<le> 2 ^ 64" using assms(3) unat_lt_exp [of p] by simp
  have rv: "KrtlReverseString mem p (of_nat (?P + ?n - 1)) (of_nat a) =
      (if ?P \<le> a \<and> a < ?P + ?n then mem (of_nat (2 * ?P + ?n - 1 - a)) else mem (of_nat a))" if "a < 2 ^ 64" for a
    using reverse_string [OF disjI2 [OF n] bnd that, of mem] unfolding eP .
  show "bytes_at (KrtlReverseString mem p (p + of_nat ?n - 1)) p (rev bs)"
    unfolding bytes_at_def e length_rev
  proof (intro allI impI)
    fix i assume i: "i < ?n"
    have pi: "p + of_nat i = of_nat (?P + i)" by simp
    have "KrtlReverseString mem p (of_nat (?P + ?n - 1)) (of_nat (?P + i)) = mem (of_nat (2 * ?P + ?n - 1 - (?P + i)))"
      using rv [of "?P + i"] i bnd by (simp del: of_nat_add)
    also have "2 * ?P + ?n - 1 - (?P + i) = ?P + (?n - 1 - i)" using i by simp
    also have "mem (of_nat (?P + (?n - 1 - i))) = bs ! (?n - 1 - i)"
      by (rule bytes_atD [OF assms(1)]) (use i in simp)
    finally show "KrtlReverseString mem p (of_nat (?P + ?n - 1)) (p + of_nat i) = rev bs ! i"
      using i unfolding pi by (simp add: rev_nth)
  qed
  show "same_except mem (KrtlReverseString mem p (p + of_nat ?n - 1)) p ?n"
    unfolding same_except_def e
  proof (intro allI impI)
    fix a :: UINTPTR assume out: "\<not> (?P \<le> unat a \<and> unat a < ?P + ?n)"
    show "KrtlReverseString mem p (of_nat (?P + ?n - 1)) a = mem a"
      using rv [of "unat a"] unat_lt_exp [of a] unfolding if_not_P [OF out] by simp
  qed
qed

section \<open>Digits\<close>

text \<open>The digits of a number, least significant first, and the number that a digit string denotes.\<close>

function digits :: "nat \<Rightarrow> bool \<Rightarrow> nat \<Rightarrow> BYTE list" where
  "digits r up v = (if v = 0 \<or> r < 2 then [] else KrtlDigitChar (of_nat (v mod r)) up # digits r up (v div r))"
  by pat_completeness auto
termination by (relation "measure (\<lambda>(r, up, v). v)") auto

declare digits.simps [simp del]

definition digit_value :: "BYTE \<Rightarrow> nat" where
  "digit_value c = (if unat c < 58 then unat c - 48 else if unat c < 97 then unat c - 55 else unat c - 87)"

definition parse :: "nat \<Rightarrow> BYTE list \<Rightarrow> nat" where
  "parse r bs = foldl (\<lambda>a c. a * r + digit_value c) 0 bs"

lemma digit_char_unat:
  assumes "d < 16"
  shows "unat (KrtlDigitChar (of_nat d) up) = (if d < 10 then d + 48 else d - 10 + (if up then 65 else 97))"
proof -
  have "d \<in> set [0..<16]" using assms by simp
  then show ?thesis
    by (simp add: upt_rec KrtlDigitChar_def ch_def) (elim disjE; simp add: word_less_nat_alt)
qed

lemma digit_value_char: "d < 16 \<Longrightarrow> digit_value (KrtlDigitChar (of_nat d) up) = d"
  by (auto simp: digit_value_def digit_char_unat)

lemma digit_char_nonzero: "d < 16 \<Longrightarrow> KrtlDigitChar (of_nat d) up \<noteq> 0"
  using digit_char_unat [of d up] by (auto simp: word_eq_unat)

lemma parse_snoc: "parse r (bs @ [c]) = parse r bs * r + digit_value c"
  by (simp add: parse_def)

lemma parse_digits:
  assumes "2 \<le> r" "r \<le> 16"
  shows "parse r (rev (digits r up v)) = v"
proof (induction v rule: less_induct)
  case (less v)
  show ?case
  proof (cases "v = 0")
    case True
    then show ?thesis by (subst digits.simps) (simp add: parse_def)
  next
    case False
    have "v mod r < r" using assms by simp
    then have d: "v mod r < 16" using assms by linarith
    have "v div r < v" using False assms by simp
    then have "parse r (rev (digits r up (v div r))) = v div r" by (rule less)
    then show ?thesis
      using False assms by (subst digits.simps) (simp add: parse_snoc digit_value_char [OF d])
  qed
qed

lemma digits_nonzero: "2 \<le> r \<Longrightarrow> r \<le> 16 \<Longrightarrow> 0 \<notin> set (digits r up v)"
proof (induction v rule: less_induct)
  case (less v)
  have "v mod r < r" using less.prems by simp
  then have d: "v mod r < 16" using less.prems by linarith
  show ?case
    using less.IH [of "v div r"] less.prems digit_char_nonzero [OF d, of up]
    by (cases "v = 0") (subst digits.simps, simp)+
qed

lemma digits_length:
  assumes "2 \<le> r" "v < r ^ k"
  shows "length (digits r up v) \<le> k"
  using assms(2)
proof (induction k arbitrary: v)
  case 0
  then show ?case by (subst digits.simps) simp
next
  case (Suc k)
  have "v div r < r ^ k" using Suc.prems assms(1) by (simp add: div_less_iff_less_mult mult.commute)
  then show ?case using Suc.IH by (subst digits.simps) simp
qed

text \<open>The digit loop writes the digits at the destination and returns the address after them.\<close>

lemma unsigned_digits:
  assumes "2 \<le> unat R" "length (digits (unat R) up (unat v)) < f" "unat p + length (digits (unat R) up (unat v)) < 2 ^ 64"
  shows "\<exists>mem'. UnsignedDigits f mem p v R up = Inr (mem', p + of_nat (length (digits (unat R) up (unat v)))) \<and>
    bytes_at mem' p (digits (unat R) up (unat v)) \<and> same_except mem mem' p (length (digits (unat R) up (unat v)))"
  using assms(2,3)
proof (induction f arbitrary: mem p v)
  case (Suc f)
  let ?ds = "digits (unat R) up (unat v)"
  show ?case
  proof (cases "v = 0")
    case True
    then have "?ds = []" by (subst digits.simps) simp
    then show ?thesis using True by (auto simp: bytes_at_def same_except_def)
  next
    case False
    have R: "R \<noteq> 0" using assms(1) by auto
    let ?c = "KrtlDigitChar (v mod R) up" and ?ds' = "digits (unat R) up (unat (v div R))"
    have c: "of_nat (unat v mod unat R) = v mod R" unfolding unat_mod [symmetric] by simp
    have ds: "?ds = ?c # ?ds'"
      using False assms(1) by (subst digits.simps) (simp add: unat_div c unat_eq_0)
    have p: "unat (p + 1) = unat p + 1" using Suc.prems ds by (intro unat_Suc_word) simp
    have "\<exists>mem'. UnsignedDigits f (mem(p := ?c)) (p + 1) (v div R) R up = Inr (mem', p + 1 + of_nat (length ?ds')) \<and>
        bytes_at mem' (p + 1) ?ds' \<and> same_except (mem(p := ?c)) mem' (p + 1) (length ?ds')"
      by (rule Suc.IH) (use Suc.prems ds p in auto)
    then obtain mem' where r: "UnsignedDigits f (mem(p := ?c)) (p + 1) (v div R) R up = Inr (mem', p + 1 + of_nat (length ?ds'))"
      "bytes_at mem' (p + 1) ?ds'" "same_except (mem(p := ?c)) mem' (p + 1) (length ?ds')"
      by blast
    have "mem' p = ?c" using r(3) p by (auto simp: same_except_def)
    then have "bytes_at mem' p ?ds"
      using r(2) by (auto simp: ds bytes_at_def less_Suc_eq_0_disj add.assoc nth_Cons')
    moreover have "same_except mem mem' p (length ?ds)"
      unfolding same_except_def
    proof (intro allI impI)
      fix a :: UINTPTR assume out: "\<not> (unat p \<le> unat a \<and> unat a < unat p + length ?ds)"
      then have "\<not> (unat (p + 1) \<le> unat a \<and> unat a < unat (p + 1) + length ?ds')" "a \<noteq> p" using p ds by auto
      then show "mem' a = mem a" using r(3) by (simp add: same_except_def)
    qed
    ultimately show ?thesis using r(1) False R ds by (auto simp: add.assoc)
  qed
qed simp


lemma scast_radix:
  assumes "unat (R :: UINT) \<le> 16"
  shows "unat (scast R :: QWORD) = unat R"
proof -
  have "sint R = int (unat R)"
    using sint_of_nat_small [of "unat R", where 'a = 32] assms by simp
  then have "(scast R :: QWORD) = of_nat (unat R)"
    by (metis of_int_of_nat_eq scast_eq)
  then show ?thesis using unat_ucast_up [of R, where 'b = 64] by simp
qed

lemma same_except_trans:
  "same_except m1 m2 p n \<Longrightarrow> same_except m2 m3 p k \<Longrightarrow> n \<le> l \<Longrightarrow> k \<le> l \<Longrightarrow> same_except m1 m3 p l"
  by (auto simp: same_except_def)

lemma bytes_at_upd_end:
  assumes "bytes_at m p bs" "unat p + length bs < 2 ^ 64"
  shows "bytes_at (m(p + of_nat (length bs) := c)) p (bs @ [c])"
    "same_except m (m(p + of_nat (length bs) := c)) p (Suc (length bs))"
proof -
  have u: "unat (p + of_nat i) = unat p + i" if "i \<le> length bs" for i
    using that assms(2) by (subst unat_plus_le) (auto simp: unat_of_nat_small)
  have "p + of_nat i \<noteq> p + of_nat (length bs)" if "i < length bs" for i
    using u [of i] u [of "length bs"] that unfolding word_eq_unat by simp
  then show "bytes_at (m(p + of_nat (length bs) := c)) p (bs @ [c])"
    using assms(1) by (auto simp: bytes_at_def nth_append less_Suc_eq)
  show "same_except m (m(p + of_nat (length bs) := c)) p (Suc (length bs))"
    using u [of "length bs"] by (auto simp: same_except_def)
qed

lemma unsigned_to_string:
  assumes "2 \<le> unat Radix" "unat Radix \<le> 16" "unat p + 66 < 2 ^ 64"
  shows "\<exists>mem' s. KrtlUnsignedToString mem p v Radix up = Inr mem' \<and> bytes_at mem' p (s @ [0]) \<and>
    same_except mem mem' p (length s + 1) \<and> s \<noteq> [] \<and> length s \<le> 64 \<and> 0 \<notin> set s \<and> parse (unat Radix) s = unat v"
proof (cases "v = 0")
  case True
  let ?m = "mem(p := ch (CHR ''0''), p + 1 := 0)"
  have p1: "unat (p + 1) = unat p + 1" using assms(3) by (intro unat_Suc_word) simp
  then have ne: "p + 1 \<noteq> p" "p \<noteq> p + 1" by (auto simp: word_eq_unat)
  have "bytes_at ?m p ([ch (CHR ''0'')] @ [0])"
    using ne by (auto simp: bytes_at_def less_Suc_eq)
  moreover have "same_except mem ?m p (Suc (Suc 0))" using p1 by (auto simp: same_except_def)
  moreover have "ch (CHR ''0'') = 48" by (simp add: ch_def)
  ultimately show ?thesis
    using True by (intro exI [of _ ?m] exI [of _ "[ch (CHR ''0'')]"])
      (simp add: KrtlUnsignedToString_def parse_def digit_value_def)
next
  case False
  let ?R = "scast Radix :: QWORD" and ?ds = "digits (unat Radix) up (unat v)"
  have R: "unat ?R = unat Radix" using scast_radix assms(2) by blast
  have "unat v < 2 ^ 64" using unat_lt_exp [of v] by simp
  also have "\<dots> \<le> unat Radix ^ 64" using assms(1) by (rule power_mono) simp
  finally have len: "length ?ds \<le> 64" using assms(1) by (intro digits_length)
  have ne: "?ds \<noteq> []" using False assms(1) by (subst digits.simps) (simp add: unat_eq_0)
  obtain m1 where m1: "UnsignedDigits 65 mem p v ?R up = Inr (m1, p + of_nat (length ?ds))"
    "bytes_at m1 p ?ds" "same_except mem m1 p (length ?ds)"
    using unsigned_digits [of ?R up v 65 p mem] len assms R by auto
  let ?m2 = "m1(p + of_nat (length ?ds) := 0)"
  let ?m3 = "KrtlReverseString ?m2 p (p + of_nat (length ?ds) - 1)"
  have bnd: "unat p + length ?ds < 2 ^ 64" using len assms(3) by simp
  note e = bytes_at_upd_end [OF m1(2) bnd, of 0]
  have b2: "bytes_at ?m2 p ?ds" using e(1) by (auto simp: bytes_at_def nth_append split: if_splits)
  note r = bytes_at_rev [OF b2 ne less_imp_le [OF bnd]]
  have ul: "unat (p + of_nat (length ?ds)) = unat p + length ?ds"
    using bnd by (subst unat_plus_le) (auto simp: unat_of_nat_small)
  have "?m3 (p + of_nat (length ?ds)) = 0"
    using r(2) ul by (simp add: same_except_def)
  then have "bytes_at ?m3 p (rev ?ds @ [0])"
    using r(1) by (auto simp: bytes_at_def nth_append less_Suc_eq)
  moreover have "same_except mem ?m3 p (length ?ds + 1)"
    using same_except_trans [OF same_except_trans [OF m1(3) e(2), of "length ?ds + 1"] r(2)] by simp
  moreover have "KrtlUnsignedToString mem p v Radix up = Inr ?m3"
    using False m1(1) by (simp add: KrtlUnsignedToString_def)
  ultimately show ?thesis
    using ne len digits_nonzero [OF assms(1,2)] parse_digits [OF assms(1,2)]
    by (intro exI [of _ ?m3] exI [of _ "rev ?ds"]) simp
qed


section \<open>String length\<close>

lemma string_scan:
  assumes "\<forall>i < n. mem (p + 1 + of_nat i) \<noteq> 0" "mem (p + 1 + of_nat n) = 0" "n < f"
  shows "StringScan f mem p = Inr (p + 1 + of_nat n)"
  using assms
proof (induction f arbitrary: n p)
  case (Suc f)
  show ?case
  proof (cases n)
    case 0
    then show ?thesis using Suc.prems by simp
  next
    case (Suc m)
    have "\<forall>i < m. mem (p + 1 + 1 + of_nat i) \<noteq> 0"
    proof (intro allI impI)
      fix i assume "i < m"
      then have "mem (p + 1 + of_nat (Suc i)) \<noteq> 0" using Suc.prems(1) Suc by blast
      then show "mem (p + 1 + 1 + of_nat i) \<noteq> 0" by (simp add: add.assoc)
    qed
    moreover have "mem (p + 1 + 1 + of_nat m) = 0" using Suc.prems(2) Suc by (simp add: add.assoc)
    ultimately have "StringScan f mem (p + 1) = Inr (p + 1 + 1 + of_nat m)"
      using Suc.IH [of m "p + 1"] Suc.prems(3) Suc by simp
    moreover have "mem (p + 1) \<noteq> 0" using Suc.prems(1) Suc by force
    ultimately show ?thesis using Suc by (simp add: add.assoc)
  qed
qed simp

lemma string_size:
  assumes "bytes_at mem p (s @ [0])" "0 \<notin> set s" "s \<noteq> []" "length s \<le> f"
  shows "KrtlStringSize f mem p = Inr (of_nat (length s))"
proof -
  define n where "n = length s - 1"
  have n: "length s = Suc n" using assms(3) by (cases s) (auto simp: n_def)
  have e: "p + 1 + of_nat i = p + of_nat (Suc i)" for i by simp
  have "\<forall>i < n. mem (p + 1 + of_nat i) \<noteq> 0"
  proof (intro allI impI)
    fix i assume i: "i < n"
    then have "Suc i < length (s @ [0])" "Suc i < length s" using n by auto
    then have "mem (p + of_nat (Suc i)) = s ! Suc i" using assms(1) unfolding bytes_at_def by (metis nth_append)
    moreover have "s ! Suc i \<in> set s" using i n by simp
    ultimately show "mem (p + 1 + of_nat i) \<noteq> 0" unfolding e using assms(2) by metis
  qed
  moreover have "mem (p + 1 + of_nat n) = 0"
  proof -
    have "Suc n < length (s @ [0])" using n by simp
    then have "mem (p + of_nat (Suc n)) = (s @ [0]) ! Suc n" using assms(1) unfolding bytes_at_def by blast
    then show ?thesis unfolding e using n by (metis nth_append_length)
  qed
  ultimately have "StringScan f mem p = Inr (p + 1 + of_nat n)"
    using string_scan [of n mem p f] n assms(4) by simp
  then show ?thesis using n by (simp add: KrtlStringSize_def)
qed

text \<open>
  KrtlStringSize returns the length of a nonempty string, whatever follows its terminator. It looks at
  the second character first: for an empty string the result is one more than the length of whatever string
  starts at the next byte.
\<close>
theorem string_size_correct:
  assumes "bytes_at mem p (s @ [0])" "0 \<notin> set s" "length s \<le> f"
  shows "(s \<noteq> [] \<longrightarrow> KrtlStringSize f mem p = Inr (of_nat (length s))) \<and>
    (s = [] \<longrightarrow> (\<forall>t. bytes_at mem (p + 1) (t @ [0]) \<longrightarrow> 0 \<notin> set t \<longrightarrow> length t < f \<longrightarrow>
       KrtlStringSize f mem p = Inr (of_nat (length t) + 1)))"
proof (intro conjI impI allI)
  fix t assume t: "bytes_at mem (p + 1) (t @ [0])" "0 \<notin> set t" "length t < f"
  have "\<forall>i < length t. mem (p + 1 + of_nat i) \<noteq> 0"
    using t(1,2) by (auto simp: bytes_at_def nth_append) (metis nth_mem)
  moreover have "mem (p + 1 + of_nat (length t)) = 0"
    using t(1) by (auto simp: bytes_at_def)
  ultimately show "KrtlStringSize f mem p = Inr (of_nat (length t) + 1)"
    using string_scan [of "length t" mem p f] t(3) by (simp add: KrtlStringSize_def)
qed (use string_size assms in blast)

lemma string_size_correct_witness:
  "KrtlStringSize 3 ((\<lambda>_. 0)(8 := 65, 9 := 66)) 8 = Inr 2"
  using string_size_correct [of "(\<lambda>_. 0)(8 := 65, 9 := 66)" 8 "[65, 66]" 3]
  by (auto simp: bytes_at_def less_Suc_eq)

section \<open>Formatted numbers\<close>

lemma mem_bytes_at: "bytes_at m p (s @ [0]) \<Longrightarrow> mem_bytes m p (length s) = s"
  by (auto simp: mem_bytes_def bytes_at_def nth_append intro!: nth_equalityI)

lemma FmtUnsigned_ok:
  assumes "2 \<le> unat Radix" "unat Radix \<le> 16"
  shows "\<exists>s. FmtUnsigned v Radix up = Inr s \<and> s \<noteq> [] \<and> length s \<le> 64 \<and> 0 \<notin> set s \<and> parse (unat Radix) s = unat v"
proof -
  obtain m s where m: "KrtlUnsignedToString (\<lambda>_. 0) 1 v Radix up = Inr m" "bytes_at m 1 (s @ [0])"
    "s \<noteq> []" "length s \<le> 64" "0 \<notin> set s" "parse (unat Radix) s = unat v"
    using unsigned_to_string [OF assms, of 1 "\<lambda>_. 0" v up] by auto
  have "unat (of_nat (length s) :: SIZE) = length s" using m(4) by (simp add: unat_of_nat_small)
  then have "FmtUnsigned v Radix up = Inr s"
    using m(1) string_size [OF m(2,5,3)] m(4) mem_bytes_at [OF m(2)]
    by (simp add: FmtUnsigned_def FmtBuffer_def)
  then show ?thesis using m by blast
qed

lemma format_literal:
  assumes "ch (CHR ''%'') \<notin> set lit"
  shows "KrtlFormatStringVariadic f mem (- 1) (lit @ rest) args out = KrtlFormatStringVariadic f mem (- 1) rest args (out @ lit)"
  using assms
proof (induction lit arbitrary: out)
  case (Cons c lit)
  then show ?case by (subst KrtlFormatStringVariadic.simps) auto
qed simp

lemma format_done: "KrtlFormatStringVariadic f mem L [] args out = Inr (int (length out), out)"
  by (subst KrtlFormatStringVariadic.simps) simp

text \<open>The conversions that print an unsigned number: the radix, the case and the width read.\<close>

definition unsigned_conversions :: "(BYTE list \<times> UINT \<times> bool \<times> (QWORD \<Rightarrow> QWORD)) list" where
  "unsigned_conversions =
    [(chars ''%u'', KRTL_RADIX_DECIMAL, False, as_UINT), (chars ''%o'', KRTL_RADIX_OCTAL, False, as_UINT),
     (chars ''%x'', KRTL_RADIX_HEXADECIMAL, False, as_UINT), (chars ''%X'', KRTL_RADIX_HEXADECIMAL, True, as_UINT),
     (chars ''%Ru'', KRTL_RADIX_DECIMAL, False, id), (chars ''%Rx'', KRTL_RADIX_HEXADECIMAL, False, id),
     (chars ''%RX'', KRTL_RADIX_HEXADECIMAL, True, id)]"

lemma format_unsigned_step:
  assumes "(cv, R, up, w) \<in> set unsigned_conversions" "FmtUnsigned (w a) R up = Inr s"
  shows "KrtlFormatStringVariadic f mem (- 1) (cv @ rest) (a # args) out =
    KrtlFormatStringVariadic f mem (- 1) rest args (out @ s)"
  using assms
  by (subst KrtlFormatStringVariadic.simps)
    (auto simp: unsigned_conversions_def chars_def ch_def Conversion_def ConversionR_def va_arg_def)


text \<open>
  C33: A format of literal text around one unsigned conversion (%u, %o, %x, %X and their 64-bit forms %Ru,
  %Rx, %RX) copies the text and puts in its place a nonempty digit string that denotes the argument, read at
  the conversion's width, in the conversion's radix. The result is the number of characters written.
\<close>
theorem format_unsigned:
  assumes "ch (CHR ''%'') \<notin> set l1 \<union> set l2" "(cv, R, up, w) \<in> set unsigned_conversions"
  shows "\<exists>s. KrtlFormatStringVariadic f mem (- 1) (l1 @ cv @ l2) [a] [] = Inr (int (length (l1 @ s @ l2)), l1 @ s @ l2) \<and>
    s \<noteq> [] \<and> 0 \<notin> set s \<and> parse (unat R) s = unat (w a)"
proof -
  have "2 \<le> unat R" "unat R \<le> 16"
    using assms(2) by (auto simp: unsigned_conversions_def KRTL_RADIX_DECIMAL_def KRTL_RADIX_OCTAL_def KRTL_RADIX_HEXADECIMAL_def)
  then obtain s where s: "FmtUnsigned (w a) R up = Inr s" "s \<noteq> []" "0 \<notin> set s" "parse (unat R) s = unat (w a)"
    using FmtUnsigned_ok by blast
  have "KrtlFormatStringVariadic f mem (- 1) (l1 @ cv @ l2) [a] [] = KrtlFormatStringVariadic f mem (- 1) (l2 @ []) [] (l1 @ s)"
    using assms(1) format_literal [of l1] format_unsigned_step [OF assms(2) s(1)] by simp
  also have "\<dots> = Inr (int (length (l1 @ s @ l2)), l1 @ s @ l2)"
    using assms(1) by (subst format_literal) (auto simp: format_done)
  finally show ?thesis using s by blast
qed

lemma format_unsigned_witness:
  "\<exists>s. KrtlFormatStringVariadic 0 (\<lambda>_. 0) (- 1) (chars ''id '' @ chars ''%Rx'' @ chars ''!'') [255] [] =
    Inr (int (length (chars ''id '' @ s @ chars ''!'')), chars ''id '' @ s @ chars ''!'') \<and>
    s \<noteq> [] \<and> 0 \<notin> set s \<and> parse (unat KRTL_RADIX_HEXADECIMAL) s = unat (id 255 :: QWORD)"
  by (rule format_unsigned [where up = False]) (simp_all add: chars_def ch_def unsigned_conversions_def id_def)

text \<open>
  The conversion %% does not print a percent sign: it prints the character that follows it in the format,
  which is then printed again.
\<close>
theorem format_percent:
  assumes "ch (CHR ''%'') \<notin> set l1 \<union> set l2" "l2 \<noteq> []"
  shows "KrtlFormatStringVariadic f mem (- 1) (l1 @ chars ''%%'' @ l2) args [] =
    Inr (int (length l1 + 1 + length l2), l1 @ [hd l2] @ l2)"
proof -
  have "KrtlFormatStringVariadic f mem (- 1) (chars ''%%'' @ l2) args l1 =
      KrtlFormatStringVariadic f mem (- 1) (l2 @ []) args (l1 @ [hd l2])"
    using assms(2) by (subst KrtlFormatStringVariadic.simps) (auto simp: chars_def ch_def split: list.splits)
  also have "\<dots> = Inr (int (length l1 + 1 + length l2), l1 @ [hd l2] @ l2)"
    using assms(1) by (subst format_literal) (auto simp: format_done)
  finally show ?thesis using assms(1) format_literal [of l1] by simp
qed

lemma format_percent_witness:
  "KrtlFormatStringVariadic 0 (\<lambda>_. 0) (- 1) (chars ''5'' @ chars ''%%'' @ chars ''!'') [] [] =
    Inr (int (length (chars ''5'') + 1 + length (chars ''!'')), chars ''5'' @ [hd (chars ''!'')] @ chars ''!'')"
  by (rule format_percent) (simp_all add: chars_def ch_def)

text \<open>
  KrtlBufferEqual does not say whether two buffers of N bytes are equal: it is true exactly when the first
  N bytes agree and the bytes after them differ. It rejects equal buffers whose next bytes agree too.
\<close>
theorem buffer_equal_reads_past:
  "KrtlBufferEqual mem l r n \<longleftrightarrow>
    (mem_bytes mem l (unat n) = mem_bytes mem r (unat n) \<and> mem (l + n) \<noteq> mem (r + n))"
  unfolding KrtlBufferEqual_def buffer_equal_loop mem_bytes_def by auto

text \<open>
  C31: KrtlUnsignedToString terminates and writes, at its destination, a nonempty string of at most 64 digits
  ended by a zero byte, which denotes the value in the given radix (2 to 16), and changes no other byte.
\<close>
theorem unsigned_to_string_correct:
  assumes "2 \<le> unat Radix" "unat Radix \<le> 16" "unat p + 66 < 2 ^ 64"
  shows "\<exists>mem' s. KrtlUnsignedToString mem p v Radix up = Inr mem' \<and> bytes_at mem' p (s @ [0]) \<and>
    same_except mem mem' p (length s + 1) \<and> s \<noteq> [] \<and> length s \<le> 64 \<and> 0 \<notin> set s \<and> parse (unat Radix) s = unat v"
  by (rule unsigned_to_string [OF assms])

lemma unsigned_to_string_correct_witness:
  "\<exists>mem' s. KrtlUnsignedToString (\<lambda>_. 0) 4096 77 8 False = Inr mem' \<and> bytes_at mem' 4096 (s @ [0]) \<and>
    same_except (\<lambda>_. 0) mem' 4096 (length s + 1) \<and> s \<noteq> [] \<and> length s \<le> 64 \<and> 0 \<notin> set s \<and>
    parse (unat (8 :: UINT)) s = unat (77 :: QWORD)"
  by (rule unsigned_to_string_correct) simp_all

end
