(* ===== verification/PageTable.thy ===== *)
theory PageTable
  imports PageSource Krtl
begin

text \<open>
  Page-table entries, page structures and virtual addresses: \<^verbatim>\<open>Kernel/Source/Memory/PTE.c\<close>,
  \<^verbatim>\<open>Kernel/Include/Memory/PTE.h\<close>, \<^verbatim>\<open>Kernel/Source/CPU/PAT.c\<close> and the address macro of
  \<^verbatim>\<open>Kernel/Include/Memory/Vmmdef/MakeVirt.h\<close>. Page structures are read and written through the
  virtual addresses of the direct map, in quadwords.
\<close>

named_theorems pte_simps \<open>the bits of page-table constants\<close>

section \<open>Memory types\<close>

record KrPatSelect =
  PWT :: bool
  PCD :: bool
  PAT :: bool

definition KR_PAT_UNCACHEABLE :: BYTE where "KR_PAT_UNCACHEABLE = 0"
definition KR_PAT_WRITE_COMBINING :: BYTE where "KR_PAT_WRITE_COMBINING = 1"
definition KR_PAT_WRITE_THROUGH :: BYTE where "KR_PAT_WRITE_THROUGH = 4"
definition KR_PAT_WRITE_PROTECTED :: BYTE where "KR_PAT_WRITE_PROTECTED = 5"
definition KR_PAT_WRITE_BACK :: BYTE where "KR_PAT_WRITE_BACK = 6"
definition KR_PAT_UNCACHED :: BYTE where "KR_PAT_UNCACHED = 7"

text \<open>The six fields are 3 bits wide.\<close>

record KrPatMsrState =
  PA_UC :: "3 word"
  PA_WC :: "3 word"
  PA_WT :: "3 word"
  PA_WP :: "3 word"
  PA_WB :: "3 word"
  PA_UCM :: "3 word"

definition g_PatSelectTable :: "KrPatSelect list" where
  "g_PatSelectTable =
    [\<lparr> PWT = False, PCD = False, PAT = False \<rparr>, \<lparr> PWT = True, PCD = False, PAT = False \<rparr>,
     \<lparr> PWT = False, PCD = True, PAT = False \<rparr>, \<lparr> PWT = True, PCD = True, PAT = False \<rparr>,
     \<lparr> PWT = False, PCD = False, PAT = True \<rparr>, \<lparr> PWT = True, PCD = False, PAT = True \<rparr>,
     \<lparr> PWT = False, PCD = True, PAT = True \<rparr>, \<lparr> PWT = True, PCD = True, PAT = True \<rparr>]"

definition KrSelectPat :: "KrPatMsrState \<Rightarrow> BYTE \<Rightarrow> KrPatSelect" where
  "KrSelectPat g MemType =
     (let Target =
        (if MemType = KR_PAT_UNCACHEABLE then PA_UC g
         else if MemType = KR_PAT_WRITE_COMBINING then PA_WC g
         else if MemType = KR_PAT_WRITE_THROUGH then PA_WT g
         else if MemType = KR_PAT_WRITE_PROTECTED then PA_WP g
         else if MemType = KR_PAT_WRITE_BACK then PA_WB g
         else if MemType = KR_PAT_UNCACHED then PA_UCM g
         else 0)
      in g_PatSelectTable ! unat Target)"

section \<open>Constants of page-table entries\<close>

type_synonym PTE = QWORD
type_synonym PAGESTRUCT = UINTPTR

definition KR_PTE2_ENCODE_FAILURE_DUE_TO_ALIGNMENT :: PTE where "KR_PTE2_ENCODE_FAILURE_DUE_TO_ALIGNMENT = NOT 0"
definition KR_PAGE_STRUCTURE_ENTRY_COUNT :: "'a::len word" where "KR_PAGE_STRUCTURE_ENTRY_COUNT = 512"
definition KR_PAGE_STRUCTURE_ENTRY_SIZE :: "'a::len word" where "KR_PAGE_STRUCTURE_ENTRY_SIZE = 8"
definition KR_PAGE_STRUCTURE_SIZE :: "'a::len word" where
  "KR_PAGE_STRUCTURE_SIZE = KR_PAGE_STRUCTURE_ENTRY_COUNT * KR_PAGE_STRUCTURE_ENTRY_SIZE"

definition PTE_PRESENT :: QWORD where "PTE_PRESENT = push_bit 0 1"
definition PTE_WRITABLE :: QWORD where "PTE_WRITABLE = push_bit 1 1"
definition PTE_USER :: QWORD where "PTE_USER = push_bit 2 1"
definition PTE_PWT :: QWORD where "PTE_PWT = push_bit 3 1"
definition PTE_PCD :: QWORD where "PTE_PCD = push_bit 4 1"
definition PTE_NONPT_PS :: QWORD where "PTE_NONPT_PS = push_bit 7 1"
definition PTE_PT_PAT :: QWORD where "PTE_PT_PAT = push_bit 7 1"
definition PTE_GLOBAL :: QWORD where "PTE_GLOBAL = push_bit 8 1"
definition PTE_NONPT_PAT :: QWORD where "PTE_NONPT_PAT = push_bit 12 1"
definition PTE_NX :: QWORD where "PTE_NX = push_bit 63 1"
definition PTE_PHYSADDR_MASK :: QWORD where "PTE_PHYSADDR_MASK = 0x000FFFFFFFFFF000"

datatype KrVirtualAddressMode = VADDR_SMALL | VADDR_LARGE | VADDR_HUGE

record KrVirtualAddress =
  VA_PML4 :: UINT
  VA_PDPT :: UINT
  VA_PD :: UINT
  VA_PT :: UINT
  VA_Offset :: UINT

datatype KrTypePTE = PML4_ENTRY | PDPT_ENTRY | PDP1GB_ENTRY | PD_ENTRY | PD2MB_ENTRY | PT_ENTRY | INVALID_PTE_TYPE

fun KrPteTypeToString :: "KrTypePTE \<Rightarrow> string" where
  "KrPteTypeToString PML4_ENTRY = ''PML4E''"
| "KrPteTypeToString PDPT_ENTRY = ''PDPTE''"
| "KrPteTypeToString PDP1GB_ENTRY = ''PDP1GBE''"
| "KrPteTypeToString PD_ENTRY = ''PDE''"
| "KrPteTypeToString PD2MB_ENTRY = ''PD2MBE''"
| "KrPteTypeToString PT_ENTRY = ''PTE''"
| "KrPteTypeToString INVALID_PTE_TYPE = ''IVLDPTETYPE''"

fun KrGetParentPteType :: "KrTypePTE \<Rightarrow> KrTypePTE" where
  "KrGetParentPteType PML4_ENTRY = INVALID_PTE_TYPE"
| "KrGetParentPteType PDP1GB_ENTRY = PML4_ENTRY"
| "KrGetParentPteType PDPT_ENTRY = PML4_ENTRY"
| "KrGetParentPteType PD2MB_ENTRY = PDPT_ENTRY"
| "KrGetParentPteType PD_ENTRY = PDPT_ENTRY"
| "KrGetParentPteType PT_ENTRY = PD_ENTRY"
| "KrGetParentPteType INVALID_PTE_TYPE = INVALID_PTE_TYPE"

fun KrIsLeafPteType :: "KrTypePTE \<Rightarrow> bool" where
  "KrIsLeafPteType PDP1GB_ENTRY = True"
| "KrIsLeafPteType PD2MB_ENTRY = True"
| "KrIsLeafPteType PT_ENTRY = True"
| "KrIsLeafPteType _ = False"

fun KrGetPteTypeAlignment :: "KrTypePTE \<Rightarrow> QWORD" where
  "KrGetPteTypeAlignment PML4_ENTRY = 0x1000"
| "KrGetPteTypeAlignment PDPT_ENTRY = 0x1000"
| "KrGetPteTypeAlignment PD_ENTRY = 0x1000"
| "KrGetPteTypeAlignment PT_ENTRY = 0x1000"
| "KrGetPteTypeAlignment PDP1GB_ENTRY = 0x40000000"
| "KrGetPteTypeAlignment PD2MB_ENTRY = 0x200000"
| "KrGetPteTypeAlignment INVALID_PTE_TYPE = 0"

definition KrMakeFlagsForPTEv2 :: "KrTypePTE \<Rightarrow> QWORD \<Rightarrow> KrPatSelect \<Rightarrow> QWORD" where
  "KrMakeFlagsForPTEv2 eType qwBaseFlags PatSelect =
     (let f0 = qwBaseFlags AND NOT (PTE_PWT OR PTE_PCD OR push_bit 7 1 OR push_bit 12 1);
          f1 = (if eType = PDP1GB_ENTRY \<or> eType = PD2MB_ENTRY then f0 OR PTE_NONPT_PS else f0);
          f2 = (if PWT PatSelect then f1 OR PTE_PWT else f1);
          f3 = (if PCD PatSelect then f2 OR PTE_PCD else f2)
      in if PAT PatSelect
         then (if eType = PDP1GB_ENTRY \<or> eType = PD2MB_ENTRY then f3 OR PTE_NONPT_PAT
               else if eType = PT_ENTRY then f3 OR PTE_PT_PAT
               else f3)
         else f3)"

section \<open>State of the virtual memory manager\<close>

record KrAddressSpace =
  PaddrRoot :: UINTPTR
  pRootVMR :: UINTPTR
  pTailVMR :: UINTPTR
  NrVMRs :: UINT

record KrVirtmemmgmtState =
  bInitialized :: bool
  bHugePageSupport :: bool
  bNoExecuteSupport :: bool
  TotalPageStructs :: ULONG
  HugePages :: ULONG
  LargePages :: ULONG
  SmallPages :: ULONG
  DmapTotalPages :: ULONG
  VirtAddrBase :: UINTPTR
  KernelAddressSpace :: UINTPTR

text \<open>
  \<open>KernelAddressSpace\<close> is the address of the embedded structure; address spaces are kept in a store of their own.
  What the virtual memory code shares: its own state, the physical memory manager, the quadwords of memory
  that hold page structures, the developer statistics and the state of the PAT register.
\<close>

record vm_sys =
  vmm :: KrVirtmemmgmtState
  pmm :: KrPhysmemmgmtState
  qmem :: "UINTPTR \<Rightarrow> QWORD"
  NumIvldEncodeOfPTEs :: UINT
  PatMsrState :: KrPatMsrState
  g_pslDefault :: KrPatSelect

definition KrPhysToVirt :: "'a vm_sys_scheme \<Rightarrow> UINTPTR \<Rightarrow> UINTPTR" where
  "KrPhysToVirt s AddrPhys = VirtAddrBase (vmm s) + AddrPhys"

definition KrVirtToPhys :: "'a vm_sys_scheme \<Rightarrow> UINTPTR \<Rightarrow> UINTPTR" where
  "KrVirtToPhys s AddrVirt = AddrVirt - VirtAddrBase (vmm s)"

definition KrIsVirtmemmgmtInitialized :: "'a vm_sys_scheme \<Rightarrow> bool" where
  "KrIsVirtmemmgmtInitialized s = bInitialized (vmm s)"

section \<open>Entries and structures\<close>

definition PteEncodeEntry ::
  "'a vm_sys_scheme \<Rightarrow> KrTypePTE \<Rightarrow> UINTPTR \<Rightarrow> QWORD \<Rightarrow> KrPatSelect \<Rightarrow> PTE \<times> 'a vm_sys_scheme" where
  "PteEncodeEntry s ty PhysAddrBase qwBaseFlags PatSelect =
     (if PhysAddrBase AND (KrGetPteTypeAlignment ty - 1) \<noteq> 0
      then (KR_PTE2_ENCODE_FAILURE_DUE_TO_ALIGNMENT, s\<lparr> NumIvldEncodeOfPTEs := NumIvldEncodeOfPTEs s + 1 \<rparr>)
      else
        let flags = (if KrIsVirtmemmgmtInitialized s \<and> \<not> bNoExecuteSupport (vmm s)
                     then qwBaseFlags AND NOT PTE_NX else qwBaseFlags)
        in (KrMakeFlagsForPTEv2 ty flags PatSelect OR PhysAddrBase, s))"

text \<open>The address of an entry, and reading and writing it.\<close>

definition entry_at :: "PAGESTRUCT \<Rightarrow> USHORT \<Rightarrow> UINTPTR" where
  "entry_at pContainer Index = pContainer + KR_PAGE_STRUCTURE_ENTRY_SIZE * ucast Index"

definition get_entry :: "'a vm_sys_scheme \<Rightarrow> PAGESTRUCT \<Rightarrow> USHORT \<Rightarrow> PTE" where
  "get_entry s pContainer Index = qmem s (entry_at pContainer Index)"

definition set_entry :: "PAGESTRUCT \<Rightarrow> USHORT \<Rightarrow> PTE \<Rightarrow> 'a vm_sys_scheme \<Rightarrow> 'a vm_sys_scheme" where
  "set_entry pContainer Index v s = s\<lparr> qmem := (qmem s)(entry_at pContainer Index := v) \<rparr>"

definition zero_page :: "UINTPTR \<Rightarrow> (UINTPTR \<Rightarrow> QWORD) \<Rightarrow> (UINTPTR \<Rightarrow> QWORD)" where
  "zero_page p mem = (\<lambda>a. if a - p < KR_PAGE_SIZE then 0 else mem a)"

definition PteGetPageStruct :: "'a vm_sys_scheme \<Rightarrow> PAGESTRUCT \<Rightarrow> USHORT \<Rightarrow> PAGESTRUCT" where
  "PteGetPageStruct s pContainer Index =
     (if get_entry s pContainer Index AND PTE_PRESENT \<noteq> 0
      then KrPhysToVirt s (get_entry s pContainer Index AND PTE_PHYSADDR_MASK) else 0)"

definition PteGetOrAcquirePageStruct ::
  "'a vm_sys_scheme \<Rightarrow> PAGESTRUCT \<Rightarrow> KrTypePTE \<Rightarrow> USHORT \<Rightarrow> QWORD \<Rightarrow> KrPatSelect \<Rightarrow> (PAGESTRUCT \<times> 'a vm_sys_scheme) kres" where
  "PteGetOrAcquirePageStruct s pContainer ReadType Index qwAcqFlags pslAcq =
     (if get_entry s pContainer Index AND PTE_PRESENT \<noteq> 0
      then Inr (KrPhysToVirt s (get_entry s pContainer Index AND PTE_PHYSADDR_MASK), s)
      else kbind (PmAcquirePage (pmm s) PAGE_TYPE_PAGE_STRUCT IVLDPGID) (\<lambda>(ID, g).
        let s1 = s\<lparr> pmm := g \<rparr>
        in if ID = IVLDPGID then Inr (0, s1)
           else
             let PaddrPs = KrGetPhysicalPageAddress g ID;
                 VaddrPs = KrPhysToVirt s1 PaddrPs;
                 (e, s2) = PteEncodeEntry s1 ReadType PaddrPs qwAcqFlags pslAcq;
                 s3 = set_entry pContainer Index e s2
             in if e = KR_PTE2_ENCODE_FAILURE_DUE_TO_ALIGNMENT
                then kbind (PmRelinquishPage g ID) (\<lambda>(_, g'). Inr (0, s3\<lparr> pmm := g' \<rparr>))
                else Inr (VaddrPs, s3\<lparr> qmem := zero_page VaddrPs (qmem s3) \<rparr>)))"

section \<open>Virtual addresses\<close>

definition KrMakeVirtual :: "KrVirtualAddressMode \<Rightarrow> KrVirtualAddress \<Rightarrow> UINTPTR" where
  "KrMakeVirtual AddressMode Vidx =
     (let a0 = (if btest (VA_PML4 Vidx) 9 then 0xFFFF000000000000 else 0);
          a1 = a0 OR push_bit 39 (ucast (VA_PML4 Vidx AND 0x1FF));
          a2 = a1 OR push_bit 30 (ucast (VA_PDPT Vidx AND 0x1FF))
      in case AddressMode of
           VADDR_HUGE \<Rightarrow> a2 OR ucast (VA_Offset Vidx AND 0x3FFFFFFF)
         | VADDR_LARGE \<Rightarrow> a2 OR push_bit 21 (ucast (VA_PD Vidx AND 0x1FF)) OR push_bit 12 (ucast (VA_Offset Vidx AND 0x1FFFFF))
         | VADDR_SMALL \<Rightarrow> a2 OR push_bit 21 (ucast (VA_PD Vidx AND 0x1FF)) OR push_bit 12 (ucast (VA_PT Vidx AND 0x1FF)) OR
             (ucast (VA_Offset Vidx) AND 0xFFF))"

definition KrUnmakeVirtual :: "KrVirtualAddressMode \<Rightarrow> UINTPTR \<Rightarrow> KrVirtualAddress" where
  "KrUnmakeVirtual AddressMode Address =
     (let r = \<lparr> VA_PML4 = ucast (drop_bit 39 Address AND 0x1FF), VA_PDPT = ucast (drop_bit 30 Address AND 0x1FF),
                VA_PD = 0, VA_PT = 0, VA_Offset = 0 \<rparr>
      in case AddressMode of
           VADDR_SMALL \<Rightarrow> r\<lparr> VA_PD := ucast (drop_bit 21 Address AND 0x1FF), VA_PT := ucast (drop_bit 12 Address AND 0x1FF),
                             VA_Offset := ucast (Address AND 0xFFF) \<rparr>
         | VADDR_LARGE \<Rightarrow> r\<lparr> VA_PD := ucast (drop_bit 21 Address AND 0x1FF), VA_Offset := ucast (drop_bit 12 Address AND 0x1FFFFF) \<rparr>
         | VADDR_HUGE \<Rightarrow> r\<lparr> VA_Offset := ucast (drop_bit 21 Address AND 0x3FFFFFFF) \<rparr>)"

text \<open>The macro; the sign extension negates bit 8 of the index.\<close>

definition KR_MAKE_VIRTUAL :: "QWORD \<Rightarrow> QWORD \<Rightarrow> QWORD \<Rightarrow> QWORD \<Rightarrow> QWORD \<Rightarrow> UINTPTR" where
  "KR_MAKE_VIRTUAL IndexPML4 IndexPDPT IndexPD IndexPT Offset =
     ((- (drop_bit 8 IndexPML4 AND 1)) AND 0xFFFF000000000000) OR push_bit 39 (IndexPML4 AND 0x1FF) OR
     push_bit 30 (IndexPDPT AND 0x1FF) OR push_bit 21 (IndexPD AND 0x1FF) OR push_bit 12 (IndexPT AND 0x1FF) OR Offset"

definition DMAP_PML4_IDX :: QWORD where "DMAP_PML4_IDX = 256"
definition KRNL_PML4_IDX :: QWORD where "KRNL_PML4_IDX = 511"
definition KRNL_HEAP_PDPT_IDX :: QWORD where "KRNL_HEAP_PDPT_IDX = 0"
definition KRNL_MMIO_PDPT_IDX :: QWORD where "KRNL_MMIO_PDPT_IDX = 256"
definition KRNL_BINARY_PDPT_IDX :: QWORD where "KRNL_BINARY_PDPT_IDX = 510"
definition KRNL_VIDEO_FBUF_IDX :: QWORD where "KRNL_VIDEO_FBUF_IDX = 511"

section \<open>Bits of entries\<close>

lemma masks [pte_simps]:
  "(0x1FF :: 'a::len word) = mask 9" "(0xFFF :: 'a word) = mask 12" "(0x1FFFFF :: 'a word) = mask 21"
  "(0x3FFFFFFF :: 'a word) = mask 30" "(0xFFF :: QWORD) = mask 12"
  by (simp_all add: mask_eq_exp_minus_1)

lemma phys_mask [pte_simps]: "PTE_PHYSADDR_MASK = mask 52 AND NOT (mask 12)"
  by (simp add: PTE_PHYSADDR_MASK_def mask_eq_exp_minus_1)

lemma canonical_mask [pte_simps]: "(0xFFFF000000000000 :: QWORD) = NOT (mask 48)"
  by (simp add: mask_eq_exp_minus_1)

lemma bit_one_shifted: "bit (push_bit k 1 :: 'a::len word) n \<longleftrightarrow> n = k \<and> k < LENGTH('a)"
  by (simp add: bit_push_1)

lemma pte_bits [pte_simps]:
  "bit PTE_PRESENT n \<longleftrightarrow> n = 0" "bit PTE_WRITABLE n \<longleftrightarrow> n = 1" "bit PTE_USER n \<longleftrightarrow> n = 2"
  "bit PTE_PWT n \<longleftrightarrow> n = 3" "bit PTE_PCD n \<longleftrightarrow> n = 4" "bit PTE_NONPT_PS n \<longleftrightarrow> n = 7"
  "bit PTE_PT_PAT n \<longleftrightarrow> n = 7" "bit PTE_GLOBAL n \<longleftrightarrow> n = 8" "bit PTE_NONPT_PAT n \<longleftrightarrow> n = 12"
  "bit PTE_NX n \<longleftrightarrow> n = 63"
  unfolding PTE_PRESENT_def PTE_WRITABLE_def PTE_USER_def PTE_PWT_def PTE_PCD_def PTE_NONPT_PS_def
    PTE_PT_PAT_def PTE_GLOBAL_def PTE_NONPT_PAT_def PTE_NX_def bit_one_shifted by auto

lemmas word_bits = bit_and_iff bit_or_iff bit_not_iff bit_mask_iff bit_push_bit_iff bit_drop_bit_eq
  bit_unsigned_iff bit_exp_iff bit_take_bit_iff

lemma present_bit: "e AND PTE_PRESENT \<noteq> 0 \<longleftrightarrow> bit e 0"
  using btest_bit [of e 0] by (simp add: btest_def PTE_PRESENT_def)

definition large_type :: "KrTypePTE \<Rightarrow> bool" where
  "large_type ty \<longleftrightarrow> ty = PDP1GB_ENTRY \<or> ty = PD2MB_ENTRY"

lemma flag_bits:
  "bit (KrMakeFlagsForPTEv2 ty f psl) n \<longleftrightarrow>
    (if n = 3 then PWT psl else if n = 4 then PCD psl
     else if n = 7 then large_type ty \<or> (ty = PT_ENTRY \<and> PAT psl)
     else if n = 12 then large_type ty \<and> PAT psl
     else bit f n)"
proof -
  have e: "push_bit 7 1 = PTE_NONPT_PS" "push_bit 12 1 = PTE_NONPT_PAT"
    by (simp_all add: PTE_NONPT_PS_def PTE_NONPT_PAT_def)
  show ?thesis
    unfolding KrMakeFlagsForPTEv2_def Let_def large_type_def e
    by (cases "n < 64") (auto simp: bit_and_iff bit_or_iff bit_not_iff pte_bits dest: bit_imp_le_length)
qed

fun align_bits :: "KrTypePTE \<Rightarrow> nat" where
  "align_bits PDP1GB_ENTRY = 30"
| "align_bits PD2MB_ENTRY = 21"
| "align_bits INVALID_PTE_TYPE = 64"
| "align_bits _ = 12"

lemma align_mask: "KrGetPteTypeAlignment ty - 1 = mask (align_bits ty)"
  by (cases ty) (simp_all add: mask_eq_exp_minus_1)

lemma and_mask_bits: "(a :: 'a::len word) AND mask k = 0 \<longleftrightarrow> (\<forall>n < k. \<not> bit a n)"
  by (auto simp: bit_eq_iff word_bits dest: bit_imp_le_length)

lemma low_bits_clear: "ty \<noteq> INVALID_PTE_TYPE \<Longrightarrow> 12 \<le> align_bits ty"
  by (cases ty) auto

lemma encode_entry:
  assumes "ty \<noteq> INVALID_PTE_TYPE" "f AND PTE_PHYSADDR_MASK = 0" "a AND NOT PTE_PHYSADDR_MASK = 0"
    "PteEncodeEntry s ty a f psl = (e, s')"
  shows "if a mod KrGetPteTypeAlignment ty = 0
    then s' = s \<and> e AND PTE_PHYSADDR_MASK AND NOT (KrGetPteTypeAlignment ty - 1) = a \<and>
      (\<forall>n. n < 12 \<or> 52 \<le> n \<longrightarrow> bit e n \<longleftrightarrow>
        (if n = 3 then PWT psl else if n = 4 then PCD psl
         else if n = 7 then large_type ty \<or> (ty = PT_ENTRY \<and> PAT psl)
         else bit f n \<and> (n = 63 \<longrightarrow> \<not> bInitialized (vmm s) \<or> bNoExecuteSupport (vmm s)))) \<and>
      (large_type ty \<longrightarrow> bit e 12 = PAT psl)
    else e = - 1 \<and> s' = s\<lparr> NumIvldEncodeOfPTEs := NumIvldEncodeOfPTEs s + 1 \<rparr>"
proof -
  let ?A = "KrGetPteTypeAlignment ty"
  have mod: "a mod ?A = 0 \<longleftrightarrow> a AND (?A - 1) = 0"
  proof -
    have "?A = 2 ^ align_bits ty" using assms(1) by (cases ty) simp_all
    then show ?thesis unfolding align_mask by (simp add: take_bit_eq_mod [symmetric] take_bit_eq_mask)
  qed
  have f: "\<not> bit f n" if "12 \<le> n" "n < 52" for n
    using arg_cong [OF assms(2), of "\<lambda>w. bit w n"] that by (simp add: word_bits pte_simps)
  have a: "\<not> bit a n" if "n < 12 \<or> 52 \<le> n" for n
    using arg_cong [OF assms(3), of "\<lambda>w. bit w n"] that by (auto simp: word_bits pte_simps dest: bit_imp_le_length)
  show ?thesis
  proof (cases "a mod ?A = 0")
    case False
    then show ?thesis using assms(4) mod
      by (simp add: PteEncodeEntry_def KR_PTE2_ENCODE_FAILURE_DUE_TO_ALIGNMENT_def)
  next
    case True
    define f' where "f' = (if bInitialized (vmm s) \<and> \<not> bNoExecuteSupport (vmm s) then f AND NOT PTE_NX else f)"
    have al: "\<not> bit a n" if "n < align_bits ty" for n
      using True that unfolding mod align_mask and_mask_bits by blast
    have e: "e = KrMakeFlagsForPTEv2 ty f' psl OR a" "s' = s"
      using assms(4) True mod by (auto simp: PteEncodeEntry_def Let_def f'_def KrIsVirtmemmgmtInitialized_def)
    have f'b: "bit f' n \<longleftrightarrow> bit f n \<and> (n = 63 \<longrightarrow> \<not> bInitialized (vmm s) \<or> bNoExecuteSupport (vmm s))" for n
      by (auto simp: f'_def word_bits pte_bits dest: bit_imp_le_length)
    have be: "bit e n \<longleftrightarrow> (if n = 3 then PWT psl else if n = 4 then PCD psl
         else if n = 7 then large_type ty \<or> (ty = PT_ENTRY \<and> PAT psl)
         else if n = 12 then large_type ty \<and> PAT psl else bit f' n) \<or> bit a n" for n
      by (simp add: e(1) bit_or_iff flag_bits)
    have k: "12 \<le> align_bits ty" "large_type ty \<longleftrightarrow> 12 < align_bits ty"
      using assms(1) by (cases ty; simp add: large_type_def)+
    have addr: "e AND PTE_PHYSADDR_MASK AND NOT (?A - 1) = a"
    proof (rule bit_eqI)
      fix n
      have m: "bit (e AND PTE_PHYSADDR_MASK AND NOT (?A - 1)) n \<longleftrightarrow> bit e n \<and> 12 \<le> n \<and> n < 52 \<and> align_bits ty \<le> n"
        unfolding align_mask phys_mask by (auto simp: bit_and_iff bit_not_iff bit_mask_iff dest: bit_imp_le_length)
      consider "n < 12 \<or> 52 \<le> n" | "12 \<le> n" "n < 52" "n < align_bits ty" | "12 \<le> n" "n < 52" "align_bits ty \<le> n" by linarith
      then show "bit (e AND PTE_PHYSADDR_MASK AND NOT (?A - 1)) n = bit a n"
      proof cases
        case 1 then show ?thesis using a m by auto
      next
        case 2 then show ?thesis using al m by auto
      next
        case 3
        then have "\<not> bit f' n" "n = 12 \<longrightarrow> \<not> large_type ty" using f f'b k by auto
        then have "bit e n \<longleftrightarrow> bit a n" using be [of n] 3 by simp
        then show ?thesis using m 3 by simp
      qed
    qed
    have "\<forall>n. n < 12 \<or> 52 \<le> n \<longrightarrow> bit e n \<longleftrightarrow>
        (if n = 3 then PWT psl else if n = 4 then PCD psl
         else if n = 7 then large_type ty \<or> (ty = PT_ENTRY \<and> PAT psl)
         else bit f n \<and> (n = 63 \<longrightarrow> \<not> bInitialized (vmm s) \<or> bNoExecuteSupport (vmm s)))"
      using a f'b by (auto simp: be)
    moreover have "large_type ty \<longrightarrow> bit e 12 = PAT psl"
      using al [of 12] k by (auto simp: be)
    ultimately show ?thesis using True addr e(2) by simp
  qed
qed

text \<open>
  C15: PteEncodeEntry refuses a base that is not aligned for the entry type, counts the refusal and returns the
  all-ones value. For an aligned base it returns an entry from which the base is read back exactly (given base
  flags outside the address field), in which the flags are the base flags, without the no-execute bit when the
  processor lacks it, the caching bits are the selected ones in the places the entry type has for them, and
  the page-size bit is set for 1 GiB and 2 MiB pages. The state is then unchanged.
\<close>
theorem encode_entry_correct:
  assumes "ty \<noteq> INVALID_PTE_TYPE" "f AND PTE_PHYSADDR_MASK = 0" "a AND NOT PTE_PHYSADDR_MASK = 0"
    "PteEncodeEntry s ty a f psl = (e, s')"
  shows "if a mod KrGetPteTypeAlignment ty = 0
    then s' = s \<and> e AND PTE_PHYSADDR_MASK AND NOT (KrGetPteTypeAlignment ty - 1) = a \<and>
      (\<forall>n. n < 12 \<or> 52 \<le> n \<longrightarrow> bit e n \<longleftrightarrow>
        (if n = 3 then PWT psl else if n = 4 then PCD psl
         else if n = 7 then large_type ty \<or> (ty = PT_ENTRY \<and> PAT psl)
         else bit f n \<and> (n = 63 \<longrightarrow> \<not> bInitialized (vmm s) \<or> bNoExecuteSupport (vmm s)))) \<and>
      (large_type ty \<longrightarrow> bit e 12 = PAT psl)
    else e = - 1 \<and> s' = s\<lparr> NumIvldEncodeOfPTEs := NumIvldEncodeOfPTEs s + 1 \<rparr>"
  by (rule encode_entry [OF assms])

text \<open>A small system: sixteen pages, a direct map at the canonical base, no-execute support.\<close>

definition wit_vm :: vm_sys where
  "wit_vm = \<lparr> vmm = \<lparr> bInitialized = True, bHugePageSupport = True, bNoExecuteSupport = True, TotalPageStructs = 0,
      HugePages = 0, LargePages = 0, SmallPages = 0, DmapTotalPages = 0, VirtAddrBase = 0xFFFF800000000000, KernelAddressSpace = 16 \<rparr>,
    pmm = wit_pmm, qmem = (\<lambda>_. 0), NumIvldEncodeOfPTEs = 0,
    PatMsrState = \<lparr> PA_UC = 3, PA_WC = 4, PA_WT = 1, PA_WP = 5, PA_WB = 0, PA_UCM = 2 \<rparr>,
    g_pslDefault = \<lparr> PWT = False, PCD = False, PAT = False \<rparr> \<rparr>"

lemma encode_entry_correct_witness:
  "fst (PteEncodeEntry wit_vm PT_ENTRY 0x5000 3 (g_pslDefault wit_vm)) AND PTE_PHYSADDR_MASK = 0x5000 \<and>
    bit (fst (PteEncodeEntry wit_vm PT_ENTRY 0x5000 3 (g_pslDefault wit_vm))) 1"
proof -
  obtain e s' where r: "PteEncodeEntry wit_vm PT_ENTRY 0x5000 3 (g_pslDefault wit_vm) = (e, s')"
    by (cases "PteEncodeEntry wit_vm PT_ENTRY 0x5000 3 (g_pslDefault wit_vm)")
  have m: "PTE_PHYSADDR_MASK AND NOT (KrGetPteTypeAlignment PT_ENTRY - 1) = PTE_PHYSADDR_MASK"
    by (simp add: PTE_PHYSADDR_MASK_def)
  have "bit (3 :: QWORD) 1" by (simp add: bit_numeral_rec)
  then show ?thesis
    using encode_entry_correct [OF _ _ _ r] m r by (simp add: PTE_PHYSADDR_MASK_def)
qed

section \<open>Virtual addresses\<close>

definition canonical :: "UINTPTR \<Rightarrow> bool" where
  "canonical a \<longleftrightarrow> (\<forall>n. 48 \<le> n \<and> n < 64 \<longrightarrow> bit a n = bit a 47)"

lemma make_macro_bits:
  "bit (KR_MAKE_VIRTUAL p4 p3 p2 p1 off) n \<longleftrightarrow> n < 64 \<and>
    ((48 \<le> n \<and> bit p4 8) \<or> (39 \<le> n \<and> n < 48 \<and> bit p4 (n - 39)) \<or> (30 \<le> n \<and> n < 39 \<and> bit p3 (n - 30)) \<or>
     (21 \<le> n \<and> n < 30 \<and> bit p2 (n - 21)) \<or> (12 \<le> n \<and> n < 21 \<and> bit p1 (n - 12)) \<or> bit off n)"
proof -
  have "drop_bit 8 p4 AND 1 = (if bit p4 8 then 1 else 0)"
    by (rule bit_eqI) (auto simp: bit_and_iff bit_drop_bit_eq bit_1_iff, metis add.right_neutral gr0I)
  then have "- (drop_bit 8 p4 AND 1) AND 0xFFFF000000000000 = (if bit p4 8 then NOT (mask 48) else 0)"
    unfolding canonical_mask by simp
  moreover have f: "bit (push_bit k (p AND mask 9)) n \<longleftrightarrow> n < 64 \<and> k \<le> n \<and> n < k + 9 \<and> bit p (n - k)" for k and p :: QWORD
    by (auto simp: bit_push_bit_iff bit_and_iff bit_mask_iff)
  moreover have "bit off n \<Longrightarrow> n < 64" by (drule bit_imp_le_length) simp
  moreover have "bit (NOT (mask 48) :: QWORD) n \<longleftrightarrow> n < 64 \<and> 48 \<le> n"
    by (auto simp: bit_not_iff bit_mask_iff)
  ultimately show ?thesis
    unfolding KR_MAKE_VIRTUAL_def masks bit_or_iff f by (cases "bit p4 8") (simp_all, blast+)
qed

lemma small_word_bits: "(w :: QWORD) < 2 ^ k \<Longrightarrow> k < 64 \<Longrightarrow> bit w n \<Longrightarrow> n < k"
proof (rule ccontr)
  assume w: "w < 2 ^ k" "k < 64" "bit w n" "\<not> n < k"
  have "unat (2 ^ k :: QWORD) = 2 ^ k"
    using unat_of_nat_small [of "2 ^ k", where 'a = 64] power_strict_increasing [OF w(2), of "2 :: nat"] by simp
  then have "unat w < 2 ^ k" using w(1) by (simp add: word_less_nat_alt)
  then have "w = take_bit k w" by (simp add: word_eq_unat unsigned_take_bit_eq take_bit_nat_eq_self)
  then have "bit (take_bit k w) n" using w(3) by metis
  then show False using w(4) by (simp add: bit_take_bit_iff)
qed

text \<open>
  For indices below 512 and an offset within a page, the address macro produces a canonical address, and
  KrUnmakeVirtual in 4 KiB mode returns exactly those indices and that offset.
\<close>
theorem make_macro_roundtrip:
  assumes "p4 < 2 ^ 9" "p3 < 2 ^ 9" "p2 < 2 ^ 9" "p1 < 2 ^ 9" "off < 2 ^ 12"
  shows "canonical (KR_MAKE_VIRTUAL p4 p3 p2 p1 off) \<and>
    KrUnmakeVirtual VADDR_SMALL (KR_MAKE_VIRTUAL p4 p3 p2 p1 off) =
      \<lparr> VA_PML4 = ucast p4, VA_PDPT = ucast p3, VA_PD = ucast p2, VA_PT = ucast p1, VA_Offset = ucast off \<rparr>"
proof
  let ?a = "KR_MAKE_VIRTUAL p4 p3 p2 p1 off"
  note sm = assms [THEN small_word_bits, simplified]
  show "canonical ?a"
    unfolding canonical_def make_macro_bits by (auto dest: sm)
  have eqs: "drop_bit 39 ?a AND mask 9 = p4" "drop_bit 30 ?a AND mask 9 = p3" "drop_bit 21 ?a AND mask 9 = p2"
    "drop_bit 12 ?a AND mask 9 = p1" "?a AND mask 12 = off"
    by (rule bit_eqI; auto simp: bit_and_iff bit_drop_bit_eq bit_mask_iff make_macro_bits dest: sm)+
  show "KrUnmakeVirtual VADDR_SMALL ?a =
      \<lparr> VA_PML4 = ucast p4, VA_PDPT = ucast p3, VA_PD = ucast p2, VA_PT = ucast p1, VA_Offset = ucast off \<rparr>"
    by (simp add: KrUnmakeVirtual_def masks eqs)
qed

lemma make_macro_roundtrip_witness:
  "canonical (KR_MAKE_VIRTUAL DMAP_PML4_IDX 3 5 7 9) \<and>
    KrUnmakeVirtual VADDR_SMALL (KR_MAKE_VIRTUAL DMAP_PML4_IDX 3 5 7 9) =
      \<lparr> VA_PML4 = ucast DMAP_PML4_IDX, VA_PDPT = ucast (3 :: QWORD), VA_PD = ucast (5 :: QWORD),
         VA_PT = ucast (7 :: QWORD), VA_Offset = ucast (9 :: QWORD) \<rparr>"
  by (rule make_macro_roundtrip) (simp_all add: DMAP_PML4_IDX_def)

lemma unmake_fields:
  "VA_PML4 (KrUnmakeVirtual m a) = ucast (drop_bit 39 a AND mask 9)" "VA_PDPT (KrUnmakeVirtual m a) = ucast (drop_bit 30 a AND mask 9)"
  "VA_PD (KrUnmakeVirtual m a) = (if m = VADDR_HUGE then 0 else ucast (drop_bit 21 a AND mask 9))"
  "VA_PT (KrUnmakeVirtual m a) = (if m = VADDR_SMALL then ucast (drop_bit 12 a AND mask 9) else 0)"
  "VA_Offset (KrUnmakeVirtual VADDR_SMALL a) = ucast (a AND mask 12)"
  "VA_Offset (KrUnmakeVirtual VADDR_LARGE a) = ucast (drop_bit 12 a AND mask 21)"
  "VA_Offset (KrUnmakeVirtual VADDR_HUGE a) = ucast (drop_bit 21 a AND mask 30)"
  by (cases m; simp add: KrUnmakeVirtual_def masks)+

lemma field_bit:
  "m \<le> 32 \<Longrightarrow> bit (push_bit k (ucast ((ucast (drop_bit k (a :: QWORD) AND mask m) :: UINT) AND mask m)) :: QWORD) n \<longleftrightarrow>
    k \<le> n \<and> n < k + m \<and> n < 64 \<and> bit a n"
  by (auto simp: bit_push_bit_iff bit_unsigned_iff bit_and_iff bit_mask_iff bit_drop_bit_eq)

lemma field_bit0:
  "m \<le> 32 \<Longrightarrow> bit (ucast ((ucast (drop_bit k (a :: QWORD) AND mask m) :: UINT) AND mask m) :: QWORD) n \<longleftrightarrow> n < m \<and> bit a (k + n)"
  "bit (ucast (ucast (a AND mask 12) :: UINT) :: QWORD) n \<longleftrightarrow> n < 12 \<and> bit (a :: QWORD) n"
  by (auto simp: bit_unsigned_iff bit_and_iff bit_mask_iff bit_drop_bit_eq)

text \<open>
  KrMakeVirtual does not undo KrUnmakeVirtual. In 4 KiB mode the bits above 47 are lost, so a canonical
  address of the upper half (every kernel address) comes back as a non-canonical one; in 2 MiB mode the low 12
  bits are lost as well, and in 1 GiB mode the offset comes back shifted right by 21.
\<close>
theorem make_unmake_loses_bits:
  "KrMakeVirtual VADDR_SMALL (KrUnmakeVirtual VADDR_SMALL a) = a AND mask 48 \<and>
   KrMakeVirtual VADDR_LARGE (KrUnmakeVirtual VADDR_LARGE a) = a AND mask 48 AND NOT (mask 12) \<and>
   KrMakeVirtual VADDR_HUGE (KrUnmakeVirtual VADDR_HUGE a) =
     (a AND mask 48 AND NOT (mask 30)) OR (drop_bit 21 a AND mask 30)"
proof -
  have t: "btest (ucast (drop_bit 39 a AND mask 9) :: UINT) 9 = False"
    unfolding btest_bit by (simp add: bit_unsigned_iff bit_and_iff bit_mask_iff)
  note u = KrMakeVirtual_def unmake_fields t masks if_False Let_def simp_thms KrVirtualAddressMode.case KrVirtualAddressMode.distinct
  have len: "bit a n \<Longrightarrow> n < 64" for n by (drule bit_imp_le_length) simp
  note bits = bit_or_iff field_bit field_bit0 bit_and_iff bit_not_iff bit_mask_iff bit_drop_bit_eq
  have "KrMakeVirtual VADDR_SMALL (KrUnmakeVirtual VADDR_SMALL a) = a AND mask 48"
  proof (rule bit_eqI)
    fix n
    show "bit (KrMakeVirtual VADDR_SMALL (KrUnmakeVirtual VADDR_SMALL a)) n = bit (a AND mask 48) n"
      unfolding u if_True by (cases "bit a n"; simp add: bits; arith?)
  qed
  moreover have "KrMakeVirtual VADDR_LARGE (KrUnmakeVirtual VADDR_LARGE a) = a AND mask 48 AND NOT (mask 12)"
  proof (rule bit_eqI)
    fix n
    show "bit (KrMakeVirtual VADDR_LARGE (KrUnmakeVirtual VADDR_LARGE a)) n = bit (a AND mask 48 AND NOT (mask 12)) n"
      unfolding u if_True by (cases "bit a n"; simp add: bits; arith?)
  qed
  moreover have "KrMakeVirtual VADDR_HUGE (KrUnmakeVirtual VADDR_HUGE a) =
      (a AND mask 48 AND NOT (mask 30)) OR (drop_bit 21 a AND mask 30)"
  proof (rule bit_eqI)
    fix n
    show "bit (KrMakeVirtual VADDR_HUGE (KrUnmakeVirtual VADDR_HUGE a)) n =
        bit ((a AND mask 48 AND NOT (mask 30)) OR (drop_bit 21 a AND mask 30)) n"
      unfolding u if_True by (cases "bit a n"; cases "bit a (21 + n)"; simp add: bits; arith?)
  qed
  ultimately show ?thesis by blast
qed

end
