(* ===== verification/RegionNodes.thy ===== *)
theory RegionNodes
  imports PageTable
begin

text \<open>
  The region node allocator of \<^verbatim>\<open>Kernel/Source/Memory/PrivateVMM/RegionNodeAllocator.h\<close>: pages
  chained through their first slot, which holds a bitmap of the 64 slots of the page. Metadata slots and
  region nodes are kept in two stores indexed by virtual address.
\<close>

section \<open>State\<close>

definition RNA_SLOT_SIZE :: UINTPTR where "RNA_SLOT_SIZE = 64"

record KrRnaMetaSlot =
  Bitmap :: QWORD
  RnaThis :: PAGEID
  RnaPrev :: PAGEID
  RnaNext :: PAGEID
  NrSlots :: UCHAR

record KrVirtualMemoryRegion =
  pAddressSpace :: UINTPTR
  pPrev :: UINTPTR
  pNext :: UINTPTR
  Tag :: "string option"
  VaddrStart :: UINTPTR
  VaddrEnd :: UINTPTR
  VmrFlags :: WORD

definition zero_meta :: KrRnaMetaSlot where
  "zero_meta = \<lparr> Bitmap = 0, RnaThis = 0, RnaPrev = 0, RnaNext = 0, NrSlots = 0 \<rparr>"

definition zero_region :: KrVirtualMemoryRegion where
  "zero_region = \<lparr> pAddressSpace = 0, pPrev = 0, pNext = 0, Tag = None, VaddrStart = 0, VaddrEnd = 0, VmrFlags = 0 \<rparr>"

record rna_sys = vm_sys +
  g_RnaRootPageID :: PAGEID
  metas :: "UINTPTR \<Rightarrow> KrRnaMetaSlot"
  nodes :: "UINTPTR \<Rightarrow> KrVirtualMemoryRegion"
  spaces :: "UINTPTR \<Rightarrow> KrAddressSpace"

section \<open>Operations\<close>

definition RnaGetSlotVptr :: "rna_sys \<Rightarrow> PAGEID \<Rightarrow> UCHAR \<Rightarrow> UINTPTR" where
  "RnaGetSlotVptr s PageID SlotID = KrPhysToVirt s (KrGetPhysicalPageAddress (pmm s) PageID) + ucast SlotID * RNA_SLOT_SIZE"

definition RnaGetMetaSlotVptr :: "rna_sys \<Rightarrow> PAGEID \<Rightarrow> UINTPTR" where
  "RnaGetMetaSlotVptr s PageID = RnaGetSlotVptr s PageID 0"

definition upd_meta :: "UINTPTR \<Rightarrow> (KrRnaMetaSlot \<Rightarrow> KrRnaMetaSlot) \<Rightarrow> rna_sys \<Rightarrow> rna_sys" where
  "upd_meta p f s = s\<lparr> metas := (metas s)(p := f (metas s p)) \<rparr>"

definition upd_node :: "UINTPTR \<Rightarrow> (KrVirtualMemoryRegion \<Rightarrow> KrVirtualMemoryRegion) \<Rightarrow> rna_sys \<Rightarrow> rna_sys" where
  "upd_node p f s = s\<lparr> nodes := (nodes s)(p := f (nodes s p)) \<rparr>"

definition zero_rna_page :: "UINTPTR \<Rightarrow> rna_sys \<Rightarrow> rna_sys" where
  "zero_rna_page p s = s\<lparr> metas := (\<lambda>a. if a - p < KR_PAGE_SIZE then zero_meta else metas s a),
     nodes := (\<lambda>a. if a - p < KR_PAGE_SIZE then zero_region else nodes s a) \<rparr>"

text \<open>
  \<^verbatim>\<open>1 << n\<close> is a shift of a 32-bit signed integer, widened to 64 bits with its sign.
\<close>

definition int_shift1 :: "nat \<Rightarrow> QWORD kres" where
  "int_shift1 n = (if n < 32 then Inr (scast (push_bit n 1 :: DWORD)) else Inl UndefinedShift)"

definition RnaInit :: "rna_sys \<Rightarrow> (bool \<times> rna_sys) kres" where
  "RnaInit s =
     (if g_RnaRootPageID s \<noteq> IVLDPGID then Inr (False, s)
      else kbind (PmAcquirePage (pmm s) PAGE_TYPE_RNA IVLDPGID) (\<lambda>(ID, g).
        let s1 = s\<lparr> pmm := g, g_RnaRootPageID := ID \<rparr>
        in if ID = IVLDPGID then Inr (False, s1)
           else
             let p = RnaGetMetaSlotVptr s1 ID;
                 s2 = zero_rna_page p s1;
                 s3 = s2\<lparr> pmm := snd (KrReservePhysicalPage (pmm s2) ID) \<rparr>
             in Inr (True, upd_meta p (\<lambda>m. m\<lparr> RnaThis := ID, RnaPrev := IVLDPGID, RnaNext := IVLDPGID, Bitmap := 1, NrSlots := 1 \<rparr>) s3)))"

text \<open>The search of \<^verbatim>\<open>RnaAcquireNode\<close>; \<open>None\<close> says that no page could be acquired.\<close>

fun RnaChoose :: "nat \<Rightarrow> rna_sys \<Rightarrow> UINTPTR \<Rightarrow> (UINTPTR option \<times> rna_sys) kres" where
  "RnaChoose 0 s pChosen = Inl OutOfFuel"
| "RnaChoose (Suc f) s pChosen =
     (if Bitmap (metas s pChosen) \<noteq> QWORD_MAX then Inr (Some pChosen, s)
      else if RnaNext (metas s pChosen) \<noteq> IVLDPGID
      then RnaChoose f s (RnaGetMetaSlotVptr s (RnaNext (metas s pChosen)))
      else kbind (PmAcquirePage (pmm s) PAGE_TYPE_RNA IVLDPGID) (\<lambda>(ID, g).
        let s1 = s\<lparr> pmm := g \<rparr>
        in if ID = IVLDPGID then Inr (None, s1)
           else
             let pNew = RnaGetMetaSlotVptr s1 ID;
                 s2 = zero_rna_page pNew s1;
                 s3 = upd_meta pNew (\<lambda>m. m\<lparr> RnaPrev := RnaThis (metas s2 pChosen) \<rparr>) s2;
                 s4 = upd_meta pChosen (\<lambda>m. m\<lparr> RnaNext := ID \<rparr>) s3
             in Inr (Some pNew, upd_meta pNew (\<lambda>m. m\<lparr> RnaNext := IVLDPGID, Bitmap := 1, NrSlots := 1 \<rparr>) s4)))"

definition RnaTakeSlot :: "rna_sys \<Rightarrow> UINTPTR \<Rightarrow> (UINTPTR \<times> rna_sys) kres" where
  "RnaTakeSlot s pChosen =
     (let FreeSlot = ctz (NOT (Bitmap (metas s pChosen)))
      in kbind (int_shift1 FreeSlot) (\<lambda>bit.
           let s1 = upd_meta pChosen (\<lambda>m. m\<lparr> Bitmap := Bitmap m OR bit, NrSlots := NrSlots m + 1 \<rparr>) s;
               pNode = RnaGetSlotVptr s1 (RnaThis (metas s1 pChosen)) (of_nat FreeSlot)
           in Inr (pNode, upd_node pNode (\<lambda>_. zero_region) s1)))"

definition RnaAcquireNode :: "nat \<Rightarrow> rna_sys \<Rightarrow> (UINTPTR \<times> rna_sys) kres" where
  "RnaAcquireNode f s =
     kbind (RnaChoose f s (RnaGetMetaSlotVptr s (g_RnaRootPageID s))) (\<lambda>(c, s1).
       case c of None \<Rightarrow> Inr (0, s1) | Some pChosen \<Rightarrow> RnaTakeSlot s1 pChosen)"

fun RnaSearch :: "nat \<Rightarrow> rna_sys \<Rightarrow> UINTPTR \<Rightarrow> PAGEID \<Rightarrow> PAGEID kres" where
  "RnaSearch 0 s VaddrNode SearchID = Inl OutOfFuel"
| "RnaSearch (Suc f) s VaddrNode SearchID =
     (let p = RnaGetMetaSlotVptr s SearchID
      in if VaddrNode \<ge> p \<and> VaddrNode < p + KR_PAGE_SIZE then Inr SearchID
         else if RnaNext (metas s p) \<noteq> IVLDPGID then RnaSearch f s VaddrNode (RnaNext (metas s p))
         else Inr IVLDPGID)"

definition RnaRelinquishNode :: "nat \<Rightarrow> rna_sys \<Rightarrow> UINTPTR \<Rightarrow> (bool \<times> rna_sys) kres" where
  "RnaRelinquishNode f s VaddrNode =
     kbind (RnaSearch f s VaddrNode (g_RnaRootPageID s)) (\<lambda>SearchID.
       if SearchID = IVLDPGID then Inr (False, s)
       else
         let p = RnaGetMetaSlotVptr s SearchID;
             WhichSlot = (ucast ((VaddrNode - p) div RNA_SLOT_SIZE) :: UCHAR)
         in kbind (int_shift1 (unat WhichSlot)) (\<lambda>bit.
              let s1 = upd_meta p (\<lambda>m. m\<lparr> Bitmap := Bitmap m AND NOT bit, NrSlots := NrSlots m - 1 \<rparr>) s;
                  m = metas s1 p;
                  s2 = (if NrSlots m = 1
                        then
                          let t1 = (if RnaPrev m \<noteq> IVLDPGID
                                    then upd_meta (RnaGetMetaSlotVptr s1 (RnaPrev m)) (\<lambda>k. k\<lparr> RnaNext := RnaNext m \<rparr>) s1 else s1);
                              m1 = metas t1 p
                          in (if RnaNext m1 \<noteq> IVLDPGID
                              then upd_meta (RnaGetMetaSlotVptr t1 (RnaNext m1)) (\<lambda>k. k\<lparr> RnaPrev := RnaPrev m1 \<rparr>) t1 else t1)
                        else s1)
              in kbind (PmRelinquishPage (pmm s2) (RnaThis (metas s2 p))) (\<lambda>(_, g). Inr (True, s2\<lparr> pmm := g \<rparr>))))"

section \<open>Slots\<close>

lemma sys_upds [simp]:
  "pmm (upd_meta p f s) = pmm s" "pmm (upd_node p h s) = pmm s" "vmm (upd_meta p f s) = vmm s"
  "vmm (upd_node p h s) = vmm s" "nodes (upd_meta p f s) = nodes s" "metas (upd_node p h s) = metas s"
  "metas (upd_meta p f s) = (metas s)(p := f (metas s p))" "nodes (upd_node p h s) = (nodes s)(p := h (nodes s p))"
  "g_RnaRootPageID (upd_meta p f s) = g_RnaRootPageID s" "g_RnaRootPageID (upd_node p h s) = g_RnaRootPageID s"
  "pmm (zero_rna_page p s) = pmm s" "vmm (zero_rna_page p s) = vmm s"
  by (simp_all add: upd_meta_def upd_node_def zero_rna_page_def)

lemma slot_vptr_cong:
  "pmm s' = pmm s \<Longrightarrow> vmm s' = vmm s \<Longrightarrow> RnaGetSlotVptr s' = RnaGetSlotVptr s \<and> RnaGetMetaSlotVptr s' = RnaGetMetaSlotVptr s"
  by (simp add: fun_eq_iff RnaGetSlotVptr_def RnaGetMetaSlotVptr_def KrPhysToVirt_def)

lemma slot_vptr_upds [simp]:
  "RnaGetSlotVptr (upd_meta p f s) = RnaGetSlotVptr s" "RnaGetSlotVptr (upd_node p h s) = RnaGetSlotVptr s"
  "RnaGetMetaSlotVptr (upd_meta p f s) = RnaGetMetaSlotVptr s" "RnaGetMetaSlotVptr (upd_node p h s) = RnaGetMetaSlotVptr s"
  using slot_vptr_cong [of "upd_meta p f s" s] slot_vptr_cong [of "upd_node p h s" s] by simp_all

lemma int_shift1_bit:
  assumes "n < 32" "int_shift1 n = Inr w"
  shows "bit w m \<longleftrightarrow> m = n \<or> (n = 31 \<and> 31 \<le> m \<and> m < 64)"
proof -
  have "w = scast (push_bit n 1 :: DWORD)" using assms by (simp add: int_shift1_def)
  then show ?thesis
    using assms(1) by (auto simp: bit_signed_iff bit_push_1 min_def)
qed

lemma slot_in_page:
  "RnaGetSlotVptr s P k = RnaGetMetaSlotVptr s P + ucast k * RNA_SLOT_SIZE"
  by (simp add: RnaGetMetaSlotVptr_def RnaGetSlotVptr_def)

lemma choose_root:
  "Bitmap (metas s p) \<noteq> QWORD_MAX \<Longrightarrow> RnaChoose (Suc f) s p = Inr (Some p, s)"
  by simp

lemma rna_take_root:
  assumes "Bitmap (metas s p) = b" "RnaThis (metas s p) = g_RnaRootPageID s" "p = RnaGetMetaSlotVptr s (g_RnaRootPageID s)"
    "k < 32" "\<not> bit b k" "\<And>j. j < k \<Longrightarrow> bit b j" "int_shift1 k = Inr w"
  shows "RnaAcquireNode (Suc f) s = Inr (RnaGetSlotVptr s (g_RnaRootPageID s) (of_nat k),
    upd_node (RnaGetSlotVptr s (g_RnaRootPageID s) (of_nat k)) (\<lambda>_. zero_region)
      (upd_meta p (\<lambda>m. m\<lparr> Bitmap := Bitmap m OR w, NrSlots := NrSlots m + 1 \<rparr>) s))"
proof -
  have "bit (NOT b) k" "\<And>j. j < k \<Longrightarrow> \<not> bit (NOT b) j"
    using assms(4-6) by (auto simp: bit_not_iff)
  then have c: "ctz (NOT b) = k" by (rule ctz_eqI)
  have ne: "Bitmap (metas s p) \<noteq> QWORD_MAX"
    using assms(1,4,5) by (auto simp: QWORD_MAX_def bit_not_iff)
  show ?thesis
    using choose_root [OF ne] assms(1-3,7) c by (simp add: RnaAcquireNode_def RnaTakeSlot_def Let_def)
qed

text \<open>
  When the root page of the allocator has a clear bit below bit 32, RnaAcquireNode takes the lowest one:
  it returns the address of that slot, zeroes the node there, counts it, and changes no other metadata and no
  page. For bits 0 to 30 the bitmap gains exactly that bit; for bit 31 the shift of a signed integer sets
  bits 32 to 63 too, so the upper half of the page is never handed out.
\<close>
theorem rna_acquire_node:
  assumes "Bitmap (metas s (RnaGetMetaSlotVptr s (g_RnaRootPageID s))) = b"
    "RnaThis (metas s (RnaGetMetaSlotVptr s (g_RnaRootPageID s))) = g_RnaRootPageID s"
    "k < 32" "\<not> bit b k" "\<And>j. j < k \<Longrightarrow> bit b j"
  shows "\<exists>s'. RnaAcquireNode (Suc f) s = Inr (RnaGetSlotVptr s (g_RnaRootPageID s) (of_nat k), s') \<and>
    (\<forall>n. bit (Bitmap (metas s' (RnaGetMetaSlotVptr s (g_RnaRootPageID s)))) n \<longleftrightarrow>
      bit b n \<or> n = k \<or> (k = 31 \<and> 31 \<le> n \<and> n < 64)) \<and>
    NrSlots (metas s' (RnaGetMetaSlotVptr s (g_RnaRootPageID s))) =
      NrSlots (metas s (RnaGetMetaSlotVptr s (g_RnaRootPageID s))) + 1 \<and>
    (\<forall>q. q \<noteq> RnaGetMetaSlotVptr s (g_RnaRootPageID s) \<longrightarrow> metas s' q = metas s q) \<and>
    nodes s' = (nodes s)(RnaGetSlotVptr s (g_RnaRootPageID s) (of_nat k) := zero_region) \<and> pmm s' = pmm s"
proof -
  let ?p = "RnaGetMetaSlotVptr s (g_RnaRootPageID s)" and ?n = "RnaGetSlotVptr s (g_RnaRootPageID s) (of_nat k)"
  obtain w where w: "int_shift1 k = Inr w" using assms(3) by (simp add: int_shift1_def)
  let ?s' = "upd_node ?n (\<lambda>_. zero_region) (upd_meta ?p (\<lambda>m. m\<lparr> Bitmap := Bitmap m OR w, NrSlots := NrSlots m + 1 \<rparr>) s)"
  have "RnaAcquireNode (Suc f) s = Inr (?n, ?s')"
    by (rule rna_take_root [OF assms(1,2) refl assms(3-5) w])
  moreover have "bit (Bitmap (metas ?s' ?p)) n \<longleftrightarrow> bit b n \<or> n = k \<or> (k = 31 \<and> 31 \<le> n \<and> n < 64)" for n
    using int_shift1_bit [OF assms(3) w, of n] assms(1) by (simp add: bit_or_iff)
  ultimately show ?thesis by (intro exI [of _ ?s']) simp
qed

text \<open>
  Relinquishing a node just taken from the root page (slots 1 to 30) restores the bitmap and the count of
  the page and leaves the page allocated, because the root page is reserved.
\<close>
theorem rna_acquire_relinquish:
  assumes "Bitmap (metas s p) = b" "RnaThis (metas s p) = g_RnaRootPageID s" "p = RnaGetMetaSlotVptr s (g_RnaRootPageID s)"
    "0 < k" "k < 31" "\<not> bit b k" "\<And>j. j < k \<Longrightarrow> bit b j" "g_RnaRootPageID s \<noteq> IVLDPGID"
    "RnaPrev (metas s p) = IVLDPGID" "RnaNext (metas s p) = IVLDPGID"
    "KrIsPhysicalPageReserved (pmm s) (g_RnaRootPageID s)" "unat p + 4096 < 2 ^ 64"
  shows "\<exists>v s' s''. RnaAcquireNode (Suc f) s = Inr (v, s') \<and> RnaRelinquishNode (Suc f) s' v = Inr (True, s'') \<and>
    metas s'' = metas s \<and> nodes s'' = (nodes s)(v := zero_region) \<and> pmm s'' = pmm s"
proof -
  let ?root = "g_RnaRootPageID s" and ?n = "RnaGetSlotVptr s (g_RnaRootPageID s) (of_nat k)"
  obtain w where w: "int_shift1 k = Inr w" using assms(5) by (simp add: int_shift1_def)
  let ?s' = "upd_node ?n (\<lambda>_. zero_region) (upd_meta p (\<lambda>m. m\<lparr> Bitmap := Bitmap m OR w, NrSlots := NrSlots m + 1 \<rparr>) s)"
  have "k < 32" using assms(5) by simp
  then have acq: "RnaAcquireNode (Suc f) s = Inr (?n, ?s')"
    by (rule rna_take_root [OF assms(1-3) _ assms(6,7) w])
  have k8: "unat (of_nat k :: UCHAR) = k" using assms(5) by (simp add: unat_of_nat_small)
  have n: "?n = p + of_nat (64 * k)"
    using assms(5) by (simp add: slot_in_page assms(3) [symmetric] RNA_SLOT_SIZE_def ucast_of_nat_up mult.commute)
  have u64: "unat (of_nat (64 * k) :: UINTPTR) = 64 * k" using assms(5) by (intro unat_of_nat_small) simp
  have un: "unat ?n = unat p + 64 * k"
    unfolding n using u64 assms(5,12) by (subst unat_plus_le) auto
  have up: "unat (p + KR_PAGE_SIZE) = unat p + 4096"
    using assms(12) by (subst unat_plus_le) (auto simp: KR_PAGE_SIZE_def)
  have "?n \<ge> p \<and> ?n < p + KR_PAGE_SIZE"
    using un up assms(5) by (simp add: word_le_nat_alt word_less_nat_alt)
  then have srch: "RnaSearch (Suc f) ?s' ?n ?root = Inr ?root"
    by (simp add: assms(3) [symmetric])
  have "unat ((?n - p) div RNA_SLOT_SIZE) = k"
  proof -
    have "?n - p = of_nat (64 * k)" unfolding n by simp
    then have "unat ((?n - p) div RNA_SLOT_SIZE) = 64 * k div 64"
      unfolding unat_div using u64 by (simp add: RNA_SLOT_SIZE_def)
    then show ?thesis by simp
  qed
  then have sl: "unat (ucast ((?n - p) div RNA_SLOT_SIZE) :: UCHAR) = k"
    using assms(5) by (simp add: unsigned_ucast_eq take_bit_nat_eq_self)
  have b: "(b OR w) AND NOT w = b"
  proof (rule bit_eqI)
    fix n show "bit ((b OR w) AND NOT w) n = bit b n"
      using int_shift1_bit [OF _ w, of n] assms(5,6) by (auto simp: bit_or_iff bit_and_iff bit_not_iff dest: bit_imp_le_length)
  qed
  let ?s2 = "upd_meta p (\<lambda>m. m\<lparr> Bitmap := Bitmap m AND NOT w, NrSlots := NrSlots m - 1 \<rparr>) ?s'"
  have m: "metas ?s2 = metas s"
    using b assms(1) by (simp add: fun_eq_iff)
  have rel: "PmRelinquishPage (pmm s) ?root = Inr (False, pmm s)" using assms(11) by (simp add: PmRelinquishPage_def)
  have "RnaRelinquishNode (Suc f) ?s' ?n = Inr (True, ?s2\<lparr> pmm := pmm s \<rparr>)"
    unfolding RnaRelinquishNode_def
    using srch assms(8,9,10,2) rel w sl m by (simp add: assms(3) [symmetric] Let_def)
  then show ?thesis using acq m by (intro exI [of _ ?n] exI [of _ ?s'] exI [of _ "?s2\<lparr> pmm := pmm s \<rparr>"]) simp
qed

section \<open>Chained pages\<close>

lemma held_valid: "pmm_ok g \<Longrightarrow> unat ID < unat (NrPages g) \<Longrightarrow> KrIsValidPageID g ID"
  using valid_id by (auto simp: pmm_ok_def)

text \<open>
  When every slot of the last page of the chain is taken, RnaAcquireNode acquires a page, links it and
  starts its bitmap, but leaves the page's own identifier 0: the node it returns is slot 1 of physical page 0
  and not of the new page.
\<close>
theorem rna_chained_page:
  assumes "pmm_ok (pmm s)" "unat (NrPages (pmm s)) \<le> 2 ^ 20" "p = RnaGetMetaSlotVptr s (g_RnaRootPageID s)"
    "g_RnaRootPageID s \<noteq> IVLDPGID" "unat (g_RnaRootPageID s) \<in> held_pages (pmm s)" "unat (g_RnaRootPageID s) < unat (NrPages (pmm s))"
    "Bitmap (metas s p) = QWORD_MAX" "RnaNext (metas s p) = IVLDPGID"
  shows "\<exists>ID v s'. RnaAcquireNode (Suc f) s = Inr (v, s') \<and> pmm_ok (pmm s') \<and>
    (ID = IVLDPGID \<longrightarrow> v = 0 \<and> metas s' = metas s) \<and>
    (ID \<noteq> IVLDPGID \<longrightarrow> unat ID \<notin> held_pages (pmm s) \<and> held_pages (pmm s') = insert (unat ID) (held_pages (pmm s)) \<and>
      v = KrPhysToVirt s 0 + RNA_SLOT_SIZE \<and> RnaNext (metas s' p) = ID \<and>
      RnaThis (metas s' (RnaGetMetaSlotVptr s ID)) = 0 \<and> Bitmap (metas s' (RnaGetMetaSlotVptr s ID)) = 3)"
proof -
  let ?root = "g_RnaRootPageID s"
  obtain ID g where a: "PmAcquirePage (pmm s) PAGE_TYPE_RNA IVLDPGID = Inr (ID, g)"
    using pm.acquire_total [OF assms(1)] by force
  note d = pm.acquireD [OF assms(1) a]
  show ?thesis
  proof (cases "ID = IVLDPGID")
    case True
    then have "RnaAcquireNode (Suc f) s = Inr (0, s\<lparr> pmm := g \<rparr>)"
      using a assms(3,7,8) by (simp add: RnaAcquireNode_def)
    then show ?thesis using True d(1) by (intro exI [of _ ID] exI [of _ 0] exI [of _ "s\<lparr> pmm := g \<rparr>"]) simp
  next
    case False
    have nr: "NrPages g = NrPages (pmm s)" using d(2) by (simp add: word_eq_unat)
    have v: "KrIsValidPageID (pmm s) ID" "KrIsValidPageID (pmm s) ?root"
      using d(5) [OF False] assms(1,6) held_valid by auto
    have ag: "KrGetPhysicalPageAddress g = KrGetPhysicalPageAddress (pmm s)"
      using nr by (simp add: fun_eq_iff KrGetPhysicalPageAddress_def KrIsValidPageID_def)
    have vp: "RnaGetMetaSlotVptr (s\<lparr> pmm := g \<rparr>) = RnaGetMetaSlotVptr s" "RnaGetSlotVptr (s\<lparr> pmm := g \<rparr>) = RnaGetSlotVptr s"
      using ag by (simp_all add: fun_eq_iff RnaGetMetaSlotVptr_def RnaGetSlotVptr_def KrPhysToVirt_def)
    let ?new = "RnaGetMetaSlotVptr s ID"
    have "?new \<noteq> p"
    proof
      assume "?new = p"
      then have "KrGetPhysicalPageAddress (pmm s) ID = KrGetPhysicalPageAddress (pmm s) ?root"
        unfolding assms(3) by (simp add: RnaGetMetaSlotVptr_def RnaGetSlotVptr_def KrPhysToVirt_def)
      then have "ID = ?root" using page_address_inj [OF assms(2) v] by blast
      then show False using d(6) [OF False] assms(5) by simp
    qed
    then have np: "p \<noteq> ?new" by blast
    define s2 where "s2 = zero_rna_page ?new (s\<lparr> pmm := g \<rparr>)"
    define s5 where "s5 = upd_meta ?new (\<lambda>m. m\<lparr> RnaNext := IVLDPGID, Bitmap := 1, NrSlots := 1 \<rparr>)
      (upd_meta p (\<lambda>m. m\<lparr> RnaNext := ID \<rparr>) (upd_meta ?new (\<lambda>m. m\<lparr> RnaPrev := RnaThis (metas s2 p) \<rparr>) s2))"
    have ch: "RnaChoose (Suc f) s p = Inr (Some ?new, s5)"
      using a False assms(7,8) by (simp add: Let_def vp s5_def s2_def)
    have z: "metas s2 ?new = zero_meta" by (simp add: s2_def zero_rna_page_def KR_PAGE_SIZE_def)
    have m: "metas s5 ?new = \<lparr> Bitmap = 1, RnaThis = 0, RnaPrev = RnaThis (metas s2 p), RnaNext = IVLDPGID, NrSlots = 1 \<rparr>"
      using np z by (simp add: s5_def zero_meta_def)
    have m5: "RnaNext (metas s5 p) = ID" using np by (simp add: s5_def)
    have c: "ctz (NOT 1 :: QWORD) = 1"
      by (rule ctz_eqI) (auto simp: bit_not_iff bit_1_iff)
    have sh: "int_shift1 1 = Inr 2" by (simp add: int_shift1_def signed_take_bit_def)
    let ?v = "RnaGetSlotVptr s5 0 1"
    let ?s6 = "upd_meta ?new (\<lambda>m. m\<lparr> Bitmap := Bitmap m OR 2, NrSlots := NrSlots m + 1 \<rparr>) s5"
    let ?s' = "upd_node ?v (\<lambda>_. zero_region) ?s6"
    have r: "RnaAcquireNode (Suc f) s = Inr (?v, ?s')"
      using ch m c sh unfolding RnaAcquireNode_def assms(3) [symmetric] by (simp add: RnaTakeSlot_def Let_def)
    have p0: "KrGetPhysicalPageAddress (pmm s) 0 = 0" by (simp add: KrGetPhysicalPageAddress_def)
    have g5: "pmm s5 = g" "vmm s5 = vmm s" by (simp_all add: s5_def s2_def)
    have "?v = KrPhysToVirt s 0 + RNA_SLOT_SIZE"
      using p0 ag g5 by (simp add: RnaGetSlotVptr_def KrPhysToVirt_def)
    then show ?thesis
      using r False d np m m5 g5 by (intro exI [of _ ID] exI [of _ ?v] exI [of _ ?s']) simp
  qed
qed

section \<open>Concrete allocators\<close>

text \<open>The root page is page 5 of the small system; it is reserved, and its first \<open>b\<close> slots are taken.\<close>

definition wit_rna :: "QWORD \<Rightarrow> rna_sys" where
  "wit_rna b = vm_sys.extend (wit_vm\<lparr> pmm := snd (KrReservePhysicalPage wit_pmm 5) \<rparr>)
     (rna_sys.fields 5 (\<lambda>_. \<lparr> Bitmap = b, RnaThis = 5, RnaPrev = IVLDPGID, RnaNext = IVLDPGID, NrSlots = 7 \<rparr>)
       (\<lambda>_. zero_region) (\<lambda>_. \<lparr> PaddrRoot = 0, pRootVMR = 0, pTailVMR = 0, NrVMRs = 0 \<rparr>))"

lemma wit_rna_simps [simp]:
  "g_RnaRootPageID (wit_rna b) = 5" "pmm (wit_rna b) = snd (KrReservePhysicalPage wit_pmm 5)" "vmm (wit_rna b) = vmm wit_vm"
  "metas (wit_rna b) q = \<lparr> Bitmap = b, RnaThis = 5, RnaPrev = IVLDPGID, RnaNext = IVLDPGID, NrSlots = 7 \<rparr>"
  by (simp_all add: wit_rna_def vm_sys.defs rna_sys.defs)

lemma wit_reserve:
  "NrPages (snd (KrReservePhysicalPage wit_pmm 5)) = 16" "KrIsPhysicalPageReserved (snd (KrReservePhysicalPage wit_pmm 5)) 5"
  "PrimaryBitmap (snd (KrReservePhysicalPage wit_pmm 5)) = PrimaryBitmap wit_pmm"
  by (simp_all add: KrReservePhysicalPage_def KrIsValidPageID_def wit_pmm_def pmm_zero_def IVLDPGID_def Let_def
      KrIsPhysicalPageReserved_def bitmap_simps stage_order)

lemma wit_rna_root: "RnaGetMetaSlotVptr (wit_rna b) 5 = 0xFFFF800000005000"
  by (simp add: RnaGetMetaSlotVptr_def RnaGetSlotVptr_def KrPhysToVirt_def KrGetPhysicalPageAddress_def
      KrIsValidPageID_def wit_reserve IVLDPGID_def wit_vm_def KR_PAGE_SIZE_def)

lemma rna_acquire_node_witness:
  "\<exists>s'. RnaAcquireNode 1 (wit_rna 1) = Inr (RnaGetSlotVptr (wit_rna 1) 5 1, s')"
  using rna_acquire_node [of "wit_rna 1" 1 1 0] by (auto simp: bit_1_iff)

lemma rna_acquire_relinquish_witness:
  "\<exists>v s' s''. RnaAcquireNode 1 (wit_rna 1) = Inr (v, s') \<and> RnaRelinquishNode 1 s' v = Inr (True, s'') \<and> metas s'' = metas (wit_rna 1)"
proof -
  have "\<exists>v s' s''. RnaAcquireNode (Suc 0) (wit_rna 1) = Inr (v, s') \<and> RnaRelinquishNode (Suc 0) s' v = Inr (True, s'') \<and>
    metas s'' = metas (wit_rna 1) \<and> nodes s'' = (nodes (wit_rna 1))(v := zero_region) \<and> pmm s'' = pmm (wit_rna 1)"
    by (rule rna_acquire_relinquish [where k = 1 and b = 1 and p = "0xFFFF800000005000"])
      (simp_all add: wit_rna_root wit_reserve, simp_all add: IVLDPGID_def bit_1_iff)
  then obtain v s' s'' where r: "RnaAcquireNode (Suc 0) (wit_rna 1) = Inr (v, s')"
    "RnaRelinquishNode (Suc 0) s' v = Inr (True, s'')" "metas s'' = metas (wit_rna 1)" by blast
  show ?thesis by (rule exI [of _ v], rule exI [of _ s'], rule exI [of _ s'']) (simp only: One_nat_def r simp_thms)
qed

lemma wit_reserve_ok: "pmm_ok (snd (KrReservePhysicalPage wit_pmm 5))"
  using reserve_ok [OF wit_ok, of 5] by (cases "KrReservePhysicalPage wit_pmm 5") simp

lemma rna_chained_page_witness:
  "\<exists>ID v s'. RnaAcquireNode 1 (wit_rna QWORD_MAX) = Inr (v, s') \<and>
    (if ID = IVLDPGID then v = 0 else v = KrPhysToVirt (wit_rna QWORD_MAX) 0 + RNA_SLOT_SIZE)"
proof -
  have "unat (g_RnaRootPageID (wit_rna QWORD_MAX)) \<in> held_pages (pmm (wit_rna QWORD_MAX))"
    using wit_taken by (simp add: held_pages_def taken_def wit_reserve)
  then obtain ID v s' where "RnaAcquireNode (Suc 0) (wit_rna QWORD_MAX) = Inr (v, s')"
    "ID = IVLDPGID \<longrightarrow> v = 0" "ID \<noteq> IVLDPGID \<longrightarrow> v = KrPhysToVirt (wit_rna QWORD_MAX) 0 + RNA_SLOT_SIZE"
    using rna_chained_page [of "wit_rna QWORD_MAX" "0xFFFF800000005000" 0]
    by (simp only: wit_rna_root wit_rna_simps wit_reserve wit_reserve_ok KrRnaMetaSlot.simps) (auto simp: IVLDPGID_def)
  then show ?thesis by (intro exI [of _ ID] exI [of _ v] exI [of _ s']) simp
qed

end
