(* ===== verification/VirtMem.thy ===== *)
theory VirtMem
  imports RegionNodes
begin

text \<open>
  The virtual memory manager, \<^verbatim>\<open>Kernel/Source/Memory/Virtmemmgmt.c\<close> and
  \<^verbatim>\<open>Kernel/Include/Memory/Virtmemmgmt.h\<close>: regions of an address space in a doubly linked list,
  the search, insertion and encoding of regions, and the mapping of static regions. A pointer to a region is
  the address of its node, 0 is the null pointer. Loops over a list are bounded by the fuel \<open>f\<close>; a list
  that is not cyclic needs one unit per node and one more.
\<close>

section \<open>Flags\<close>

definition VMR_FLAG_CACHING_PROTOCOL :: WORD where "VMR_FLAG_CACHING_PROTOCOL = push_bit 1 1 OR push_bit 0 1"
definition VMR_FLAG_PAGE_SIZE :: WORD where "VMR_FLAG_PAGE_SIZE = push_bit 2 1"
definition VMR_FLAG_ALLOW_CODE_EXEC :: WORD where "VMR_FLAG_ALLOW_CODE_EXEC = push_bit 3 1"
definition VMR_FLAG_READABLE :: WORD where "VMR_FLAG_READABLE = push_bit 4 1"
definition VMR_FLAG_WRITABLE :: WORD where "VMR_FLAG_WRITABLE = push_bit 5 1"
definition VMR_FLAG_STATIC :: WORD where "VMR_FLAG_STATIC = push_bit 7 1"
definition VMR_FLAG_NO_DIVISION_CHECK :: WORD where "VMR_FLAG_NO_DIVISION_CHECK = push_bit 8 1"

definition VMR_CACHE_PROTOCOL_WRITE_BACK :: WORD where "VMR_CACHE_PROTOCOL_WRITE_BACK = 0"
definition VMR_CACHE_PROTOCOL_UNCACHEABLE :: WORD where "VMR_CACHE_PROTOCOL_UNCACHEABLE = 1"
definition VMR_CACHE_PROTOCOL_WRITE_COMBINE :: WORD where "VMR_CACHE_PROTOCOL_WRITE_COMBINE = 2"

definition RegionPageSize :: "WORD \<Rightarrow> UINT" where
  "RegionPageSize Flgs = (if Flgs AND VMR_FLAG_PAGE_SIZE \<noteq> 0 then 0x200000 else 0x1000)"

definition KrGetKernelAddressSpace :: "rna_sys \<Rightarrow> UINTPTR" where
  "KrGetKernelAddressSpace s = KernelAddressSpace (vmm s)"

definition KrGetVirtmemmgmtState :: "rna_sys \<Rightarrow> KrVirtmemmgmtState" where
  "KrGetVirtmemmgmtState s = vmm s"

section \<open>Searching the list of regions\<close>

fun LocateLoop :: "nat \<Rightarrow> rna_sys \<Rightarrow> UINTPTR \<Rightarrow> UINTPTR \<Rightarrow> UINTPTR kres" where
  "LocateLoop 0 s pNode Vaddr = Inl OutOfFuel"
| "LocateLoop (Suc f) s pNode Vaddr =
     (if pNode = 0 then Inr 0
      else if Vaddr \<ge> VaddrStart (nodes s pNode) \<and> Vaddr < VaddrEnd (nodes s pNode) then Inr pNode
      else LocateLoop f s (pNext (nodes s pNode)) Vaddr)"

definition VmLocateRegion :: "nat \<Rightarrow> rna_sys \<Rightarrow> UINTPTR \<Rightarrow> UINTPTR \<Rightarrow> UINTPTR kres" where
  "VmLocateRegion f s pSpace Vaddr =
     (if pSpace = 0 then Inr 0 else LocateLoop f s (pRootVMR (spaces s pSpace)) Vaddr)"

definition VmVrangeOverlapsRegion :: "rna_sys \<Rightarrow> UINTPTR \<Rightarrow> UINTPTR \<Rightarrow> UINTPTR \<Rightarrow> bool" where
  "VmVrangeOverlapsRegion s pNode St Nd \<longleftrightarrow>
     (if pNode = 0 then False
      else if St \<ge> Nd then False
      else if St < VaddrEnd (nodes s pNode) \<and> Nd > VaddrStart (nodes s pNode) then True
      else False)"

fun OverlapsLoop :: "nat \<Rightarrow> rna_sys \<Rightarrow> UINTPTR \<Rightarrow> UINTPTR \<Rightarrow> UINTPTR \<Rightarrow> bool kres" where
  "OverlapsLoop 0 s pNode St Nd = Inl OutOfFuel"
| "OverlapsLoop (Suc f) s pNode St Nd =
     (if pNode = 0 then Inr False
      else if Nd \<le> VaddrStart (nodes s pNode) then Inr False
      else if VmVrangeOverlapsRegion s pNode St Nd then Inr True
      else OverlapsLoop f s (pNext (nodes s pNode)) St Nd)"

definition VmVrangeOverlapsAnyRegions :: "nat \<Rightarrow> rna_sys \<Rightarrow> UINTPTR \<Rightarrow> UINTPTR \<Rightarrow> UINTPTR \<Rightarrow> bool kres" where
  "VmVrangeOverlapsAnyRegions f s pSpace St Nd =
     (if pSpace = 0 then Inr False
      else if St \<ge> Nd then Inr False
      else OverlapsLoop f s (pRootVMR (spaces s pSpace)) St Nd)"

text \<open>The result is \<open>None\<close> for FALSE and the pair of the two output pointers, before and after, for TRUE.\<close>

fun InsertLoop :: "nat \<Rightarrow> rna_sys \<Rightarrow> UINTPTR \<Rightarrow> UINTPTR \<Rightarrow> UINTPTR \<Rightarrow> (UINTPTR \<times> UINTPTR) option kres" where
  "InsertLoop 0 s pNode St Nd = Inl OutOfFuel"
| "InsertLoop (Suc f) s pNode St Nd =
     (if pNode = 0 then Inr None
      else if Nd \<le> VaddrStart (nodes s pNode) then Inr (Some (pNode, pPrev (nodes s pNode)))
      else if St \<ge> VaddrEnd (nodes s pNode)
      then (if pNext (nodes s pNode) \<noteq> 0 \<and> Nd \<ge> VaddrStart (nodes s (pNext (nodes s pNode)))
            then InsertLoop f s (pNext (nodes s pNode)) St Nd
            else Inr (Some (pNext (nodes s pNode), pNode)))
      else InsertLoop f s (pNext (nodes s pNode)) St Nd)"

definition VmFindInsertPoint :: "nat \<Rightarrow> rna_sys \<Rightarrow> UINTPTR \<Rightarrow> UINTPTR \<Rightarrow> UINTPTR \<Rightarrow> (UINTPTR \<times> UINTPTR) option kres" where
  "VmFindInsertPoint f s pSpace St Nd =
     (if pSpace = 0 then Inr None
      else if St \<ge> Nd then Inr None
      else InsertLoop f s (pRootVMR (spaces s pSpace)) St Nd)"

section \<open>Regions\<close>

definition VmTagRegion :: "rna_sys \<Rightarrow> UINTPTR \<Rightarrow> string option \<Rightarrow> rna_sys" where
  "VmTagRegion s pRegion t =
     (if pRegion \<noteq> 0 \<and> pAddressSpace (nodes s pRegion) \<noteq> 0 \<and> VaddrStart (nodes s pRegion) \<noteq> 0 \<and> VaddrEnd (nodes s pRegion) \<noteq> 0
      then upd_node pRegion (\<lambda>r. r\<lparr> Tag := t \<rparr>) s else s)"

definition VmEncodeEntryFor :: "rna_sys \<Rightarrow> UINTPTR \<Rightarrow> KrTypePTE \<Rightarrow> UINTPTR \<Rightarrow> PTE \<times> rna_sys" where
  "VmEncodeEntryFor s pNode ty PaddrBase =
     (let r = nodes s pNode; c = VmrFlags r AND VMR_FLAG_CACHING_PROTOCOL
      in if c = 3 then (KR_PTE2_ENCODE_FAILURE_DUE_TO_ALIGNMENT, s)
         else
           let psl = KrSelectPat (PatMsrState s)
                 (if c = VMR_CACHE_PROTOCOL_WRITE_BACK then KR_PAT_WRITE_BACK
                  else if c = VMR_CACHE_PROTOCOL_UNCACHEABLE then KR_PAT_UNCACHEABLE else KR_PAT_WRITE_COMBINING);
               f1 = (if VmrFlags r AND VMR_FLAG_WRITABLE \<noteq> 0 then PTE_PRESENT OR PTE_WRITABLE else PTE_PRESENT);
               f2 = (if VmrFlags r AND VMR_FLAG_ALLOW_CODE_EXEC = 0 then f1 OR PTE_NX else f1);
               f3 = (if PaddrRoot (spaces s (pAddressSpace r)) = PaddrRoot (spaces s (KrGetKernelAddressSpace s))
                     then f2 OR PTE_GLOBAL else f2 OR PTE_USER)
           in PteEncodeEntry s ty PaddrBase f3 psl)"

definition upd_space :: "UINTPTR \<Rightarrow> (KrAddressSpace \<Rightarrow> KrAddressSpace) \<Rightarrow> rna_sys \<Rightarrow> rna_sys" where
  "upd_space p f s = s\<lparr> spaces := (spaces s)(p := f (spaces s p)) \<rparr>"

text \<open>Linking a new node between the two nodes the search has found.\<close>

definition VmLinkRegion :: "rna_sys \<Rightarrow> UINTPTR \<Rightarrow> UINTPTR \<Rightarrow> UINTPTR \<Rightarrow> UINTPTR \<Rightarrow> UINTPTR \<Rightarrow> WORD \<Rightarrow> UINTPTR \<Rightarrow> rna_sys" where
  "VmLinkRegion s0 pNode pSpace pInsertBefore pInsertAfter St Flgs Nd =
     (let s1 = upd_node pNode (\<lambda>r. r\<lparr> pAddressSpace := pSpace, VaddrStart := St, VaddrEnd := Nd, VmrFlags := Flgs \<rparr>) s0;
          s2 = (if pInsertBefore \<noteq> 0 then upd_node pInsertBefore (\<lambda>r. r\<lparr> pPrev := pNode \<rparr>) s1 else s1);
          s3 = (if pInsertAfter \<noteq> 0 then upd_node pInsertAfter (\<lambda>r. r\<lparr> pNext := pNode \<rparr>) s2 else s2);
          s4 = upd_node pNode (\<lambda>r. r\<lparr> pPrev := pInsertAfter, pNext := pInsertBefore \<rparr>) s3;
          s5 = (if pInsertBefore = pRootVMR (spaces s4 pSpace) then upd_space pSpace (\<lambda>a. a\<lparr> pRootVMR := pNode \<rparr>) s4 else s4);
          s6 = (if pInsertAfter = pTailVMR (spaces s5 pSpace) then upd_space pSpace (\<lambda>a. a\<lparr> pTailVMR := pNode \<rparr>) s5 else s5)
      in upd_space pSpace (\<lambda>a. a\<lparr> NrVMRs := NrVMRs a + 1 \<rparr>) s6)"

definition KernelDivision :: UINTPTR where "KernelDivision = KR_MAKE_VIRTUAL KRNL_PML4_IDX 0 0 0 0"

definition VmAcquireRegion :: "nat \<Rightarrow> rna_sys \<Rightarrow> UINTPTR \<Rightarrow> UINTPTR \<Rightarrow> UINTPTR \<Rightarrow> WORD \<Rightarrow> (UINTPTR \<times> rna_sys) kres" where
  "VmAcquireRegion f s pSpace St Nd Flgs =
     (if pSpace = 0 then Inr (0, s)
      else if St \<ge> Nd \<or> St = Nd then Inr (0, s)
      else if Flgs AND VMR_FLAG_NO_DIVISION_CHECK = 0 \<and>
              (if PaddrRoot (spaces s pSpace) = PaddrRoot (spaces s (KrGetKernelAddressSpace s))
               then St < KernelDivision else St \<ge> KernelDivision)
      then Inr (0, s)
      else if \<not> (KrtlIsPowerOfTwoAligned St (RegionPageSize Flgs) \<and> KrtlIsPowerOfTwoAligned Nd (RegionPageSize Flgs))
      then Inr (0, s)
      else kbind (VmFindInsertPoint f s pSpace St Nd) (\<lambda>r.
        case r of
          None \<Rightarrow> Inr (0, s)
        | Some (pInsertBefore, pInsertAfter) \<Rightarrow>
            kbind (RnaAcquireNode f s) (\<lambda>(pNode, s1).
              if pNode = 0 then Inr (0, s1)
              else Inr (pNode, VmLinkRegion s1 pNode pSpace pInsertBefore pInsertAfter St Flgs Nd))))"

definition VmRelinquishRegion :: "rna_sys \<Rightarrow> UINTPTR \<Rightarrow> bool" where
  "VmRelinquishRegion s pNode = False"

section \<open>Mapping\<close>

text \<open>One pass of the mapping loop: \<open>False\<close> when a page structure could not be had.\<close>

definition MapStep :: "rna_sys \<Rightarrow> UINTPTR \<Rightarrow> KrVirtualAddressMode \<Rightarrow> PAGESTRUCT \<Rightarrow> UINTPTR \<Rightarrow> UINTPTR \<Rightarrow> (bool \<times> rna_sys) kres" where
  "MapStep s pNode VaddrMode pml4 PaddrStart MappingOffset =
     (let Vidx = KrUnmakeVirtual VaddrMode (VaddrStart (nodes s pNode) + MappingOffset)
      in kbind (PteGetOrAcquirePageStruct s pml4 PML4_ENTRY (ucast (VA_PML4 Vidx)) (PTE_PRESENT OR PTE_WRITABLE) (g_pslDefault s)) (\<lambda>(pdpt, s1).
         if pdpt = 0 then Inr (False, s1)
         else kbind (PteGetOrAcquirePageStruct s1 pdpt PDPT_ENTRY (ucast (VA_PDPT Vidx)) (PTE_PRESENT OR PTE_WRITABLE) (g_pslDefault s1)) (\<lambda>(pd, s2).
         if pd = 0 then Inr (False, s2)
         else if VaddrMode = VADDR_LARGE
         then (let (e, s3) = VmEncodeEntryFor s2 pNode PD2MB_ENTRY (PaddrStart + MappingOffset)
               in Inr (True, set_entry pd (ucast (VA_PD Vidx)) e s3))
         else kbind (PteGetOrAcquirePageStruct s2 pd PD_ENTRY (ucast (VA_PD Vidx)) (PTE_PRESENT OR PTE_WRITABLE) (g_pslDefault s2)) (\<lambda>(pt, s3).
         if pt = 0 then Inr (False, s3)
         else (let (e, s4) = VmEncodeEntryFor s3 pNode PT_ENTRY (PaddrStart + MappingOffset)
               in Inr (True, set_entry pt (ucast (VA_PT Vidx)) e s4))))))"

fun MapLoop :: "nat \<Rightarrow> rna_sys \<Rightarrow> UINTPTR \<Rightarrow> KrVirtualAddressMode \<Rightarrow> PAGESTRUCT \<Rightarrow> UINTPTR \<Rightarrow> SIZE \<Rightarrow> UINTPTR \<Rightarrow> (bool \<times> rna_sys) kres" where
  "MapLoop 0 s pNode VaddrMode pml4 PaddrStart MappingSize MappingOffset = Inl OutOfFuel"
| "MapLoop (Suc f) s pNode VaddrMode pml4 PaddrStart MappingSize MappingOffset =
     (if MappingOffset < MappingSize
      then kbind (MapStep s pNode VaddrMode pml4 PaddrStart MappingOffset) (\<lambda>(ok, s1).
             if ok then MapLoop f s1 pNode VaddrMode pml4 PaddrStart MappingSize
                          (MappingOffset + ucast (RegionPageSize (VmrFlags (nodes s1 pNode))))
             else Inr (False, s1))
      else Inr (True, s))"

text \<open>The choice of the mode tests the flags against \<^verbatim>\<open>KR_PAGE_SIZE\<close>, not against the page-size flag.\<close>

definition VmMapStatic :: "nat \<Rightarrow> rna_sys \<Rightarrow> UINTPTR \<Rightarrow> UINTPTR \<Rightarrow> (bool \<times> rna_sys) kres" where
  "VmMapStatic f s pNode PaddrStart =
     (let r = nodes s pNode
      in if \<not> (pNode \<noteq> 0 \<and> pAddressSpace r \<noteq> 0 \<and> KrtlIsPowerOfTwoAligned PaddrStart (RegionPageSize (VmrFlags r)))
         then Inr (False, s)
         else if VmrFlags r AND VMR_FLAG_STATIC = 0 then Inr (False, s)
         else MapLoop f s pNode (if VmrFlags r AND KR_PAGE_SIZE \<noteq> 0 then VADDR_LARGE else VADDR_SMALL)
                (KrPhysToVirt s (PaddrRoot (spaces s (pAddressSpace r)))) PaddrStart (VaddrEnd r - VaddrStart r) 0)"

section \<open>Initialisation\<close>

record cpu_regs =
  EFER :: QWORD
  CR0 :: QWORD
  CR4 :: QWORD
  CR3 :: QWORD
  PAT_MSR :: QWORD

definition KR_CPUID_FEAT_EDX_NX_BIT :: DWORD where "KR_CPUID_FEAT_EDX_NX_BIT = push_bit 20 1"
definition KR_CPUID_FEAT_EDX_PDPE1GB :: DWORD where "KR_CPUID_FEAT_EDX_PDPE1GB = push_bit 26 1"
definition KR_MSR_IA32_EFER_NXE :: QWORD where "KR_MSR_IA32_EFER_NXE = push_bit 11 1"
definition KR_CR0_WP :: QWORD where "KR_CR0_WP = push_bit 16 1"
definition KR_CR4_PSE :: QWORD where "KR_CR4_PSE = push_bit 4 1"
definition KR_CR4_PAE :: QWORD where "KR_CR4_PAE = push_bit 5 1"
definition KR_CR4_PGE :: QWORD where "KR_CR4_PGE = push_bit 7 1"

definition qwPatMsr :: QWORD where
  "qwPatMsr =
     push_bit 56 (ucast KR_PAT_UNCACHEABLE) OR push_bit 48 (ucast KR_PAT_UNCACHED) OR
     push_bit 40 (ucast KR_PAT_WRITE_PROTECTED) OR push_bit 32 (ucast KR_PAT_WRITE_COMBINING) OR
     push_bit 24 (ucast KR_PAT_UNCACHEABLE) OR push_bit 16 (ucast KR_PAT_UNCACHED) OR
     push_bit 8 (ucast KR_PAT_WRITE_THROUGH) OR push_bit 0 (ucast KR_PAT_WRITE_BACK)"

text \<open>\<open>EDX\<close> is what the processor answers to the extended feature leaf.\<close>

definition KrVmmInitCpu :: "DWORD \<Rightarrow> cpu_regs \<Rightarrow> rna_sys \<Rightarrow> cpu_regs \<times> rna_sys" where
  "KrVmmInitCpu EDX r s =
     (let s1 = (if EDX AND KR_CPUID_FEAT_EDX_PDPE1GB \<noteq> 0 then s\<lparr> vmm := (vmm s)\<lparr> bHugePageSupport := True \<rparr> \<rparr> else s);
          (r1, s2) = (if EDX AND KR_CPUID_FEAT_EDX_NX_BIT \<noteq> 0
                      then (r\<lparr> EFER := EFER r OR KR_MSR_IA32_EFER_NXE \<rparr>, s1\<lparr> vmm := (vmm s1)\<lparr> bNoExecuteSupport := True \<rparr> \<rparr>)
                      else (r, s1));
          r2 = r1\<lparr> CR0 := CR0 r1 OR KR_CR0_WP, CR4 := CR4 r1 OR (KR_CR4_PSE OR KR_CR4_PAE OR KR_CR4_PGE) \<rparr>;
          s3 = s2\<lparr> PatMsrState := \<lparr> PA_UC = 3, PA_WC = 4, PA_WT = 1, PA_WP = 5, PA_WB = 0, PA_UCM = 2 \<rparr> \<rparr>
      in (r2\<lparr> PAT_MSR := qwPatMsr \<rparr>, s3\<lparr> g_pslDefault := KrSelectPat (PatMsrState s3) KR_PAT_WRITE_BACK \<rparr>))"

text \<open>What the loader told the kernel about itself and the frame buffer.\<close>

record load_info =
  BinarySize :: SIZE
  ReserveSize :: SIZE
  AddrPhysicalBase :: UINTPTR
  AddrVirtualBase :: UINTPTR
  FbPhysicalAddress :: UINTPTR
  FbVirtualAddress :: UINTPTR
  FbSize :: UINT

definition KrReservedVirtToPhys :: "load_info \<Rightarrow> UINTPTR \<Rightarrow> UINTPTR" where
  "KrReservedVirtToPhys li Virt = AddrPhysicalBase li + (Virt - AddrVirtualBase li)"

definition KrReservedPhysToVirt :: "load_info \<Rightarrow> UINTPTR \<Rightarrow> UINTPTR" where
  "KrReservedPhysToVirt li Phys = AddrVirtualBase li + (Phys - AddrPhysicalBase li)"

text \<open>\<open>g_PML4\<close> is the address of the root structure in the kernel's image.\<close>

definition KrInitKrnlAddrSpace :: "nat \<Rightarrow> load_info \<Rightarrow> UINTPTR \<Rightarrow> rna_sys \<Rightarrow> (bool \<times> rna_sys) kres" where
  "KrInitKrnlAddrSpace f li g_PML4 s =
     (let K = KrGetKernelAddressSpace s;
          s0 = upd_space K (\<lambda>a. a\<lparr> PaddrRoot := KrReservedVirtToPhys li g_PML4 \<rparr>) s
      in kbind (RnaAcquireNode f s0) (\<lambda>(pBinaryNode, s1).
         kbind (RnaAcquireNode f s1) (\<lambda>(pFrameBufferNode, s2).
           if \<not> (pBinaryNode \<noteq> 0 \<and> pFrameBufferNode \<noteq> 0) then Inr (False, s2)
           else
             let s3 = upd_node pBinaryNode (\<lambda>r. r\<lparr> pAddressSpace := K, VaddrStart := AddrVirtualBase li,
                        VaddrEnd := AddrVirtualBase li + ReserveSize li,
                        VmrFlags := VMR_FLAG_STATIC OR VMR_FLAG_READABLE OR VMR_FLAG_ALLOW_CODE_EXEC OR VMR_FLAG_PAGE_SIZE \<rparr>) s2;
                 s4 = upd_node pFrameBufferNode (\<lambda>r. r\<lparr> pAddressSpace := K, VaddrStart := FbVirtualAddress li,
                        VaddrEnd := VaddrStart (nodes s3 pBinaryNode) + ucast (FbSize li),
                        VmrFlags := VMR_FLAG_STATIC OR VMR_FLAG_WRITABLE OR VMR_FLAG_PAGE_SIZE \<rparr>) s3;
                 (root, tail) = (if VaddrStart (nodes s4 pBinaryNode) < VaddrStart (nodes s4 pFrameBufferNode)
                                 then (pBinaryNode, pFrameBufferNode) else (pFrameBufferNode, pBinaryNode));
                 s5 = upd_space K (\<lambda>a. a\<lparr> pRootVMR := root, pTailVMR := tail \<rparr>) s4;
                 s6 = upd_node root (\<lambda>r. r\<lparr> pNext := tail \<rparr>) s5;
                 s7 = upd_node tail (\<lambda>r. r\<lparr> pPrev := root \<rparr>) s6;
                 s8 = upd_node pBinaryNode (\<lambda>r. r\<lparr> Tag := Some ''Kernel Binary Reserved Area'' \<rparr>) s7;
                 s9 = upd_node pFrameBufferNode (\<lambda>r. r\<lparr> Tag := Some ''Video Frame Buffer'' \<rparr>) s8
             in Inr (True, upd_space K (\<lambda>a. a\<lparr> NrVMRs := 2 \<rparr>) s9))))"

section \<open>Lists of regions\<close>

text \<open>
  \<open>region_seg h q p xs r\<close>: starting at \<open>p\<close> with predecessor \<open>q\<close>, the nodes \<open>xs\<close> are linked in both
  directions and the last one points to \<open>r\<close>.
\<close>

type_synonym region_store = "UINTPTR \<Rightarrow> KrVirtualMemoryRegion"

primrec region_seg :: "region_store \<Rightarrow> UINTPTR \<Rightarrow> UINTPTR \<Rightarrow> UINTPTR list \<Rightarrow> UINTPTR \<Rightarrow> bool" where
  "region_seg h q p [] r \<longleftrightarrow> p = r"
| "region_seg h q p (x # xs) r \<longleftrightarrow> p = x \<and> x \<noteq> 0 \<and> pPrev (h x) = q \<and> region_seg h x (pNext (h x)) xs r"

definition last_or :: "'a \<Rightarrow> 'a list \<Rightarrow> 'a" where
  "last_or q xs = (if xs = [] then q else last xs)"

definition hd_or :: "'a \<Rightarrow> 'a list \<Rightarrow> 'a" where
  "hd_or q xs = (case xs of [] \<Rightarrow> q | x # _ \<Rightarrow> x)"

lemma or_simps [simp]:
  "last_or q [] = q" "last_or q (x # xs) = last_or x xs" "hd_or q [] = q" "hd_or q (x # xs) = x"
  by (simp_all add: last_or_def hd_or_def)

lemma ends_apart:
  "distinct (as @ bs) \<Longrightarrow> 0 \<notin> set (as @ bs) \<Longrightarrow> last_or 0 as \<noteq> hd_or 0 bs \<or> last_or 0 as = 0"
  by (cases as rule: rev_cases; cases bs) (auto simp: last_or_def)

lemma region_seg_append:
  "region_seg h q p (xs @ ys) r \<longleftrightarrow> (\<exists>m. region_seg h q p xs m \<and> region_seg h (last_or q xs) m ys r)"
  by (induction xs arbitrary: q p) auto

lemma region_seg_cong:
  "(\<And>x. x \<in> set xs \<Longrightarrow> pPrev (h' x) = pPrev (h x) \<and> pNext (h' x) = pNext (h x)) \<Longrightarrow> region_seg h' q p xs r = region_seg h q p xs r"
  by (induction xs arbitrary: q p) auto

lemma region_seg_start: "region_seg h q p xs r \<Longrightarrow> p = hd_or r xs"
  by (cases xs) auto

lemma region_seg_nonnull: "region_seg h q p xs r \<Longrightarrow> x \<in> set xs \<Longrightarrow> x \<noteq> 0"
  by (induction xs arbitrary: q p) auto

lemma region_seg_set_next:
  assumes "region_seg h q p (xs @ [x]) r" "x \<notin> set xs"
  shows "region_seg (h(x := (h x)\<lparr> pNext := v \<rparr>)) q p (xs @ [x]) v"
proof -
  obtain m where m: "region_seg h q p xs m" "m = x" "x \<noteq> 0" "pPrev (h x) = last_or q xs"
    using assms(1) by (auto simp: region_seg_append)
  have "region_seg (h(x := (h x)\<lparr> pNext := v \<rparr>)) q p xs m"
    using m(1) assms(2) by (subst region_seg_cong [of _ _ h]) auto
  then show ?thesis using m by (auto simp: region_seg_append)
qed

lemma region_seg_set_prev:
  assumes "region_seg h q p (x # xs) r" "x \<notin> set xs"
  shows "region_seg (h(x := (h x)\<lparr> pPrev := v \<rparr>)) v p (x # xs) r"
proof -
  have "region_seg (h(x := (h x)\<lparr> pPrev := v \<rparr>)) x (pNext (h x)) xs r = region_seg h x (pNext (h x)) xs r"
    by (rule region_seg_cong) (use assms(2) in auto)
  then show ?thesis using assms by auto
qed

text \<open>Regions are not empty and lie one after the other.\<close>

definition before :: "region_store \<Rightarrow> UINTPTR \<Rightarrow> UINTPTR \<Rightarrow> bool" where
  "before h x y \<longleftrightarrow> VaddrEnd (h x) \<le> VaddrStart (h y)"

definition regions_sorted :: "region_store \<Rightarrow> UINTPTR list \<Rightarrow> bool" where
  "regions_sorted h xs \<longleftrightarrow> sorted_wrt (before h) xs \<and> (\<forall>x \<in> set xs. VaddrStart (h x) < VaddrEnd (h x))"

lemma regions_sorted_simps [simp]:
  "regions_sorted h []"
  "regions_sorted h (x # xs) \<longleftrightarrow> VaddrStart (h x) < VaddrEnd (h x) \<and> (\<forall>y \<in> set xs. VaddrEnd (h x) \<le> VaddrStart (h y)) \<and> regions_sorted h xs"
  by (auto simp: regions_sorted_def before_def)

lemma regions_sorted_distinct: "regions_sorted h xs \<Longrightarrow> distinct xs"
  by (induction xs) auto

lemma regions_sorted_append:
  "regions_sorted h (xs @ ys) \<longleftrightarrow> regions_sorted h xs \<and> regions_sorted h ys \<and> (\<forall>x \<in> set xs. \<forall>y \<in> set ys. VaddrEnd (h x) \<le> VaddrStart (h y))"
  by (auto simp: regions_sorted_def sorted_wrt_append before_def)

lemma regions_sorted_cong:
  "(\<And>x. x \<in> set xs \<Longrightarrow> VaddrStart (h' x) = VaddrStart (h x) \<and> VaddrEnd (h' x) = VaddrEnd (h x)) \<Longrightarrow> regions_sorted h' xs = regions_sorted h xs"
  by (induction xs) auto

definition overlaps :: "region_store \<Rightarrow> UINTPTR \<Rightarrow> UINTPTR \<Rightarrow> UINTPTR \<Rightarrow> bool" where
  "overlaps h St Nd x \<longleftrightarrow> St < VaddrEnd (h x) \<and> VaddrStart (h x) < Nd"

section \<open>Searches\<close>

lemma locate_loop:
  "region_seg (nodes s) q p xs 0 \<Longrightarrow> length xs < f \<Longrightarrow>
    LocateLoop f s p a = Inr (hd_or 0 (filter (\<lambda>x. VaddrStart (nodes s x) \<le> a \<and> a < VaddrEnd (nodes s x)) xs))"
proof (induction xs arbitrary: f q p)
  case Nil
  then show ?case by (cases f) auto
next
  case (Cons x xs)
  then show ?case by (cases f) (auto simp: Cons.IH)
qed

lemma overlaps_loop:
  assumes "region_seg (nodes s) q p xs 0" "regions_sorted (nodes s) xs" "St < Nd" "length xs < f"
  shows "OverlapsLoop f s p St Nd = Inr (\<exists>x \<in> set xs. overlaps (nodes s) St Nd x)"
  using assms(1,2,4)
proof (induction xs arbitrary: f q p)
  case Nil
  then show ?case by (cases f) auto
next
  case (Cons x xs)
  obtain k where f: "f = Suc k" using Cons.prems by (cases f) auto
  have IH: "OverlapsLoop k s (pNext (nodes s x)) St Nd = Inr (\<exists>x \<in> set xs. overlaps (nodes s) St Nd x)"
    using Cons.IH [of x "pNext (nodes s x)" k] Cons.prems f by simp
  show ?case
  proof (cases "Nd \<le> VaddrStart (nodes s x)")
    case True
    then have "\<not> overlaps (nodes s) St Nd y" if "y \<in> set (x # xs)" for y
      using that Cons.prems(2) by (fastforce simp: overlaps_def)
    then show ?thesis using True Cons.prems(1) f by auto
  next
    case False
    then show ?thesis using Cons.prems(1) f IH assms(3) by (auto simp: VmVrangeOverlapsRegion_def overlaps_def)
  qed
qed

lemma insert_loop_free:
  assumes "region_seg (nodes s) q p xs 0" "regions_sorted (nodes s) xs" "St < Nd" "length xs < f" "xs \<noteq> []"
    "\<forall>x \<in> set xs. \<not> overlaps (nodes s) St Nd x"
  shows "InsertLoop f s p St Nd = Inr (Some (hd_or 0 (filter (\<lambda>x. Nd \<le> VaddrStart (nodes s x)) xs),
    last_or q (filter (\<lambda>x. VaddrEnd (nodes s x) \<le> St) xs)))"
  using assms(1,2,4,5,6)
proof (induction xs arbitrary: f q p)
  case (Cons x xs)
  obtain k where f: "f = Suc k" using Cons.prems by (cases f) auto
  have se: "VaddrStart (nodes s x) < VaddrEnd (nodes s x)" using Cons.prems(2) by simp
  show ?case
  proof (cases "Nd \<le> VaddrStart (nodes s x)")
    case True
    have "\<not> VaddrEnd (nodes s y) \<le> St" if "y \<in> set (x # xs)" for y
    proof -
      have "VaddrStart (nodes s x) \<le> VaddrStart (nodes s y)" "VaddrStart (nodes s y) < VaddrEnd (nodes s y)"
        using that Cons.prems(2) se by (auto simp: regions_sorted_def before_def)
      then show ?thesis using True assms(3) by simp
    qed
    then have "filter (\<lambda>x. VaddrEnd (nodes s x) \<le> St) (x # xs) = []" by simp
    then show ?thesis using True Cons.prems(1) f by simp
  next
    case False
    then have e: "VaddrEnd (nodes s x) \<le> St" using Cons.prems(5) by (auto simp: overlaps_def)
    show ?thesis
    proof (cases xs)
      case Nil
      then show ?thesis using False e Cons.prems(1) f by simp
    next
      case (Cons y ys)
      show ?thesis
      proof (cases "Nd \<ge> VaddrStart (nodes s y)")
        case True
        have "InsertLoop k s (pNext (nodes s x)) St Nd = Inr (Some (hd_or 0 (filter (\<lambda>x. Nd \<le> VaddrStart (nodes s x)) xs),
            last_or x (filter (\<lambda>x. VaddrEnd (nodes s x) \<le> St) xs)))"
          using Cons.IH Cons.prems f Cons by simp
        then show ?thesis using True False e Cons.prems(1) f Cons by auto
      next
        case n: False
        then have "\<forall>z \<in> set xs. Nd \<le> VaddrStart (nodes s z) \<and> \<not> VaddrEnd (nodes s z) \<le> St"
          using Cons.prems(2) Cons assms(3) by (auto simp: regions_sorted_def not_le before_def) (meson le_less_trans less_le_trans less_imp_le)+
        then show ?thesis using n False e Cons.prems(1) f Cons by simp
      qed
    qed
  qed
qed simp

lemma insert_loop_None:
  assumes "region_seg (nodes s) q p xs 0" "length xs < f" "InsertLoop f s p St Nd = Inr None"
  shows "\<forall>x \<in> set xs. VaddrStart (nodes s x) < Nd"
  using assms
proof (induction xs arbitrary: f q p)
  case (Cons x xs)
  obtain k where f: "f = Suc k" using Cons.prems by (cases f) auto
  have lt: "VaddrStart (nodes s x) < Nd"
    using Cons.prems(1,3) f by (auto split: if_splits)
  have "InsertLoop k s (pNext (nodes s x)) St Nd = Inr None"
    using Cons.prems(1,3) f by (auto split: if_splits)
  then show ?case using Cons.IH [of x "pNext (nodes s x)" k] Cons.prems f lt by simp
qed simp

lemma insert_loop_ok:
  "region_seg (nodes s) q p xs 0 \<Longrightarrow> length xs < f \<Longrightarrow> \<exists>r. InsertLoop f s p St Nd = Inr r"
proof (induction xs arbitrary: f q p)
  case Nil
  then show ?case by (cases f) auto
next
  case (Cons x xs)
  obtain k where f: "f = Suc k" using Cons.prems by (cases f) auto
  then show ?case using Cons.prems Cons.IH [of x "pNext (nodes s x)" k] by auto
qed

lemma insert_loop_last:
  assumes "region_seg (nodes s) q p xs 0" "regions_sorted (nodes s) xs" "length xs < f" "xs \<noteq> []" "overlaps (nodes s) St Nd (last xs)"
  shows "InsertLoop f s p St Nd = Inr None"
  using assms
proof (induction xs arbitrary: f q p)
  case (Cons x xs)
  obtain k where f: "f = Suc k" using Cons.prems by (cases f) auto
  show ?case
  proof (cases xs)
    case Nil
    then show ?thesis using Cons.prems f by (cases k) (auto simp: overlaps_def)
  next
    case (Cons y ys)
    have IH: "InsertLoop k s (pNext (nodes s x)) St Nd = Inr None"
      using Cons.IH [of x "pNext (nodes s x)" k] Cons.prems f Cons by simp
    have "last xs \<in> set xs" using Cons by simp
    then have l: "VaddrEnd (nodes s x) \<le> VaddrStart (nodes s (last xs))" "VaddrStart (nodes s y) \<le> VaddrStart (nodes s (last xs))"
      using Cons.prems(2) Cons by (auto simp: regions_sorted_def before_def)
    moreover have "VaddrStart (nodes s (last xs)) < Nd" using Cons.prems(5) Cons by (simp add: overlaps_def)
    ultimately have "\<not> Nd \<le> VaddrStart (nodes s x)" "VaddrStart (nodes s y) \<le> Nd"
      using Cons.prems(2) by (auto simp: not_le)
    then show ?thesis using IH Cons.prems(1) f Cons by auto
  qed
qed simp


section \<open>Address spaces\<close>

text \<open>The list of an address space, and the region node allocator that holds its nodes.\<close>

definition space_ok :: "rna_sys \<Rightarrow> UINTPTR \<Rightarrow> UINTPTR list \<Rightarrow> bool" where
  "space_ok s sp xs \<longleftrightarrow> sp \<noteq> 0 \<and> region_seg (nodes s) 0 (pRootVMR (spaces s sp)) xs 0 \<and>
     pTailVMR (spaces s sp) = last_or 0 xs \<and> regions_sorted (nodes s) xs \<and> NrVMRs (spaces s sp) = of_nat (length xs)"

lemma space_rootD: "space_ok s sp xs \<Longrightarrow> pRootVMR (spaces s sp) = hd_or 0 xs"
  using region_seg_start by (auto simp: space_ok_def)

lemma filter_split:
  assumes "regions_sorted h xs" "St < Nd" "\<forall>x \<in> set xs. \<not> overlaps h St Nd x"
  shows "filter (\<lambda>x. VaddrEnd (h x) \<le> St) xs @ filter (\<lambda>x. Nd \<le> VaddrStart (h x)) xs = xs"
  using assms(1,3)
proof (induction xs)
  case (Cons x xs)
  have se: "VaddrStart (h x) < VaddrEnd (h x)" using Cons.prems(1) by simp
  show ?case
  proof (cases "VaddrEnd (h x) \<le> St")
    case True
    then have "\<not> Nd \<le> VaddrStart (h x)" using se assms(2) by simp
    then show ?thesis using True Cons by simp
  next
    case False
    then have n: "Nd \<le> VaddrStart (h x)" using Cons.prems(2) by (auto simp: overlaps_def)
    have "Nd \<le> VaddrStart (h y) \<and> \<not> VaddrEnd (h y) \<le> St" if "y \<in> set xs" for y
    proof -
      have "VaddrEnd (h x) \<le> VaddrStart (h y)" "VaddrStart (h y) < VaddrEnd (h y)"
        using that Cons.prems(1) by (auto simp: regions_sorted_def before_def)
      then show ?thesis using n se assms(2) by auto
    qed
    then have "filter (\<lambda>x. VaddrEnd (h x) \<le> St) xs = []" "filter (\<lambda>x. Nd \<le> VaddrStart (h x)) xs = xs"
      by auto
    then show ?thesis using False n by simp
  qed
qed simp

definition new_region :: "UINTPTR \<Rightarrow> UINTPTR \<Rightarrow> UINTPTR \<Rightarrow> WORD \<Rightarrow> UINTPTR \<Rightarrow> UINTPTR \<Rightarrow> KrVirtualMemoryRegion" where
  "new_region sp St Nd fl q p = \<lparr> pAddressSpace = sp, pPrev = q, pNext = p, Tag = None, VaddrStart = St, VaddrEnd = Nd, VmrFlags = fl \<rparr>"

lemma link_nodes:
  assumes "v \<notin> {b, a}" "v \<noteq> 0" "nodes s v = zero_region" "a \<noteq> b \<or> a = 0"
  shows "nodes (VmLinkRegion s v sp b a St fl Nd) x =
    (if x = v then new_region sp St Nd fl a b
     else if x = b \<and> b \<noteq> 0 then (nodes s b)\<lparr> pPrev := v \<rparr>
     else if x = a \<and> a \<noteq> 0 then (nodes s a)\<lparr> pNext := v \<rparr> else nodes s x)"
proof -
  have n: "nodes (VmLinkRegion s v sp b a St fl Nd) =
      (let h1 = (nodes s)(v := new_region sp St Nd fl 0 0);
           h2 = (if b \<noteq> 0 then h1(b := (h1 b)\<lparr> pPrev := v \<rparr>) else h1);
           h3 = (if a \<noteq> 0 then h2(a := (h2 a)\<lparr> pNext := v \<rparr>) else h2)
       in h3(v := (h3 v)\<lparr> pPrev := a, pNext := b \<rparr>))"
    using assms(3) by (simp add: VmLinkRegion_def Let_def upd_space_def new_region_def zero_region_def)
  show ?thesis
    using assms(1,2,4) unfolding n Let_def by (cases "b = 0"; cases "a = 0") (auto simp: new_region_def)
qed

lemma link_spaces:
  "spaces (VmLinkRegion s v sp b a St fl Nd) = (spaces s)(sp := \<lparr> PaddrRoot = PaddrRoot (spaces s sp),
     pRootVMR = (if b = pRootVMR (spaces s sp) then v else pRootVMR (spaces s sp)),
     pTailVMR = (if a = pTailVMR (spaces s sp) then v else pTailVMR (spaces s sp)), NrVMRs = NrVMRs (spaces s sp) + 1 \<rparr>)"
  by (cases "spaces s sp") (auto simp: VmLinkRegion_def Let_def upd_space_def upd_node_def)

lemma link_other [simp]:
  "metas (VmLinkRegion s v sp b a St fl Nd) = metas s" "pmm (VmLinkRegion s v sp b a St fl Nd) = pmm s"
  "vmm (VmLinkRegion s v sp b a St fl Nd) = vmm s" "g_RnaRootPageID (VmLinkRegion s v sp b a St fl Nd) = g_RnaRootPageID s"
  by (auto simp: VmLinkRegion_def Let_def upd_space_def upd_node_def)

lemma link_space_ok:
  assumes "space_ok s sp (as @ bs)" "as @ bs \<noteq> []" "v \<notin> set (as @ bs)" "v \<noteq> 0" "nodes s v = zero_region" "St < Nd"
    "\<forall>x \<in> set as. VaddrEnd (nodes s x) \<le> St" "\<forall>x \<in> set bs. Nd \<le> VaddrStart (nodes s x)"
  shows "space_ok (VmLinkRegion s v sp (hd_or 0 bs) (last_or 0 as) St fl Nd) sp (as @ v # bs)"
proof -
  let ?b = "hd_or 0 bs" and ?a = "last_or 0 as"
  define s' where "s' = VmLinkRegion s v sp ?b ?a St fl Nd"
  have srt: "regions_sorted (nodes s) (as @ bs)" and seg: "region_seg (nodes s) 0 (pRootVMR (spaces s sp)) (as @ bs) 0"
    using assms(1) by (auto simp: space_ok_def)
  note nz = region_seg_nonnull [OF seg]
  have dst: "distinct (as @ bs)" using srt by (rule regions_sorted_distinct)
  have ina: "as \<noteq> [] \<Longrightarrow> ?a \<in> set as" and inb: "bs \<noteq> [] \<Longrightarrow> ?b \<in> set bs"
    by (auto simp: last_or_def hd_or_def split: list.splits)
  have v: "v \<notin> {?b, ?a}" using assms(3,4) ina inb by (cases "as = []"; cases "bs = []") auto
  have ab: "?a \<noteq> ?b \<or> ?a = 0" using ina inb dst nz by (cases "as = []"; cases "bs = []") auto
  note ln = link_nodes [OF v assms(4,5) ab, of sp St fl Nd, folded s'_def]
  note ls = link_spaces [of s v sp ?b ?a St fl Nd, folded s'_def]
  have keep: "VaddrStart (nodes s' x) = VaddrStart (nodes s x) \<and> VaddrEnd (nodes s' x) = VaddrEnd (nodes s x)" if "x \<noteq> v" for x
    using that by (simp add: ln)
  have st: "regions_sorted (nodes s') (as @ v # bs)"
  proof -
    have nv: "x \<noteq> v" if "x \<in> set (as @ bs)" for x using that assms(3) by blast
    have "regions_sorted (nodes s') as = regions_sorted (nodes s) as"
      by (rule regions_sorted_cong) (use keep nv in simp)
    moreover have "regions_sorted (nodes s') bs = regions_sorted (nodes s) bs"
      by (rule regions_sorted_cong) (use keep nv in simp)
    ultimately have "regions_sorted (nodes s') as" "regions_sorted (nodes s') bs"
      using srt by (simp_all add: regions_sorted_append)
    moreover have "VaddrStart (nodes s' v) = St" "VaddrEnd (nodes s' v) = Nd" by (simp_all add: ln new_region_def)
    moreover have "\<forall>x \<in> set as. \<forall>y \<in> set bs. VaddrEnd (nodes s' x) \<le> VaddrStart (nodes s' y)"
    proof (intro ballI)
      fix x y assume "x \<in> set as" "y \<in> set bs"
      then show "VaddrEnd (nodes s' x) \<le> VaddrStart (nodes s' y)"
        using srt keep [of x] keep [of y] nv [of x] nv [of y] by (simp add: regions_sorted_append)
    qed
    ultimately show ?thesis
      using assms(6-8) keep [OF nv] by (simp add: regions_sorted_append)
  qed
  obtain m where m: "region_seg (nodes s) 0 (pRootVMR (spaces s sp)) as m" "region_seg (nodes s) ?a m bs 0"
    using seg by (auto simp: region_seg_append)
  have root: "pRootVMR (spaces s' sp) = (if as = [] then v else pRootVMR (spaces s sp))"
  proof (cases "as = []")
    case True
    then show ?thesis using m region_seg_start [OF m(2)] by (simp add: ls)
  next
    case False
    then have "pRootVMR (spaces s sp) \<in> set as" using region_seg_start [OF m(1)] by (cases as) auto
    then have "?b \<noteq> pRootVMR (spaces s sp)" using inb dst nz by (cases "bs = []") auto
    then show ?thesis using False by (simp add: ls)
  qed
  have tail: "pTailVMR (spaces s' sp) = last_or 0 (as @ v # bs)"
  proof -
    have t: "pTailVMR (spaces s sp) = last_or 0 (as @ bs)" using assms(1) by (simp add: space_ok_def)
    have "?a = pTailVMR (spaces s sp) \<longleftrightarrow> bs = []"
    proof (cases "bs = []")
      case False
      then have "pTailVMR (spaces s sp) \<in> set bs" using t by (simp add: last_or_def)
      then show ?thesis using ina dst nz False by (cases "as = []") auto
    qed (simp add: t)
    then show ?thesis using t by (auto simp: ls last_or_def)
  qed
  have nb: "x \<noteq> ?b" if "x \<in> set as" for x
    using that dst nz [of x] by (cases bs) auto
  have na: "y \<noteq> ?a" if "y \<in> set bs" for y
    using that dst nz [of y] ina by (cases "as = []") auto
  have sa: "region_seg (nodes s') 0 (pRootVMR (spaces s' sp)) as v"
  proof (cases as rule: rev_cases)
    case Nil then show ?thesis using root by simp
  next
    case (snoc as' x)
    have "region_seg ((nodes s)(x := (nodes s x)\<lparr> pNext := v \<rparr>)) 0 (pRootVMR (spaces s sp)) as v"
      using region_seg_set_next [of "nodes s" 0 _ as' x m v] m(1) dst snoc by simp
    moreover have "region_seg (nodes s') 0 (pRootVMR (spaces s sp)) as v =
        region_seg ((nodes s)(x := (nodes s x)\<lparr> pNext := v \<rparr>)) 0 (pRootVMR (spaces s sp)) as v"
      by (rule region_seg_cong) (use nb assms(3) nz snoc in \<open>auto simp: ln last_or_def\<close>)
    ultimately show ?thesis using root snoc by simp
  qed
  have sb: "region_seg (nodes s') v ?b bs 0"
  proof (cases bs)
    case Nil then show ?thesis by simp
  next
    case (Cons y ys)
    have mb: "m = ?b" using region_seg_start [OF m(2)] .
    have "region_seg ((nodes s)(y := (nodes s y)\<lparr> pPrev := v \<rparr>)) v ?b bs 0"
      using region_seg_set_prev [of "nodes s" ?a m y ys 0 v] m(2) dst Cons mb by simp
    moreover have "region_seg (nodes s') v ?b bs 0 = region_seg ((nodes s)(y := (nodes s y)\<lparr> pPrev := v \<rparr>)) v ?b bs 0"
      by (rule region_seg_cong) (use na assms(3) nz Cons in \<open>auto simp: ln\<close>)
    ultimately show ?thesis by simp
  qed
  have "region_seg (nodes s') 0 (pRootVMR (spaces s' sp)) (as @ v # bs) 0"
    using sa sb assms(4) by (auto simp: region_seg_append ln new_region_def)
  moreover have "NrVMRs (spaces s' sp) = of_nat (length (as @ v # bs))"
    using assms(1) by (simp add: ls space_ok_def)
  ultimately show ?thesis using st tail assms(1) unfolding s'_def [symmetric] by (simp add: space_ok_def)
qed


section \<open>Properties of the list operations\<close>

text \<open>
  On a well-formed address space the two queries are decided by the regions: VmLocateRegion returns the
  first region that contains the address, or null, and VmVrangeOverlapsAnyRegions says whether some region
  overlaps a nonempty range, although it stops at the first region that lies behind the range.
\<close>
theorem region_queries:
  assumes "space_ok s sp xs" "length xs < f" "St < Nd"
  shows "VmLocateRegion f s sp a =
      Inr (hd_or 0 (filter (\<lambda>x. VaddrStart (nodes s x) \<le> a \<and> a < VaddrEnd (nodes s x)) xs)) \<and>
    VmVrangeOverlapsAnyRegions f s sp St Nd = Inr (\<exists>x \<in> set xs. overlaps (nodes s) St Nd x)"
proof -
  have "sp \<noteq> 0" "region_seg (nodes s) 0 (pRootVMR (spaces s sp)) xs 0" "regions_sorted (nodes s) xs"
    using assms(1) by (auto simp: space_ok_def)
  then show ?thesis
    using locate_loop [of s 0 "pRootVMR (spaces s sp)" xs f a] overlaps_loop [of s 0 "pRootVMR (spaces s sp)" xs St Nd f] assms(2,3)
    assms(3) [folded not_le] by (simp add: VmLocateRegion_def VmVrangeOverlapsAnyRegions_def)
qed

text \<open>
  C39: On a nonempty well-formed address space, VmFindInsertPoint finds the place of a range that overlaps no
  region: the first region behind it and the last one in front of it. A range is refused exactly when it
  overlaps the last region: one that overlaps any other region is accepted. On an empty address space every
  range is refused.
\<close>
theorem find_insert_point:
  assumes "space_ok s sp xs" "length xs < f" "St < Nd"
  shows "(xs \<noteq> [] \<and> \<not> (\<exists>x \<in> set xs. overlaps (nodes s) St Nd x) \<longrightarrow>
      VmFindInsertPoint f s sp St Nd = Inr (Some (hd_or 0 (filter (\<lambda>x. Nd \<le> VaddrStart (nodes s x)) xs),
        last_or 0 (filter (\<lambda>x. VaddrEnd (nodes s x) \<le> St) xs)))) \<and>
    (VmFindInsertPoint f s sp St Nd = Inr None \<longleftrightarrow> xs = [] \<or> overlaps (nodes s) St Nd (last xs)) \<and>
    (\<exists>r. VmFindInsertPoint f s sp St Nd = Inr r)"
proof -
  have sp: "sp \<noteq> 0" and seg: "region_seg (nodes s) 0 (pRootVMR (spaces s sp)) xs 0" and srt: "regions_sorted (nodes s) xs"
    using assms(1) by (auto simp: space_ok_def)
  have e: "VmFindInsertPoint f s sp St Nd = InsertLoop f s (pRootVMR (spaces s sp)) St Nd"
    using sp assms(3) [folded not_le] by (simp add: VmFindInsertPoint_def)
  have "VmFindInsertPoint f s sp St Nd = Inr None \<longleftrightarrow> xs = [] \<or> overlaps (nodes s) St Nd (last xs)"
  proof (cases "xs = []")
    case True
    then show ?thesis using seg assms(2) unfolding e by (cases f) auto
  next
    case False
    have "overlaps (nodes s) St Nd (last xs)" if r: "InsertLoop f s (pRootVMR (spaces s sp)) St Nd = Inr None"
    proof (rule ccontr)
      assume n: "\<not> overlaps (nodes s) St Nd (last xs)"
      have lt: "\<forall>x \<in> set xs. VaddrStart (nodes s x) < Nd"
        by (rule insert_loop_None [OF seg assms(2) r])
      have "\<not> overlaps (nodes s) St Nd x" if x: "x \<in> set xs" for x
      proof (cases "x = last xs")
        case True then show ?thesis using n by simp
      next
        case False
        have "xs = butlast xs @ [last xs]" using \<open>xs \<noteq> []\<close> by simp
        then have "VaddrEnd (nodes s x) \<le> VaddrStart (nodes s (last xs))"
          using srt x False regions_sorted_append [of "nodes s" "butlast xs" "[last xs]"]
          by (metis UnE list.set_intros(1) list.set_cases set_append set_ConsD empty_iff empty_set)
        moreover have "VaddrEnd (nodes s (last xs)) \<le> St"
          using n lt \<open>xs \<noteq> []\<close> by (auto simp: overlaps_def)
        moreover have "VaddrStart (nodes s (last xs)) < VaddrEnd (nodes s (last xs))"
          using srt \<open>xs \<noteq> []\<close> by (simp add: regions_sorted_def)
        ultimately show ?thesis by (auto simp: overlaps_def)
      qed
      then show False
        using insert_loop_free [OF seg srt assms(3,2) False] r by simp
    qed
    then show ?thesis using insert_loop_last [OF seg srt assms(2) False] False unfolding e by blast
  qed
  then show ?thesis
    using insert_loop_free [OF seg srt assms(3,2)] insert_loop_ok [OF seg assms(2), of St Nd] unfolding e by blast
qed

text \<open>What a request has to satisfy apart from its place: the division of the address space and alignment.\<close>

definition request_ok :: "rna_sys \<Rightarrow> UINTPTR \<Rightarrow> UINTPTR \<Rightarrow> UINTPTR \<Rightarrow> WORD \<Rightarrow> bool" where
  "request_ok s sp St Nd Flgs \<longleftrightarrow> St < Nd \<and>
     (Flgs AND VMR_FLAG_NO_DIVISION_CHECK \<noteq> 0 \<or>
      (PaddrRoot (spaces s sp) = PaddrRoot (spaces s (KrGetKernelAddressSpace s)) \<longleftrightarrow> KernelDivision \<le> St)) \<and>
     KrtlIsPowerOfTwoAligned St (RegionPageSize Flgs) \<and> KrtlIsPowerOfTwoAligned Nd (RegionPageSize Flgs)"

text \<open>The nodes of a list are slots 1 to 31 of the root page, marked in its bitmap.\<close>

definition rna_holds :: "rna_sys \<Rightarrow> UINTPTR list \<Rightarrow> bool" where
  "rna_holds s xs \<longleftrightarrow>
     (let p = RnaGetMetaSlotVptr s (g_RnaRootPageID s)
      in RnaThis (metas s p) = g_RnaRootPageID s \<and> bit (Bitmap (metas s p)) 0 \<and> unat p + 4096 < 2 ^ 64 \<and>
         (\<forall>x \<in> set xs. \<exists>j < 32. bit (Bitmap (metas s p)) j \<and> x = p + of_nat (64 * j)))"

lemma slot_address: "k < 32 \<Longrightarrow> RnaGetSlotVptr s P (of_nat k) = RnaGetMetaSlotVptr s P + of_nat (64 * k)"
  by (simp add: slot_in_page RNA_SLOT_SIZE_def ucast_of_nat_up mult.commute)

lemma slot_unat:
  assumes "unat p + 4096 < 2 ^ 64" "k < 32"
  shows "unat (p + of_nat (64 * k) :: UINTPTR) = unat p + 64 * k"
proof -
  have "unat (of_nat (64 * k) :: UINTPTR) = 64 * k" using assms(2) by (intro unat_of_nat_small) simp
  then show ?thesis using assms by (subst unat_plus_le) auto
qed

text \<open>
  C10: A request that respects the division, is aligned to its page size and overlaps no region of a nonempty
  well-formed address space is granted while the root page of the allocator has a free slot below 32: a fresh
  node with the requested bounds and flags is inserted at its place, the list stays doubly linked, sorted and
  counted, its root and tail pointers are right, the other regions keep their bounds, and the nodes are still
  slots that the allocator has marked.
\<close>
theorem acquire_region_inserts:
  assumes "space_ok s sp xs" "xs \<noteq> []" "rna_holds s xs" "request_ok s sp St Nd Flgs" "length xs < f"
    "\<forall>x \<in> set xs. \<not> overlaps (nodes s) St Nd x" "k < 32"
    "\<not> bit (Bitmap (metas s (RnaGetMetaSlotVptr s (g_RnaRootPageID s)))) k"
    "\<And>j. j < k \<Longrightarrow> bit (Bitmap (metas s (RnaGetMetaSlotVptr s (g_RnaRootPageID s)))) j"
  shows "\<exists>v s'. VmAcquireRegion f s sp St Nd Flgs = Inr (v, s') \<and> v \<notin> set xs \<and> v \<noteq> 0 \<and>
    VaddrStart (nodes s' v) = St \<and> VaddrEnd (nodes s' v) = Nd \<and> VmrFlags (nodes s' v) = Flgs \<and> pAddressSpace (nodes s' v) = sp \<and>
    (\<exists>as bs. xs = as @ bs \<and> space_ok s' sp (as @ v # bs) \<and> rna_holds s' (as @ v # bs)) \<and>
    (\<forall>x \<in> set xs. VaddrStart (nodes s' x) = VaddrStart (nodes s x) \<and> VaddrEnd (nodes s' x) = VaddrEnd (nodes s x) \<and>
      VmrFlags (nodes s' x) = VmrFlags (nodes s x)) \<and> pmm s' = pmm s"
proof -
  define p where "p = RnaGetMetaSlotVptr s (g_RnaRootPageID s)"
  define as where "as = filter (\<lambda>x. VaddrEnd (nodes s x) \<le> St) xs"
  define bs where "bs = filter (\<lambda>x. Nd \<le> VaddrStart (nodes s x)) xs"
  have lt: "St < Nd" and sp: "sp \<noteq> 0" and srt: "regions_sorted (nodes s) xs"
    using assms(1,4) by (auto simp: request_ok_def space_ok_def)
  have xs: "xs = as @ bs" using filter_split [OF srt lt assms(6)] by (simp add: as_def bs_def)
  have ins: "VmFindInsertPoint f s sp St Nd = Inr (Some (hd_or 0 bs, last_or 0 as))"
    using find_insert_point [OF assms(1,5) lt, THEN conjunct1] assms(2,6) by (simp add: as_def bs_def)
  have holds: "RnaThis (metas s p) = g_RnaRootPageID s" "bit (Bitmap (metas s p)) 0" "unat p + 4096 < 2 ^ 64"
    "\<forall>x \<in> set xs. \<exists>j < 32. bit (Bitmap (metas s p)) j \<and> x = p + of_nat (64 * j)"
    using assms(3) by (simp_all add: rna_holds_def Let_def p_def [symmetric])
  obtain w where w: "int_shift1 k = Inr w" using assms(7) by (simp add: int_shift1_def)
  define v where "v = RnaGetSlotVptr s (g_RnaRootPageID s) (of_nat k)"
  define s1 where "s1 = upd_node v (\<lambda>_. zero_region) (upd_meta p (\<lambda>m. m\<lparr> Bitmap := Bitmap m OR w, NrSlots := NrSlots m + 1 \<rparr>) s)"
  obtain f' where f: "f = Suc f'" using assms(5) by (cases f) auto
  have acq: "RnaAcquireNode f s = Inr (v, s1)"
    unfolding f v_def s1_def by (rule rna_take_root [OF refl holds(1) p_def assms(7) assms(8,9) [folded p_def] w])
  have ve: "v = p + of_nat (64 * k)" using slot_address [OF assms(7)] by (simp add: v_def p_def)
  have k0: "0 < k" using holds(2) assms(8) by (cases k) (auto simp: p_def)
  have v0: "v \<noteq> 0" using slot_unat [OF holds(3) assms(7)] k0 unfolding ve by (auto simp: word_eq_unat)
  have vx: "v \<notin> set xs"
  proof
    assume "v \<in> set xs"
    then obtain j where j: "j < 32" "bit (Bitmap (metas s p)) j" "p + of_nat (64 * k) = p + of_nat (64 * j)"
      using holds(4) ve by blast
    then have "k = j" using slot_unat [OF holds(3) assms(7)] slot_unat [OF holds(3) j(1)] by (simp only: j(3))
    then show False using j(2) assms(8) by (simp add: p_def)
  qed
  have n1: "nodes s1 = (nodes s)(v := zero_region)" "spaces s1 = spaces s" "pmm s1 = pmm s" "vmm s1 = vmm s"
    "g_RnaRootPageID s1 = g_RnaRootPageID s" "metas s1 = (metas s)(p := (metas s p)\<lparr> Bitmap := Bitmap (metas s p) OR w, NrSlots := NrSlots (metas s p) + 1 \<rparr>)"
    by (simp_all add: s1_def upd_node_def upd_meta_def)
  have keep: "nodes s1 x = nodes s x" if "x \<in> set xs" for x using that vx n1(1) by auto
  have sok: "space_ok s1 sp (as @ bs)"
    using assms(1) keep regions_sorted_cong [of xs "nodes s1" "nodes s"] region_seg_cong [of xs "nodes s1" "nodes s"]
    unfolding space_ok_def n1(2) xs [symmetric] by simp
  define s' where "s' = VmLinkRegion s1 v sp (hd_or 0 bs) (last_or 0 as) St Flgs Nd"
  have ends: "\<forall>x \<in> set as. VaddrEnd (nodes s1 x) \<le> St" "\<forall>x \<in> set bs. Nd \<le> VaddrStart (nodes s1 x)"
    using keep by (simp_all add: as_def bs_def)
  have z: "nodes s1 v = zero_region" using n1(1) by simp
  have ok': "space_ok s' sp (as @ v # bs)"
    unfolding s'_def by (rule link_space_ok [OF sok _ _ v0 z lt ends]) (use assms(2) vx xs in simp_all)
  have nv: "v \<notin> {hd_or 0 bs, last_or 0 as}"
    using vx v0 unfolding xs by (cases "as = []"; cases bs) (auto simp: last_or_def)
  have ab: "last_or 0 as \<noteq> hd_or 0 bs \<or> last_or 0 as = 0"
  proof (rule ends_apart)
    show "distinct (as @ bs)" using regions_sorted_distinct [OF srt] by (simp only: xs)
    have "region_seg (nodes s) 0 (pRootVMR (spaces s sp)) (as @ bs) 0" using assms(1) by (simp add: space_ok_def xs)
    then show "0 \<notin> set (as @ bs)" using region_seg_nonnull by blast
  qed
  note ln = link_nodes [OF nv v0 z ab, of sp St Flgs Nd, folded s'_def]
  have vp: "RnaGetMetaSlotVptr s' = RnaGetMetaSlotVptr s" "g_RnaRootPageID s' = g_RnaRootPageID s" "pmm s' = pmm s"
    using slot_vptr_cong [of s' s] n1 by (simp_all add: s'_def)
  have m': "metas s' p = (metas s p)\<lparr> Bitmap := Bitmap (metas s p) OR w, NrSlots := NrSlots (metas s p) + 1 \<rparr>"
    by (simp add: s'_def n1(6))
  have old: "bit (Bitmap (metas s' p)) j" if "bit (Bitmap (metas s p)) j" for j
    using that by (simp add: m' bit_or_iff)
  have "bit (Bitmap (metas s' p)) k"
    using int_shift1_bit [OF assms(7) w, of k] by (simp add: m' bit_or_iff)
  then have hv: "\<exists>j < 32. bit (Bitmap (metas s' p)) j \<and> v = p + of_nat (64 * j)"
    using ve assms(7) by blast
  have hx: "\<forall>x \<in> set xs. \<exists>j < 32. bit (Bitmap (metas s' p)) j \<and> x = p + of_nat (64 * j)"
    using holds(4) old by blast
  have hold': "rna_holds s' (as @ v # bs)"
    unfolding rna_holds_def vp Let_def p_def [symmetric]
    using old [OF holds(2)] holds(1,3) hv hx unfolding xs by (simp add: m')
  have res: "VmAcquireRegion f s sp St Nd Flgs = Inr (v, s')"
    using sp lt [folded not_le] assms(4) ins acq v0 unfolding VmAcquireRegion_def request_ok_def s'_def
    by (auto simp: not_le)
  have oldr: "\<forall>x \<in> set xs. VaddrStart (nodes s' x) = VaddrStart (nodes s x) \<and> VaddrEnd (nodes s' x) = VaddrEnd (nodes s x) \<and>
      VmrFlags (nodes s' x) = VmrFlags (nodes s x)"
  proof
    fix x assume "x \<in> set xs"
    then have "x \<noteq> v" "nodes s1 x = nodes s x" using vx keep by auto
    then show "VaddrStart (nodes s' x) = VaddrStart (nodes s x) \<and> VaddrEnd (nodes s' x) = VaddrEnd (nodes s x) \<and>
        VmrFlags (nodes s' x) = VmrFlags (nodes s x)" by (auto simp: ln)
  qed
  have new: "nodes s' v = new_region sp St Nd Flgs (last_or 0 as) (hd_or 0 bs)" by (simp add: ln)
  have split: "\<exists>as bs. xs = as @ bs \<and> space_ok s' sp (as @ v # bs) \<and> rna_holds s' (as @ v # bs)"
    using xs ok' hold' by blast
  show ?thesis
    by (rule exI [of _ v], rule exI [of _ s'])
      (simp add: res vx v0 oldr vp(3) new new_region_def, rule split)
qed


section \<open>A concrete address space\<close>

text \<open>One region of one page at the start of the kernel's half, in slot 1 of the root page.\<close>

definition wit_node :: UINTPTR where "wit_node = 0xFFFF800000005040"

definition wit_vmr :: rna_sys where
  "wit_vmr = (wit_rna 3)\<lparr> nodes := (\<lambda>_. zero_region)(wit_node := new_region 16 0xFFFFFF8000000000 0xFFFFFF8000001000 0 0 0),
     spaces := (\<lambda>_. \<lparr> PaddrRoot = 0, pRootVMR = 0, pTailVMR = 0, NrVMRs = 0 \<rparr>)
       (16 := \<lparr> PaddrRoot = 0, pRootVMR = wit_node, pTailVMR = wit_node, NrVMRs = 1 \<rparr>) \<rparr>"

lemma wit_space_ok: "space_ok wit_vmr 16 [wit_node]"
  by (simp add: space_ok_def wit_vmr_def new_region_def wit_node_def)

lemma wit_vmr_rna [simp]:
  "metas wit_vmr = metas (wit_rna 3)" "g_RnaRootPageID wit_vmr = 5" "RnaGetMetaSlotVptr wit_vmr 5 = 0xFFFF800000005000"
  using slot_vptr_cong [of wit_vmr "wit_rna 3"] wit_rna_root [of 3] by (simp_all add: wit_vmr_def)

lemma bit_3: "bit (3 :: QWORD) j \<longleftrightarrow> j = 0 \<or> j = 1"
proof -
  have "(3 :: QWORD) = mask 2" by (simp add: mask_eq_exp_minus_1)
  then show ?thesis by (simp only: bit_mask_iff) auto
qed

lemma wit_holds: "rna_holds wit_vmr [wit_node]"
  by (simp add: rna_holds_def bit_3 wit_node_def) (rule exI [of _ 1], simp)

lemma region_queries_witness:
  "VmLocateRegion 2 wit_vmr 16 0xFFFFFF8000000800 = Inr wit_node \<and> VmVrangeOverlapsAnyRegions 2 wit_vmr 16 5 6 = Inr False"
  using region_queries [OF wit_space_ok, of 2 5 6 "0xFFFFFF8000000800"]
  by (simp add: wit_vmr_def new_region_def overlaps_def)

lemma find_insert_point_witness:
  "VmFindInsertPoint 2 wit_vmr 16 0xFFFFFF8000002000 0xFFFFFF8000003000 = Inr (Some (0, wit_node))"
  using find_insert_point [OF wit_space_ok, of 2 "0xFFFFFF8000002000" "0xFFFFFF8000003000", THEN conjunct1]
  by (simp add: wit_vmr_def new_region_def overlaps_def)

lemma wit_request: "request_ok wit_vmr 16 0xFFFFFF8000002000 0xFFFFFF8000003000 (VMR_FLAG_STATIC OR VMR_FLAG_WRITABLE)"
  by (simp add: request_ok_def wit_vmr_def KrGetKernelAddressSpace_def wit_vm_def KernelDivision_def KR_MAKE_VIRTUAL_def
      KRNL_PML4_IDX_def VMR_FLAG_STATIC_def VMR_FLAG_WRITABLE_def VMR_FLAG_NO_DIVISION_CHECK_def VMR_FLAG_PAGE_SIZE_def
      RegionPageSize_def KrtlIsPowerOfTwoAligned_def)

lemma acquire_region_inserts_witness:
  "\<exists>v s'. VmAcquireRegion 2 wit_vmr 16 0xFFFFFF8000002000 0xFFFFFF8000003000 (VMR_FLAG_STATIC OR VMR_FLAG_WRITABLE) = Inr (v, s') \<and>
    v \<noteq> 0 \<and> VaddrStart (nodes s' v) = 0xFFFFFF8000002000"
proof -
  have "\<forall>x \<in> set [wit_node]. \<not> overlaps (nodes wit_vmr) 0xFFFFFF8000002000 0xFFFFFF8000003000 x"
    by (simp add: overlaps_def wit_vmr_def new_region_def)
  moreover have "bit (3 :: QWORD) j" if "j < 2" for j using that unfolding bit_3 by linarith
  ultimately obtain v s' where "VmAcquireRegion 2 wit_vmr 16 0xFFFFFF8000002000 0xFFFFFF8000003000 (VMR_FLAG_STATIC OR VMR_FLAG_WRITABLE) = Inr (v, s')"
    "v \<noteq> 0" "VaddrStart (nodes s' v) = 0xFFFFFF8000002000"
    using acquire_region_inserts [OF wit_space_ok _ wit_holds wit_request, of 2 2] by (auto simp: bit_3)
  then show ?thesis by blast
qed

section \<open>Processor setup\<close>

text \<open>The PAT entry that the caching bits of a page-table entry select.\<close>

definition pat_index :: "KrPatSelect \<Rightarrow> nat" where
  "pat_index psl = (if PWT psl then 1 else 0) + (if PCD psl then 2 else 0) + (if PAT psl then 4 else 0)"

definition pat_entry :: "QWORD \<Rightarrow> nat \<Rightarrow> BYTE" where
  "pat_entry msr i = ucast (drop_bit (8 * i) msr)"

definition memory_types :: "BYTE list" where
  "memory_types = [KR_PAT_UNCACHEABLE, KR_PAT_WRITE_COMBINING, KR_PAT_WRITE_THROUGH, KR_PAT_WRITE_PROTECTED,
     KR_PAT_WRITE_BACK, KR_PAT_UNCACHED]"

lemma pat_consts: "qwPatMsr = 0x0007050100070406"
  by (simp add: qwPatMsr_def KR_PAT_UNCACHEABLE_def KR_PAT_WRITE_COMBINING_def KR_PAT_WRITE_THROUGH_def
      KR_PAT_WRITE_PROTECTED_def KR_PAT_WRITE_BACK_def KR_PAT_UNCACHED_def)

text \<open>
  After KrVmmInitCpu, the caching bits that KrSelectPat chooses for each of the six memory types select a
  PAT entry that holds exactly that type; the default selection is write-back. Write protection of supervisor
  pages, PAE and global pages are on, and no-execute is enabled in the register exactly when the processor
  reports it and the state says so.
\<close>
theorem init_cpu_memory_types:
  "list_all (\<lambda>t. pat_entry (PAT_MSR (fst (KrVmmInitCpu EDX r s))) (pat_index (KrSelectPat (PatMsrState (snd (KrVmmInitCpu EDX r s))) t)) = t) memory_types \<and>
   g_pslDefault (snd (KrVmmInitCpu EDX r s)) = KrSelectPat (PatMsrState (snd (KrVmmInitCpu EDX r s))) KR_PAT_WRITE_BACK \<and>
   bit (CR0 (fst (KrVmmInitCpu EDX r s))) 16 \<and> bit (CR4 (fst (KrVmmInitCpu EDX r s))) 5 \<and> bit (CR4 (fst (KrVmmInitCpu EDX r s))) 7 \<and>
   (bNoExecuteSupport (vmm (snd (KrVmmInitCpu EDX r s))) \<longleftrightarrow> bit EDX 20 \<or> bNoExecuteSupport (vmm s)) \<and>
   (bit (EFER (fst (KrVmmInitCpu EDX r s))) 11 \<longleftrightarrow> bit EDX 20 \<or> bit (EFER r) 11)"
proof -
  let ?r = "fst (KrVmmInitCpu EDX r s)" and ?s = "snd (KrVmmInitCpu EDX r s)"
  have pat: "PAT_MSR ?r = qwPatMsr" "PatMsrState ?s = \<lparr> PA_UC = 3, PA_WC = 4, PA_WT = 1, PA_WP = 5, PA_WB = 0, PA_UCM = 2 \<rparr>"
    "g_pslDefault ?s = KrSelectPat (PatMsrState ?s) KR_PAT_WRITE_BACK"
    by (simp_all add: KrVmmInitCpu_def Let_def split: prod.splits)
  have types: "\<forall>t \<in> set memory_types. pat_entry (PAT_MSR ?r) (pat_index (KrSelectPat (PatMsrState ?s) t)) = t"
    unfolding pat pat_consts
    by (simp add: memory_types_def KrSelectPat_def g_PatSelectTable_def pat_index_def pat_entry_def
        KR_PAT_UNCACHEABLE_def KR_PAT_WRITE_COMBINING_def KR_PAT_WRITE_THROUGH_def KR_PAT_WRITE_PROTECTED_def
        KR_PAT_WRITE_BACK_def KR_PAT_UNCACHED_def)
  have nx: "EDX AND KR_CPUID_FEAT_EDX_NX_BIT \<noteq> 0 \<longleftrightarrow> bit EDX 20"
    using btest_bit [of EDX 20] by (simp add: btest_def KR_CPUID_FEAT_EDX_NX_BIT_def)
  have cr: "CR0 ?r = CR0 r OR KR_CR0_WP" "CR4 ?r = CR4 r OR (KR_CR4_PSE OR KR_CR4_PAE OR KR_CR4_PGE)"
    "EFER ?r = (if bit EDX 20 then EFER r OR KR_MSR_IA32_EFER_NXE else EFER r)"
    "bNoExecuteSupport (vmm ?s) = (bit EDX 20 \<or> bNoExecuteSupport (vmm s))"
    by (simp_all add: KrVmmInitCpu_def Let_def nx split: prod.splits)
  have b: "bit KR_CR0_WP 16" "bit KR_CR4_PAE 5" "bit KR_CR4_PGE 7" "bit KR_MSR_IA32_EFER_NXE 11"
    unfolding KR_CR0_WP_def KR_CR4_PAE_def KR_CR4_PGE_def KR_MSR_IA32_EFER_NXE_def bit_one_shifted by simp_all
  show ?thesis using types pat(3) b by (simp add: cr bit_or_iff list_all_iff)
qed

end
