(* ===== verification/Dmap.thy ===== *)
theory Dmap
  imports VirtMem
begin

text \<open>
  Bringing up virtual memory: the static pages of the kernel
  (\<^verbatim>\<open>Kernel/Source/Memory/PrivateVMM/BSmapInit.h\<close>), the direct map of physical memory
  (\<^verbatim>\<open>DmapInit.h\<close>) and \<^verbatim>\<open>KrInitVirtmemmgmt\<close>. Page structures are reached through the
  virtual addresses the code uses: the kernel image for the static ones and the bootstrap arena, the direct
  map for those on acquired pages.
\<close>

section \<open>Static pages of the kernel\<close>

text \<open>Where the linker put the four static structures.\<close>

record image_structs =
  g_PML4 :: PAGESTRUCT
  g_KernelPDPT :: PAGESTRUCT
  g_KernelPD :: PAGESTRUCT
  g_FrameBufferPD :: PAGESTRUCT

definition store_entry :: "PAGESTRUCT \<Rightarrow> UINT \<Rightarrow> KrTypePTE \<Rightarrow> UINTPTR \<Rightarrow> QWORD \<Rightarrow> KrPatSelect \<Rightarrow> rna_sys \<Rightarrow> rna_sys" where
  "store_entry p i ty pa fl psl s =
     (let (e, s1) = PteEncodeEntry s ty pa fl psl
      in s1\<lparr> qmem := (qmem s1)(p + KR_PAGE_STRUCTURE_ENTRY_SIZE * ucast i := e) \<rparr>)"

definition TWOMIB :: UINT where "TWOMIB = 0x200000"
definition ONEGIB :: UINT where "ONEGIB = 0x40000000"
definition FOURKIB :: UINT where "FOURKIB = 0x1000"

definition KrVmmInitKernelStaticPages :: "load_info \<Rightarrow> image_structs \<Rightarrow> rna_sys \<Rightarrow> rna_sys" where
  "KrVmmInitKernelStaticPages li im s =
     (let s0 = s\<lparr> vmm := (vmm s)\<lparr> VirtAddrBase := KR_MAKE_VIRTUAL DMAP_PML4_IDX 0 0 0 0 \<rparr> \<rparr>;
          rw = PTE_PRESENT OR PTE_WRITABLE;
          s1 = store_entry (g_PML4 im) (ucast KRNL_PML4_IDX) PML4_ENTRY (KrReservedVirtToPhys li (g_KernelPDPT im)) rw (g_pslDefault s0) s0;
          s2 = store_entry (g_KernelPDPT im) (ucast KRNL_BINARY_PDPT_IDX) PDPT_ENTRY (KrReservedVirtToPhys li (g_KernelPD im)) rw (g_pslDefault s1) s1;
          s3 = store_entry (g_KernelPDPT im) (ucast KRNL_VIDEO_FBUF_IDX) PDPT_ENTRY (KrReservedVirtToPhys li (g_FrameBufferPD im)) rw (g_pslDefault s2) s2;
          szKernelPageCount = (ucast (KR_CEILDIV (ReserveSize li) (ucast TWOMIB)) :: UINT);
          s4 = fold (\<lambda>i. store_entry (g_KernelPD im) (of_nat i) PD2MB_ENTRY (AddrPhysicalBase li + ucast (of_nat i * TWOMIB)) rw (g_pslDefault s))
                 [0..<unat szKernelPageCount] s3;
          c = KR_CEILDIV (FbSize li) TWOMIB;
          szFrameBufferPageCount = (if c = 0 then c + 1 else c);
          pslWC = KrSelectPat (PatMsrState s4) KR_PAT_WRITE_COMBINING
      in fold (\<lambda>i. store_entry (g_FrameBufferPD im) (of_nat i) PD2MB_ENTRY (FbPhysicalAddress li + ucast (of_nat i * TWOMIB)) (rw OR PTE_NX) pslWC)
           [0..<unat szFrameBufferPageCount] s4)"

section \<open>Page structures of the direct map\<close>

record KrDirectMappingContext =
  PhysAddrBarenaBase :: UINTPTR
  NumBarenaMaxStructs :: UINT
  NumTotalAcqPageStructs :: UINT
  WorkingBase :: UINTPTR
  WorkingCur :: UINTPTR
  LastAcqPageID :: PAGEID

definition KrdmiAcquirePageStruct :: "KrDirectMappingContext \<Rightarrow> rna_sys \<Rightarrow> (PAGESTRUCT \<times> KrDirectMappingContext \<times> rna_sys) kres" where
  "KrdmiAcquirePageStruct c s =
     (if NumTotalAcqPageStructs c < NumBarenaMaxStructs c
      then Inr (WorkingCur c, c\<lparr> WorkingCur := WorkingCur c + KR_PAGE_STRUCTURE_SIZE,
                                NumTotalAcqPageStructs := NumTotalAcqPageStructs c + 1 \<rparr>, s)
      else kbind (PmAcquirePage (pmm s) PAGE_TYPE_PAGE_STRUCT IVLDPGID) (\<lambda>(ID, g).
        let c1 = c\<lparr> LastAcqPageID := ID \<rparr>; s1 = s\<lparr> pmm := g \<rparr>
        in if ID = IVLDPGID then Inr (0, c1, s1)
           else
             let s2 = s1\<lparr> pmm := snd (KrReservePhysicalPage g ID) \<rparr>;
                 w = VirtAddrBase (vmm s2) + KrGetPhysicalPageAddress (pmm s2) ID
             in Inr (w, c1\<lparr> WorkingBase := w, WorkingCur := w, NumTotalAcqPageStructs := NumTotalAcqPageStructs c1 + 1 \<rparr>,
                     s2\<lparr> qmem := zero_page w (qmem s2) \<rparr>)))"

definition KrdmiGetPhysicalOfLastPageStruct :: "KrDirectMappingContext \<Rightarrow> rna_sys \<Rightarrow> UINTPTR" where
  "KrdmiGetPhysicalOfLastPageStruct c s =
     (if NumTotalAcqPageStructs c \<le> NumBarenaMaxStructs c
      then PhysAddrBarenaBase c + ucast ((NumTotalAcqPageStructs c - 1) * KR_PAGE_STRUCTURE_SIZE)
      else KrGetPhysicalPageAddress (pmm s) (LastAcqPageID c))"

definition KrdmiGetVirtualOfPTE :: "load_info \<Rightarrow> arena \<Rightarrow> rna_sys \<Rightarrow> UINTPTR \<Rightarrow> UINTPTR" where
  "KrdmiGetVirtualOfPTE li a s AddrPhysical =
     (if AddrPhysical \<ge> KrReservedVirtToPhys li (KrBootstrapArenaGetBase a) \<and> AddrPhysical < KrReservedVirtToPhys li (KrBootstrapArenaGetEnd a)
      then KrReservedPhysToVirt li AddrPhysical
      else VirtAddrBase (vmm s) + AddrPhysical)"

definition KrdmiGetOrAcquirePageStruct ::
  "load_info \<Rightarrow> arena \<Rightarrow> KrTypePTE \<Rightarrow> PAGESTRUCT \<Rightarrow> UINT \<Rightarrow> KrDirectMappingContext \<Rightarrow> rna_sys \<Rightarrow>
    (PAGESTRUCT \<times> KrDirectMappingContext \<times> rna_sys) kres" where
  "KrdmiGetOrAcquirePageStruct li a eAcquireTypePTE pMaster Index c s =
     (if Index > 511 \<or> eAcquireTypePTE = INVALID_PTE_TYPE \<or> eAcquireTypePTE = PML4_ENTRY
      then Inl (Meltdown KR_MDCODE_DMAP_SETUP_DEVCHECK)
      else if get_entry s pMaster (ucast Index) AND PTE_PRESENT \<noteq> 0
      then Inr (KrdmiGetVirtualOfPTE li a s (get_entry s pMaster (ucast Index) AND PTE_PHYSADDR_MASK), c, s)
      else kbind (KrdmiAcquirePageStruct c s) (\<lambda>(pPTE, c1, s1).
        if pPTE = 0 then Inl (Meltdown KR_MDCODE_VIRTMEMMGMT_INIT_FAILURE)
        else Inr (pPTE, c1, store_entry pMaster Index (KrGetParentPteType eAcquireTypePTE) (KrdmiGetPhysicalOfLastPageStruct c1 s1)
                    (PTE_PRESENT OR PTE_WRITABLE OR PTE_NX) (KrSelectPat (PatMsrState s1) KR_PAT_WRITE_BACK) s1)))"

section \<open>Mapping a region\<close>

definition ChooseMode :: "rna_sys \<Rightarrow> UINTPTR \<Rightarrow> ULONG \<Rightarrow> KrVirtualAddressMode" where
  "ChooseMode s PhysAddrRegion szRegionSize =
     (if bHugePageSupport (vmm s) \<and> PhysAddrRegion AND (ucast ONEGIB - 1) = 0 \<and> szRegionSize \<ge> ucast ONEGIB then VADDR_HUGE
      else if PhysAddrRegion AND (ucast TWOMIB - 1) = 0 \<and> szRegionSize \<ge> ucast TWOMIB then VADDR_LARGE
      else VADDR_SMALL)"

definition mode_size :: "KrVirtualAddressMode \<Rightarrow> ULONG" where
  "mode_size m = (case m of VADDR_HUGE \<Rightarrow> ucast ONEGIB | VADDR_LARGE \<Rightarrow> ucast TWOMIB | VADDR_SMALL \<Rightarrow> ucast FOURKIB)"

definition CountPage :: "KrVirtualAddressMode \<Rightarrow> rna_sys \<Rightarrow> rna_sys" where
  "CountPage m s =
     (let v = vmm s;
          v1 = (case m of VADDR_HUGE \<Rightarrow> v\<lparr> HugePages := HugePages v + 1 \<rparr>
                  | VADDR_LARGE \<Rightarrow> v\<lparr> LargePages := LargePages v + 1 \<rparr>
                  | VADDR_SMALL \<Rightarrow> v\<lparr> SmallPages := SmallPages v + 1 \<rparr>)
      in s\<lparr> vmm := v1\<lparr> DmapTotalPages := DmapTotalPages v1 + 1 \<rparr> \<rparr>)"

definition MapDmapPage ::
  "load_info \<Rightarrow> arena \<Rightarrow> image_structs \<Rightarrow> KrPatSelect \<Rightarrow> KrVirtualAddressMode \<Rightarrow> UINTPTR \<Rightarrow> KrDirectMappingContext \<Rightarrow> rna_sys \<Rightarrow>
    (KrDirectMappingContext \<times> rna_sys) kres" where
  "MapDmapPage li a im pslDefault ModeVA PhysAddrRegion c s =
     (let Vidx = KrUnmakeVirtual ModeVA (VirtAddrBase (vmm s) + PhysAddrRegion);
          qwLeafFlags = PTE_PRESENT OR PTE_WRITABLE OR PTE_NX
      in case ModeVA of
           VADDR_HUGE \<Rightarrow>
             kbind (KrdmiGetOrAcquirePageStruct li a PDP1GB_ENTRY (g_PML4 im) (VA_PML4 Vidx) c s) (\<lambda>(pdpt, c1, s1).
               Inr (c1, CountPage ModeVA (store_entry pdpt (VA_PDPT Vidx) PDP1GB_ENTRY PhysAddrRegion qwLeafFlags pslDefault s1)))
         | VADDR_LARGE \<Rightarrow>
             kbind (KrdmiGetOrAcquirePageStruct li a PDPT_ENTRY (g_PML4 im) (VA_PML4 Vidx) c s) (\<lambda>(pdpt, c1, s1).
             kbind (KrdmiGetOrAcquirePageStruct li a PD2MB_ENTRY pdpt (VA_PDPT Vidx) c1 s1) (\<lambda>(pd, c2, s2).
               Inr (c2, CountPage ModeVA (store_entry pd (VA_PD Vidx) PD2MB_ENTRY PhysAddrRegion qwLeafFlags pslDefault s2))))
         | VADDR_SMALL \<Rightarrow>
             kbind (KrdmiGetOrAcquirePageStruct li a PDPT_ENTRY (g_PML4 im) (VA_PML4 Vidx) c s) (\<lambda>(pdpt, c1, s1).
             kbind (KrdmiGetOrAcquirePageStruct li a PD_ENTRY pdpt (VA_PDPT Vidx) c1 s1) (\<lambda>(pd, c2, s2).
             kbind (KrdmiGetOrAcquirePageStruct li a PT_ENTRY pd (VA_PD Vidx) c2 s2) (\<lambda>(pt, c3, s3).
               Inr (c3, CountPage ModeVA (store_entry pt (VA_PT Vidx) PT_ENTRY PhysAddrRegion qwLeafFlags pslDefault s3))))))"

fun MapDmapRegion ::
  "nat \<Rightarrow> load_info \<Rightarrow> arena \<Rightarrow> image_structs \<Rightarrow> KrPatSelect \<Rightarrow> UINTPTR \<Rightarrow> ULONG \<Rightarrow> KrDirectMappingContext \<Rightarrow> rna_sys \<Rightarrow>
    (KrDirectMappingContext \<times> rna_sys) kres" where
  "MapDmapRegion 0 li a im psl PhysAddrRegion szRegionSize c s = Inl OutOfFuel"
| "MapDmapRegion (Suc f) li a im psl PhysAddrRegion szRegionSize c s =
     (if szRegionSize = 0 then Inr (c, s)
      else let m = ChooseMode s PhysAddrRegion szRegionSize
           in kbind (MapDmapPage li a im psl m PhysAddrRegion c s) (\<lambda>(c1, s1).
                MapDmapRegion f li a im psl (PhysAddrRegion + mode_size m) (szRegionSize - mode_size m) c1 s1))"

text \<open>The fuel of a region is one more than the number of its 4 KiB pages.\<close>

fun MapDmapRegions ::
  "load_info \<Rightarrow> arena \<Rightarrow> image_structs \<Rightarrow> KrPatSelect \<Rightarrow> KrMemoryDescriptor list \<Rightarrow> KrDirectMappingContext \<Rightarrow> rna_sys \<Rightarrow>
    (KrDirectMappingContext \<times> rna_sys) kres" where
  "MapDmapRegions li a im psl [] c s = Inr (c, s)"
| "MapDmapRegions li a im psl (d # ds) c s =
     kbind (MapDmapRegion (unat (PageCount d * KR_PAGE_SIZE) div 4096 + 1) li a im psl (PhysicalBase d) (PageCount d * KR_PAGE_SIZE) c s)
       (\<lambda>(c1, s1). MapDmapRegions li a im psl ds c1 s1)"

text \<open>
  The code maps the canonical map first and then, jumping back to the loop, every region of the firmware map
  that holds ACPI non-volatile storage.
\<close>

definition KrInitDirectMap ::
  "load_info \<Rightarrow> image_structs \<Rightarrow> KrMemoryDescriptor list \<Rightarrow> KrMemoryDescriptor list \<Rightarrow> arena \<Rightarrow> rna_sys \<Rightarrow> (bool \<times> arena \<times> rna_sys) kres" where
  "KrInitDirectMap li im MemMap Canonical a s =
     (let (ok, a1) = KrBootstrapArenaAlign a KR_PAGE_STRUCTURE_SIZE
      in if \<not> ok then Inr (False, a1, s)
         else
           let n = (ucast (KrBootstrapArenaGetSpaceLeft a1 div KR_PAGE_STRUCTURE_SIZE) :: UINT)
           in if n = 0 then Inr (False, a1, s)
              else
                let base = KrReservedVirtToPhys li (KrBootstrapArenaGetPtr a1);
                    (w, a2) = KrBootstrapArenaAcquire a1 (ucast (n * KR_PAGE_STRUCTURE_SIZE));
                    s1 = s\<lparr> qmem := (\<lambda>x. if x - w < ucast (n * KR_PAGE_STRUCTURE_SIZE) then 0 else qmem s x) \<rparr>;
                    c = \<lparr> PhysAddrBarenaBase = base, NumBarenaMaxStructs = n, NumTotalAcqPageStructs = 0,
                          WorkingBase = w, WorkingCur = w, LastAcqPageID = IVLDPGID \<rparr>;
                    psl = KrSelectPat (PatMsrState s1) KR_PAT_WRITE_BACK
                in kbind (MapDmapRegions li a2 im psl Canonical c s1) (\<lambda>(c1, s2).
                   kbind (MapDmapRegions li a2 im psl (filter (\<lambda>d. Type d = KR_MEMORY_TYPE_ACPI_MEMORY_NVS) MemMap) c1 s2) (\<lambda>(c2, s3).
                     Inr (True, a2, s3\<lparr> vmm := (vmm s3)\<lparr> TotalPageStructs := ucast (NumTotalAcqPageStructs c2) \<rparr> \<rparr>))))"

section \<open>Initialisation of the virtual memory manager\<close>

definition KrInitVirtmemmgmt ::
  "nat \<Rightarrow> DWORD \<Rightarrow> load_info \<Rightarrow> image_structs \<Rightarrow> KrMemoryDescriptor list \<Rightarrow> KrMemoryDescriptor list \<Rightarrow> arena \<Rightarrow> cpu_regs \<Rightarrow> rna_sys \<Rightarrow>
    (bool \<times> arena \<times> cpu_regs \<times> rna_sys) kres" where
  "KrInitVirtmemmgmt f EDX li im MemMap Canonical a r s =
     (if bInitialized (vmm s) then Inr (False, a, r, s)
      else
        let (r1, s1) = KrVmmInitCpu EDX r s;
            s2 = KrVmmInitKernelStaticPages li im s1;
            r2 = r1\<lparr> CR3 := KrReservedVirtToPhys li (g_PML4 im) \<rparr>
        in kbind (KrInitDirectMap li im MemMap Canonical a s2) (\<lambda>(ok, a1, s3).
             if \<not> ok then Inr (False, a1, r2, s3)
             else kbind (KrInitPhysMetaArray (KrPhysToVirt s3) (pmm s3)) (\<lambda>(ok, g).
               if \<not> ok then Inl (Meltdown KR_MDCODE_PMM_META_OOM)
               else kbind (RnaInit (s3\<lparr> pmm := g \<rparr>)) (\<lambda>(ok, s4).
                 if \<not> ok then Inl (Meltdown KR_MDCODE_RNA_INIT_FAILURE)
                 else kbind (KrInitKrnlAddrSpace f li (g_PML4 im) s4) (\<lambda>(ok, s5).
                   if \<not> ok then Inl (Meltdown KR_MDCODE_KERNEL_ADDRESS_SPACE_CREATION_FAILURE)
                   else Inr (True, a1, r2, s5\<lparr> vmm := (vmm s5)\<lparr> bInitialized := True \<rparr> \<rparr>))))))"

section \<open>How a region is divided\<close>

definition page_bytes :: "KrVirtualAddressMode \<Rightarrow> nat" where
  "page_bytes m = (case m of VADDR_HUGE \<Rightarrow> 2 ^ 30 | VADDR_LARGE \<Rightarrow> 2 ^ 21 | VADDR_SMALL \<Rightarrow> 2 ^ 12)"

definition best_mode :: "bool \<Rightarrow> nat \<Rightarrow> nat \<Rightarrow> KrVirtualAddressMode" where
  "best_mode huge a n =
     (if huge \<and> 2 ^ 30 dvd a \<and> 2 ^ 30 \<le> n then VADDR_HUGE
      else if 2 ^ 21 dvd a \<and> 2 ^ 21 \<le> n then VADDR_LARGE else VADDR_SMALL)"

lemma page_bytes_pos: "0 < page_bytes m" "4096 dvd page_bytes m" "4096 \<le> page_bytes m"
  by (cases m; simp add: page_bytes_def)+

lemma best_mode_le: "4096 \<le> n \<Longrightarrow> page_bytes (best_mode huge a n) \<le> n"
  by (auto simp: page_bytes_def best_mode_def)

lemma best_mode_dvd: "4096 dvd a \<Longrightarrow> page_bytes (best_mode huge a n) dvd a"
  by (auto simp: page_bytes_def best_mode_def)

text \<open>The reference: the pages that cover \<open>n\<close> bytes from \<open>a\<close>, each as large as its place allows.\<close>

function split_region :: "bool \<Rightarrow> nat \<Rightarrow> nat \<Rightarrow> (nat \<times> KrVirtualAddressMode) list" where
  "split_region huge a n =
     (if n < 4096 then []
      else let m = best_mode huge a n in (a, m) # split_region huge (a + page_bytes m) (n - page_bytes m))"
  by pat_completeness auto
termination by (relation "measure (\<lambda>(h, a, n). n)") (auto simp: page_bytes_def split: KrVirtualAddressMode.splits)

declare split_region.simps [simp del]

text \<open>\<open>covers ps a e\<close>: the pages lie one after the other from \<open>a\<close> to \<open>e\<close>, each aligned to its size.\<close>

fun covers :: "(nat \<times> KrVirtualAddressMode) list \<Rightarrow> nat \<Rightarrow> nat \<Rightarrow> bool" where
  "covers [] a e \<longleftrightarrow> a = e"
| "covers ((p, m) # ps) a e \<longleftrightarrow> p = a \<and> page_bytes m dvd p \<and> covers ps (a + page_bytes m) e"

lemma split_covers: "4096 dvd a \<Longrightarrow> 4096 dvd n \<Longrightarrow> covers (split_region huge a n) a (a + n)"
proof (induction huge a n rule: split_region.induct)
  case (1 huge a n)
  show ?case
  proof (cases "n < 4096")
    case True
    then have "n = 0" using 1(3) by (auto dest: dvd_imp_le)
    then show ?thesis by (subst split_region.simps) simp
  next
    case False
    let ?m = "best_mode huge a n"
    have le: "page_bytes ?m \<le> n" using False by (intro best_mode_le) simp
    have "4096 dvd a + page_bytes ?m" "4096 dvd n - page_bytes ?m"
      using 1(2,3) page_bytes_pos(2) le by (auto intro: dvd_diff_nat)
    then have "covers (split_region huge (a + page_bytes ?m) (n - page_bytes ?m)) (a + page_bytes ?m) (a + page_bytes ?m + (n - page_bytes ?m))"
      using 1(1) [OF False refl] by simp
    then show ?thesis
      using False le best_mode_dvd [OF 1(2), of huge n] by (subst split_region.simps) (simp add: Let_def)
  qed
qed

section \<open>The loop runs over those pages\<close>

lemma mode_size_nat: "unat (mode_size m) = page_bytes m"
  by (cases m) (simp_all add: mode_size_def page_bytes_def ONEGIB_def TWOMIB_def FOURKIB_def)

lemma mode_size_of_nat: "mode_size m = of_nat (page_bytes m)"
  using mode_size_nat [of m] by (metis unat_of_nat_small unsigned_less word_eq_unat)

lemma and_mask_dvd: "k < 64 \<Longrightarrow> (w :: QWORD) AND mask k = 0 \<longleftrightarrow> 2 ^ k dvd unat w"
  by (simp add: word_eq_unat unat_and_mask dvd_eq_mod_eq_0)

lemma choose_mode:
  assumes "a < 2 ^ 64" "n < 2 ^ 64"
  shows "ChooseMode s (of_nat a) (of_nat n) = best_mode (bHugePageSupport (vmm s)) a n"
proof -
  have u: "unat (of_nat a :: UINTPTR) = a" "unat (of_nat n :: UINTPTR) = n"
    using assms by (auto intro: unat_of_nat_small)
  have m: "(ucast ONEGIB - 1 :: UINTPTR) = mask 30" "(ucast TWOMIB - 1 :: UINTPTR) = mask 21"
    by (simp_all add: ONEGIB_def TWOMIB_def mask_eq_exp_minus_1)
  have g: "unat (ucast ONEGIB :: UINTPTR) = 2 ^ 30" "unat (ucast TWOMIB :: UINTPTR) = 2 ^ 21"
    by (simp_all add: ONEGIB_def TWOMIB_def)
  show ?thesis
    unfolding ChooseMode_def best_mode_def m word_le_nat_alt g u
    using and_mask_dvd [of 30 "of_nat a"] and_mask_dvd [of 21 "of_nat a"] u by simp
qed

text \<open>Mapping a list of pages, stopping at the first fault.\<close>

fun run_pages ::
  "load_info \<Rightarrow> arena \<Rightarrow> image_structs \<Rightarrow> KrPatSelect \<Rightarrow> (nat \<times> KrVirtualAddressMode) list \<Rightarrow> KrDirectMappingContext \<Rightarrow> rna_sys \<Rightarrow>
    (KrDirectMappingContext \<times> rna_sys) kres" where
  "run_pages li a im psl [] c s = Inr (c, s)"
| "run_pages li a im psl ((p, m) # ps) c s =
     kbind (MapDmapPage li a im psl m (of_nat p) c s) (\<lambda>(c1, s1). run_pages li a im psl ps c1 s1)"

text \<open>Mapping a page keeps the processor features and the base of the direct map.\<close>

definition same_cpu :: "rna_sys \<Rightarrow> rna_sys \<Rightarrow> bool" where
  "same_cpu s s' \<longleftrightarrow> bHugePageSupport (vmm s') = bHugePageSupport (vmm s) \<and> VirtAddrBase (vmm s') = VirtAddrBase (vmm s)"

lemma same_cpu_refl [simp]: "same_cpu s s" by (simp add: same_cpu_def)
lemma same_cpu_trans: "same_cpu s t \<Longrightarrow> same_cpu t u \<Longrightarrow> same_cpu s u" by (simp add: same_cpu_def)

lemma store_entry_vmm [simp]: "vmm (store_entry p i ty pa fl psl s) = vmm s" "pmm (store_entry p i ty pa fl psl s) = pmm s"
  by (simp_all add: store_entry_def PteEncodeEntry_def Let_def)

lemma acquire_struct_cpu: "KrdmiAcquirePageStruct c s = Inr (p, c', s') \<Longrightarrow> vmm s' = vmm s"
  by (auto simp: KrdmiAcquirePageStruct_def kbind_eq_Inr Let_def split: if_splits)

lemma get_or_acquire_cpu: "KrdmiGetOrAcquirePageStruct li a ty p i c s = Inr (q, c', s') \<Longrightarrow> vmm s' = vmm s"
  by (auto simp: KrdmiGetOrAcquirePageStruct_def kbind_eq_Inr acquire_struct_cpu split: if_splits prod.splits)

lemma count_page_cpu [simp]: "same_cpu s (CountPage m t) \<longleftrightarrow> same_cpu s t"
  by (cases m) (simp_all add: same_cpu_def CountPage_def Let_def)

lemma map_page_cpu: "MapDmapPage li a im psl m p c s = Inr (c', s') \<Longrightarrow> same_cpu s s'"
  by (cases m) (auto simp: MapDmapPage_def kbind_eq_Inr same_cpu_def CountPage_def Let_def dest!: get_or_acquire_cpu)

lemma map_region_run:
  assumes "a0 + n < 2 ^ 64 \<or> n = 0 \<or> a0 + n = 2 ^ 64" "4096 dvd n" "n div 4096 < f" "n < 2 ^ 64"
  shows "MapDmapRegion f li a im psl (of_nat a0) (of_nat n) c s = run_pages li a im psl (split_region (bHugePageSupport (vmm s)) a0 n) c s"
  using assms
proof (induction f arbitrary: a0 n c s)
  case (Suc f)
  have un: "unat (of_nat n :: ULONG) = n" using Suc.prems(4) by (intro unat_of_nat_small) simp
  show ?case
  proof (cases "n = 0")
    case True
    then show ?thesis by (subst split_region.simps) simp
  next
    case False
    then have n: "4096 \<le> n" using Suc.prems(2) by (auto dest: dvd_imp_le)
    have nz: "(of_nat n :: ULONG) \<noteq> 0" using False un by (metis unsigned_0)
    have a0: "a0 < 2 ^ 64" using Suc.prems(1) False by auto
    let ?m = "best_mode (bHugePageSupport (vmm s)) a0 n"
    have cm: "ChooseMode s (of_nat a0) (of_nat n) = ?m" using a0 Suc.prems(4) by (rule choose_mode)
    have le: "page_bytes ?m \<le> n" by (rule best_mode_le [OF n])
    have ad: "(of_nat a0 :: UINTPTR) + mode_size ?m = of_nat (a0 + page_bytes ?m)" by (simp add: mode_size_of_nat)
    have sd: "(of_nat n :: ULONG) - mode_size ?m = of_nat (n - page_bytes ?m)" using le by (simp add: mode_size_of_nat of_nat_diff)
    have d: "4096 dvd n - page_bytes ?m" using Suc.prems(2) page_bytes_pos(2) by (rule dvd_diff_nat)
    have q: "(n - page_bytes ?m) div 4096 < f"
    proof -
      have "n - page_bytes ?m \<le> n - 4096" using page_bytes_pos(3) by (rule diff_le_mono2)
      then have "(n - page_bytes ?m) div 4096 \<le> (n - 4096) div 4096" by (rule div_le_mono)
      also have "(n - 4096) div 4096 = n div 4096 - 1" by simp
      finally show ?thesis using Suc.prems(3) n by (simp add: div_greater_zero_iff)
    qed
    have step: "MapDmapRegion f li a im psl (of_nat (a0 + page_bytes ?m)) (of_nat (n - page_bytes ?m)) c1 s1 =
        run_pages li a im psl (split_region (bHugePageSupport (vmm s)) (a0 + page_bytes ?m) (n - page_bytes ?m)) c1 s1"
      if "MapDmapPage li a im psl ?m (of_nat a0) c s = Inr (c1, s1)" for c1 s1
    proof -
      have "bHugePageSupport (vmm s1) = bHugePageSupport (vmm s)"
        using map_page_cpu [OF that] by (simp add: same_cpu_def)
      then show ?thesis
        using Suc.IH [of "a0 + page_bytes ?m" "n - page_bytes ?m" c1 s1] Suc.prems(1,4) d q le by auto
    qed
    show ?thesis
      unfolding MapDmapRegion.simps(2) Let_def cm if_not_P [OF nz] ad sd
      using n step by (subst split_region.simps) (auto simp: Let_def not_less intro!: kbind_cong)
  qed
qed simp


lemma run_pages_append:
  "run_pages li a im psl (ps @ qs) c s = kbind (run_pages li a im psl ps c s) (\<lambda>(c1, s1). run_pages li a im psl qs c1 s1)"
proof (induction ps arbitrary: c s)
  case (Cons x ps)
  then show ?case by (cases x; cases "MapDmapPage li a im psl (snd x) (of_nat (fst x)) c s") auto
qed simp

lemma run_pages_cpu: "run_pages li a im psl ps c s = Inr (c', s') \<Longrightarrow> same_cpu s s'"
proof (induction ps arbitrary: c s)
  case (Cons x ps)
  obtain p m where x: "x = (p, m)" by (cases x)
  from Cons.prems obtain c1 s1 where r: "MapDmapPage li a im psl m (of_nat p) c s = Inr (c1, s1)"
    "run_pages li a im psl ps c1 s1 = Inr (c', s')"
    by (auto simp: x kbind_eq_Inr)
  show ?case using same_cpu_trans [OF map_page_cpu [OF r(1)] Cons.IH [OF r(2)]] .
qed simp

definition region_bytes :: "KrMemoryDescriptor \<Rightarrow> nat" where
  "region_bytes d = 4096 * unat (PageCount d)"

definition region_pages :: "bool \<Rightarrow> KrMemoryDescriptor \<Rightarrow> (nat \<times> KrVirtualAddressMode) list" where
  "region_pages huge d = split_region huge (unat (PhysicalBase d)) (region_bytes d)"

text \<open>A region of whole pages that ends within the address space.\<close>

definition region_ok :: "KrMemoryDescriptor \<Rightarrow> bool" where
  "region_ok d \<longleftrightarrow> 4096 dvd unat (PhysicalBase d) \<and> unat (PhysicalBase d) + region_bytes d < 2 ^ 64"


definition wit_region :: KrMemoryDescriptor where
  "wit_region = \<lparr> PhysicalBase = 0x1FF000, PageCount = 514, Attributes = 0, Type = 7, Pad = 0 \<rparr>"


end
