(* ===== verification/Mmio.thy ===== *)
theory Mmio
  imports Dmap
begin

text \<open>
  Memory-mapped devices, \<^verbatim>\<open>Kernel/Source/Memory/MMIO.c\<close>, and the local and I/O interrupt controllers,
  \<^verbatim>\<open>Kernel/Source/CPU/APIC.c\<close> and \<^verbatim>\<open>Kernel/Source/Intmgmt/IOAPIC.c\<close>. The devices themselves are not in the
  repository: their state has a type parameter, and the functions take a record of how devices answer reads
  and writes of registers and ports.
\<close>

section \<open>Devices\<close>

record 'd devices =
  dev_read32 :: "UINTPTR \<Rightarrow> 'd \<Rightarrow> DWORD \<times> 'd"
  dev_write32 :: "UINTPTR \<Rightarrow> DWORD \<Rightarrow> 'd \<Rightarrow> 'd"
  port_in8 :: "WORD \<Rightarrow> 'd \<Rightarrow> BYTE \<times> 'd"
  port_out8 :: "WORD \<Rightarrow> BYTE \<Rightarrow> 'd \<Rightarrow> 'd"
  port_in32 :: "WORD \<Rightarrow> 'd \<Rightarrow> DWORD \<times> 'd"

definition MMIO_FLAG_USE_LARGE_PAGES :: BYTE where "MMIO_FLAG_USE_LARGE_PAGES = push_bit 0 1"
definition MMIO_FLAG_WRITE_COMBINE :: BYTE where "MMIO_FLAG_WRITE_COMBINE = push_bit 1 1"
definition MMIO_NF :: BYTE where "MMIO_NF = 0"

definition g_VaddrMmioHead_init :: UINTPTR where
  "g_VaddrMmioHead_init = KR_MAKE_VIRTUAL KRNL_PML4_IDX KRNL_MMIO_PDPT_IDX 0 0 0"

text \<open>The head of the range of free addresses is passed and returned; \<open>Alignment\<close> is promoted to 64 bits only in the mask.\<close>

definition MmioAllocateRange :: "UINTPTR \<Rightarrow> UINT \<Rightarrow> SIZE \<Rightarrow> UINTPTR \<times> UINTPTR" where
  "MmioAllocateRange Head Alignment Size =
     (let VaddrBase = (Head + ucast (Alignment - 1)) AND NOT (ucast Alignment - 1)
      in (VaddrBase, VaddrBase + Size))"

definition MmioMapDevice ::
  "nat \<Rightarrow> rna_sys \<Rightarrow> UINTPTR \<Rightarrow> string \<Rightarrow> UINTPTR \<Rightarrow> SIZE \<Rightarrow> BYTE \<Rightarrow> (UINTPTR \<times> UINTPTR \<times> rna_sys) kres" where
  "MmioMapDevice f s Head DeviceTag PaddrDeviceBase DeviceAddressSize F =
     (let PageSize = (if F AND MMIO_FLAG_USE_LARGE_PAGES \<noteq> 0 then 0x200000 else 0x1000)
      in if \<not> KrtlIsPowerOfTwoAligned PaddrDeviceBase PageSize then Inr (0, Head, s)
         else if \<not> KrtlIsPowerOfTwoAligned (PaddrDeviceBase + DeviceAddressSize) PageSize then Inr (0, Head, s)
         else
           let (VaddrDeviceBase, Head1) = MmioAllocateRange Head PageSize DeviceAddressSize;
               RegionFlags = VMR_FLAG_READABLE OR VMR_FLAG_WRITABLE OR VMR_FLAG_STATIC OR
                 (if F AND MMIO_FLAG_WRITE_COMBINE \<noteq> 0 then VMR_CACHE_PROTOCOL_WRITE_COMBINE else VMR_CACHE_PROTOCOL_UNCACHEABLE)
           in kbind (VmAcquireRegion f s (KrGetKernelAddressSpace s) VaddrDeviceBase (VaddrDeviceBase + DeviceAddressSize) RegionFlags)
                (\<lambda>(pNode, s1).
                  if pNode = 0 then Inr (0, Head1, s1)
                  else
                    let s2 = VmTagRegion s1 pNode (Some DeviceTag)
                    in kbind (VmMapStatic f s2 pNode PaddrDeviceBase) (\<lambda>(ok, s3).
                         if \<not> ok then (let _ = VmRelinquishRegion s3 pNode in Inr (0, Head1, s3)) else Inr (VaddrDeviceBase, Head1, s3))))"

definition MmioRead32 :: "'d devices \<Rightarrow> UINTPTR \<Rightarrow> SIZE \<Rightarrow> 'd \<Rightarrow> DWORD \<times> 'd" where
  "MmioRead32 dev VaddrDeviceBase Offset d = dev_read32 dev (VaddrDeviceBase + Offset) d"

definition MmioWrite32 :: "'d devices \<Rightarrow> UINTPTR \<Rightarrow> SIZE \<Rightarrow> DWORD \<Rightarrow> 'd \<Rightarrow> 'd" where
  "MmioWrite32 dev VaddrDeviceBase Offset dwValue d = dev_write32 dev (VaddrDeviceBase + Offset) dwValue d"

section \<open>The I/O interrupt controllers\<close>

record IoApicInfo =
  PaddrBase :: UINTPTR
  VaddrBase :: UINTPTR
  IoApicID :: DWORD
  FirstIRQ :: DWORD
  Version :: UCHAR
  MaxRedirEntry :: UCHAR
  E_V :: bool
  INIT :: bool

record ioapic_state =
  IoApics :: "IoApicInfo list"
  IoApicIDs :: "DWORD list"
  IoApicCount :: UINT

definition MAX_IO_APICS :: nat where "MAX_IO_APICS = 256"
definition MAX_SMP_PROCESSORS :: DWORD where "MAX_SMP_PROCESSORS = 256"
definition IOREGSEL :: SIZE where "IOREGSEL = 0x00"
definition IOREGWIN :: SIZE where "IOREGWIN = 0x10"
definition IOAPICVER :: UINT where "IOAPICVER = 0x1"
definition IOREDTBL :: UINT where "IOREDTBL = 0x10"
definition IRQMASK :: QWORD where "IRQMASK = push_bit 16 1"

definition IoApicRead :: "'d devices \<Rightarrow> IoApicInfo \<Rightarrow> UINT \<Rightarrow> 'd \<Rightarrow> DWORD \<times> 'd" where
  "IoApicRead dev IoApic Regidx d =
     MmioRead32 dev (VaddrBase IoApic) IOREGWIN (MmioWrite32 dev (VaddrBase IoApic) IOREGSEL Regidx d)"

definition IoApicRead64 :: "'d devices \<Rightarrow> IoApicInfo \<Rightarrow> UINT \<Rightarrow> 'd \<Rightarrow> QWORD \<times> 'd" where
  "IoApicRead64 dev IoApic Regidx d =
     (let (Lodword, d1) = IoApicRead dev IoApic Regidx d;
          (Hidword, d2) = IoApicRead dev IoApic (Regidx + 1) d1
      in (push_bit 32 (ucast Hidword) OR ucast Lodword, d2))"

definition IoApicWrite :: "'d devices \<Rightarrow> IoApicInfo \<Rightarrow> UINT \<Rightarrow> DWORD \<Rightarrow> 'd \<Rightarrow> 'd" where
  "IoApicWrite dev IoApic Regidx dwValue d =
     MmioWrite32 dev (VaddrBase IoApic) IOREGWIN dwValue (MmioWrite32 dev (VaddrBase IoApic) IOREGSEL Regidx d)"

definition IoApicWrite64 :: "'d devices \<Rightarrow> IoApicInfo \<Rightarrow> UINT \<Rightarrow> QWORD \<Rightarrow> 'd \<Rightarrow> 'd" where
  "IoApicWrite64 dev IoApic Regidx qwValue d =
     IoApicWrite dev IoApic (Regidx + 1) (ucast (drop_bit 32 qwValue)) (IoApicWrite dev IoApic Regidx (ucast qwValue) d)"

text \<open>The element a list of identifiers names; out of range is a fault.\<close>

definition io_apic_at :: "ioapic_state \<Rightarrow> nat \<Rightarrow> (nat \<times> IoApicInfo) kres" where
  "io_apic_at s i =
     (if i < length (IoApicIDs s) \<and> unat (IoApicIDs s ! i) < length (IoApics s)
      then Inr (unat (IoApicIDs s ! i), IoApics s ! unat (IoApicIDs s ! i)) else Inl OutOfBounds)"

primrec FindLoop :: "ioapic_state \<Rightarrow> DWORD \<Rightarrow> nat list \<Rightarrow> nat option kres" where
  "FindLoop s IRQ [] = Inr None"
| "FindLoop s IRQ (i # is) =
     kbind (io_apic_at s i) (\<lambda>(id, a).
       if E_V a \<and> INIT a \<and> IRQ \<ge> FirstIRQ a \<and> IRQ \<le> FirstIRQ a + ucast (MaxRedirEntry a) then Inr (Some id)
       else FindLoop s IRQ is)"

definition FindIoApicForIRQ :: "ioapic_state \<Rightarrow> DWORD \<Rightarrow> nat option kres" where
  "FindIoApicForIRQ s IRQ = FindLoop s IRQ [0..<unat (IoApicCount s)]"

definition SetRedirectIRQ :: "'d devices \<Rightarrow> ioapic_state \<Rightarrow> DWORD \<Rightarrow> DWORD \<Rightarrow> UCHAR \<Rightarrow> 'd \<Rightarrow> (bool \<times> 'd) kres" where
  "SetRedirectIRQ dev s IRQ ProcessorID IntVector d =
     kbind (FindIoApicForIRQ s IRQ) (\<lambda>found. case found of
       None \<Rightarrow> Inr (False, d)
     | Some i \<Rightarrow>
         if ProcessorID \<ge> MAX_SMP_PROCESSORS then Inr (False, d)
         else
           let a = IoApics s ! i;
               RedirEntry = ucast IntVector OR push_bit 56 (ucast ProcessorID);
               N = IRQ - FirstIRQ a
           in Inr (True, IoApicWrite64 dev a (IOREDTBL + N * 2) RedirEntry d))"

definition SetEnableIRQ :: "'d devices \<Rightarrow> ioapic_state \<Rightarrow> DWORD \<Rightarrow> bool \<Rightarrow> 'd \<Rightarrow> (bool \<times> 'd) kres" where
  "SetEnableIRQ dev s IRQ bEnable d =
     kbind (FindIoApicForIRQ s IRQ) (\<lambda>found. case found of
       None \<Rightarrow> Inr (False, d)
     | Some i \<Rightarrow>
         let a = IoApics s ! i;
             N = IRQ - FirstIRQ a;
             (RedirEntry, d1) = IoApicRead64 dev a (IOREDTBL + N * 2) d
         in Inr (True, IoApicWrite64 dev a (IOREDTBL + N * 2) (if bEnable then RedirEntry AND NOT IRQMASK else RedirEntry OR IRQMASK) d1))"

fun IoApicsInitLoop ::
  "nat \<Rightarrow> 'd devices \<Rightarrow> nat list \<Rightarrow> ioapic_state \<Rightarrow> rna_sys \<Rightarrow> UINTPTR \<Rightarrow> 'd \<Rightarrow> (bool \<times> ioapic_state \<times> rna_sys \<times> UINTPTR \<times> 'd) kres" where
  "IoApicsInitLoop f dev [] s m Head d = Inr (True, s, m, Head, d)"
| "IoApicsInitLoop f dev (i # is) s m Head d =
     kbind (io_apic_at s i) (\<lambda>(id, a).
       if INIT a then IoApicsInitLoop f dev is s m Head d
       else kbind (MmioMapDevice f m Head ''I/O APIC'' (PaddrBase a) 4096 MMIO_NF) (\<lambda>(v, Head1, m1).
         let a1 = a\<lparr> VaddrBase := v \<rparr>
         in if v = 0 then Inr (False, s\<lparr> IoApics := (IoApics s)[id := a1] \<rparr>, m1, Head1, d)
            else
              let (dwVerReg, d1) = IoApicRead dev a1 IOAPICVER d;
                  a2 = a1\<lparr> Version := ucast (dwVerReg AND 0xFF), MaxRedirEntry := ucast (drop_bit 16 dwVerReg AND 0xFF), INIT := True \<rparr>
              in IoApicsInitLoop f dev is (s\<lparr> IoApics := (IoApics s)[id := a2] \<rparr>) m1 Head1 d1))"

definition IoApicsInit ::
  "nat \<Rightarrow> 'd devices \<Rightarrow> ioapic_state \<Rightarrow> rna_sys \<Rightarrow> UINTPTR \<Rightarrow> 'd \<Rightarrow> (bool \<times> ioapic_state \<times> rna_sys \<times> UINTPTR \<times> 'd) kres" where
  "IoApicsInit f dev s m Head d = IoApicsInitLoop f dev [0..<unat (IoApicCount s)] s m Head d"

definition SetIoApicCount :: "DWORD \<Rightarrow> ioapic_state \<Rightarrow> ioapic_state" where
  "SetIoApicCount NrIoApics s = s\<lparr> IoApicCount := NrIoApics \<rparr>"

section \<open>Redirecting an interrupt request\<close>

text \<open>
  The documented behaviour of an I/O APIC at \<open>base\<close>: the select register chooses a register, the window reads
  and writes it; some bits of a register are read-only.
\<close>

definition io_apic_device :: "'d devices \<Rightarrow> UINTPTR \<Rightarrow> ('d \<Rightarrow> UINT \<Rightarrow> DWORD) \<Rightarrow> (UINT \<Rightarrow> DWORD) \<Rightarrow> bool" where
  "io_apic_device dev base reg ro \<longleftrightarrow>
     (\<forall>d i v. reg (dev_write32 dev (base + IOREGWIN) v (dev_write32 dev (base + IOREGSEL) i d)) =
        (reg d)(i := (v AND NOT (ro i)) OR (reg d i AND ro i))) \<and>
     (\<forall>d i. fst (dev_read32 dev (base + IOREGWIN) (dev_write32 dev (base + IOREGSEL) i d)) = reg d i \<and>
        reg (snd (dev_read32 dev (base + IOREGWIN) (dev_write32 dev (base + IOREGSEL) i d))) = reg d)"

definition reg_pair :: "(UINT \<Rightarrow> DWORD) \<Rightarrow> UINT \<Rightarrow> QWORD" where
  "reg_pair r n = push_bit 32 (ucast (r (n + 1))) OR ucast (r n)"

lemma bit_reg_pair: "bit (reg_pair r n) b \<longleftrightarrow> b < 64 \<and> (if b < 32 then bit (r n) b else bit (r (n + 1)) (b - 32))"
  by (auto simp: reg_pair_def bit_or_iff bit_push_bit_iff bit_ucast_iff dest: bit_imp_le_length)

lemma write64:
  assumes "io_apic_device dev (VaddrBase a) reg ro"
  shows "reg (IoApicWrite64 dev a n v d) =
      (reg d)(n := (ucast v AND NOT (ro n)) OR (reg d n AND ro n),
              n + 1 := (ucast (drop_bit 32 v) AND NOT (ro (n + 1))) OR (reg d (n + 1) AND ro (n + 1)))"
    "b < 64 \<Longrightarrow> \<not> bit (reg_pair ro n) b \<Longrightarrow> bit (reg_pair (reg (IoApicWrite64 dev a n v d)) n) b = bit v b"
    "b < 64 \<Longrightarrow> bit (reg_pair ro n) b \<Longrightarrow> bit (reg_pair (reg (IoApicWrite64 dev a n v d)) n) b = bit (reg_pair (reg d) n) b"
proof -
  have ne: "n + 1 \<noteq> n" by simp
  show r: "reg (IoApicWrite64 dev a n v d) =
      (reg d)(n := (ucast v AND NOT (ro n)) OR (reg d n AND ro n),
              n + 1 := (ucast (drop_bit 32 v) AND NOT (ro (n + 1))) OR (reg d (n + 1) AND ro (n + 1)))"
    using assms ne unfolding io_apic_device_def IoApicWrite64_def IoApicWrite_def MmioWrite32_def by simp
  show "b < 64 \<Longrightarrow> \<not> bit (reg_pair ro n) b \<Longrightarrow> bit (reg_pair (reg (IoApicWrite64 dev a n v d)) n) b = bit v b"
    "b < 64 \<Longrightarrow> bit (reg_pair ro n) b \<Longrightarrow> bit (reg_pair (reg (IoApicWrite64 dev a n v d)) n) b = bit (reg_pair (reg d) n) b"
    using ne by (auto simp: r bit_reg_pair bit_or_iff bit_and_iff bit_not_iff bit_ucast_iff bit_drop_bit_eq dest: bit_imp_le_length split: if_splits)
qed

lemma read64:
  assumes "io_apic_device dev (VaddrBase a) reg ro"
  shows "fst (IoApicRead64 dev a n d) = reg_pair (reg d) n" "reg (snd (IoApicRead64 dev a n d)) = reg d"
  using assms unfolding io_apic_device_def IoApicRead64_def IoApicRead_def MmioWrite32_def MmioRead32_def reg_pair_def
  by (simp_all add: case_prod_beta)

text \<open>The register pair of an interrupt request, and when the search finds a controller.\<close>

definition redirection_register :: "IoApicInfo \<Rightarrow> DWORD \<Rightarrow> UINT" where
  "redirection_register a IRQ = 0x10 + (IRQ - FirstIRQ a) * 2"

lemma find_loop:
  "FindLoop s IRQ is = Inr (Some i) \<Longrightarrow> \<exists>j \<in> set is. j < length (IoApicIDs s) \<and> i = unat (IoApicIDs s ! j) \<and> i < length (IoApics s) \<and>
    E_V (IoApics s ! i) \<and> INIT (IoApics s ! i) \<and> FirstIRQ (IoApics s ! i) \<le> IRQ \<and>
    IRQ \<le> FirstIRQ (IoApics s ! i) + ucast (MaxRedirEntry (IoApics s ! i))"
  by (induction "is") (auto simp: io_apic_at_def kbind_eq_Inr split: if_splits)

text \<open>
  C37: SetRedirectIRQ of a request some controller serves writes the vector into bits 0 to 7 and the processor
  into bits 56 to 63 of the redirection entry of exactly this request, and clears all its other writable
  bits, the mask bit included; SetEnableIRQ then changes only the mask bit of the entry. The controller found
  is a valid, initialised one whose range contains the request. No other register changes.
\<close>
theorem irq_redirection:
  assumes "FindIoApicForIRQ s IRQ = Inr (Some i)" "a = IoApics s ! i" "io_apic_device dev (VaddrBase a) reg ro"
    "P < MAX_SMP_PROCESSORS" "n = redirection_register a IRQ" "\<not> bit (reg_pair ro n) 16"
  shows "(E_V a \<and> INIT a \<and> FirstIRQ a \<le> IRQ \<and> IRQ \<le> FirstIRQ a + ucast (MaxRedirEntry a)) \<and>
    (\<exists>d1 d2. SetRedirectIRQ dev s IRQ P V d = Inr (True, d1) \<and> SetEnableIRQ dev s IRQ e d1 = Inr (True, d2) \<and>
      (\<forall>b < 64. \<not> bit (reg_pair ro n) b \<longrightarrow> bit (reg_pair (reg d1) n) b = (if b < 8 then bit V b else 56 \<le> b \<and> bit P (b - 56))) \<and>
      (\<forall>b < 64. bit (reg_pair (reg d2) n) b = (if b = 16 then \<not> e else bit (reg_pair (reg d1) n) b)) \<and>
      (\<forall>r. r \<notin> {n, n + 1} \<longrightarrow> reg d1 r = reg d r \<and> reg d2 r = reg d r))"
proof
  show "E_V a \<and> INIT a \<and> FirstIRQ a \<le> IRQ \<and> IRQ \<le> FirstIRQ a + ucast (MaxRedirEntry a)"
    using find_loop [OF assms(1) [unfolded FindIoApicForIRQ_def]] assms(2) by auto
  note dev = assms(3)
  define v where "v = (ucast V OR push_bit 56 (ucast P) :: QWORD)"
  define d1 where "d1 = IoApicWrite64 dev a n v d"
  define old where "old = IoApicRead64 dev a n d1"
  define w where "w = (if e then fst old AND NOT IRQMASK else fst old OR IRQMASK)"
  define d2 where "d2 = IoApicWrite64 dev a n w (snd old)"
  have n: "IOREDTBL + (IRQ - FirstIRQ a) * 2 = n" by (simp add: assms(5) redirection_register_def IOREDTBL_def)
  have P: "\<not> MAX_SMP_PROCESSORS \<le> P" using assms(4) by simp
  have c1: "SetRedirectIRQ dev s IRQ P V d = Inr (True, d1)"
    using P by (simp add: SetRedirectIRQ_def assms(1) Let_def assms(2) [symmetric] n d1_def v_def del: left_diff_distrib_numeral)
  have c2: "SetEnableIRQ dev s IRQ e d1 = Inr (True, d2)"
    by (simp add: SetEnableIRQ_def assms(1) Let_def assms(2) [symmetric] n d2_def w_def old_def case_prod_beta del: left_diff_distrib_numeral)
  have bv: "bit v b = (if b < 8 then bit V b else 56 \<le> b \<and> bit P (b - 56))" if "b < 64" for b
    using that by (auto simp: v_def bit_or_iff bit_push_bit_iff bit_ucast_iff dest: bit_imp_le_length)
  have b1: "bit (reg_pair (reg d1) n) b = (if b < 8 then bit V b else 56 \<le> b \<and> bit P (b - 56))"
    if "b < 64" "\<not> bit (reg_pair ro n) b" for b
    using write64(2) [OF dev that] bv [OF that(1)] by (simp add: d1_def)
  have mask: "bit IRQMASK b = (b = 16)" for b unfolding IRQMASK_def bit_one_shifted by auto
  have bw: "bit w b = (if b = 16 then \<not> e else bit (reg_pair (reg d1) n) b)" if "b < 64" for b
    using that read64(1) [OF dev, of n d1] by (auto simp: w_def old_def bit_and_iff bit_or_iff bit_not_iff mask)
  have b2: "bit (reg_pair (reg d2) n) b = (if b = 16 then \<not> e else bit (reg_pair (reg d1) n) b)" if "b < 64" for b
  proof (cases "bit (reg_pair ro n) b")
    case True
    then have "b \<noteq> 16" using assms(6) by blast
    then show ?thesis using write64(3) [OF dev that True, of w "snd old"] read64(2) [OF dev, of n d1] by (simp add: d2_def old_def)
  next
    case False
    then show ?thesis using write64(2) [OF dev that False, of w "snd old"] bw [OF that] by (simp add: d2_def)
  qed
  have o1: "reg d1 r = reg d r" if "r \<notin> {n, n + 1}" for r
    using that by (simp add: d1_def write64(1) [OF dev])
  have o2: "reg d2 r = reg d r" if "r \<notin> {n, n + 1}" for r
    using that o1 [OF that] read64(2) [OF dev, of n d1] by (simp add: d2_def old_def write64(1) [OF dev])
  show "\<exists>d1 d2. SetRedirectIRQ dev s IRQ P V d = Inr (True, d1) \<and> SetEnableIRQ dev s IRQ e d1 = Inr (True, d2) \<and>
      (\<forall>b < 64. \<not> bit (reg_pair ro n) b \<longrightarrow> bit (reg_pair (reg d1) n) b = (if b < 8 then bit V b else 56 \<le> b \<and> bit P (b - 56))) \<and>
      (\<forall>b < 64. bit (reg_pair (reg d2) n) b = (if b = 16 then \<not> e else bit (reg_pair (reg d1) n) b)) \<and>
      (\<forall>r. r \<notin> {n, n + 1} \<longrightarrow> reg d1 r = reg d r \<and> reg d2 r = reg d r)"
    using c1 c2 b1 b2 o1 o2 by blast
qed

text \<open>A controller whose delivery status, bit 12, and remote IRR, bit 14, are read-only.\<close>

definition wit_dev :: "(DWORD \<times> (UINT \<Rightarrow> DWORD)) devices" where
  "wit_dev = \<lparr> dev_read32 = (\<lambda>p (i, r). (if p = 0xFEC00010 then r i else 0, (i, r))),
     dev_write32 = (\<lambda>p v (i, r). if p = 0xFEC00000 then (v, r)
       else if p = 0xFEC00010 then (i, r(i := (v AND NOT 0x5000) OR (r i AND 0x5000))) else (i, r)),
     port_in8 = (\<lambda>_ d. (0, d)), port_out8 = (\<lambda>_ _ d. d), port_in32 = (\<lambda>_ d. (0, d)) \<rparr>"

definition wit_ioapics :: ioapic_state where
  "wit_ioapics = \<lparr> IoApics = [\<lparr> PaddrBase = 0xFEC00000, VaddrBase = 0xFEC00000, IoApicID = 0, FirstIRQ = 0, Version = 0,
     MaxRedirEntry = 23, E_V = True, INIT = True \<rparr>], IoApicIDs = [0], IoApicCount = 1 \<rparr>"

theorem irq_redirection_witness:
  "\<exists>d1. SetRedirectIRQ wit_dev wit_ioapics 1 3 0x21 (0, \<lambda>_. 0) = Inr (True, d1) \<and> \<not> bit (reg_pair (snd d1) 0x12) 16 \<and> bit (reg_pair (snd d1) 0x12) 57"
proof -
  have f: "FindIoApicForIRQ wit_ioapics 1 = Inr (Some 0)"
    by (simp add: FindIoApicForIRQ_def wit_ioapics_def io_apic_at_def)
  have d: "io_apic_device wit_dev 0xFEC00000 snd (\<lambda>_. 0x5000)"
    by (auto simp: io_apic_device_def wit_dev_def IOREGSEL_def IOREGWIN_def split: prod.splits)
  have v: "VaddrBase (IoApics wit_ioapics ! 0) = 0xFEC00000" by (simp add: wit_ioapics_def)
  have n: "0x12 = redirection_register (IoApics wit_ioapics ! 0) 1" by (simp add: redirection_register_def wit_ioapics_def)
  have r: "\<not> bit (reg_pair (\<lambda>_. 0x5000) 0x12) 16" "\<not> bit (reg_pair (\<lambda>_. 0x5000) 0x12) 57"
    unfolding bit_reg_pair by simp_all
  have "(3 :: DWORD) < MAX_SMP_PROCESSORS" by (simp add: MAX_SMP_PROCESSORS_def)
  moreover have "io_apic_device wit_dev (VaddrBase (IoApics wit_ioapics ! 0)) snd (\<lambda>_. 0x5000)" using d v by simp
  ultimately have "\<exists>d1. SetRedirectIRQ wit_dev wit_ioapics 1 3 0x21 (0, \<lambda>_. 0) = Inr (True, d1) \<and>
      (\<forall>b < 64. \<not> bit (reg_pair (\<lambda>_. 0x5000) 0x12) b \<longrightarrow> bit (reg_pair (snd d1) 0x12) b = (if b < 8 then bit (0x21 :: UCHAR) b else 56 \<le> b \<and> bit (3 :: DWORD) (b - 56)))"
    using irq_redirection [OF f refl _ _ n r(1), where dev = wit_dev and reg = snd and P = 3 and V = "0x21" and d = "(0, \<lambda>_. 0)"] by blast
  then obtain d1 where d1: "SetRedirectIRQ wit_dev wit_ioapics 1 3 0x21 (0, \<lambda>_. 0) = Inr (True, d1)"
    "\<And>b. b < 64 \<Longrightarrow> \<not> bit (reg_pair (\<lambda>_. 0x5000) 0x12) b \<Longrightarrow>
      bit (reg_pair (snd d1) 0x12) b = (if b < 8 then bit (0x21 :: UCHAR) b else 56 \<le> b \<and> bit (3 :: DWORD) (b - 56))"
    by blast
  have "\<not> bit (reg_pair (snd d1) 0x12) 16" "bit (reg_pair (snd d1) 0x12) 57"
    using d1(2) [of 16] d1(2) [of 57] r by simp_all
  then show ?thesis using d1(1) by blast
qed

end
