(* ===== verification/Descriptors.thy ===== *)
theory Descriptors
  imports Meltdown
begin

text \<open>
  Segment and interrupt descriptors: \<^verbatim>\<open>Kernel/Source/CPU/GDT.c\<close>, \<^verbatim>\<open>Kernel/Source/CPU/IDT.c\<close> and
  \<^verbatim>\<open>Kernel/Source/Init/KrInitGDT.c\<close>. An encoder returns the bytes or the record it stores; loading the tables
  into the processor is not modelled.
\<close>

section \<open>Segment descriptors\<close>

definition GDT_ACCESS_DPL_HIGHEST_PRIVILEGE :: BYTE where "GDT_ACCESS_DPL_HIGHEST_PRIVILEGE = 0"
definition GDT_SEGMENT_DESCRIPTOR_ENTRY_SIZE :: nat where "GDT_SEGMENT_DESCRIPTOR_ENTRY_SIZE = 8"

record KrGlobalDescriptorTableSegmentDescriptor =
  Limit :: DWORD
  Base :: DWORD
  Access_Accessed :: BYTE
  Access_ReadWrite :: BYTE
  Access_DC :: BYTE
  Access_Executable :: BYTE
  Access_DescType :: BYTE
  Access_DPL :: BYTE
  Access_Present :: BYTE
  Flags_Reserved :: BYTE
  Flags_LongModeCode :: BYTE
  Flags_Size :: BYTE
  Flags_Granularity :: BYTE

datatype KrEncodeSegmentDescriptor_Result = ENCODE_SEGMENT_DESCRIPTOR_SUCCESS | ENCODE_SEGMENT_DESCRIPTOR_LIMIT_TOO_LARGE

definition AccessByte :: "KrGlobalDescriptorTableSegmentDescriptor \<Rightarrow> BYTE" where
  "AccessByte d =
     push_bit 7 (Access_Present d AND 0x01) OR push_bit 5 (Access_DPL d AND 0x03) OR
     push_bit 4 (Access_DescType d AND 0x01) OR push_bit 3 (Access_Executable d AND 0x01) OR
     push_bit 2 (Access_DC d AND 0x01) OR push_bit 1 (Access_ReadWrite d AND 0x01) OR push_bit 0 (Access_Accessed d AND 0x01)"

definition FlagsNibble :: "KrGlobalDescriptorTableSegmentDescriptor \<Rightarrow> BYTE" where
  "FlagsNibble d =
     push_bit 3 (Flags_Granularity d AND 0x01) OR push_bit 2 (Flags_Size d AND 0x01) OR
     push_bit 1 (Flags_LongModeCode d AND 0x01) OR push_bit 0 (Flags_Reserved d AND 0x01)"

text \<open>The bytes stored at the destination, none when the limit is too large.\<close>

definition KrEncodeSegmentDescriptor :: "KrGlobalDescriptorTableSegmentDescriptor \<Rightarrow> KrEncodeSegmentDescriptor_Result \<times> BYTE list" where
  "KrEncodeSegmentDescriptor d =
     (if Limit d > 0xFFFFF then (ENCODE_SEGMENT_DESCRIPTOR_LIMIT_TOO_LARGE, [])
      else (ENCODE_SEGMENT_DESCRIPTOR_SUCCESS,
        [ucast (drop_bit 0 (Limit d) AND 0xFF), ucast (drop_bit 8 (Limit d) AND 0xFF),
         ucast (drop_bit 0 (Base d) AND 0xFF), ucast (drop_bit 8 (Base d) AND 0xFF), ucast (drop_bit 16 (Base d) AND 0xFF),
         AccessByte d,
         push_bit 4 (FlagsNibble d) OR ucast (drop_bit 12 (Limit d) AND 0xF),
         ucast (drop_bit 24 (Base d) AND 0xFF)]))"

definition KrConstructSegmentSelector :: "BYTE \<Rightarrow> WORD \<Rightarrow> WORD" where
  "KrConstructSegmentSelector RPL i =
     (if RPL > 3 \<or> i > 0x1FFF then 0 else (push_bit 3 i AND 0xFFF8) OR ucast (RPL AND 0x03))"

section \<open>Interrupt descriptors\<close>

record KrInterruptDescriptor =
  OffsetLow :: WORD
  SegmentSelector :: WORD
  IST :: BYTE
  Attributes :: BYTE
  OffsetMid :: WORD
  OffsetHigh :: DWORD
  Reserved :: DWORD

definition KR_GATE_TYPE_INTERRUPT :: BYTE where "KR_GATE_TYPE_INTERRUPT = 0xE"
definition KR_GATE_TYPE_TRAP :: BYTE where "KR_GATE_TYPE_TRAP = 0xF"

definition KrEncodeInterruptDescriptor :: "QWORD \<Rightarrow> WORD \<Rightarrow> BYTE \<Rightarrow> BYTE \<Rightarrow> BYTE \<Rightarrow> KrInterruptDescriptor" where
  "KrEncodeInterruptDescriptor offset ssl ist gateType dpl =
     \<lparr> OffsetLow = ucast (offset AND 0xFFFF), SegmentSelector = ssl, IST = ist AND 0x7,
       Attributes = push_bit 7 1 OR push_bit 5 (dpl AND 0x03) OR (gateType AND 0xF),
       OffsetMid = ucast (drop_bit 16 offset AND 0xFFFF), OffsetHigh = ucast (drop_bit 32 offset AND 0xFFFFFFFF), Reserved = 0 \<rparr>"

definition KrConstructInterruptDescriptor :: "QWORD \<Rightarrow> WORD \<Rightarrow> BYTE \<Rightarrow> BYTE \<Rightarrow> BYTE \<Rightarrow> KrInterruptDescriptor" where
  "KrConstructInterruptDescriptor offset ssl ist gateType dpl = KrEncodeInterruptDescriptor offset ssl ist gateType dpl"

section \<open>The kernel's segments\<close>

record KrGlobalDescriptorTableState =
  AddrDescriptorTable :: UINTPTR
  NumberOfDescriptorEntries :: WORD
  KernelCodeSegmentSelector :: WORD
  KernelDataSegmentSelector :: WORD

definition pNullDesc :: KrGlobalDescriptorTableSegmentDescriptor where
  "pNullDesc = \<lparr> Limit = 0, Base = 0, Access_Accessed = 0, Access_ReadWrite = 0, Access_DC = 0, Access_Executable = 0,
     Access_DescType = 0, Access_DPL = 0, Access_Present = 0, Flags_Reserved = 0, Flags_LongModeCode = 0, Flags_Size = 0,
     Flags_Granularity = 0 \<rparr>"

definition pKrnlCodeDesc :: KrGlobalDescriptorTableSegmentDescriptor where
  "pKrnlCodeDesc = \<lparr> Limit = 0xFFFFF, Base = 0, Access_Accessed = 1, Access_ReadWrite = 1, Access_DC = 0, Access_Executable = 1,
     Access_DescType = 1, Access_DPL = GDT_ACCESS_DPL_HIGHEST_PRIVILEGE, Access_Present = 1, Flags_Reserved = 0,
     Flags_LongModeCode = 1, Flags_Size = 0, Flags_Granularity = 1 \<rparr>"

definition pKrnlDataDesc :: KrGlobalDescriptorTableSegmentDescriptor where
  "pKrnlDataDesc = \<lparr> Limit = 0xFFFFF, Base = 0, Access_Accessed = 1, Access_ReadWrite = 1, Access_DC = 0, Access_Executable = 0,
     Access_DescType = 1, Access_DPL = GDT_ACCESS_DPL_HIGHEST_PRIVILEGE, Access_Present = 1, Flags_Reserved = 0,
     Flags_LongModeCode = 0, Flags_Size = 0, Flags_Granularity = 1 \<rparr>"

text \<open>The bytes of the table and the recorded state; \<open>Addr\<close> is the address of the table.\<close>

definition KrInitGDT :: "UINTPTR \<Rightarrow> BYTE list \<times> KrGlobalDescriptorTableState" where
  "KrInitGDT Addr =
     (concat (map (\<lambda>d. snd (KrEncodeSegmentDescriptor d)) [pNullDesc, pKrnlCodeDesc, pKrnlDataDesc]),
      \<lparr> AddrDescriptorTable = Addr, NumberOfDescriptorEntries = 3,
        KernelCodeSegmentSelector = KrConstructSegmentSelector GDT_ACCESS_DPL_HIGHEST_PRIVILEGE 1,
        KernelDataSegmentSelector = KrConstructSegmentSelector GDT_ACCESS_DPL_HIGHEST_PRIVILEGE 2 \<rparr>)"

section \<open>What the processor reads\<close>

definition seg_base :: "BYTE list \<Rightarrow> DWORD" where
  "seg_base b = ucast (b ! 2) OR push_bit 8 (ucast (b ! 3)) OR push_bit 16 (ucast (b ! 4)) OR push_bit 24 (ucast (b ! 7))"

definition seg_limit :: "BYTE list \<Rightarrow> DWORD" where
  "seg_limit b = ucast (b ! 0) OR push_bit 8 (ucast (b ! 1)) OR push_bit 16 (ucast (b ! 6 AND 0xF))"

definition gate_offset :: "KrInterruptDescriptor \<Rightarrow> QWORD" where
  "gate_offset g = ucast (OffsetLow g) OR push_bit 16 (ucast (OffsetMid g)) OR push_bit 32 (ucast (OffsetHigh g))"

lemma desc_masks:
  "(0xFF :: 'a::len word) = mask 8" "(0xF :: 'a::len word) = mask 4" "(0xFFFF :: 'a::len word) = mask 16"
  "(0xFFFFFFFF :: 'a::len word) = mask 32" "(0x7 :: 'a::len word) = mask 3" "(0x3 :: 'a::len word) = mask 2" "(0x1 :: 'a::len word) = mask 1"
  by (simp_all add: mask_eq_exp_minus_1)

lemmas bit_simps' = bit_or_iff bit_and_iff bit_push_bit_iff bit_drop_bit_eq bit_ucast_iff bit_mask_iff

lemma gate_roundtrip: "gate_offset (KrEncodeInterruptDescriptor offset ssl ist gateType dpl) = offset"
proof (rule bit_word_eqI)
  fix n assume "n < LENGTH(64)"
  then show "bit (gate_offset (KrEncodeInterruptDescriptor offset ssl ist gateType dpl)) n = bit offset n"
    unfolding gate_offset_def KrEncodeInterruptDescriptor_def KrInterruptDescriptor.simps desc_masks
    by (cases "n < 16"; cases "n < 32") (auto simp: bit_simps' less_diff_conv2)
qed

lemma base_roundtrip: "seg_base (snd (KrEncodeSegmentDescriptor d)) = Base d" if "\<not> Limit d > 0xFFFFF"
proof (rule bit_word_eqI)
  fix n assume "n < LENGTH(32)"
  then show "bit (seg_base (snd (KrEncodeSegmentDescriptor d))) n = bit (Base d) n"
    using that unfolding seg_base_def KrEncodeSegmentDescriptor_def desc_masks(1,2)
    by (cases "n < 8"; cases "n < 16"; cases "n < 24") (auto simp: bit_simps' less_diff_conv2)
qed

lemma access_byte: "snd (KrEncodeSegmentDescriptor d) ! 5 = AccessByte d" if "\<not> Limit d > 0xFFFFF"
  using that unfolding KrEncodeSegmentDescriptor_def by simp

lemma limit_low: "seg_limit (snd (KrEncodeSegmentDescriptor d)) = (Limit d AND mask 16) OR push_bit 16 (drop_bit 12 (Limit d) AND mask 4)"
  if "\<not> Limit d > 0xFFFFF"
  using that unfolding seg_limit_def KrEncodeSegmentDescriptor_def desc_masks(1,2)
  by (intro bit_word_eqI) (auto simp: bit_simps')


text \<open>
  What the kernel encodes is what the processor reads. The 64-bit offset, the gate type, the privilege
  level and the stack of an interrupt gate are read back, and the gate is present. The base of a segment is
  read back for every limit the encoder accepts, but its limit only when bits 16 to 19 repeat bits 12 to 15,
  because the encoder takes the high part of the limit from bit 12 on. The kernel's own table is the null
  descriptor, a present long-mode code segment and a present data segment, with the selectors 8 and 16.
\<close>
theorem descriptor_encoding:
  "gate_offset (KrEncodeInterruptDescriptor off ssl ist ty dpl) = off \<and>
   SegmentSelector (KrEncodeInterruptDescriptor off ssl ist ty dpl) = ssl \<and>
   Attributes (KrEncodeInterruptDescriptor off ssl ist ty dpl) AND 0xF = ty AND 0xF \<and>
   drop_bit 5 (Attributes (KrEncodeInterruptDescriptor off ssl ist ty dpl)) AND 0x3 = dpl AND 0x3 \<and>
   bit (Attributes (KrEncodeInterruptDescriptor off ssl ist ty dpl)) 7 \<and>
   (if Limit d > 0xFFFFF then fst (KrEncodeSegmentDescriptor d) = ENCODE_SEGMENT_DESCRIPTOR_LIMIT_TOO_LARGE
    else seg_base (snd (KrEncodeSegmentDescriptor d)) = Base d \<and>
      (seg_limit (snd (KrEncodeSegmentDescriptor d)) = Limit d \<longleftrightarrow> drop_bit 16 (Limit d) = drop_bit 12 (Limit d) AND 0xF)) \<and>
   KrInitGDT Addr =
     ([0, 0, 0, 0, 0, 0, 0, 0, 0xFF, 0xFF, 0, 0, 0, 0x9B, 0xAF, 0, 0xFF, 0xFF, 0, 0, 0, 0x93, 0x8F, 0],
      \<lparr> AddrDescriptorTable = Addr, NumberOfDescriptorEntries = 3, KernelCodeSegmentSelector = 8, KernelDataSegmentSelector = 16 \<rparr>)"
proof -
  let ?g = "KrEncodeInterruptDescriptor off ssl ist ty dpl"
  have at: "Attributes ?g AND 0xF = ty AND 0xF \<and> drop_bit 5 (Attributes ?g) AND 0x3 = dpl AND 0x3 \<and> bit (Attributes ?g) 7"
    unfolding KrEncodeInterruptDescriptor_def KrInterruptDescriptor.simps desc_masks
    by (intro conjI bit_word_eqI) (simp_all only: bit_simps' bit_1_iff comp_apply, auto)
  have lim: "seg_limit (snd (KrEncodeSegmentDescriptor d)) = Limit d \<longleftrightarrow> drop_bit 16 (Limit d) = drop_bit 12 (Limit d) AND 0xF"
    if l: "\<not> Limit d > 0xFFFFF"
  proof -
    have hi: "\<not> bit (Limit d) n" if "20 \<le> n" for n
    proof -
      have "unat (Limit d) < 2 ^ 20" using l by (simp add: not_less word_le_nat_alt)
      then have "unat (Limit d) < 2 ^ n" using that by (meson less_le_trans one_le_numeral power_increasing)
      then have "\<not> bit (unat (Limit d)) n" by (simp add: bit_iff_odd)
      then show ?thesis by (simp add: bit_unsigned_iff)
    qed
    have sl: "bit (seg_limit (snd (KrEncodeSegmentDescriptor d))) n \<longleftrightarrow> (if n < 16 then bit (Limit d) n else n < 20 \<and> bit (Limit d) (n - 4))" for n
      unfolding limit_low [OF l] by (auto simp: bit_simps' less_diff_conv2 dest: bit_imp_le_length)
    show ?thesis
    proof
      assume e: "seg_limit (snd (KrEncodeSegmentDescriptor d)) = Limit d"
      show "drop_bit 16 (Limit d) = drop_bit 12 (Limit d) AND 0xF"
      proof (rule bit_word_eqI)
        fix m assume "m < LENGTH(32)"
        show "bit (drop_bit 16 (Limit d)) m = bit (drop_bit 12 (Limit d) AND 0xF) m"
          using sl [of "16 + m"] unfolding e desc_masks by (auto simp: bit_simps' add.commute)
      qed
    next
      assume e: "drop_bit 16 (Limit d) = drop_bit 12 (Limit d) AND 0xF"
      show "seg_limit (snd (KrEncodeSegmentDescriptor d)) = Limit d"
      proof (rule bit_word_eqI)
        fix n assume "n < LENGTH(32)"
        have "bit (drop_bit 16 (Limit d)) (n - 16) = bit (drop_bit 12 (Limit d) AND 0xF) (n - 16)" using e by simp
        then show "bit (seg_limit (snd (KrEncodeSegmentDescriptor d))) n = bit (Limit d) n"
          using hi [of n] unfolding sl desc_masks by (cases "n < 16"; cases "n < 20") (auto simp: bit_simps' less_diff_conv2)
      qed
    qed
  qed
  have gdt: "KrInitGDT Addr =
     ([0, 0, 0, 0, 0, 0, 0, 0, 0xFF, 0xFF, 0, 0, 0, 0x9B, 0xAF, 0, 0xFF, 0xFF, 0, 0, 0, 0x93, 0x8F, 0],
      \<lparr> AddrDescriptorTable = Addr, NumberOfDescriptorEntries = 3, KernelCodeSegmentSelector = 8, KernelDataSegmentSelector = 16 \<rparr>)"
    by (simp add: KrInitGDT_def pNullDesc_def pKrnlCodeDesc_def pKrnlDataDesc_def KrEncodeSegmentDescriptor_def AccessByte_def
      FlagsNibble_def KrConstructSegmentSelector_def GDT_ACCESS_DPL_HIGHEST_PRIVILEGE_def)
  have sel: "SegmentSelector ?g = ssl" by (simp add: KrEncodeInterruptDescriptor_def)
  have seg: "if Limit d > 0xFFFFF then fst (KrEncodeSegmentDescriptor d) = ENCODE_SEGMENT_DESCRIPTOR_LIMIT_TOO_LARGE
    else seg_base (snd (KrEncodeSegmentDescriptor d)) = Base d \<and>
      (seg_limit (snd (KrEncodeSegmentDescriptor d)) = Limit d \<longleftrightarrow> drop_bit 16 (Limit d) = drop_bit 12 (Limit d) AND 0xF)"
  proof (cases "Limit d > 0xFFFFF")
    case True
    then show ?thesis unfolding if_P [OF True] by (simp add: KrEncodeSegmentDescriptor_def)
  next
    case False
    show ?thesis unfolding if_not_P [OF False] using base_roundtrip [OF False] lim [OF False] by (rule conjI)
  qed
  show ?thesis by (intro conjI gate_roundtrip sel seg gdt at [THEN conjunct1] at [THEN conjunct2, THEN conjunct1] at [THEN conjunct2, THEN conjunct2])
qed

end
