(* ===== verification/Interrupts.thy ===== *)
theory Interrupts
  imports Descriptors Spinlock
begin

text \<open>
  The per-processor interrupt tables of \<^verbatim>\<open>Kernel/Source/CPU/PerCpu.c\<close>, the dispatcher of
  \<^verbatim>\<open>Kernel/Source/CPU/Interrupt.c\<close>, the set-up of \<^verbatim>\<open>Kernel/Source/Init/KrInitInt.c\<close> and the choice of a
  vector for a request, \<^verbatim>\<open>Kernel/Source/Intmgmt/IRQAldist.c\<close>. A handler is named by a constructor; a processor
  is an index into the array of all processors. The addresses of the service routines are a parameter: they
  are assembly.
\<close>

section \<open>State\<close>

datatype IntHandler = HProcessorException | HNonmaskableInterrupt | HPageFault | HTimerInterrupt | HSpuriousInterrupt | HKeyboardInterrupt

record PerCpuInterrupt =
  Handler :: "IntHandler option"
  HwDevice :: UINTPTR
  IntIRQ :: DWORD
  Vector :: UCHAR

record TimerInfo =
  CalibrationValue :: DWORD
  TimerRoot :: UINTPTR
  TimerDeferredRoot :: UINTPTR
  bInTimerInt :: bool
  SleepCounter :: UCHAR

record PerCpu =
  pSelf :: "nat option"
  CpuIdent :: DWORD
  bInPageFault :: bool
  TimerInf :: TimerInfo
  IntmodSpinlock :: DWORD
  Interrupt :: "PerCpuInterrupt list"

type_synonym cpus = "PerCpu list"

definition NUM_INT_VECTORS :: nat where "NUM_INT_VECTORS = 256"
definition KR_PROCESSOR_RESERVED_INTERRUPT_COUNT :: nat where "KR_PROCESSOR_RESERVED_INTERRUPT_COUNT = 32"
definition INT_VECTOR_NON_MASKABLE_INTERRUPT :: UCHAR where "INT_VECTOR_NON_MASKABLE_INTERRUPT = 2"
definition INT_VECTOR_PAGE_FAULT :: UCHAR where "INT_VECTOR_PAGE_FAULT = 14"
definition KERNEL_TIMER_INTERRUPT_VECTOR :: UCHAR where "KERNEL_TIMER_INTERRUPT_VECTOR = 0x20"
definition KERNEL_SPURIOUS_INTERRUPT_VECTOR :: UCHAR where "KERNEL_SPURIOUS_INTERRUPT_VECTOR = 0xFF"

section \<open>Interrupt tables\<close>

text \<open>A pointer to a processor's structure; past the array it is a fault.\<close>

definition GetThatCpu :: "cpus \<Rightarrow> DWORD \<Rightarrow> nat kres" where
  "GetThatCpu cs CpuID = (if unat CpuID < length cs then Inr (unat CpuID) else Inl OutOfBounds)"

definition with_lock :: "cpus \<Rightarrow> DWORD \<Rightarrow> (PerCpuInterrupt list \<Rightarrow> PerCpuInterrupt list) \<Rightarrow> cpus kres" where
  "with_lock cs CpuID upd =
     kbind (GetThatCpu cs CpuID) (\<lambda>c.
     kbind (AcquireOrWaitSpinlock (IntmodSpinlock (cs ! c))) (\<lambda>l.
       Inr (cs[c := (cs ! c)\<lparr> Interrupt := upd (Interrupt (cs ! c)), IntmodSpinlock := RelinquishSpinlock l \<rparr>])))"

definition SetInterrupt :: "cpus \<Rightarrow> DWORD \<Rightarrow> PerCpuInterrupt \<Rightarrow> cpus kres" where
  "SetInterrupt cs CpuID Data = with_lock cs CpuID (\<lambda>t. t[unat (Vector Data) := Data])"

definition SetHardwareInterrupt :: "cpus \<Rightarrow> DWORD \<Rightarrow> UCHAR \<Rightarrow> UINTPTR \<Rightarrow> DWORD \<Rightarrow> IntHandler option \<Rightarrow> cpus kres" where
  "SetHardwareInterrupt cs CpuID IntVector Dev I H =
     SetInterrupt cs CpuID \<lparr> Handler = H, HwDevice = Dev, IntIRQ = I, Vector = IntVector \<rparr>"

definition SetExceptionInterrupt :: "cpus \<Rightarrow> DWORD \<Rightarrow> UCHAR \<Rightarrow> IntHandler option \<Rightarrow> cpus kres" where
  "SetExceptionInterrupt cs CpuID IntVector H =
     SetInterrupt cs CpuID \<lparr> Handler = H, HwDevice = 0, IntIRQ = DWORD_MAX, Vector = IntVector \<rparr>"

definition SetInterruptHandler :: "cpus \<Rightarrow> DWORD \<Rightarrow> UCHAR \<Rightarrow> IntHandler option \<Rightarrow> cpus kres" where
  "SetInterruptHandler cs CpuID V H = with_lock cs CpuID (\<lambda>t. t[unat V := (t ! unat V)\<lparr> Handler := H \<rparr>])"

definition UnsetInterrupt :: "cpus \<Rightarrow> DWORD \<Rightarrow> UCHAR \<Rightarrow> cpus kres" where
  "UnsetInterrupt cs CpuID IntVector =
     with_lock cs CpuID (\<lambda>t. t[unat IntVector := \<lparr> Handler = None, HwDevice = 0, IntIRQ = DWORD_MAX, Vector = 0 \<rparr>])"

text \<open>\<open>EBX\<close> is what the processor answers; the second result is the processor that runs.\<close>

definition GrabThisCpuStruct :: "cpus \<Rightarrow> DWORD \<Rightarrow> (cpus \<times> nat) kres" where
  "GrabThisCpuStruct cs EBX =
     (let ApicID = ucast (drop_bit 24 EBX) :: BYTE; i = unat ApicID
      in if i < length cs then Inr (cs[i := (cs ! i)\<lparr> pSelf := Some i, CpuIdent := ucast ApicID \<rparr>], i) else Inl OutOfBounds)"

definition GetThisCpuID :: "cpus \<Rightarrow> nat \<Rightarrow> DWORD" where
  "GetThisCpuID cs me = CpuIdent (cs ! me)"

section \<open>Dispatch\<close>

record InterruptFrame =
  fR15 :: QWORD
  fR14 :: QWORD
  fR13 :: QWORD
  fR12 :: QWORD
  fR11 :: QWORD
  fR10 :: QWORD
  fR9 :: QWORD
  fR8 :: QWORD
  fRDI :: QWORD
  fRSI :: QWORD
  fRBP :: QWORD
  fRDX :: QWORD
  fRCX :: QWORD
  fRBX :: QWORD
  fRAX :: QWORD
  InterruptNo :: ULONG
  ErrorCode :: ULONG
  fRIP :: QWORD
  fCS :: QWORD
  fRFLAGS :: QWORD
  fRSP :: QWORD
  fSS :: QWORD

record KrProcessorSnapshot =
  sR15 :: QWORD
  sR14 :: QWORD
  sR13 :: QWORD
  sR12 :: QWORD
  sR11 :: QWORD
  sR10 :: QWORD
  sR9 :: QWORD
  sR8 :: QWORD
  sRDI :: QWORD
  sRSI :: QWORD
  sRBP :: QWORD
  sRDX :: QWORD
  sRCX :: QWORD
  sRBX :: QWORD
  sRAX :: QWORD
  sRFLAGS :: QWORD
  sRSP :: QWORD
  sRIP :: QWORD

definition InterruptFrameToProcessorSnapshot :: "InterruptFrame \<Rightarrow> KrProcessorSnapshot" where
  "InterruptFrameToProcessorSnapshot p =
     \<lparr> sR15 = fR15 p, sR14 = fR14 p, sR13 = fR13 p, sR12 = fR12 p, sR11 = fR11 p, sR10 = fR10 p, sR9 = fR9 p, sR8 = fR8 p,
       sRDI = fRDI p, sRSI = fRSI p, sRBP = fRBP p, sRDX = fRDX p, sRCX = fRCX p, sRBX = fRBX p, sRAX = fRAX p,
       sRFLAGS = fRFLAGS p, sRSP = fRSP p, sRIP = fRIP p \<rparr>"

text \<open>What the dispatcher makes the processor do, in order; after a halt nothing follows.\<close>

datatype DispatchAction = CallHandler IntHandler | IndefiniteHalt | EndOfInt

definition KrUnhandledInterrupt :: "InterruptFrame \<Rightarrow> DispatchAction list" where
  "KrUnhandledInterrupt p =
     (if InterruptNo p < of_nat KR_PROCESSOR_RESERVED_INTERRUPT_COUNT \<or> InterruptNo p = 3 then [IndefiniteHalt] else [])"

definition KrDispatchInterrupt :: "cpus \<Rightarrow> nat \<Rightarrow> InterruptFrame \<Rightarrow> DispatchAction list" where
  "KrDispatchInterrupt cs me p =
     (let called =
        (if InterruptNo p < of_nat NUM_INT_VECTORS
         then (case Handler (Interrupt (cs ! me) ! unat (InterruptNo p)) of
                 Some h \<Rightarrow> [CallHandler h] | None \<Rightarrow> KrUnhandledInterrupt p)
         else [])
      in if IndefiniteHalt \<in> set called then called
         else called @
           (if InterruptNo p \<ge> of_nat KR_PROCESSOR_RESERVED_INTERRUPT_COUNT \<and> InterruptNo p \<noteq> ucast KERNEL_SPURIOUS_INTERRUPT_VECTOR
            then [EndOfInt] else []))"

section \<open>Set-up\<close>

text \<open>\<open>isr i\<close> is the address of the service routine of vector \<open>i\<close>, \<open>ssl\<close> the selector of the code segment.\<close>

definition BuildIDT :: "(nat \<Rightarrow> QWORD) \<Rightarrow> WORD \<Rightarrow> KrInterruptDescriptor list" where
  "BuildIDT isr ssl =
     map (\<lambda>i. KrEncodeInterruptDescriptor (isr i) ssl 0 (if i \<noteq> 3 then KR_GATE_TYPE_INTERRUPT else KR_GATE_TYPE_TRAP) 0) [0..<NUM_INT_VECTORS]"

fun SetExceptionHandlers :: "nat \<Rightarrow> cpus \<Rightarrow> DWORD \<Rightarrow> nat \<Rightarrow> cpus kres" where
  "SetExceptionHandlers 0 cs CpuID i = Inr cs"
| "SetExceptionHandlers (Suc n) cs CpuID i =
     kbind (SetExceptionInterrupt cs CpuID (of_nat i) (Some HProcessorException)) (\<lambda>cs. SetExceptionHandlers n cs CpuID (i + 1))"

definition KrInitInt :: "(nat \<Rightarrow> QWORD) \<Rightarrow> WORD \<Rightarrow> KrInterruptDescriptor list option \<Rightarrow> cpus \<Rightarrow> nat \<Rightarrow> (KrInterruptDescriptor list \<times> cpus) kres" where
  "KrInitInt isr ssl IDT cs me =
     (let t = (case IDT of None \<Rightarrow> BuildIDT isr ssl | Some t \<Rightarrow> t); id = GetThisCpuID cs me
      in kbind (SetExceptionHandlers KR_PROCESSOR_RESERVED_INTERRUPT_COUNT cs id 0) (\<lambda>cs.
         kbind (SetExceptionInterrupt cs id INT_VECTOR_NON_MASKABLE_INTERRUPT (Some HNonmaskableInterrupt)) (\<lambda>cs.
         kbind (SetExceptionInterrupt cs id INT_VECTOR_PAGE_FAULT (Some HPageFault)) (\<lambda>cs.
         kbind (SetExceptionInterrupt cs id KERNEL_TIMER_INTERRUPT_VECTOR (Some HTimerInterrupt)) (\<lambda>cs.
         kbind (SetExceptionInterrupt cs id KERNEL_SPURIOUS_INTERRUPT_VECTOR (Some HSpuriousInterrupt)) (\<lambda>cs.
           Inr (t, cs)))))))"

section \<open>Choosing a vector for a request\<close>

record PairOfProcessorIntVector =
  OfferCpuID :: DWORD
  OfferIntVector :: UCHAR

definition FreeVector :: "PerCpuInterrupt list \<Rightarrow> nat option" where
  "FreeVector t = find (\<lambda>i. Vector (t ! i) = 0) [32..<NUM_INT_VECTORS]"

text \<open>\<open>ids\<close> are the identifiers of the active processors; the index of the next one to try is kept between calls.\<close>

function AldistRetry :: "cpus \<Rightarrow> UINT list \<Rightarrow> DWORD \<Rightarrow> nat \<Rightarrow> (PairOfProcessorIntVector \<times> DWORD) kres" where
  "AldistRetry cs ids Idx RetryCount =
     (if length ids \<le> unat Idx then Inl OutOfBounds
      else
        let Result = ids ! unat Idx;
            Idx1 = (if Idx + 1 \<ge> of_nat (length ids) then 0 else Idx + 1)
        in kbind (GetThatCpu cs Result) (\<lambda>c.
             case FreeVector (Interrupt (cs ! c)) of
               Some i \<Rightarrow> Inr (\<lparr> OfferCpuID = Result, OfferIntVector = of_nat i \<rparr>, Idx1)
             | None \<Rightarrow>
                 if RetryCount < length ids then AldistRetry cs ids Idx1 (RetryCount + 1)
                 else Inl (Meltdown KR_MDCODE_INTERRUPT_VECTORS_OVERRUN)))"
  by pat_completeness auto
termination
  by (relation "measure (\<lambda>(cs, ids, Idx, r). length ids - r)") auto

declare AldistRetry.simps [simp del]

definition AldistOfferSetupForIRQ :: "cpus \<Rightarrow> UINT list \<Rightarrow> DWORD \<Rightarrow> (PairOfProcessorIntVector \<times> DWORD) kres" where
  "AldistOfferSetupForIRQ cs ids Idx = AldistRetry cs ids Idx 0"

section \<open>Offers\<close>

definition cpu_table :: "cpus \<Rightarrow> DWORD \<Rightarrow> PerCpuInterrupt list" where
  "cpu_table cs i = Interrupt (cs ! unat i)"

text \<open>Every processor of the list exists, has a full table and nobody is changing it.\<close>

definition cpus_ok :: "cpus \<Rightarrow> UINT list \<Rightarrow> bool" where
  "cpus_ok cs ids \<longleftrightarrow> ids \<noteq> [] \<and> length ids \<le> 256 \<and>
     (\<forall>id \<in> set ids. unat id < length cs \<and> length (cpu_table cs id) = NUM_INT_VECTORS \<and> IntmodSpinlock (cs ! unat id) = 0)"

text \<open>The processor tried after \<open>k\<close> others.\<close>

definition candidate :: "UINT list \<Rightarrow> DWORD \<Rightarrow> nat \<Rightarrow> UINT" where
  "candidate ids Idx k = ids ! ((unat Idx + k) mod length ids)"

lemma next_index:
  assumes "unat (Idx :: DWORD) < n" "n \<le> 256"
  shows "unat (if Idx + 1 \<ge> of_nat n then 0 else Idx + 1) = (unat Idx + 1) mod n"
proof -
  have u: "unat (Idx + 1) = unat Idx + 1" using assms by (subst unat_plus_le) auto
  have "unat (of_nat n :: DWORD) = n" using assms(2) by (intro unat_of_nat_small) simp
  then show ?thesis using assms u by (cases "unat Idx + 1 = n") (auto simp: word_le_nat_alt)
qed

lemma find_upt: "find P [a..<b] = Some v \<longleftrightarrow> a \<le> v \<and> v < b \<and> P v \<and> (\<forall>j. a \<le> j \<and> j < v \<longrightarrow> \<not> P j)"
proof
  assume "find P [a..<b] = Some v"
  then obtain i where i: "i < b - a" "P (a + i)" "v = a + i" "\<forall>j < i. \<not> P (a + j)"
    by (auto simp: find_Some_iff)
  have "\<not> P j" if "a \<le> j" "j < v" for j using i(4) [rule_format, of "j - a"] that i(3) by simp
  then show "a \<le> v \<and> v < b \<and> P v \<and> (\<forall>j. a \<le> j \<and> j < v \<longrightarrow> \<not> P j)" using i by simp
next
  assume "a \<le> v \<and> v < b \<and> P v \<and> (\<forall>j. a \<le> j \<and> j < v \<longrightarrow> \<not> P j)"
  then show "find P [a..<b] = Some v" unfolding find_Some_iff by (intro exI [of _ "v - a"]) auto
qed

lemma free_vector:
  "FreeVector t = Some v \<longleftrightarrow> 32 \<le> v \<and> v < 256 \<and> Vector (t ! v) = 0 \<and> (\<forall>j. 32 \<le> j \<and> j < v \<longrightarrow> Vector (t ! j) \<noteq> 0)"
  unfolding FreeVector_def NUM_INT_VECTORS_def find_upt by blast

lemma free_vector_none: "FreeVector t = None \<longleftrightarrow> (\<forall>v. 32 \<le> v \<and> v < 256 \<longrightarrow> Vector (t ! v) \<noteq> 0)"
  unfolding FreeVector_def NUM_INT_VECTORS_def find_None_iff set_upt by auto

lemma aldist_retry:
  assumes "cpus_ok cs ids" "unat (Idx :: DWORD) < length ids" "r \<le> length ids"
  shows "AldistRetry cs ids Idx r =
    (case find (\<lambda>k. FreeVector (cpu_table cs (candidate ids Idx k)) \<noteq> None) [0..<Suc (length ids - r)] of
       Some k \<Rightarrow> Inr (\<lparr> OfferCpuID = candidate ids Idx k, OfferIntVector = of_nat (the (FreeVector (cpu_table cs (candidate ids Idx k)))) \<rparr>,
         (if of_nat ((unat Idx + k) mod length ids) + 1 \<ge> (of_nat (length ids) :: DWORD) then 0 else of_nat ((unat Idx + k) mod length ids) + 1))
     | None \<Rightarrow> Inl (Meltdown KR_MDCODE_INTERRUPT_VECTORS_OVERRUN))"
  using assms(2,3)
proof (induction "length ids - r" arbitrary: Idx r)
  case 0
  note c = assms(1) [unfolded cpus_ok_def]
  have l: "length ids \<le> 256" using c by blast
  have "unat (ids ! unat Idx) < length cs" using c nth_mem [OF 0(2)] by blast
  then show ?case using 0
    by (subst AldistRetry.simps) (simp add: GetThatCpu_def Let_def candidate_def cpu_table_def split: option.splits)
next
  case (Suc m)
  note c = assms(1) [unfolded cpus_ok_def]
  let ?n = "length ids" and ?P = "\<lambda>Idx k. FreeVector (cpu_table cs (candidate ids Idx k)) \<noteq> None"
  let ?I = "if Idx + 1 \<ge> of_nat ?n then 0 else Idx + 1"
  have l: "?n \<le> 256" using c by blast
  have u: "unat ?I = (unat Idx + 1) mod ?n" by (rule next_index [OF Suc.prems(1) l])
  have lt: "unat ?I < ?n" unfolding u using Suc.prems(1) by (intro mod_less_divisor) auto
  have id: "unat (ids ! unat Idx) < length cs" using c nth_mem [OF Suc.prems(1)] by blast
  have shift: "(unat ?I + k) mod ?n = (unat Idx + Suc k) mod ?n" for k
    unfolding u by (simp add: mod_add_left_eq)
  have cand: "candidate ids ?I k = candidate ids Idx (Suc k)" for k
    unfolding candidate_def shift ..
  have rn: "r < ?n" using Suc.hyps(2) by simp
  have split: "[0..<Suc (?n - r)] = 0 # map Suc [0..<Suc (?n - Suc r)]"
    using rn by (simp add: map_Suc_upt upt_conv_Cons Suc_diff_Suc del: upt_Suc)
  have fmap: "find (?P Idx) (map Suc xs) = map_option Suc (find (?P ?I) xs)" for xs
    by (induction xs) (auto simp: cand)
  have "m = ?n - Suc r" using Suc.hyps(2) by simp
  note ih = Suc.hyps(1) [OF this lt]
  have c0: "candidate ids Idx 0 = ids ! unat Idx" using Suc.prems(1) by (simp add: candidate_def)
  have i0: "of_nat ((unat Idx + 0) mod ?n) = Idx" using Suc.prems(1) by simp
  have step: "AldistRetry cs ids Idx r =
      (case FreeVector (cpu_table cs (candidate ids Idx 0)) of
         Some i \<Rightarrow> Inr (\<lparr> OfferCpuID = candidate ids Idx 0, OfferIntVector = of_nat i \<rparr>, ?I)
       | None \<Rightarrow> AldistRetry cs ids ?I (Suc r))"
    using Suc.prems(1) id rn by (subst AldistRetry.simps) (simp add: GetThatCpu_def Let_def c0 cpu_table_def split: option.splits)
  show ?case
  proof (cases "FreeVector (cpu_table cs (candidate ids Idx 0))")
    case (Some v)
    then have "find (?P Idx) [0..<Suc (?n - r)] = Some 0" unfolding find_upt by simp
    then show ?thesis unfolding step Some using i0 by (simp add: Some)
  next
    case None
    then have f: "find (?P Idx) [0..<Suc (?n - r)] = map_option Suc (find (?P ?I) [0..<Suc (?n - Suc r)])"
      unfolding split find.simps(2) fmap by simp
    show ?thesis
    proof (cases "find (?P ?I) [0..<Suc (?n - Suc r)]")
      case None': None
      then show ?thesis using ih rn unfolding step None f by simp
    next
      case (Some k)
      then show ?thesis using ih rn unfolding step None f by (simp add: cand shift)
    qed
  qed
qed


lemma aldist_offer:
  assumes "cpus_ok cs ids" "unat Idx < length ids"
  shows "case AldistOfferSetupForIRQ cs ids Idx of
      Inr (p, Idx') \<Rightarrow> OfferCpuID p \<in> set ids \<and> FreeVector (cpu_table cs (OfferCpuID p)) = Some (unat (OfferIntVector p)) \<and> unat Idx' < length ids
    | Inl e \<Rightarrow> e = Meltdown KR_MDCODE_INTERRUPT_VECTORS_OVERRUN \<and> (\<forall>id \<in> set ids. FreeVector (cpu_table cs id) = None)"
proof -
  let ?n = "length ids" and ?P = "\<lambda>k. FreeVector (cpu_table cs (candidate ids Idx k)) \<noteq> None"
  have n: "0 < ?n" "?n \<le> 256" using assms(1) by (auto simp: cpus_ok_def)
  note r = aldist_retry [OF assms, of 0]
  show ?thesis
  proof (cases "find ?P [0..<Suc (?n - 0)]")
    case None
    have "FreeVector (cpu_table cs i) = None" if i: "i \<in> set ids" for i
    proof -
      obtain j where j: "j < ?n" "i = ids ! j" using i by (auto simp: in_set_conv_nth)
      define k where "k = (if unat Idx \<le> j then j - unat Idx else ?n + j - unat Idx)"
      have "k < ?n" "(unat Idx + k) mod ?n = j" using j(1) assms(2) by (auto simp: k_def mod_add_self1)
      then have "candidate ids Idx k = i" "k \<in> set [0..<Suc (?n - 0)]" using j(2) by (auto simp: candidate_def)
      then show ?thesis using None by (auto simp: find_None_iff)
    qed
    then show ?thesis using r unfolding None AldistOfferSetupForIRQ_def by simp
  next
    case (Some k)
    define c where "c = candidate ids Idx k"
    obtain v where v: "FreeVector (cpu_table cs c) = Some v" using Some by (auto simp: find_Some_iff c_def)
    then have v256: "v < 256" by (simp add: free_vector)
    define I where "I = (of_nat ((unat Idx + k) mod ?n) :: DWORD)"
    have I: "unat I = (unat Idx + k) mod ?n"
    proof -
      have "(unat Idx + k) mod ?n < ?n" using n(1) by (rule mod_less_divisor)
      then have "(unat Idx + k) mod ?n < 2 ^ LENGTH(32)" using n(2) by simp
      then show ?thesis unfolding I_def by (rule unat_of_nat_small)
    qed
    have "unat I < ?n" using I n(1) by simp
    then have "unat (if I + 1 \<ge> of_nat ?n then 0 else I + 1) < ?n" using next_index [of I ?n] n by simp
    moreover have "AldistOfferSetupForIRQ cs ids Idx = Inr (\<lparr> OfferCpuID = c, OfferIntVector = of_nat v \<rparr>, if I + 1 \<ge> of_nat ?n then 0 else I + 1)"
      using r v unfolding Some AldistOfferSetupForIRQ_def by (simp add: c_def I_def)
    moreover have "c \<in> set ids" using n(1) by (simp add: c_def candidate_def)
    moreover have "unat (of_nat v :: UCHAR) = v" using v256 by (intro unat_of_nat_small) simp
    ultimately show ?thesis using v by simp
  qed
qed


text \<open>
  C34: AldistOfferSetupForIRQ melts down exactly when no active processor has a free vector. Otherwise it
  offers the lowest free vector from 32 on of an active processor. After the caller has set up the vector
  with SetHardwareInterrupt, the vector leads to the caller's handler, all other vectors of all processors
  are as before, and no later offer made on that table names the same vector of the same processor again.
\<close>
theorem irq_offer:
  assumes "cpus_ok cs ids" "unat Idx < length ids"
  shows "if \<forall>i \<in> set ids. \<forall>v. 32 \<le> v \<and> v < 256 \<longrightarrow> Vector (cpu_table cs i ! v) \<noteq> 0
    then AldistOfferSetupForIRQ cs ids Idx = Inl (Meltdown KR_MDCODE_INTERRUPT_VECTORS_OVERRUN)
    else \<exists>c v Idx' cs'. AldistOfferSetupForIRQ cs ids Idx = Inr (\<lparr> OfferCpuID = c, OfferIntVector = v \<rparr>, Idx') \<and>
      c \<in> set ids \<and> unat Idx' < length ids \<and> 32 \<le> unat v \<and> Vector (cpu_table cs c ! unat v) = 0 \<and>
      SetHardwareInterrupt cs c v dev irq (Some h) = Inr cs' \<and> cpus_ok cs' ids \<and> Handler (cpu_table cs' c ! unat v) = Some h \<and>
      (\<forall>c2 v2. (c2, v2) \<noteq> (c, unat v) \<longrightarrow> cpu_table cs' c2 ! v2 = cpu_table cs c2 ! v2) \<and>
      (\<forall>Idx2 q Idx3. unat Idx2 < length ids \<and> AldistOfferSetupForIRQ cs' ids Idx2 = Inr (q, Idx3) \<longrightarrow>
        (OfferCpuID q, OfferIntVector q) \<noteq> (c, v))"
proof (cases "AldistOfferSetupForIRQ cs ids Idx")
  case (Inl e)
  then show ?thesis using aldist_offer [OF assms] by (simp add: free_vector_none)
next
  case (Inr pr)
  then obtain c v Idx' where pr: "AldistOfferSetupForIRQ cs ids Idx = Inr (\<lparr> OfferCpuID = c, OfferIntVector = v \<rparr>, Idx')"
    by (metis PairOfProcessorIntVector.cases surj_pair)
  have o: "c \<in> set ids" "FreeVector (cpu_table cs c) = Some (unat v)" "unat Idx' < length ids"
    using aldist_offer [OF assms] by (simp_all add: pr)
  have v: "32 \<le> unat v" "unat v < 256" "Vector (cpu_table cs c ! unat v) = 0" using o(2) by (simp_all add: free_vector)
  have ex: "\<not> (\<forall>i \<in> set ids. \<forall>v. 32 \<le> v \<and> v < 256 \<longrightarrow> Vector (cpu_table cs i ! v) \<noteq> 0)" using o(1) v by blast
  have c: "unat c < length cs" "length (cpu_table cs c) = 256" "IntmodSpinlock (cs ! unat c) = 0"
    using assms(1) o(1) by (auto simp: cpus_ok_def NUM_INT_VECTORS_def)
  define e where "e = \<lparr> Handler = Some h, HwDevice = dev, IntIRQ = irq, Vector = v \<rparr>"
  define cs' where "cs' = cs[unat c := (cs ! unat c)\<lparr> Interrupt := (cpu_table cs c)[unat v := e], IntmodSpinlock := 0 \<rparr>]"
  have set: "SetHardwareInterrupt cs c v dev irq (Some h) = Inr cs'"
    using c by (simp add: SetHardwareInterrupt_def SetInterrupt_def with_lock_def GetThatCpu_def cs'_def e_def cpu_table_def)
  have tab: "cpu_table cs' c2 = (if c2 = c then (cpu_table cs c)[unat v := e] else cpu_table cs c2)" for c2
    using c(1) by (auto simp: cs'_def cpu_table_def nth_list_update word_eq_unat)
  have ok': "cpus_ok cs' ids"
    unfolding cpus_ok_def tab using assms(1) c by (auto simp: cpus_ok_def cs'_def nth_list_update)
  have at: "cpu_table cs' c ! unat v = e" using c(2) v(2) by (simp add: tab)
  have other: "cpu_table cs' c2 ! v2 = cpu_table cs c2 ! v2" if "(c2, v2) \<noteq> (c, unat v)" for c2 v2
    using that by (auto simp: tab nth_list_update)
  have again: "(OfferCpuID q, OfferIntVector q) \<noteq> (c, v)"
    if "unat Idx2 < length ids" "AldistOfferSetupForIRQ cs' ids Idx2 = Inr (q, Idx3)" for Idx2 q Idx3
  proof
    assume "(OfferCpuID q, OfferIntVector q) = (c, v)"
    then have "FreeVector (cpu_table cs' c) = Some (unat v)" using aldist_offer [OF ok' that(1)] that(2) by simp
    then have "Vector (cpu_table cs' c ! unat v) = 0" by (simp add: free_vector)
    then show False using at v(1) by (simp add: e_def)
  qed
  have "Handler (cpu_table cs' c ! unat v) = Some h" using at by (simp add: e_def)
  then show ?thesis unfolding if_not_P [OF ex]
    using pr o(1,3) v(1,3) set ok' other again by blast
qed

definition wit_cpus :: cpus where
  "wit_cpus = [\<lparr> pSelf = Some 0, CpuIdent = 0, bInPageFault = False,
     TimerInf = \<lparr> CalibrationValue = 1, TimerRoot = 0, TimerDeferredRoot = 0, bInTimerInt = False, SleepCounter = 0 \<rparr>,
     IntmodSpinlock = 0, Interrupt = replicate 256 \<lparr> Handler = None, HwDevice = 0, IntIRQ = 0, Vector = 0 \<rparr> \<rparr>]"

theorem irq_offer_witness:
  "\<exists>c v Idx' cs'. AldistOfferSetupForIRQ wit_cpus [0] 0 = Inr (\<lparr> OfferCpuID = c, OfferIntVector = v \<rparr>, Idx') \<and>
     SetHardwareInterrupt wit_cpus c v 0 1 (Some HKeyboardInterrupt) = Inr cs'"
proof -
  have ok: "cpus_ok wit_cpus [0]" by (simp add: cpus_ok_def wit_cpus_def cpu_table_def NUM_INT_VECTORS_def)
  have "Vector (cpu_table wit_cpus 0 ! 32) = 0" by (simp add: wit_cpus_def cpu_table_def)
  then have "\<not> (\<forall>i \<in> set [0 :: UINT]. \<forall>v. 32 \<le> v \<and> v < 256 \<longrightarrow> Vector (cpu_table wit_cpus i ! v) \<noteq> 0)" by auto
  from irq_offer [OF ok, of 0 0 1 HKeyboardInterrupt, unfolded if_not_P [OF this]] show ?thesis by auto
qed

end
