(* ===== verification/Acpi.thy ===== *)
theory Acpi
  imports Mmio Interrupts
begin

text \<open>
  The ACPI tables: \<^verbatim>\<open>Kernel/Source/ACPI/ACPI.c\<close>, \<^verbatim>\<open>Kernel/Include/ACPI/ACPI.h\<close> and
  \<^verbatim>\<open>Kernel/Source/Init/KrInitACPI.c\<close>. Tables are read from memory byte by byte, at the offsets of the
  packed structures. What the firmware puts there is arbitrary: every failure of the code is a result, and a
  table whose records make the loop run forever exhausts its fuel.
\<close>

section \<open>Reading structures\<close>

definition rd16 :: "memory \<Rightarrow> UINTPTR \<Rightarrow> WORD" where
  "rd16 mem a = ucast (mem a) OR push_bit 8 (ucast (mem (a + 1)))"

definition rd32 :: "memory \<Rightarrow> UINTPTR \<Rightarrow> DWORD" where
  "rd32 mem a = ucast (rd16 mem a) OR push_bit 16 (ucast (rd16 mem (a + 2)))"

definition rd64 :: "memory \<Rightarrow> UINTPTR \<Rightarrow> QWORD" where
  "rd64 mem a = ucast (rd32 mem a) OR push_bit 32 (ucast (rd32 mem (a + 4)))"

definition sizeof_KrAcpiRsdp :: SIZE where "sizeof_KrAcpiRsdp = 36"
definition sizeof_KrAcpiSdtHeader :: SIZE where "sizeof_KrAcpiSdtHeader = 36"
definition sizeof_KrAcpiMadtHeader :: SIZE where "sizeof_KrAcpiMadtHeader = 44"
definition sizeof_AcpiMcfgHeader :: SIZE where "sizeof_AcpiMcfgHeader = 44"
definition sizeof_AcpiMcfgEntry :: SIZE where "sizeof_AcpiMcfgEntry = 16"

definition Rsdp_Revision :: "memory \<Rightarrow> UINTPTR \<Rightarrow> BYTE" where "Rsdp_Revision mem p = mem (p + 15)"
definition Rsdp_dwLength :: "memory \<Rightarrow> UINTPTR \<Rightarrow> DWORD" where "Rsdp_dwLength mem p = rd32 mem (p + 20)"
definition Rsdp_qwPhysAddrXsdt :: "memory \<Rightarrow> UINTPTR \<Rightarrow> QWORD" where "Rsdp_qwPhysAddrXsdt mem p = rd64 mem (p + 24)"
definition Sdt_dwLength :: "memory \<Rightarrow> UINTPTR \<Rightarrow> DWORD" where "Sdt_dwLength mem p = rd32 mem (p + 4)"

definition KR_ACPI_RSDP_SIGNATURE_SIZE :: SIZE where "KR_ACPI_RSDP_SIGNATURE_SIZE = 8"
definition KR_ACPI_SDT_SIGNATURE_SIZE :: SIZE where "KR_ACPI_SDT_SIGNATURE_SIZE = 4"
definition KR_ACPI_LEGACY_SECTION_SIZE :: DWORD where "KR_ACPI_LEGACY_SECTION_SIZE = 20"
definition KR_ACPI_RSDP_SIGNATURE :: string where "KR_ACPI_RSDP_SIGNATURE = ''RSD PTR ''"
definition KR_ACPI_XSDT_SIGNATURE :: string where "KR_ACPI_XSDT_SIGNATURE = ''XSDT''"
definition KR_ACPI_MADT_SIGNATURE :: string where "KR_ACPI_MADT_SIGNATURE = ''APIC''"
definition KR_ACPI_MCFG_SIGNATURE :: string where "KR_ACPI_MCFG_SIGNATURE = ''MCFG''"
definition KR_ACPI_FADT_SIGNATURE :: string where "KR_ACPI_FADT_SIGNATURE = ''FACP''"
definition KR_ACPI_MADT_RECORD_TYPE_PROCESSOR_LOCAL_APIC :: UCHAR where "KR_ACPI_MADT_RECORD_TYPE_PROCESSOR_LOCAL_APIC = 0"
definition KR_ACPI_MADT_RECORD_TYPE_IO_APIC :: UCHAR where "KR_ACPI_MADT_RECORD_TYPE_IO_APIC = 1"
definition KR_ACPI_LAPIC_FLAGS_PROCESSOR_ENABLED :: DWORD where "KR_ACPI_LAPIC_FLAGS_PROCESSOR_ENABLED = push_bit 0 1"

section \<open>Checksums and tables\<close>

fun ChecksumLoop :: "memory \<Rightarrow> UINTPTR \<Rightarrow> nat \<Rightarrow> UCHAR \<Rightarrow> UCHAR" where
  "ChecksumLoop mem p 0 Acc = Acc"
| "ChecksumLoop mem p (Suc n) Acc = ChecksumLoop mem p n (Acc + mem (p + of_nat n))"

definition KrAcpiCalculateChecksum :: "memory \<Rightarrow> UINTPTR \<Rightarrow> DWORD \<Rightarrow> UCHAR" where
  "KrAcpiCalculateChecksum mem pAcpiStruct dwStructLength = ChecksumLoop mem pAcpiStruct (unat dwStructLength) 0"

definition KrAcpiIsChecksumValid :: "memory \<Rightarrow> UINTPTR \<Rightarrow> DWORD \<Rightarrow> bool" where
  "KrAcpiIsChecksumValid mem p n \<longleftrightarrow> KrAcpiCalculateChecksum mem p n = 0"

text \<open>
  \<open>n\<close> entries are left from \<open>i\<close> on; \<open>pSig\<close> is the address of the string with the signature, \<open>P2V\<close> is
  \<^verbatim>\<open>KrPhysToVirt\<close>.
\<close>

fun AcpiLocateLoop :: "(UINTPTR \<Rightarrow> UINTPTR) \<Rightarrow> memory \<Rightarrow> UINTPTR \<Rightarrow> UINTPTR \<Rightarrow> nat \<Rightarrow> nat \<Rightarrow> UINTPTR" where
  "AcpiLocateLoop P2V mem pAddresses pSig 0 i = 0"
| "AcpiLocateLoop P2V mem pAddresses pSig (Suc n) i =
     (let pEntry = P2V (rd64 mem (pAddresses + of_nat (8 * i)))
      in if KrtlBufferEqual mem pEntry pSig KR_ACPI_SDT_SIGNATURE_SIZE then pEntry
         else AcpiLocateLoop P2V mem pAddresses pSig n (i + 1))"

definition KrAcpiLocateTable :: "(UINTPTR \<Rightarrow> UINTPTR) \<Rightarrow> memory \<Rightarrow> UINTPTR \<Rightarrow> UINTPTR \<Rightarrow> UINTPTR" where
  "KrAcpiLocateTable P2V mem pSDT pSig =
     (let EntryCount = ucast ((ucast (Sdt_dwLength mem pSDT) - sizeof_KrAcpiSdtHeader) div 8) :: UINT
      in AcpiLocateLoop P2V mem (pSDT + sizeof_KrAcpiSdtHeader) pSig (unat EntryCount) 0)"

section \<open>The interrupt controllers of the system\<close>

record ProcInfoEntry =
  piLocalApicID :: DWORD
  piAcpiID :: DWORD
  piE_V :: bool
  piBSP :: bool
  piRFD :: bool

record KrSmpInfo =
  pCpuIDs :: UINTPTR
  IdealProcessorCount :: UINT
  ActiveProcessorCount :: UINT
  ProcInfo :: "ProcInfoEntry list"
  bProcessorReinitDetected :: bool

definition upd_proc :: "nat \<Rightarrow> (ProcInfoEntry \<Rightarrow> ProcInfoEntry) \<Rightarrow> KrSmpInfo \<Rightarrow> KrSmpInfo kres" where
  "upd_proc i g s = (if i < length (ProcInfo s) then Inr (s\<lparr> ProcInfo := (ProcInfo s)[i := g (ProcInfo s ! i)] \<rparr>) else Inl OutOfBounds)"

text \<open>A record of a processor and a record of an I/O controller, whose fields follow its type and its length.\<close>

definition MadtLocalApic :: "memory \<Rightarrow> UINTPTR \<Rightarrow> KrSmpInfo \<Rightarrow> KrSmpInfo kres" where
  "MadtLocalApic mem p s =
     (let AcpiID = mem p; LocalApicID = mem (p + 1); dwFlags = rd32 mem (p + 2)
      in if dwFlags AND KR_ACPI_LAPIC_FLAGS_PROCESSOR_ENABLED = 0 then Inr s
         else upd_proc (unat LocalApicID) (\<lambda>e. e\<lparr> piE_V := True, piBSP := False, piAcpiID := ucast AcpiID, piLocalApicID := ucast LocalApicID \<rparr>)
                (s\<lparr> IdealProcessorCount := IdealProcessorCount s + 1 \<rparr>))"

definition MadtIoApic :: "memory \<Rightarrow> UINTPTR \<Rightarrow> ioapic_state \<Rightarrow> ioapic_state kres" where
  "MadtIoApic mem p a =
     (let i = unat (mem p); n = unat (IoApicCount a)
      in if length (IoApics a) \<le> i then Inl OutOfBounds
         else
           let a1 = a\<lparr> IoApics := (IoApics a)[i := (IoApics a ! i)\<lparr> E_V := True, IoApicID := ucast (mem p),
                      FirstIRQ := rd32 mem (p + 6), PaddrBase := ucast (rd32 mem (p + 2)) \<rparr>] \<rparr>
           in if length (IoApicIDs a1) \<le> n then Inl OutOfBounds
              else Inr (SetIoApicCount (IoApicCount a1 + 1) (a1\<lparr> IoApicIDs := (IoApicIDs a1)[n := IoApicID (IoApics a1 ! i)] \<rparr>)))"

fun MadtLoop :: "nat \<Rightarrow> memory \<Rightarrow> UINTPTR \<Rightarrow> UINTPTR \<Rightarrow> KrSmpInfo \<Rightarrow> ioapic_state \<Rightarrow> (KrSmpInfo \<times> ioapic_state) kres" where
  "MadtLoop 0 mem cur nd s a = Inl OutOfFuel"
| "MadtLoop (Suc f) mem cur nd s a =
     (if cur < nd
      then
        let eType = mem cur; RecordSize = mem (cur + 1); p = cur + 2
        in kbind (if eType = KR_ACPI_MADT_RECORD_TYPE_PROCESSOR_LOCAL_APIC then kbind (MadtLocalApic mem p s) (\<lambda>s1. Inr (s1, a))
                  else if eType = KR_ACPI_MADT_RECORD_TYPE_IO_APIC then kbind (MadtIoApic mem p a) (\<lambda>a1. Inr (s, a1))
                  else Inr (s, a)) (\<lambda>(s1, a1).
             MadtLoop f mem (p + (ucast RecordSize - 2)) nd s1 a1)
      else Inr (s, a))"

text \<open>\<open>me\<close> is the identifier of the running processor.\<close>

definition ProcessMADT :: "nat \<Rightarrow> memory \<Rightarrow> UINTPTR \<Rightarrow> DWORD \<Rightarrow> KrSmpInfo \<Rightarrow> ioapic_state \<Rightarrow> (KrSmpInfo \<times> ioapic_state) kres" where
  "ProcessMADT f mem pMadt me s a =
     kbind (MadtLoop f mem (pMadt + sizeof_KrAcpiMadtHeader) (pMadt + ucast (Sdt_dwLength mem pMadt)) s a) (\<lambda>(s1, a1).
     kbind (upd_proc (unat me) (\<lambda>e. e\<lparr> piBSP := True, piRFD := True \<rparr>) (s1\<lparr> ActiveProcessorCount := 1 \<rparr>)) (\<lambda>s2.
       Inr (s2, a1)))"

section \<open>Initialisation\<close>

record acpi_sys =
  amem :: memory
  pRsdp :: UINTPTR
  pXsdt :: UINTPTR
  pFadt :: UINTPTR
  SmpInfo :: KrSmpInfo
  aioapics :: ioapic_state
  arna :: rna_sys
  MmioHead :: UINTPTR
  aVaddrPciEcamBase :: UINTPTR

text \<open>The addresses of the string constants with the signatures.\<close>

record acpi_strings =
  strRSDP :: UINTPTR
  strXSDT :: UINTPTR
  strMADT :: UINTPTR
  strMCFG :: UINTPTR
  strFADT :: UINTPTR

definition FailInit :: "MDCODE \<Rightarrow> 'a kres" where
  "FailInit mdCode = Inl (Meltdown mdCode)"

definition guard_init :: "bool \<Rightarrow> MDCODE \<Rightarrow> 'a kres \<Rightarrow> 'a kres" where
  "guard_init bad mdCode k = (if bad then FailInit mdCode else k)"

text \<open>The size is an \<^verbatim>\<open>int\<close> that is converted when it is stored.\<close>

definition ProcessMCFG :: "nat \<Rightarrow> UINTPTR \<Rightarrow> acpi_sys \<Rightarrow> acpi_sys kres" where
  "ProcessMCFG f pMcfg s =
     (let pEntry = pMcfg + sizeof_AcpiMcfgHeader;
          StartBusNo = amem s (pEntry + 10); EndBusNo = amem s (pEntry + 11);
          MapSize = scast ((ucast EndBusNo - ucast StartBusNo + 1) * 0x100000 :: 32 word) :: SIZE
      in kbind (MmioMapDevice f (arna s) (MmioHead s) ''PCIe Enhanced Configuration Access Mechanism'' (rd64 (amem s) pEntry) MapSize 0)
           (\<lambda>(v, Head, m).
             if v = 0 then FailInit KR_MDCODE_MMIO_DEVICE_MAP_FAILURE
             else Inr (s\<lparr> arna := m, MmioHead := Head, aVaddrPciEcamBase := v \<rparr>)))"

definition CheckRsdp :: "acpi_strings \<Rightarrow> memory \<Rightarrow> UINTPTR \<Rightarrow> unit kres" where
  "CheckRsdp str mem p =
     guard_init (\<not> KrtlBufferEqual mem p (strRSDP str) KR_ACPI_RSDP_SIGNATURE_SIZE) KR_MDCODE_CORRUPT_ACPI_RSDP (
     guard_init (Rsdp_Revision mem p < 2 \<or> ucast (Rsdp_dwLength mem p) < sizeof_KrAcpiRsdp) KR_MDCODE_CORRUPT_ACPI_RSDP (
     guard_init (\<not> KrAcpiIsChecksumValid mem p KR_ACPI_LEGACY_SECTION_SIZE) KR_MDCODE_CORRUPT_ACPI_RSDP (
     guard_init (\<not> KrAcpiIsChecksumValid mem p (Rsdp_dwLength mem p)) KR_MDCODE_CORRUPT_ACPI_RSDP (
     guard_init (Rsdp_qwPhysAddrXsdt mem p = 0) KR_MDCODE_CORRUPT_ACPI_RSDP (Inr ())))))"

definition CheckXsdt :: "acpi_strings \<Rightarrow> memory \<Rightarrow> UINTPTR \<Rightarrow> unit kres" where
  "CheckXsdt str mem p =
     guard_init (\<not> KrtlBufferEqual mem p (strXSDT str) KR_ACPI_SDT_SIGNATURE_SIZE) KR_MDCODE_CORRUPT_ACPI_RSDP (
     guard_init (\<not> KrAcpiIsChecksumValid mem p (Sdt_dwLength mem p)) KR_MDCODE_ACPI_SDT_CHECKSUM_NV (Inr ()))"

definition KrInitACPI :: "nat \<Rightarrow> acpi_strings \<Rightarrow> DWORD \<Rightarrow> UINTPTR \<Rightarrow> acpi_sys \<Rightarrow> acpi_sys kres" where
  "KrInitACPI f str me PaddrRsdp s =
     guard_init (PaddrRsdp = 0) KR_MDCODE_CORRUPT_ACPI_RSDP (
     let P2V = KrPhysToVirt (arna s); mem = amem s; s1 = s\<lparr> pRsdp := P2V PaddrRsdp \<rparr>
     in kbind (CheckRsdp str mem (pRsdp s1)) (\<lambda>_.
        let s2 = s1\<lparr> pXsdt := P2V (Rsdp_qwPhysAddrXsdt mem (pRsdp s1)) \<rparr>; X = pXsdt s2
        in kbind (CheckXsdt str mem X) (\<lambda>_.
           let pMadt = KrAcpiLocateTable P2V mem X (strMADT str)
           in guard_init (pMadt = 0) KR_MDCODE_ACPI_TABLE_NOT_FOUND (
              guard_init (ucast (Sdt_dwLength mem pMadt) < sizeof_KrAcpiMadtHeader) KR_MDCODE_ACPI_TABLE_CORRUPT (
              kbind (ProcessMADT f mem pMadt me (SmpInfo s2) (aioapics s2)) (\<lambda>(smp, a).
              let s3 = s2\<lparr> SmpInfo := smp, aioapics := a \<rparr>
              in guard_init (IdealProcessorCount smp = 0) KR_MDCODE_ACPI_TABLE_CORRUPT (
                 let pMcfg = KrAcpiLocateTable P2V mem X (strMCFG str)
                 in guard_init (pMcfg = 0) KR_MDCODE_ACPI_TABLE_NOT_FOUND (
                    guard_init (ucast (Sdt_dwLength mem pMcfg) < sizeof_AcpiMcfgHeader + sizeof_AcpiMcfgEntry) KR_MDCODE_ACPI_TABLE_CORRUPT (
                    kbind (ProcessMCFG f pMcfg s3) (\<lambda>s4.
                    let pF = KrAcpiLocateTable P2V mem X (strFADT str)
                    in guard_init (pF = 0) KR_MDCODE_ACPI_TABLE_NOT_FOUND (
                       guard_init (\<not> KrAcpiIsChecksumValid mem pF (Sdt_dwLength mem pF)) KR_MDCODE_ACPI_SDT_CHECKSUM_NV (
                         Inr (s4\<lparr> pFadt := pF \<rparr>)))))))))))))"

section \<open>What the checks and the search find\<close>

lemma checksum_loop: "ChecksumLoop mem p n Acc = Acc + (\<Sum>i<n. mem (p + of_nat i))"
  by (induction n arbitrary: Acc) (simp_all add: ac_simps)

lemma checksum_valid: "KrAcpiIsChecksumValid mem p n \<longleftrightarrow> (\<Sum>i<unat n. mem (p + of_nat i)) = 0"
  by (simp add: KrAcpiIsChecksumValid_def KrAcpiCalculateChecksum_def checksum_loop)

text \<open>The entries of a table of pointers, and its number of entries as the code computes it.\<close>

definition sdt_entries :: "(UINTPTR \<Rightarrow> UINTPTR) \<Rightarrow> memory \<Rightarrow> UINTPTR \<Rightarrow> UINTPTR list" where
  "sdt_entries P2V mem p = map (\<lambda>i. P2V (rd64 mem (p + 36 + of_nat (8 * i))))
     [0..<unat (ucast ((ucast (Sdt_dwLength mem p) - 36 :: SIZE) div 8) :: UINT)]"

lemma acpi_locate_loop:
  "AcpiLocateLoop P2V mem a pSig n i =
    hd_or 0 (filter (\<lambda>p. KrtlBufferEqual mem p pSig 4) (map (\<lambda>i. P2V (rd64 mem (a + of_nat (8 * i)))) [i..<i + n]))"
proof (induction n arbitrary: i)
  case (Suc n)
  have "[i..<i + Suc n] = i # [Suc i..<Suc i + n]" by (simp add: upt_conv_Cons del: upt_Suc)
  then show ?case using Suc [of "Suc i"] by (simp add: Let_def KR_ACPI_SDT_SIGNATURE_SIZE_def del: upt_Suc)
qed simp

lemma rd32_low: "(ucast (rd32 mem a) :: BYTE) = mem a"
  by (rule bit_word_eqI) (auto simp: rd32_def rd16_def bit_or_iff bit_push_bit_iff bit_ucast_iff)

text \<open>
  C40: When the bytes behind \<open>pSig\<close> are a signature and its terminator, KrAcpiLocateTable returns the first entry
  of the table that has this signature and whose length is not a multiple of 256, or null: the comparison also
  reads the byte behind the signature, and takes the table for a different one when that byte, the low byte of
  its length, is the terminator's zero. A checksum is valid when the bytes of the structure add up to zero.
\<close>
theorem locate_table:
  assumes "mem (pSig + 4) = 0"
  shows "KrAcpiLocateTable P2V mem pSDT pSig =
    hd_or 0 (filter (\<lambda>p. mem_bytes mem p 4 = mem_bytes mem pSig 4 \<and> (ucast (Sdt_dwLength mem p) :: BYTE) \<noteq> 0) (sdt_entries P2V mem pSDT)) \<and>
    (KrAcpiIsChecksumValid mem p n \<longleftrightarrow> (\<Sum>i<unat n. mem (p + of_nat i)) = 0)"
proof
  have e: "KrtlBufferEqual mem p pSig 4 \<longleftrightarrow> mem_bytes mem p 4 = mem_bytes mem pSig 4 \<and> (ucast (Sdt_dwLength mem p) :: BYTE) \<noteq> 0" for p
    using buffer_equal_reads_past [of mem p pSig 4] assms by (simp add: Sdt_dwLength_def rd32_low)
  show "KrAcpiLocateTable P2V mem pSDT pSig =
    hd_or 0 (filter (\<lambda>p. mem_bytes mem p 4 = mem_bytes mem pSig 4 \<and> (ucast (Sdt_dwLength mem p) :: BYTE) \<noteq> 0) (sdt_entries P2V mem pSDT))"
    unfolding e [symmetric]
    by (simp add: KrAcpiLocateTable_def Let_def acpi_locate_loop sdt_entries_def sizeof_KrAcpiSdtHeader_def)
qed (rule checksum_valid)

text \<open>A table at 4096 with one entry, the table at 8192; at 64 lies a signature.\<close>

definition wit_acpi :: memory where
  "wit_acpi = (\<lambda>a. if a = 64 \<or> a = 8192 then 70 else if a = 65 \<or> a = 8193 then 65 else if a = 66 \<or> a = 8194 then 67 else if a = 67 \<or> a = 8195 then 80
     else if a = 4100 then 44 else if a = 4133 then 32 else if a = 8196 then 116 else 0)"

theorem locate_table_witness: "KrAcpiLocateTable (\<lambda>a. a) wit_acpi 4096 64 = 8192"
proof -
  have len: "Sdt_dwLength wit_acpi 4096 = 44" by (simp add: Sdt_dwLength_def rd32_def rd16_def wit_acpi_def)
  have e: "sdt_entries (\<lambda>a. a) wit_acpi 4096 = [8192]"
    unfolding sdt_entries_def len by (simp add: rd64_def rd32_def rd16_def wit_acpi_def)
  have b: "mem_bytes wit_acpi 8192 4 = mem_bytes wit_acpi 64 4"
    by (simp add: mem_bytes_def wit_acpi_def upt_rec)
  have l: "(ucast (Sdt_dwLength wit_acpi 8192) :: BYTE) = 116" by (simp add: Sdt_dwLength_def rd32_low) (simp add: wit_acpi_def)
  have z: "wit_acpi (64 + 4) = 0" by (simp add: wit_acpi_def)
  show ?thesis using locate_table [where mem = wit_acpi and pSig = 64, OF z, THEN conjunct1, of "\<lambda>a. a" 4096] e b l by simp
qed

section \<open>The records of the interrupt controller table\<close>

datatype madt_record = LocalApicRec UCHAR UCHAR DWORD | IoApicRec UCHAR DWORD DWORD | OtherRec UCHAR "BYTE list"

fun encode_record :: "madt_record \<Rightarrow> BYTE list" where
  "encode_record (LocalApicRec acpi lapic fl) = [0, 8, acpi, lapic] @ le32 fl"
| "encode_record (IoApicRec i base gsi) = [1, 12, i, 0] @ le32 base @ le32 gsi"
| "encode_record (OtherRec t bs) = [t, of_nat (length bs + 2)] @ bs"

fun record_ok :: "madt_record \<Rightarrow> bool" where
  "record_ok (OtherRec t bs) \<longleftrightarrow> t \<noteq> 0 \<and> t \<noteq> 1 \<and> length bs < 254"
| "record_ok _ \<longleftrightarrow> True"

text \<open>What one record does.\<close>

fun apply_record :: "madt_record \<Rightarrow> KrSmpInfo \<times> ioapic_state \<Rightarrow> (KrSmpInfo \<times> ioapic_state) kres" where
  "apply_record (LocalApicRec acpi lapic fl) (s, a) =
     (if \<not> bit fl 0 then Inr (s, a)
      else kbind (upd_proc (unat lapic) (\<lambda>e. e\<lparr> piE_V := True, piBSP := False, piAcpiID := ucast acpi, piLocalApicID := ucast lapic \<rparr>)
                   (s\<lparr> IdealProcessorCount := IdealProcessorCount s + 1 \<rparr>)) (\<lambda>s1. Inr (s1, a)))"
| "apply_record (IoApicRec i base gsi) (s, a) =
     (if length (IoApics a) \<le> unat i \<or> length (IoApicIDs a) \<le> unat (IoApicCount a) then Inl OutOfBounds
      else Inr (s, a\<lparr> IoApics := (IoApics a)[unat i := (IoApics a ! unat i)\<lparr> E_V := True, IoApicID := ucast i, FirstIRQ := gsi, PaddrBase := ucast base \<rparr>],
                      IoApicIDs := (IoApicIDs a)[unat (IoApicCount a) := ucast i], IoApicCount := IoApicCount a + 1 \<rparr>))"
| "apply_record (OtherRec t bs) r = Inr r"

text \<open>The bytes of memory from an address on.\<close>

definition holds :: "memory \<Rightarrow> UINTPTR \<Rightarrow> BYTE list \<Rightarrow> bool" where
  "holds mem p bs \<longleftrightarrow> (\<forall>i < length bs. mem (p + of_nat i) = bs ! i)"

lemma holds_Nil [simp]: "holds mem p []"
  by (simp add: holds_def)

lemma holds_Cons: "holds mem p (b # bs) \<longleftrightarrow> mem p = b \<and> holds mem (p + 1) bs"
  by (auto simp: holds_def less_Suc_eq_0_disj add.assoc)

lemma holds_append: "holds mem p (xs @ ys) \<longleftrightarrow> holds mem p xs \<and> holds mem (p + of_nat (length xs)) ys"
  by (induction xs arbitrary: p) (auto simp: holds_Cons add.assoc add.commute add.left_commute)

lemma rd32_le32: "holds mem p (le32 v) \<Longrightarrow> rd32 mem p = v"
proof (rule bit_word_eqI)
  fix n assume h: "holds mem p (le32 v)" "n < LENGTH(32)"
  then have m: "mem p = ucast v" "mem (p + 1) = ucast (drop_bit 8 v)" "mem (p + 2) = ucast (drop_bit 16 v)" "mem (p + 3) = ucast (drop_bit 24 v)"
    by (simp_all add: le32_def holds_Cons add.assoc)
  show "bit (rd32 mem p) n = bit v n" using h(2)
    by (cases "n < 16") (auto simp: rd32_def rd16_def m add.assoc bit_or_iff bit_push_bit_iff bit_ucast_iff bit_drop_bit_eq not_less)
qed

lemma record_size: "record_ok r \<Longrightarrow> 2 \<le> length (encode_record r) \<and> length (encode_record r) < 256 \<and>
    encode_record r ! 1 = of_nat (length (encode_record r))"
  by (cases r) (auto simp: le32_def)

lemma madt_record:
  assumes "holds mem p (encode_record r)" "record_ok r"
  shows "(if mem p = KR_ACPI_MADT_RECORD_TYPE_PROCESSOR_LOCAL_APIC then kbind (MadtLocalApic mem (p + 2) s) (\<lambda>s1. Inr (s1, a))
                  else if mem p = KR_ACPI_MADT_RECORD_TYPE_IO_APIC then kbind (MadtIoApic mem (p + 2) a) (\<lambda>a1. Inr (s, a1))
                  else Inr (s, a)) = apply_record r (s, a)"
proof (cases r)
  case (LocalApicRec acpi lapic fl)
  then have m: "mem p = 0" "mem (p + 2) = acpi" "mem (p + 3) = lapic" "holds mem (p + 4) (le32 fl)"
    using assms(1) by (simp_all add: holds_Cons add.assoc)
  have "fl AND KR_ACPI_LAPIC_FLAGS_PROCESSOR_ENABLED = 0 \<longleftrightarrow> \<not> bit fl 0"
    using btest_bit [of fl 0] by (auto simp: btest_def KR_ACPI_LAPIC_FLAGS_PROCESSOR_ENABLED_def)
  then show ?thesis using m rd32_le32 [OF m(4)] LocalApicRec
    by (simp add: KR_ACPI_MADT_RECORD_TYPE_PROCESSOR_LOCAL_APIC_def MadtLocalApic_def Let_def add.assoc)
next
  case (IoApicRec i base gsi)
  then have m: "mem p = 1" "mem (p + 2) = i" "holds mem (p + 4) (le32 base)" "holds mem (p + 8) (le32 gsi)"
    using assms(1) by (simp_all add: holds_append holds_Cons add.assoc le32_def)
  show ?thesis using m rd32_le32 [OF m(3)] rd32_le32 [OF m(4)] IoApicRec
    by (auto simp: KR_ACPI_MADT_RECORD_TYPE_PROCESSOR_LOCAL_APIC_def KR_ACPI_MADT_RECORD_TYPE_IO_APIC_def MadtIoApic_def Let_def add.assoc SetIoApicCount_def)
next
  case (OtherRec t bs)
  then show ?thesis using assms
    by (simp add: holds_Cons KR_ACPI_MADT_RECORD_TYPE_PROCESSOR_LOCAL_APIC_def KR_ACPI_MADT_RECORD_TYPE_IO_APIC_def)
qed

lemma madt_loop:
  assumes "holds mem cur (concat (map encode_record rs))" "list_all record_ok rs"
    "unat nd = unat cur + length (concat (map encode_record rs))" "length rs < f"
  shows "MadtLoop f mem cur nd s a = each apply_record rs (s, a)"
  using assms
proof (induction rs arbitrary: cur f s a)
  case Nil
  then obtain f' where "f = Suc f'" by (cases f) auto
  then show ?case using Nil by (simp add: word_less_nat_alt)
next
  case (Cons r rs)
  obtain f' where f: "f = Suc f'" using Cons.prems(4) by (cases f) auto
  have ok: "record_ok r" using Cons.prems(2) by simp
  note sz = record_size [OF ok]
  let ?n = "length (encode_record r)"
  have nd: "unat nd = unat cur + (?n + length (concat (map encode_record rs)))" using Cons.prems(3) by simp
  have lt: "cur < nd" unfolding word_less_nat_alt nd using sz by linarith
  have h: "holds mem cur (encode_record r)" "holds mem (cur + of_nat ?n) (concat (map encode_record rs))"
    using Cons.prems(1) by (simp_all add: holds_append)
  have m1: "mem (cur + 1) = of_nat ?n"
  proof -
    have "mem (cur + of_nat 1) = encode_record r ! 1" using h(1) sz unfolding holds_def by (metis less_le_trans one_less_numeral_iff semiring_norm(76))
    then show ?thesis using sz by simp
  qed
  have uc: "(ucast (of_nat ?n :: BYTE) :: UINTPTR) = of_nat ?n" using sz by (intro ucast_of_nat_up) simp_all
  have nx: "cur + 2 + (ucast (mem (cur + 1)) - 2) = cur + of_nat ?n" unfolding m1 uc by simp
  have un: "unat (cur + of_nat ?n) = unat cur + ?n"
  proof (rule trans [OF unat_plus_le])
    have "unat nd < 2 ^ 64" using unsigned_less [of nd] by simp
    then show "unat cur + unat (of_nat ?n :: UINTPTR) < 2 ^ LENGTH(64)" using Cons.prems(3) sz unat_of_nat_small [of ?n, where ?'a = 64] by simp
    show "unat cur + unat (of_nat ?n :: UINTPTR) = unat cur + ?n" using sz unat_of_nat_small [of ?n, where ?'a = 64] by simp
  qed
  have rest: "MadtLoop f' mem (cur + of_nat ?n) nd s1 a1 = each apply_record rs (s1, a1)" for s1 a1
    using Cons.prems h(2) un f by (intro Cons.IH) auto
  have "MadtLoop f mem cur nd s a = kbind (apply_record r (s, a)) (\<lambda>(s1, a1). MadtLoop f' mem (cur + of_nat ?n) nd s1 a1)"
    unfolding f MadtLoop.simps Let_def nx madt_record [OF h(1) ok] using lt by simp
  then show ?case by (simp add: rest case_prod_unfold)
qed

section \<open>What the table means\<close>

fun enabled_cpu :: "madt_record \<Rightarrow> nat \<Rightarrow> bool" where
  "enabled_cpu (LocalApicRec acpi lapic fl) i \<longleftrightarrow> bit fl 0 \<and> unat lapic = i"
| "enabled_cpu _ i \<longleftrightarrow> False"

fun is_enabled :: "madt_record \<Rightarrow> bool" where
  "is_enabled (LocalApicRec acpi lapic fl) \<longleftrightarrow> bit fl 0"
| "is_enabled _ \<longleftrightarrow> False"

fun io_ids :: "madt_record list \<Rightarrow> DWORD list" where
  "io_ids [] = []"
| "io_ids (IoApicRec i base gsi # rs) = ucast i # io_ids rs"
| "io_ids (_ # rs) = io_ids rs"

definition table_sizes :: "KrSmpInfo \<Rightarrow> ioapic_state \<Rightarrow> bool" where
  "table_sizes s a \<longleftrightarrow> length (ProcInfo s) = 256 \<and> length (IoApics a) = 256 \<and> length (IoApicIDs a) = 256"

lemma byte_lt [simp]: "unat (b :: 8 word) < 256" "\<not> 256 \<le> unat b"
proof -
  show "unat b < 256" by (rule less_le_trans [OF unsigned_less]) simp
  then show "\<not> 256 \<le> unat b" by simp
qed

lemma apply_records:
  assumes "table_sizes s a" "unat (IoApicCount a) + length (io_ids rs) \<le> 256"
  shows "\<exists>s' a'. each apply_record rs (s, a) = Inr (s', a') \<and> table_sizes s' a' \<and>
    IdealProcessorCount s' = IdealProcessorCount s + of_nat (length (filter is_enabled rs)) \<and>
    (\<forall>i < 256. piE_V (ProcInfo s' ! i) \<longleftrightarrow> piE_V (ProcInfo s ! i) \<or> (\<exists>r \<in> set rs. enabled_cpu r i)) \<and>
    unat (IoApicCount a') = unat (IoApicCount a) + length (io_ids rs) \<and>
    take (unat (IoApicCount a')) (IoApicIDs a') = take (unat (IoApicCount a)) (IoApicIDs a) @ io_ids rs \<and>
    (\<forall>i < 256. E_V (IoApics a' ! i) \<longleftrightarrow> E_V (IoApics a ! i) \<or> of_nat i \<in> set (io_ids rs))"
  using assms
proof (induction rs arbitrary: s a)
  case (Cons r rs)
  show ?case
  proof (cases r)
    case (LocalApicRec acpi lapic fl)
    show ?thesis
    proof (cases "bit fl 0")
      case False then show ?thesis using Cons LocalApicRec by simp
    next
      case True
      define s1 where "s1 = s\<lparr> IdealProcessorCount := IdealProcessorCount s + 1,
        ProcInfo := (ProcInfo s)[unat lapic := (ProcInfo s ! unat lapic)\<lparr> piE_V := True, piBSP := False, piAcpiID := ucast acpi, piLocalApicID := ucast lapic \<rparr>] \<rparr>"
      have e: "apply_record r (s, a) = Inr (s1, a)"
        using True Cons.prems(1) LocalApicRec by (simp add: upd_proc_def table_sizes_def s1_def)
      have t: "table_sizes s1 a" using Cons.prems(1) by (simp add: table_sizes_def s1_def)
      have v: "piE_V (ProcInfo s1 ! i) \<longleftrightarrow> piE_V (ProcInfo s ! i) \<or> unat lapic = i" if "i < 256" for i
        using Cons.prems(1) that by (auto simp: s1_def table_sizes_def nth_list_update)
      have ic: "IdealProcessorCount s1 = IdealProcessorCount s + 1" by (simp add: s1_def)
      show ?thesis using Cons.IH [OF t] Cons.prems(2) e v ic True LocalApicRec by (auto simp: add.assoc)
    qed
  next
    case (IoApicRec i base gsi)
    let ?n = "unat (IoApicCount a)"
    have n: "?n < 256" using Cons.prems(2) IoApicRec by simp
    have un: "unat (IoApicCount a + 1) = ?n + 1" using n by (intro unat_Suc_word) simp
    define a1 where "a1 = a\<lparr> IoApics := (IoApics a)[unat i := (IoApics a ! unat i)\<lparr> E_V := True, IoApicID := ucast i, FirstIRQ := gsi, PaddrBase := ucast base \<rparr>],
      IoApicIDs := (IoApicIDs a)[?n := ucast i], IoApicCount := IoApicCount a + 1 \<rparr>"
    have e: "apply_record r (s, a) = Inr (s, a1)"
      using n Cons.prems(1) IoApicRec by (simp add: table_sizes_def a1_def)
    have t: "table_sizes s a1" using Cons.prems(1) by (simp add: table_sizes_def a1_def)
    have c: "unat (IoApicCount a1) = ?n + 1" using un by (simp add: a1_def)
    have ids: "take (?n + 1) (IoApicIDs a1) = take ?n (IoApicIDs a) @ [ucast i]"
      using n Cons.prems(1) by (simp add: a1_def table_sizes_def take_Suc_conv_app_nth)
    have v: "E_V (IoApics a1 ! j) \<longleftrightarrow> E_V (IoApics a ! j) \<or> of_nat j = (ucast i :: DWORD)" if "j < 256" for j
    proof -
      have "of_nat j = (ucast i :: DWORD) \<longleftrightarrow> unat i = j"
        using that by (auto simp: word_eq_unat unat_ucast_up unat_of_nat_small)
      then show ?thesis using Cons.prems(1) that by (auto simp: a1_def table_sizes_def nth_list_update)
    qed
    show ?thesis using Cons.IH [OF t] Cons.prems(2) e v c ids IoApicRec by (auto simp: add.assoc)
  next
    case OtherRec then show ?thesis using Cons by simp
  qed
qed simp

lemma madt_zero_length:
  assumes "cur < nd" "mem cur \<noteq> 0" "mem cur \<noteq> 1" "mem (cur + 1) = 0"
  shows "MadtLoop f mem cur nd s a = Inl OutOfFuel"
  using assms
  by (induction f) (simp_all add: Let_def KR_ACPI_MADT_RECORD_TYPE_PROCESSOR_LOCAL_APIC_def KR_ACPI_MADT_RECORD_TYPE_IO_APIC_def)


definition wit_madt :: memory where
  "wit_madt = (\<lambda>a. if a = 4100 then 52 else if a = 4141 then 8 else if a = 4142 then 5 else if a = 4143 then 3 else if a = 4144 then 1 else 0)"

definition wit_smp :: KrSmpInfo where
  "wit_smp = \<lparr> pCpuIDs = 0, IdealProcessorCount = 0, ActiveProcessorCount = 0,
     ProcInfo = replicate 256 \<lparr> piLocalApicID = 0, piAcpiID = 0, piE_V = False, piBSP = False, piRFD = False \<rparr>, bProcessorReinitDetected = False \<rparr>"

definition wit_ioapics :: ioapic_state where
  "wit_ioapics = \<lparr> IoApics = replicate 256 \<lparr> PaddrBase = 0, VaddrBase = 0, IoApicID = 0, FirstIRQ = 0, Version = 0, MaxRedirEntry = 0, E_V = False, INIT = False \<rparr>,
     IoApicIDs = replicate 256 0, IoApicCount = 0 \<rparr>"


end
