(* ===== verification/Kheap.thy ===== *)
theory Kheap
  imports VirtMem
begin

text \<open>
  The kernel heap, \<^verbatim>\<open>Kernel/Source/Memory/Krnlheap.c\<close>: a doubly linked list of blocks, each a
  packed header of 25 bytes and a payload, and in front of every pointer handed out a 16-bit distance back to
  its header. The store keeps the headers by address and the distances by the address of the word that holds
  them; what callers write into payloads is not modelled.
\<close>

section \<open>State\<close>

record HeapHeader =
  hpPrev :: UINTPTR
  hpNext :: UINTPTR
  PayloadSize :: SIZE
  bFree :: bool

record heap =
  headers :: "UINTPTR \<Rightarrow> HeapHeader"
  offsets :: "UINTPTR \<Rightarrow> WORD"
  RootHeader :: UINTPTR
  VaddrHeapSt :: UINTPTR
  VaddrHeapNd :: UINTPTR
  HeapVMR :: UINTPTR
  s_HeapInitialized :: bool

definition sizeof_HeapHeader :: SIZE where "sizeof_HeapHeader = 25"
definition sizeof_offset_to_meta_t :: SIZE where "sizeof_offset_to_meta_t = 2"
definition HEAP_MIN_PAYLOAD_SIZE :: SIZE where "HEAP_MIN_PAYLOAD_SIZE = 32"
definition HEAP_DEFAULT_ALIGNMENT :: UINT where "HEAP_DEFAULT_ALIGNMENT = 0x10"

text \<open>The complement of a promoted 16-bit zero is the integer -1, which converts to the largest size.\<close>

definition MAX_offset_to_meta :: SIZE where "MAX_offset_to_meta = - 1"

definition upd_header :: "UINTPTR \<Rightarrow> (HeapHeader \<Rightarrow> HeapHeader) \<Rightarrow> heap \<Rightarrow> heap" where
  "upd_header p f h = h\<lparr> headers := (headers h)(p := f (headers h p)) \<rparr>"

section \<open>Searching\<close>

definition HeapHeaderPayloadAddress :: "UINTPTR \<Rightarrow> UINTPTR" where
  "HeapHeaderPayloadAddress pHeader = pHeader + sizeof_HeapHeader"

fun HeapLocateFreeFrom :: "nat \<Rightarrow> heap \<Rightarrow> UINTPTR \<Rightarrow> UINTPTR kres" where
  "HeapLocateFreeFrom 0 h pRef = Inl OutOfFuel"
| "HeapLocateFreeFrom (Suc f) h pRef =
     (if pRef = 0 then Inr 0
      else if bFree (headers h pRef) then Inr pRef
      else HeapLocateFreeFrom f h (hpNext (headers h pRef)))"

fun HeapLocateFreeOfSizeFrom :: "nat \<Rightarrow> heap \<Rightarrow> UINTPTR \<Rightarrow> SIZE \<Rightarrow> UINTPTR kres" where
  "HeapLocateFreeOfSizeFrom 0 h pRef N = Inl OutOfFuel"
| "HeapLocateFreeOfSizeFrom (Suc f) h pRef N =
     (if pRef = 0 then Inr 0
      else if bFree (headers h pRef) \<and> PayloadSize (headers h pRef) \<ge> N then Inr pRef
      else HeapLocateFreeOfSizeFrom f h (hpNext (headers h pRef)) N)"

text \<open>The aligned payload address of a block, at least two bytes behind the header.\<close>

definition AlignedPayload :: "UINTPTR \<Rightarrow> UINT \<Rightarrow> UINTPTR" where
  "AlignedPayload pRef Alignment =
     (let Original = HeapHeaderPayloadAddress pRef;
          Aligned = KrtlAlignUpToPowerOfTwo Original Alignment;
          ErrorTolerance = Aligned - Original
      in if ErrorTolerance < sizeof_offset_to_meta_t
         then KrtlAlignUpToPowerOfTwo (Aligned + (sizeof_offset_to_meta_t - ErrorTolerance)) Alignment
         else Aligned)"

text \<open>The result is the header, 0 for none, with the aligned payload address.\<close>

fun HeapLocateAlignedFreeOfSizeFrom :: "nat \<Rightarrow> heap \<Rightarrow> UINTPTR \<Rightarrow> SIZE \<Rightarrow> UINT \<Rightarrow> (UINTPTR \<times> UINTPTR) kres" where
  "HeapLocateAlignedFreeOfSizeFrom 0 h pRef N Alignment = Inl OutOfFuel"
| "HeapLocateAlignedFreeOfSizeFrom (Suc f) h pRef N Alignment =
     (if pRef = 0 then Inr (0, 0)
      else if bFree (headers h pRef) \<and>
              PayloadSize (headers h pRef) - (AlignedPayload pRef Alignment - HeapHeaderPayloadAddress pRef) \<ge> N
      then Inr (pRef, AlignedPayload pRef Alignment)
      else HeapLocateAlignedFreeOfSizeFrom f h (hpNext (headers h pRef)) N Alignment)"

section \<open>Splitting\<close>

definition HeapCanSplitAt :: "heap \<Rightarrow> UINTPTR \<Rightarrow> UINTPTR \<Rightarrow> bool" where
  "HeapCanSplitAt h pRef Offset \<longleftrightarrow>
     (let AddrAbsNd = pRef + sizeof_HeapHeader + PayloadSize (headers h pRef)
      in if Offset > AddrAbsNd - pRef then False
         else AddrAbsNd - (pRef + Offset) \<ge> HEAP_MIN_PAYLOAD_SIZE + sizeof_HeapHeader)"

definition HeapTrySplitAt :: "heap \<Rightarrow> UINTPTR \<Rightarrow> UINTPTR \<Rightarrow> bool \<times> heap" where
  "HeapTrySplitAt h pRef Offset =
     (if \<not> HeapCanSplitAt h pRef Offset then (False, h)
      else
        let AddrAbsNd = pRef + sizeof_HeapHeader + PayloadSize (headers h pRef);
            AddrInto = pRef + Offset;
            EndToCutDiff = AddrAbsNd - AddrInto;
            h1 = upd_header AddrInto (\<lambda>_. \<lparr> hpPrev = pRef, hpNext = hpNext (headers h pRef),
                   PayloadSize = EndToCutDiff - sizeof_HeapHeader, bFree = True \<rparr>) h;
            n = hpNext (headers h1 AddrInto);
            h2 = (if n \<noteq> 0 then upd_header n (\<lambda>b. b\<lparr> hpPrev := AddrInto \<rparr>) h1 else h1)
        in (True, upd_header pRef (\<lambda>b. b\<lparr> hpNext := AddrInto, PayloadSize := PayloadSize b - EndToCutDiff \<rparr>) h2))"

section \<open>The interface\<close>

definition HeapInit :: "nat \<Rightarrow> heap \<Rightarrow> rna_sys \<Rightarrow> (bool \<times> heap \<times> rna_sys) kres" where
  "HeapInit f h s =
     (if s_HeapInitialized h then Inr (False, h, s)
      else
        let St = KR_MAKE_VIRTUAL KRNL_PML4_IDX KRNL_HEAP_PDPT_IDX 0 0 0;
            Nd = St + (KR_MAKE_VIRTUAL KRNL_PML4_IDX KRNL_MMIO_PDPT_IDX 0 0 0 - St);
            h1 = h\<lparr> VaddrHeapSt := St, VaddrHeapNd := Nd \<rparr>
        in kbind (VmAcquireRegion f s (KrGetKernelAddressSpace s) St Nd (VMR_FLAG_READABLE OR VMR_FLAG_WRITABLE)) (\<lambda>(r, s1).
             let h2 = h1\<lparr> HeapVMR := r \<rparr>
             in if r = 0 then Inr (False, h2, s1)
                else
                  let s2 = VmTagRegion s1 r (Some ''Kernel Heap'');
                      h3 = h2\<lparr> RootHeader := St \<rparr>;
                      h4 = upd_header St (\<lambda>_. \<lparr> hpPrev = 0, hpNext = 0, PayloadSize = Nd - St - sizeof_HeapHeader, bFree = True \<rparr>) h3
                  in Inr (True, h4\<lparr> s_HeapInitialized := True \<rparr>, s2)))"

definition HeapAlignedReAcquire :: "UINTPTR \<Rightarrow> SIZE \<Rightarrow> UINT \<Rightarrow> UINTPTR" where
  "HeapAlignedReAcquire Ptr N Alignment = 0"

definition HeapAlignedAcquire :: "nat \<Rightarrow> heap \<Rightarrow> SIZE \<Rightarrow> UINT \<Rightarrow> (UINTPTR \<times> heap) kres" where
  "HeapAlignedAcquire f h N0 Alignment =
     (if N0 = 0 \<or> Alignment = 0 \<or> Alignment AND (Alignment - 1) \<noteq> 0 then Inr (0, h)
      else
        let N1 = (if N0 < HEAP_MIN_PAYLOAD_SIZE then HEAP_MIN_PAYLOAD_SIZE else N0);
            N = KrtlAlignUpToPowerOfTwo N1 Alignment
        in kbind (HeapLocateAlignedFreeOfSizeFrom f h (RootHeader h) N Alignment) (\<lambda>(pHeader, AddrAlignedPayload).
             if pHeader = 0 then Inr (0, h)
             else
               let ResultDistToHeader = AddrAlignedPayload - pHeader
               in if ResultDistToHeader > MAX_offset_to_meta then Inr (0, h)
                  else
                    let h1 = h\<lparr> offsets := (offsets h)(AddrAlignedPayload - sizeof_offset_to_meta_t := ucast ResultDistToHeader) \<rparr>;
                        h2 = snd (HeapTrySplitAt h1 pHeader (AddrAlignedPayload + N - pHeader))
                    in Inr (AddrAlignedPayload, upd_header pHeader (\<lambda>b. b\<lparr> bFree := False \<rparr>) h2)))"

definition HeapReAcquire :: "UINTPTR \<Rightarrow> SIZE \<Rightarrow> UINTPTR" where
  "HeapReAcquire Ptr N = HeapAlignedReAcquire Ptr N HEAP_DEFAULT_ALIGNMENT"

definition HeapAcquire :: "nat \<Rightarrow> heap \<Rightarrow> SIZE \<Rightarrow> (UINTPTR \<times> heap) kres" where
  "HeapAcquire f h N = HeapAlignedAcquire f h N HEAP_DEFAULT_ALIGNMENT"

text \<open>The previous block swallows this one; the store through the next header has no null check.\<close>

definition SwallowPrev :: "heap \<Rightarrow> UINTPTR \<Rightarrow> UINTPTR \<Rightarrow> UINTPTR \<Rightarrow> (UINTPTR \<times> heap) kres" where
  "SwallowPrev h pHeader pMyPrev pMyNext =
     (if pMyPrev \<noteq> 0 \<and> bFree (headers h pMyPrev)
      then
        let h1 = upd_header pMyPrev (\<lambda>b. b\<lparr> PayloadSize := PayloadSize b + (PayloadSize (headers h pHeader) + sizeof_HeapHeader),
                   hpNext := pMyNext \<rparr>) h
        in if pMyNext = 0 then Inl NullDeref
           else Inr (pMyPrev, upd_header pMyNext (\<lambda>b. b\<lparr> hpPrev := pMyPrev \<rparr>) h1)
      else Inr (pHeader, h))"

definition SwallowNext :: "heap \<Rightarrow> UINTPTR \<Rightarrow> UINTPTR \<Rightarrow> heap" where
  "SwallowNext h pHeader pMyNext =
     (if pMyNext \<noteq> 0 \<and> bFree (headers h pMyNext)
      then
        let n = headers h pMyNext;
            h1 = upd_header pHeader (\<lambda>b. b\<lparr> PayloadSize := PayloadSize b + (PayloadSize n + sizeof_HeapHeader), hpNext := hpNext n \<rparr>) h
        in if hpNext (headers h1 pMyNext) \<noteq> 0
           then upd_header (hpNext (headers h1 pMyNext)) (\<lambda>b. b\<lparr> hpPrev := pHeader \<rparr>) h1 else h1
      else h)"

definition HeapRelinquish :: "heap \<Rightarrow> UINTPTR \<Rightarrow> (bool \<times> heap) kres" where
  "HeapRelinquish h AddrPtr =
     (if AddrPtr < VaddrHeapSt h \<or> AddrPtr \<ge> VaddrHeapNd h then Inr (False, h)
      else
        let pHeader = AddrPtr - ucast (offsets h (AddrPtr - sizeof_offset_to_meta_t))
        in if bFree (headers h pHeader) then Inr (False, h)
           else
             let h1 = upd_header pHeader (\<lambda>b. b\<lparr> bFree := True \<rparr>) h;
                 pMyNext = hpNext (headers h1 pHeader)
             in kbind (SwallowPrev h1 pHeader (hpPrev (headers h1 pHeader)) pMyNext) (\<lambda>(p, h2).
                  Inr (True, SwallowNext h2 p pMyNext)))"

section \<open>Blocks\<close>

text \<open>
  \<open>hseg h q a xs e r\<close>: the blocks \<open>xs\<close> lie one behind the other from address \<open>a\<close> to \<open>e\<close>; the first has
  predecessor \<open>q\<close>, the last points to \<open>r\<close>, and no payload is below the minimum.
\<close>

primrec hseg :: "(UINTPTR \<Rightarrow> HeapHeader) \<Rightarrow> UINTPTR \<Rightarrow> nat \<Rightarrow> UINTPTR list \<Rightarrow> nat \<Rightarrow> UINTPTR \<Rightarrow> bool" where
  "hseg h q a [] e r \<longleftrightarrow> a = e"
| "hseg h q a (x # xs) e r \<longleftrightarrow> unat x = a \<and> x \<noteq> 0 \<and> hpPrev (h x) = q \<and> 32 \<le> unat (PayloadSize (h x)) \<and>
     hpNext (h x) = hd_or r xs \<and> hseg h x (a + 25 + unat (PayloadSize (h x))) xs e r"

definition block_end :: "(UINTPTR \<Rightarrow> HeapHeader) \<Rightarrow> UINTPTR \<Rightarrow> nat" where
  "block_end h x = unat x + 25 + unat (PayloadSize (h x))"

lemma hd_or_append [simp]: "hd_or r (xs @ ys) = hd_or (hd_or r ys) xs"
  by (cases xs) auto

lemma hseg_append:
  "hseg h q a (xs @ ys) e r \<longleftrightarrow> (\<exists>m. hseg h q a xs m (hd_or r ys) \<and> hseg h (last_or q xs) m ys e r)"
  by (induction xs arbitrary: q a) auto

lemma hseg_cong:
  "(\<And>x. x \<in> set xs \<Longrightarrow> hpPrev (h' x) = hpPrev (h x) \<and> hpNext (h' x) = hpNext (h x) \<and> PayloadSize (h' x) = PayloadSize (h x)) \<Longrightarrow>
    hseg h' q a xs e r = hseg h q a xs e r"
  by (induction xs arbitrary: q a) auto

lemma hseg_bounds:
  "hseg h q a xs e r \<Longrightarrow> a \<le> e \<and> (\<forall>x \<in> set xs. a \<le> unat x \<and> block_end h x \<le> e \<and> 32 \<le> unat (PayloadSize (h x)) \<and> x \<noteq> 0)"
proof (induction xs arbitrary: q a)
  case (Cons x xs)
  then show ?case using Cons.IH [of x "a + 25 + unat (PayloadSize (h x))"] by (fastforce simp: block_end_def)
qed simp

lemma hseg_distinct: "hseg h q a xs e r \<Longrightarrow> distinct xs"
proof (induction xs arbitrary: q a)
  case (Cons x xs)
  then have s: "hseg h x (a + 25 + unat (PayloadSize (h x))) xs e r" and u: "unat x = a" by auto
  have "x \<notin> set xs" using hseg_bounds [OF s] u by fastforce
  then show ?case using Cons.IH [OF s] by simp
qed simp

definition heap_ok :: "heap \<Rightarrow> UINTPTR list \<Rightarrow> bool" where
  "heap_ok h xs \<longleftrightarrow> xs \<noteq> [] \<and> RootHeader h = hd xs \<and> VaddrHeapSt h = hd xs \<and> unat (VaddrHeapNd h) + 64 < 2 ^ 64 \<and>
     hseg (headers h) 0 (unat (VaddrHeapSt h)) xs (unat (VaddrHeapNd h)) 0"

lemma heap_ok_cong:
  assumes "headers h' = headers h" "RootHeader h' = RootHeader h" "VaddrHeapSt h' = VaddrHeapSt h" "VaddrHeapNd h' = VaddrHeapNd h"
  shows "heap_ok h' xs = heap_ok h xs"
  unfolding heap_ok_def assms ..

lemma heap_ok_split:
  "heap_ok h (as @ x # bs) \<longleftrightarrow>
    RootHeader h = hd_or x as \<and> VaddrHeapSt h = hd_or x as \<and> unat (VaddrHeapNd h) + 64 < 2 ^ 64 \<and>
    hseg (headers h) 0 (unat (VaddrHeapSt h)) as (unat x) x \<and> x \<noteq> 0 \<and>
    hpPrev (headers h x) = last_or 0 as \<and> 32 \<le> unat (PayloadSize (headers h x)) \<and> hpNext (headers h x) = hd_or 0 bs \<and>
    hseg (headers h) x (block_end (headers h) x) bs (unat (VaddrHeapNd h)) 0"
  by (cases as) (auto simp: heap_ok_def hseg_append block_end_def)

lemma heap_ok_bounds:
  assumes "heap_ok h xs" "x \<in> set xs"
  shows "block_end (headers h) x \<le> unat (VaddrHeapNd h)" "block_end (headers h) x + 64 < 2 ^ 64"
    "32 \<le> unat (PayloadSize (headers h x))" "x \<noteq> 0"
  using assms hseg_bounds by (fastforce simp: heap_ok_def)+

section \<open>Alignment\<close>

lemma align_krtl:
  assumes "k \<le> 4"
  shows "KrtlAlignUpToPowerOfTwo a (2 ^ k) = align_up a (2 ^ k)"
proof -
  have "k = 0 \<or> k = 1 \<or> k = 2 \<or> k = 3 \<or> k = 4" using assms by linarith
  then show ?thesis by (elim disjE) (simp_all add: KrtlAlignUpToPowerOfTwo_def align_up_def)
qed

lemma pow_le16: "k \<le> 4 \<Longrightarrow> (2 :: nat) ^ k \<le> 16"
  using power_increasing [of k 4 "2 :: nat"] by simp

lemma align_small:
  assumes "k \<le> 4" "unat (a :: UINTPTR) + 16 < 2 ^ 64"
  shows "unat a \<le> unat (align_up a (2 ^ k))" "unat (align_up a (2 ^ k)) < unat a + 2 ^ k" "2 ^ k dvd unat (align_up a (2 ^ k))"
  using align_up_bounds [of "2 ^ k" k a] assms pow_le16 [OF assms(1)] by auto

lemma aligned_payload:
  assumes "k \<le> 4" "unat x + 25 + 64 < 2 ^ 64"
  shows "2 ^ k dvd unat (AlignedPayload x (2 ^ k))" "unat x + 27 \<le> unat (AlignedPayload x (2 ^ k))"
    "unat (AlignedPayload x (2 ^ k)) \<le> unat x + 42"
proof -
  let ?o = "HeapHeaderPayloadAddress x"
  have o: "unat ?o = unat x + 25"
    using assms(2) unfolding HeapHeaderPayloadAddress_def by (subst unat_plus_le) (auto simp: sizeof_HeapHeader_def)
  define al where "al = align_up ?o (2 ^ k)"
  have al: "unat ?o \<le> unat al" "unat al < unat ?o + 2 ^ k" "2 ^ k dvd unat al"
    using align_small [OF assms(1), of ?o] assms(2) o by (simp_all add: al_def)
  have p16: "(2 :: nat) ^ k \<le> 16" using assms(1) by (rule pow_le16)
  have er: "unat (al - ?o) = unat al - unat ?o" using al(1) by (intro unat_minus_le) (simp add: word_le_nat_alt)
  have two: "unat sizeof_offset_to_meta_t = 2" by (simp add: sizeof_offset_to_meta_t_def)
  have e: "AlignedPayload x (2 ^ k) = (if al - ?o < sizeof_offset_to_meta_t
      then align_up (al + (sizeof_offset_to_meta_t - (al - ?o))) (2 ^ k) else al)"
    by (simp add: AlignedPayload_def Let_def align_krtl [OF assms(1)] al_def)
  have "2 ^ k dvd unat (AlignedPayload x (2 ^ k)) \<and> unat x + 27 \<le> unat (AlignedPayload x (2 ^ k)) \<and>
    unat (AlignedPayload x (2 ^ k)) \<le> unat x + 42"
  proof (cases "al - ?o < sizeof_offset_to_meta_t")
    case False
    then have "unat ?o + 2 \<le> unat al" using al(1) by (simp add: word_less_nat_alt er two)
    then show ?thesis using False e al o p16 by auto
  next
    case True
    then have lt: "unat al - unat ?o < 2" by (simp add: word_less_nat_alt er two)
    have "unat (sizeof_offset_to_meta_t - (al - ?o)) = 2 - (unat al - unat ?o)"
      using True by (subst unat_minus_le) (auto simp: er two)
    then have b: "unat (al + (sizeof_offset_to_meta_t - (al - ?o))) = unat ?o + 2"
      using al(1) lt assms(2) o by (subst unat_plus_le) auto
    show ?thesis
      using align_small [OF assms(1), of "al + (sizeof_offset_to_meta_t - (al - ?o))"] True e b o assms(2) p16 by auto
  qed
  then show "2 ^ k dvd unat (AlignedPayload x (2 ^ k))" "unat x + 27 \<le> unat (AlignedPayload x (2 ^ k))"
    "unat (AlignedPayload x (2 ^ k)) \<le> unat x + 42" by blast+
qed

text \<open>The distance from the payload address of a block to its aligned payload address.\<close>

definition slack :: "UINTPTR \<Rightarrow> UINT \<Rightarrow> nat" where
  "slack x A = unat (AlignedPayload x A) - (unat x + 25)"

definition fits :: "heap \<Rightarrow> nat \<Rightarrow> UINT \<Rightarrow> UINTPTR \<Rightarrow> bool" where
  "fits h n A x \<longleftrightarrow> bFree (headers h x) \<and> n + slack x A \<le> unat (PayloadSize (headers h x))"

lemma fits_test:
  assumes "k \<le> 4" "unat x + 25 + 64 < 2 ^ 64" "32 \<le> unat (PayloadSize (headers h x))"
  shows "bFree (headers h x) \<and> PayloadSize (headers h x) - (AlignedPayload x (2 ^ k) - HeapHeaderPayloadAddress x) \<ge> N \<longleftrightarrow>
    fits h (unat N) (2 ^ k) x"
proof -
  have o: "unat (HeapHeaderPayloadAddress x) = unat x + 25"
    using assms(2) unfolding HeapHeaderPayloadAddress_def by (subst unat_plus_le) (auto simp: sizeof_HeapHeader_def)
  note ap = aligned_payload [OF assms(1,2)]
  have d: "unat (AlignedPayload x (2 ^ k) - HeapHeaderPayloadAddress x) = slack x (2 ^ k)"
    using ap(2) o by (subst unat_minus_le) (auto simp: slack_def word_le_nat_alt)
  have s: "slack x (2 ^ k) \<le> 17" using ap(3) by (simp add: slack_def)
  have "unat (PayloadSize (headers h x) - (AlignedPayload x (2 ^ k) - HeapHeaderPayloadAddress x)) =
      unat (PayloadSize (headers h x)) - slack x (2 ^ k)"
    using s assms(3) by (subst unat_minus_le) (auto simp: d word_le_nat_alt)
  then show ?thesis using s assms(3) by (auto simp: fits_def word_le_nat_alt)
qed

lemma locate_aligned:
  assumes "hseg (headers h) q a xs e 0" "e + 64 < 2 ^ 64" "length xs < f" "k \<le> 4"
  shows "HeapLocateAlignedFreeOfSizeFrom f h (hd_or 0 xs) N (2 ^ k) =
    (case find (fits h (unat N) (2 ^ k)) xs of None \<Rightarrow> Inr (0, 0) | Some x \<Rightarrow> Inr (x, AlignedPayload x (2 ^ k)))"
  using assms(1,3)
proof (induction xs arbitrary: f q a)
  case Nil
  then show ?case by (cases f) auto
next
  case (Cons x xs)
  obtain g where f: "f = Suc g" using Cons.prems by (cases f) auto
  have b: "block_end (headers h) x \<le> e" "32 \<le> unat (PayloadSize (headers h x))" "x \<noteq> 0"
    using hseg_bounds [OF Cons.prems(1)] by auto
  then have "unat x + 25 + 64 < 2 ^ 64" using assms(2) by (simp add: block_end_def)
  note ft = fits_test [OF assms(4) this b(2), of N]
  have "HeapLocateAlignedFreeOfSizeFrom g h (hpNext (headers h x)) N (2 ^ k) =
      (case find (fits h (unat N) (2 ^ k)) xs of None \<Rightarrow> Inr (0, 0) | Some x \<Rightarrow> Inr (x, AlignedPayload x (2 ^ k)))"
    using Cons.IH [of x _ g] Cons.prems f by auto
  then show ?case using b(3) by (simp add: f ft del: power.simps)
qed


section \<open>Splitting a block\<close>

lemma upd_header_simps [simp]:
  "headers (upd_header p f h) = (headers h)(p := f (headers h p))" "RootHeader (upd_header p f h) = RootHeader h"
  "VaddrHeapSt (upd_header p f h) = VaddrHeapSt h" "VaddrHeapNd (upd_header p f h) = VaddrHeapNd h"
  "offsets (upd_header p f h) = offsets h" "HeapVMR (upd_header p f h) = HeapVMR h"
  "s_HeapInitialized (upd_header p f h) = s_HeapInitialized h"
  by (simp_all add: upd_header_def)

lemma hseg_set_prev:
  assumes "hseg h q a bs e 0"
  shows "hseg (if hd_or 0 bs \<noteq> 0 then h(hd_or 0 bs := (h (hd_or 0 bs))\<lparr> hpPrev := v \<rparr>) else h) v a bs e 0"
proof (cases bs)
  case Nil then show ?thesis using assms by simp
next
  case (Cons y ys)
  have "y \<notin> set ys" using hseg_distinct [OF assms] Cons by simp
  then have "hseg (h(y := (h y)\<lparr> hpPrev := v \<rparr>)) y (a + 25 + unat (PayloadSize (h y))) ys e 0 =
      hseg h y (a + 25 + unat (PayloadSize (h y))) ys e 0"
    by (intro hseg_cong) auto
  then show ?thesis using assms Cons by auto
qed

lemma heap_ok_apart:
  assumes "heap_ok h (as @ x # bs)"
  shows "x \<notin> set as" "x \<notin> set bs" "set as \<inter> set bs = {}" "distinct as" "distinct bs"
    "\<forall>y \<in> set as. block_end (headers h) y \<le> unat x" "\<forall>y \<in> set bs. block_end (headers h) x \<le> unat y" "\<forall>y \<in> set (as @ x # bs). y \<noteq> 0"
proof -
  have h: "hseg (headers h) 0 (unat (VaddrHeapSt h)) (as @ x # bs) (unat (VaddrHeapNd h)) 0"
    using assms unfolding heap_ok_def by blast
  have d: "distinct (as @ x # bs)" by (rule hseg_distinct [OF h])
  then show "x \<notin> set as" "x \<notin> set bs" "set as \<inter> set bs = {}" "distinct as" "distinct bs" by auto
  have "hseg (headers h) 0 (unat (VaddrHeapSt h)) as (unat x) x" "hseg (headers h) x (block_end (headers h) x) bs (unat (VaddrHeapNd h)) 0"
    using assms unfolding heap_ok_split by auto
  then show "\<forall>y \<in> set as. block_end (headers h) y \<le> unat x" "\<forall>y \<in> set bs. block_end (headers h) x \<le> unat y"
    using hseg_bounds by blast+
  show "\<forall>y \<in> set (as @ x # bs). y \<noteq> 0" using hseg_bounds [OF h] by blast
qed

lemma hd_or_in: "bs \<noteq> [] \<Longrightarrow> hd_or r bs \<in> set bs"
  by (cases bs) auto

lemma try_split:
  assumes ok: "heap_ok h (as @ x # bs)" and Off: "57 \<le> unat Off" "unat Off \<le> 25 + unat (PayloadSize (headers h x))"
  shows "if unat Off + 57 \<le> 25 + unat (PayloadSize (headers h x))
    then heap_ok (snd (HeapTrySplitAt h x Off)) (as @ x # (x + Off) # bs) \<and>
      bFree (headers (snd (HeapTrySplitAt h x Off)) (x + Off)) \<and>
      unat (PayloadSize (headers (snd (HeapTrySplitAt h x Off)) x)) = unat Off - 25 \<and>
      (\<forall>y. y \<noteq> x + Off \<longrightarrow> bFree (headers (snd (HeapTrySplitAt h x Off)) y) = bFree (headers h y)) \<and>
      (\<forall>y. y \<notin> {x, x + Off} \<longrightarrow> PayloadSize (headers (snd (HeapTrySplitAt h x Off)) y) = PayloadSize (headers h y)) \<and>
      offsets (snd (HeapTrySplitAt h x Off)) = offsets h
    else snd (HeapTrySplitAt h x Off) = h"
proof -
  let ?H = "headers h" and ?pl = "unat (PayloadSize (headers h x))"
  have b: "block_end ?H x + 64 < 2 ^ 64" "32 \<le> ?pl" using heap_ok_bounds [OF ok, of x] by auto
  have x25: "unat (x + sizeof_HeapHeader) = unat x + 25"
    using b unfolding block_end_def by (subst unat_plus_le) (auto simp: sizeof_HeapHeader_def)
  define E where "E = x + sizeof_HeapHeader + PayloadSize (?H x)"
  have E: "unat E = block_end ?H x"
    using b x25 unfolding E_def block_end_def by (subst unat_plus_le) auto
  have xO: "unat (x + Off) = unat x + unat Off"
    using Off b unfolding block_end_def by (subst unat_plus_le) auto
  have Ex: "unat (E - x) = 25 + ?pl"
    using E by (subst unat_minus_le) (auto simp: word_le_nat_alt block_end_def)
  have c1: "\<not> Off > E - x" using Off(2) by (simp add: word_less_nat_alt Ex)
  have d: "unat (E - (x + Off)) = 25 + ?pl - unat Off"
    using E xO Off(2) by (subst unat_minus_le) (auto simp: word_le_nat_alt block_end_def)
  have k57: "unat (HEAP_MIN_PAYLOAD_SIZE + sizeof_HeapHeader) = 57" by (simp add: HEAP_MIN_PAYLOAD_SIZE_def sizeof_HeapHeader_def)
  have can: "HeapCanSplitAt h x Off \<longleftrightarrow> unat Off + 57 \<le> 25 + ?pl"
    using c1 Off(2) by (auto simp: HeapCanSplitAt_def Let_def E_def [symmetric] word_le_nat_alt k57 d)
  show ?thesis
  proof (cases "unat Off + 57 \<le> 25 + ?pl")
    case False
    then show ?thesis using can by (simp add: HeapTrySplitAt_def)
  next
    case True
    define n where "n = x + Off"
    define D where "D = E - n"
    have nx: "unat n = unat x + unat Off" using xO by (simp add: n_def)
    have D: "unat D = 25 + ?pl - unat Off" using d by (simp add: D_def n_def)
    define b0 where "b0 = hd_or 0 bs"
    have nn: "hpNext (?H x) = b0" using ok unfolding heap_ok_split b0_def by auto
    have n_new: "n \<notin> set (as @ x # bs)"
    proof
      assume "n \<in> set (as @ x # bs)"
      moreover have "\<forall>y \<in> set as. unat y + 25 \<le> unat x" "\<forall>y \<in> set bs. unat x + 25 + ?pl \<le> unat y"
        using heap_ok_apart(6,7) [OF ok] by (auto simp: block_end_def)
      ultimately show False using nx Off(1) True by (fastforce simp: word_eq_unat)
    qed
    have b0n: "b0 \<noteq> 0 \<Longrightarrow> b0 \<in> set bs" by (cases bs) (auto simp: b0_def)
    have nx': "n \<noteq> x" using n_new by auto
    have n0: "n \<noteq> 0" using nx Off(1) by (auto simp: word_eq_unat)
    have b0x: "b0 \<noteq> x" "b0 \<noteq> n"
      using b0n heap_ok_apart(2,8) [OF ok] n_new n0 by (cases "b0 = 0"; auto)+
    have PS: "unat (PayloadSize (?H x) - D) = unat Off - 25"
      using D Off by (subst unat_minus_le) (auto simp: word_le_nat_alt)
    have DS: "unat (D - sizeof_HeapHeader) = ?pl - unat Off"
      using D True by (subst unat_minus_le) (auto simp: word_le_nat_alt sizeof_HeapHeader_def)
    define h' where "h' = snd (HeapTrySplitAt h x Off)"
    define H1 where "H1 = (if b0 \<noteq> 0 then ?H(b0 := (?H b0)\<lparr> hpPrev := n \<rparr>) else ?H)"
    have hd': "headers h' y = (if y = x then (?H x)\<lparr> hpNext := n, PayloadSize := PayloadSize (?H x) - D \<rparr>
        else if y = n then \<lparr> hpPrev = x, hpNext = b0, PayloadSize = D - sizeof_HeapHeader, bFree = True \<rparr> else H1 y)" for y
      using can True b0x nx' nn by (auto simp: h'_def HeapTrySplitAt_def Let_def E_def [symmetric] D_def [symmetric] n_def [symmetric] H1_def)
    have oth: "RootHeader h' = RootHeader h" "VaddrHeapSt h' = VaddrHeapSt h" "VaddrHeapNd h' = VaddrHeapNd h" "offsets h' = offsets h"
      using can True by (auto simp: h'_def HeapTrySplitAt_def Let_def)
    have sb: "hseg H1 n (block_end ?H x) bs (unat (VaddrHeapNd h)) 0"
      using ok hseg_set_prev [of ?H x "block_end ?H x" bs "unat (VaddrHeapNd h)" n] unfolding heap_ok_split H1_def b0_def by blast
    have "hseg (headers h') n (block_end ?H x) bs (unat (VaddrHeapNd h)) 0 = hseg H1 n (block_end ?H x) bs (unat (VaddrHeapNd h)) 0"
      by (rule hseg_cong) (use heap_ok_apart(2) [OF ok] n_new in \<open>auto simp: hd'\<close>)
    moreover have "hseg (headers h') 0 (unat (VaddrHeapSt h)) as (unat x) x = hseg ?H 0 (unat (VaddrHeapSt h)) as (unat x) x"
    proof (rule hseg_cong)
      fix y assume y: "y \<in> set as"
      then have "y \<noteq> x" "y \<noteq> n" "y \<noteq> b0 \<or> b0 = 0" using heap_ok_apart(1,3) [OF ok] n_new b0n by auto
      then show "hpPrev (headers h' y) = hpPrev (?H y) \<and> hpNext (headers h' y) = hpNext (?H y) \<and> PayloadSize (headers h' y) = PayloadSize (?H y)"
        by (auto simp: hd' H1_def)
    qed
    moreover have "block_end (headers h') x = unat n" "block_end (headers h') n = block_end ?H x"
      using PS DS nx nx' Off True by (auto simp: block_end_def hd')
    ultimately have "heap_ok h' (as @ x # n # bs)"
      using ok sb nx nx' Off(1) PS DS True unfolding heap_ok_split oth
      by (auto simp: hd' b0_def word_eq_unat block_end_def add.assoc)
    moreover have "\<forall>y. y \<noteq> n \<longrightarrow> bFree (headers h' y) = bFree (?H y)" by (auto simp: hd' H1_def)
    moreover have "\<forall>y. y \<notin> {x, n} \<longrightarrow> PayloadSize (headers h' y) = PayloadSize (?H y)" by (auto simp: hd' H1_def)
    moreover have "bFree (headers h' n)" "unat (PayloadSize (headers h' x)) = unat Off - 25" using nx' PS by (simp_all add: hd')
    ultimately show ?thesis using True oth(4) unfolding h'_def n_def by simp
  qed
qed


section \<open>Acquiring\<close>

text \<open>The size a request is rounded to.\<close>

definition rounded_size :: "SIZE \<Rightarrow> nat \<Rightarrow> SIZE" where
  "rounded_size N k = KrtlAlignUpToPowerOfTwo (if N < HEAP_MIN_PAYLOAD_SIZE then HEAP_MIN_PAYLOAD_SIZE else N) (2 ^ k)"

lemma rounded_size:
  assumes "k \<le> 4" "unat N < 2 ^ 63"
  shows "unat N \<le> unat (rounded_size N k)" "32 \<le> unat (rounded_size N k)" "unat (rounded_size N k) < 2 ^ 63 + 64"
proof -
  let ?M = "if N < HEAP_MIN_PAYLOAD_SIZE then HEAP_MIN_PAYLOAD_SIZE else N"
  have M: "unat N \<le> unat ?M" "32 \<le> unat ?M" "unat ?M < 2 ^ 63 + 32"
    using assms(2) by (auto simp: HEAP_MIN_PAYLOAD_SIZE_def word_less_nat_alt)
  then have "unat ?M + 16 < 2 ^ 64" by simp
  note a = align_small [OF assms(1) this]
  have "(2 :: nat) ^ k \<le> 16" using assms(1) by (rule pow_le16)
  then show "unat N \<le> unat (rounded_size N k)" "32 \<le> unat (rounded_size N k)" "unat (rounded_size N k) < 2 ^ 63 + 64"
    using a M unfolding rounded_size_def align_krtl [OF assms(1)] by linarith+
qed

text \<open>What a successful request does to the block it is taken from.\<close>

definition block_taken :: "heap \<Rightarrow> heap \<Rightarrow> UINTPTR \<Rightarrow> nat \<Rightarrow> UINTPTR \<Rightarrow> UINTPTR list \<Rightarrow> UINTPTR list \<Rightarrow> bool" where
  "block_taken h h' p n x as bs \<longleftrightarrow>
     (heap_ok h' (as @ x # bs) \<or> (\<exists>r. r \<notin> set (as @ x # bs) \<and> bFree (headers h' r) \<and> heap_ok h' (as @ x # r # bs))) \<and>
     \<not> bFree (headers h' x) \<and> unat x + 27 \<le> unat p \<and> unat p + n \<le> block_end (headers h') x \<and>
     offsets h' (p - 2) = ucast (p - x) \<and> unat (p - x) < 2 ^ 16 \<and>
     (\<forall>y \<in> set as \<union> set bs. bFree (headers h' y) = bFree (headers h y) \<and> PayloadSize (headers h' y) = PayloadSize (headers h y))"


lemma find_split:
  assumes "find P xs = Some x"
  shows "\<exists>as bs. xs = as @ x # bs \<and> P x \<and> (\<forall>y \<in> set as. \<not> P y)"
proof -
  obtain i where i: "i < length xs" "P (xs ! i)" "x = xs ! i" "\<forall>j < i. \<not> P (xs ! j)"
    using assms by (auto simp: find_Some_iff)
  have "xs = take i xs @ x # drop (Suc i) xs" using i(1,3) by (simp add: id_take_nth_drop)
  moreover have "\<forall>y \<in> set (take i xs). \<not> P y" using i(1,4) by (auto simp: in_set_conv_nth)
  ultimately show ?thesis using i(2,3) by blast
qed

lemma power2_alignment: "k \<le> 4 \<Longrightarrow> (2 :: UINT) ^ k \<noteq> 0 \<and> (2 :: UINT) ^ k AND (2 ^ k - 1) = 0"
proof -
  assume "k \<le> 4"
  then have "k = 0 \<or> k = 1 \<or> k = 2 \<or> k = 3 \<or> k = 4" by linarith
  then show ?thesis by (elim disjE) simp_all
qed

lemma take_block:
  assumes ok: "heap_ok h (as @ x # bs)" and k: "k \<le> 4" and ft: "fits h (unat N) (2 ^ k) x" and N: "32 \<le> unat N" "n \<le> unat N"
    and p: "p = AlignedPayload x (2 ^ k)" and h1: "h1 = h\<lparr> offsets := (offsets h)(p - 2 := ucast (p - x)) \<rparr>"
  shows "block_taken h (upd_header x (\<lambda>b. b\<lparr> bFree := False \<rparr>) (snd (HeapTrySplitAt h1 x (p + N - x)))) p n x as bs"
proof -
  have b: "block_end (headers h) x + 64 < 2 ^ 64" "x \<noteq> 0" using heap_ok_bounds [OF ok, of x] by auto
  have x64: "unat x + 25 + 64 < 2 ^ 64" using b by (simp add: block_end_def)
  note ap = aligned_payload [OF k x64, folded p]
  have px: "unat (p - x) = unat p - unat x" using ap(2) by (subst unat_minus_le) (auto simp: word_le_nat_alt)
  have nf: "unat p - unat x + unat N \<le> 25 + unat (PayloadSize (headers h x))"
    using ft [unfolded fits_def slack_def, folded p, THEN conjunct2] ap(2) by linarith
  define off where "off = p + N - x"
  have e: "off = (p - x) + N" by (simp add: off_def)
  have Off: "unat off = unat p - unat x + unat N"
    unfolding e using nf b by (subst unat_plus_le) (auto simp: px block_end_def)
  have ok1: "heap_ok h1 (as @ x # bs)" using ok heap_ok_cong [of h1 h] by (simp add: h1)
  have O1: "57 \<le> unat off" "unat off \<le> 25 + unat (PayloadSize (headers h1 x))"
    using Off ap(2) N(1) nf by (auto simp: h1)
  note sp = try_split [OF ok1 O1]
  define h2 where "h2 = snd (HeapTrySplitAt h1 x off)"
  define h' where "h' = upd_header x (\<lambda>b. b\<lparr> bFree := False \<rparr>) h2"
  have keep: "heap_ok h' ys = heap_ok h2 ys" for ys
    using hseg_cong [of ys "headers h'" "headers h2"] by (simp add: heap_ok_def h'_def)
  have nx: "x \<notin> set as \<union> set bs" using heap_ok_apart(1,2) [OF ok] by simp
  have dist: "unat (p - x) < 2 ^ 16" using ap(3) px by simp
  show ?thesis
  proof (cases "unat off + 57 \<le> 25 + unat (PayloadSize (headers h1 x))")
    case True
    note s = sp [unfolded if_P [OF True], folded h2_def]
    have ok2: "heap_ok h2 (as @ x # (x + off) # bs)" using s by blast
    then have nin: "x + off \<notin> set (as @ x # bs)"
      using heap_ok_apart(2,3) [of h2 as x "(x + off) # bs"] heap_ok_apart(2) [of h2 "as @ [x]" "x + off" bs] by auto
    have e: "unat p + n \<le> block_end (headers h') x"
      using s Off N(2) ap(2) by (simp add: h'_def block_end_def)
    have r: "heap_ok h' (as @ x # (x + off) # bs)" "bFree (headers h' (x + off))" "\<not> bFree (headers h' x)"
      using ok2 keep nin s by (simp_all add: h'_def)
    have f: "offsets h' (p - 2) = ucast (p - x)" using s by (simp add: h'_def h1)
    have a: "bFree (headers h' y) = bFree (headers h y) \<and> PayloadSize (headers h' y) = PayloadSize (headers h y)"
      if "y \<in> set as \<union> set bs" for y
    proof -
      have ne: "y \<noteq> x" "y \<noteq> x + off" using that nx nin by auto
      then have "bFree (headers h2 y) = bFree (headers h1 y)" "PayloadSize (headers h2 y) = PayloadSize (headers h1 y)"
        using s by blast+
      then show ?thesis using ne(1) by (simp add: h'_def h1)
    qed
    show ?thesis
      unfolding block_taken_def off_def [symmetric] h2_def [symmetric] h'_def [symmetric]
      using r e f a nin ap(2) dist by blast
  next
    case False
    then have h2: "h2 = h1" using sp unfolding h2_def by simp
    have "unat p + n \<le> block_end (headers h') x"
      using nf N(2) ap(2) by (simp add: h'_def h2 h1 block_end_def)
    then show ?thesis
      unfolding block_taken_def off_def [symmetric] h2_def [symmetric] h'_def [symmetric]
      using ok1 keep ap(2) dist nx h2 by (auto simp: h'_def h1)
  qed
qed

lemma heap_acquire_cases:
  assumes "heap_ok h xs" "k \<le> 4" "N \<noteq> 0" "unat N < 2 ^ 63" "length xs < f"
  shows "if \<exists>x \<in> set xs. fits h (unat (rounded_size N k)) (2 ^ k) x
    then \<exists>p h' as x bs. HeapAlignedAcquire f h N (2 ^ k) = Inr (p, h') \<and> xs = as @ x # bs \<and>
      fits h (unat (rounded_size N k)) (2 ^ k) x \<and> (\<forall>y \<in> set as. \<not> fits h (unat (rounded_size N k)) (2 ^ k) y) \<and>
      p \<noteq> 0 \<and> 2 ^ k dvd unat p \<and> block_taken h h' p (unat N) x as bs
    else HeapAlignedAcquire f h N (2 ^ k) = Inr (0, h)"
proof -
  let ?R = "rounded_size N k"
  have seg: "hseg (headers h) 0 (unat (VaddrHeapSt h)) xs (unat (VaddrHeapNd h)) 0" "unat (VaddrHeapNd h) + 64 < 2 ^ 64"
    using assms(1) unfolding heap_ok_def by blast+
  have root: "RootHeader h = hd_or 0 xs"
    using assms(1) unfolding heap_ok_def by (cases xs) simp_all
  have loc: "HeapLocateAlignedFreeOfSizeFrom f h (RootHeader h) ?R (2 ^ k) =
      (case find (fits h (unat ?R) (2 ^ k)) xs of None \<Rightarrow> Inr (0, 0) | Some x \<Rightarrow> Inr (x, AlignedPayload x (2 ^ k)))"
    unfolding root by (rule locate_aligned [OF seg(1,2) assms(5,2)])
  have cond: "\<not> (N = 0 \<or> (2 :: UINT) ^ k = 0 \<or> (2 :: UINT) ^ k AND (2 ^ k - 1) \<noteq> 0)"
    using assms(3) power2_alignment [OF assms(2)] by blast
  note acq = HeapAlignedAcquire_def [of f h N "2 ^ k", unfolded if_not_P [OF cond] Let_def rounded_size_def [symmetric] loc]
  show ?thesis
  proof (cases "find (fits h (unat ?R) (2 ^ k)) xs")
    case None
    have "HeapAlignedAcquire f h N (2 ^ k) = Inr (0, h)"
      using acq unfolding None by (simp only: option.case kbind_Inr prod.case simp_thms if_True refl)
    moreover have "\<not> (\<exists>x \<in> set xs. fits h (unat ?R) (2 ^ k) x)" using None [unfolded find_None_iff] by blast
    ultimately show ?thesis by (simp only: if_False)
  next
    case (Some x)
    obtain as bs where xs: "xs = as @ x # bs" "fits h (unat ?R) (2 ^ k) x" "\<forall>y \<in> set as. \<not> fits h (unat ?R) (2 ^ k) y"
      using find_split [OF Some] by blast
    have ok: "heap_ok h (as @ x # bs)" using assms(1) xs(1) by simp
    have x64: "unat x + 25 + 64 < 2 ^ 64" and x0: "x \<noteq> 0"
      using heap_ok_bounds [OF ok, of x] by (auto simp: block_end_def)
    define p where "p = AlignedPayload x (2 ^ k)"
    note ap = aligned_payload [OF assms(2) x64, folded p_def]
    define h1 where "h1 = h\<lparr> offsets := (offsets h)(p - 2 := ucast (p - x)) \<rparr>"
    define h' where "h' = upd_header x (\<lambda>b. b\<lparr> bFree := False \<rparr>) (snd (HeapTrySplitAt h1 x (p + ?R - x)))"
    have mx: "\<not> MAX_offset_to_meta < p - x" by (simp add: MAX_offset_to_meta_def)
    have "HeapAlignedAcquire f h N (2 ^ k) = Inr (p, h')"
      using acq x0 mx unfolding Some by (simp add: p_def h1_def h'_def sizeof_offset_to_meta_t_def)
    moreover have "block_taken h h' p (unat N) x as bs"
      unfolding h'_def using take_block [OF ok assms(2) xs(2) _ _ p_def h1_def] rounded_size [OF assms(2,4)] by blast
    moreover have "p \<noteq> 0" using ap(2) by auto
    ultimately show ?thesis using xs ap(1) by auto
  qed
qed

text \<open>
  C7: HeapAlignedAcquire, on a well-formed heap and for alignments up to 16, takes the first free block that
  holds the rounded size behind its aligned payload address. It returns an aligned address inside that block
  with room for the request and the distance to the header stored in front of it, marks the block used,
  splits off the rest as a free block when it is large enough, keeps the heap well-formed and leaves every
  other block alone. When no block fits it returns null and changes nothing.
\<close>
theorem heap_acquire:
  assumes "heap_ok h xs" "k \<le> 4" "N \<noteq> 0" "unat N < 2 ^ 63" "length xs < f"
  shows "if \<exists>x \<in> set xs. fits h (unat (rounded_size N k)) (2 ^ k) x
    then \<exists>p h' as x bs. HeapAlignedAcquire f h N (2 ^ k) = Inr (p, h') \<and> xs = as @ x # bs \<and>
      fits h (unat (rounded_size N k)) (2 ^ k) x \<and> (\<forall>y \<in> set as. \<not> fits h (unat (rounded_size N k)) (2 ^ k) y) \<and>
      p \<noteq> 0 \<and> 2 ^ k dvd unat p \<and> block_taken h h' p (unat N) x as bs
    else HeapAlignedAcquire f h N (2 ^ k) = Inr (0, h)"
  by (rule heap_acquire_cases [OF assms])

section \<open>Relinquishing\<close>

text \<open>Block \<open>x\<close> swallows its successor \<open>y\<close>; both branches of HeapRelinquish do this.\<close>

definition merged :: "heap \<Rightarrow> UINTPTR \<Rightarrow> UINTPTR \<Rightarrow> heap" where
  "merged h x y =
     (let n = hpNext (headers h y);
          h1 = upd_header x (\<lambda>b. b\<lparr> PayloadSize := PayloadSize b + (PayloadSize (headers h y) + sizeof_HeapHeader), hpNext := n \<rparr>) h
      in if n \<noteq> 0 then upd_header n (\<lambda>b. b\<lparr> hpPrev := x \<rparr>) h1 else h1)"

lemma hd_or_notin: "\<forall>y \<in> set bs. y \<noteq> (0 :: UINTPTR) \<Longrightarrow> z \<noteq> 0 \<Longrightarrow> z \<notin> set bs \<Longrightarrow> hd_or 0 bs \<noteq> z"
  by (cases bs) auto

lemma merge_blocks:
  assumes ok: "heap_ok h (as @ x # y # bs)"
  shows "heap_ok (merged h x y) (as @ x # bs)" "block_end (headers (merged h x y)) x = block_end (headers h) y"
    "bFree (headers (merged h x y) z) = bFree (headers h z)" "z \<noteq> x \<Longrightarrow> PayloadSize (headers (merged h x y) z) = PayloadSize (headers h z)"
    "offsets (merged h x y) = offsets h" "VaddrHeapSt (merged h x y) = VaddrHeapSt h" "VaddrHeapNd (merged h x y) = VaddrHeapNd h"
proof -
  let ?H = "headers h"
  have ok': "heap_ok h ((as @ [x]) @ y # bs)" using ok by simp
  note A = heap_ok_apart [OF ok] heap_ok_apart [OF ok']
  have n: "hpNext (?H y) = hd_or 0 bs" using ok' unfolding heap_ok_split by blast
  have y: "unat y = block_end ?H x" using ok unfolding heap_ok_split by simp
  have be: "block_end ?H y + 64 < 2 ^ 64" using heap_ok_bounds [OF ok', of y] by simp
  have ps: "unat (PayloadSize (?H x) + (PayloadSize (?H y) + sizeof_HeapHeader)) = unat (PayloadSize (?H x)) + 25 + unat (PayloadSize (?H y))"
  proof -
    have "unat (PayloadSize (?H y) + sizeof_HeapHeader) = unat (PayloadSize (?H y)) + 25"
      using be unfolding block_end_def by (subst unat_plus_le) (auto simp: sizeof_HeapHeader_def)
    then show ?thesis using be y unfolding block_end_def by (subst unat_plus_le) auto
  qed
  have nx: "hd_or 0 bs \<noteq> x" "hd_or 0 bs \<noteq> y" using A hd_or_notin [of bs x] hd_or_notin [of bs y] by auto
  define h' where "h' = merged h x y"
  define H1 where "H1 = (if hd_or 0 bs \<noteq> 0 then ?H(hd_or 0 bs := (?H (hd_or 0 bs))\<lparr> hpPrev := x \<rparr>) else ?H)"
  have hd': "headers h' z = (if z = x then (?H x)\<lparr> PayloadSize := PayloadSize (?H x) + (PayloadSize (?H y) + sizeof_HeapHeader), hpNext := hd_or 0 bs \<rparr>
      else H1 z)" for z
    using nx by (auto simp: h'_def merged_def Let_def n H1_def)
  have oth: "RootHeader h' = RootHeader h" "VaddrHeapSt h' = VaddrHeapSt h" "VaddrHeapNd h' = VaddrHeapNd h" "offsets h' = offsets h"
    by (simp_all add: h'_def merged_def Let_def)
  have end': "block_end (headers h') x = block_end ?H y"
    using y by (simp add: block_end_def hd' ps)
  have sb: "hseg H1 x (block_end ?H y) bs (unat (VaddrHeapNd h)) 0"
    using ok' hseg_set_prev [of ?H y "block_end ?H y" bs "unat (VaddrHeapNd h)" x] unfolding heap_ok_split H1_def by blast
  have b: "hseg (headers h') x (block_end ?H y) bs (unat (VaddrHeapNd h)) 0 = hseg H1 x (block_end ?H y) bs (unat (VaddrHeapNd h)) 0"
    by (rule hseg_cong) (use A in \<open>auto simp: hd'\<close>)
  have a: "hseg (headers h') 0 (unat (VaddrHeapSt h)) as (unat x) x = hseg ?H 0 (unat (VaddrHeapSt h)) as (unat x) x"
  proof (rule hseg_cong)
    fix z assume z: "z \<in> set as"
    then have "hd_or 0 bs \<noteq> z" using A by (intro hd_or_notin) auto
    moreover have "z \<noteq> x" using z A by auto
    ultimately show "hpPrev (headers h' z) = hpPrev (?H z) \<and> hpNext (headers h' z) = hpNext (?H z) \<and> PayloadSize (headers h' z) = PayloadSize (?H z)"
      by (simp add: hd' H1_def)
  qed
  have x: "hpPrev (headers h' x) = hpPrev (?H x)" "hpNext (headers h' x) = hd_or 0 bs" "32 \<le> unat (PayloadSize (headers h' x))"
    using ps heap_ok_bounds [OF ok, of x] by (simp_all add: hd')
  have "heap_ok h' (as @ x # bs)"
    using ok a b sb x unfolding heap_ok_split oth end' by metis
  then show "heap_ok (merged h x y) (as @ x # bs)" by (simp add: h'_def)
  show "block_end (headers (merged h x y)) x = block_end ?H y" using end' by (simp add: h'_def)
  show "bFree (headers (merged h x y) z) = bFree (?H z)" using hd' [of z] by (simp add: h'_def H1_def)
  show "z \<noteq> x \<Longrightarrow> PayloadSize (headers (merged h x y) z) = PayloadSize (?H z)" using hd' [of z] by (simp add: h'_def H1_def)
qed (simp_all add: merged_def Let_def)

text \<open>The blocks that remain, and the one that holds the freed block.\<close>

definition prev_free :: "heap \<Rightarrow> UINTPTR list \<Rightarrow> bool" where
  "prev_free h as \<longleftrightarrow> as \<noteq> [] \<and> bFree (headers h (last as))"

definition next_free :: "heap \<Rightarrow> UINTPTR list \<Rightarrow> bool" where
  "next_free h bs \<longleftrightarrow> bs \<noteq> [] \<and> bFree (headers h (hd bs))"

lemma swallow_next:
  assumes "heap_ok h (as @ x # bs)"
  shows "SwallowNext h x (hd_or 0 bs) = (if next_free h bs then merged h x (hd bs) else h)"
proof (cases bs)
  case (Cons y ys)
  then have "y \<noteq> 0" "y \<noteq> x" using heap_ok_apart [OF assms] by auto
  then show ?thesis using Cons by (simp add: SwallowNext_def next_free_def merged_def Let_def)
qed (simp add: SwallowNext_def next_free_def)

lemma swallow_prev:
  assumes "heap_ok h (as @ x # bs)"
  shows "SwallowPrev h x (last_or 0 as) (hd_or 0 bs) =
    (if prev_free h as then if bs = [] then Inl NullDeref else Inr (last as, merged h (last as) x) else Inr (x, h))"
proof (cases as rule: rev_cases)
  case (snoc zs w)
  then have "w \<noteq> 0" "hpNext (headers h x) = hd_or 0 bs" "bs \<noteq> [] \<Longrightarrow> hd_or 0 bs \<noteq> 0"
    using heap_ok_apart [OF assms] assms unfolding heap_ok_split by (auto simp: hd_or_in)
  then show ?thesis using snoc by (cases bs) (simp_all add: SwallowPrev_def prev_free_def merged_def Let_def last_or_def)
qed (simp add: SwallowPrev_def prev_free_def)

text \<open>The header a caller's pointer leads to.\<close>

definition header_of :: "heap \<Rightarrow> UINTPTR \<Rightarrow> UINTPTR" where
  "header_of h p = p - ucast (offsets h (p - 2))"

definition coalesced :: "heap \<Rightarrow> UINTPTR list \<Rightarrow> bool" where
  "coalesced h xs \<longleftrightarrow> successively (\<lambda>x y. \<not> (bFree (headers h x) \<and> bFree (headers h y))) xs"

text \<open>
  C9: HeapRelinquish of a pointer into the heap whose distance word leads to a used block \<open>x\<close> frees the
  block and merges it with its free neighbours: the list stays well-formed, the merged block covers exactly
  the bytes of the blocks it replaces, no other block and no distance word changes, and a heap without two
  adjacent free blocks still has none. But when the block is the last one and the previous one is free, the
  function writes through the null pointer to the next header.
\<close>
theorem heap_relinquish:
  assumes "heap_ok h (as @ x # bs)" "VaddrHeapSt h \<le> p" "p < VaddrHeapNd h" "header_of h p = x" "\<not> bFree (headers h x)"
  shows "if prev_free h as \<and> bs = [] then HeapRelinquish h p = Inl NullDeref
    else \<exists>h' as' bs' m. HeapRelinquish h p = Inr (True, h') \<and> as' = (if prev_free h as then butlast as else as) \<and>
      bs' = (if next_free h bs then tl bs else bs) \<and> m = (if prev_free h as then last as else x) \<and>
      heap_ok h' (as' @ m # bs') \<and> bFree (headers h' m) \<and>
      block_end (headers h') m = block_end (headers h) (if next_free h bs then hd bs else x) \<and>
      (\<forall>y \<in> set as' \<union> set bs'. bFree (headers h' y) = bFree (headers h y) \<and> PayloadSize (headers h' y) = PayloadSize (headers h y)) \<and>
      offsets h' = offsets h \<and> (coalesced h (as @ x # bs) \<longrightarrow> coalesced h' (as' @ m # bs'))"
proof -
  define h1 where "h1 = upd_header x (\<lambda>b. b\<lparr> bFree := True \<rparr>) h"
  have keep: "heap_ok h1 ys = heap_ok h ys" for ys
    using hseg_cong [of ys "headers h1" "headers h"] by (simp add: heap_ok_def h1_def)
  have ok1: "heap_ok h1 (as @ x # bs)" using assms(1) keep by blast
  have links: "hpPrev (headers h1 x) = last_or 0 as" "hpNext (headers h1 x) = hd_or 0 bs"
    using ok1 unfolding heap_ok_split by auto
  note A = heap_ok_apart [OF assms(1)]
  have fr: "bFree (headers h1 y) = (y = x \<or> bFree (headers h y))" "PayloadSize (headers h1 y) = PayloadSize (headers h y)" for y
    by (auto simp: h1_def)
  have be: "block_end (headers h1) y = block_end (headers h) y" for y by (simp add: block_end_def fr)
  have pf: "prev_free h1 as = prev_free h as" using A(1) by (auto simp: prev_free_def fr)
  have nf: "next_free h1 bs = next_free h bs" using A(2) by (auto simp: next_free_def fr)
  have guard: "\<not> (p < VaddrHeapSt h \<or> p \<ge> VaddrHeapNd h)" using assms(2,3) by (auto simp: not_less not_le)
  have call: "HeapRelinquish h p = kbind (SwallowPrev h1 x (last_or 0 as) (hd_or 0 bs)) (\<lambda>(q, h2). Inr (True, SwallowNext h2 q (hd_or 0 bs)))"
    using guard assms(4,5) links by (simp add: HeapRelinquish_def Let_def header_of_def sizeof_offset_to_meta_t_def h1_def)
  show ?thesis
  proof (cases "prev_free h as \<and> bs = []")
    case True
    then show ?thesis using swallow_prev [OF ok1] pf by (simp add: call)
  next
    case False
    define as' where "as' = (if prev_free h as then butlast as else as)"
    define bs' where "bs' = (if next_free h bs then tl bs else bs)"
    define m where "m = (if prev_free h as then last as else x)"
    define h2 where "h2 = (if prev_free h as then merged h1 m x else h1)"
    define h3 where "h3 = (if next_free h bs then merged h2 m (hd bs) else h2)"
    have ms: "as @ x # bs = (if prev_free h as then as' @ m # x # bs else as' @ m # bs)"
      by (auto simp: as'_def m_def prev_free_def)
    have ok2: "heap_ok h2 (as' @ m # bs)" and be2: "block_end (headers h2) m = block_end (headers h) x"
      and fr2: "\<And>y. bFree (headers h2 y) = (y = x \<or> bFree (headers h y))"
      and ps2: "\<And>y. y \<noteq> m \<Longrightarrow> PayloadSize (headers h2 y) = PayloadSize (headers h y)" and of2: "offsets h2 = offsets h"
      using merge_blocks [of h1 as' m x bs] ok1 ms be fr by (auto simp: h2_def h1_def m_def split: if_splits)
    have bs: "next_free h bs \<Longrightarrow> bs = hd bs # bs'" by (auto simp: bs'_def next_free_def)
    have nf2: "next_free h2 bs = next_free h bs" using A(2) by (auto simp: next_free_def fr2)
    have sp: "SwallowPrev h1 x (last_or 0 as) (hd_or 0 bs) = Inr (m, h2)"
      using False swallow_prev [OF ok1] pf by (auto simp: m_def h2_def)
    have res: "HeapRelinquish h p = Inr (True, h3)"
      using swallow_next [OF ok2] nf2 by (simp add: call sp h3_def)
    have ok3: "heap_ok h3 (as' @ m # bs')" and be3: "block_end (headers h3) m = block_end (headers h) (if next_free h bs then hd bs else x)"
      and fr3: "\<And>y. bFree (headers h3 y) = (y = x \<or> bFree (headers h y))"
      and ps3: "\<And>y. y \<noteq> m \<Longrightarrow> PayloadSize (headers h3 y) = PayloadSize (headers h y)" and of3: "offsets h3 = offsets h"
    proof -
      show "heap_ok h3 (as' @ m # bs')" "\<And>y. bFree (headers h3 y) = (y = x \<or> bFree (headers h y))"
        "\<And>y. y \<noteq> m \<Longrightarrow> PayloadSize (headers h3 y) = PayloadSize (headers h y)" "offsets h3 = offsets h"
        using merge_blocks [of h2 as' m "hd bs" bs'] ok2 fr2 ps2 of2 bs by (auto simp: h3_def bs'_def split: if_splits)
      have "block_end (headers h2) (hd bs) = block_end (headers h) (hd bs)" if "next_free h bs"
        using ps2 [of "hd bs"] heap_ok_apart(2) [OF ok2] bs [OF that] by (simp add: block_end_def) (metis list.set_intros(1))
      then show "block_end (headers h3) m = block_end (headers h) (if next_free h bs then hd bs else x)"
        using merge_blocks(2) [of h2 as' m "hd bs" bs'] ok2 be2 bs by (auto simp: h3_def)
    qed
    have fm: "bFree (headers h3 m)" by (auto simp: fr3 m_def prev_free_def)
    have "set as' \<subseteq> set as" "set bs' \<subseteq> set bs"
      by (auto simp: as'_def bs'_def dest: in_set_butlastD split: if_splits) (cases bs; simp)
    then have nin: "x \<notin> set as' \<union> set bs'" "m \<notin> set as' \<union> set bs'"
      using A(1,2) heap_ok_apart(1,2) [OF ok3] by blast+
    have co: "coalesced h3 (as' @ m # bs')" if c: "coalesced h (as @ x # bs)"
    proof -
      have eq: "coalesced h3 ys = coalesced h ys" if "x \<notin> set ys" for ys
        unfolding coalesced_def using that by (intro successively_cong) (auto simp: fr3)
      have l: "as' = [] \<or> \<not> bFree (headers h (last as'))" "coalesced h as'"
        using c [unfolded coalesced_def] ms by (auto simp: coalesced_def successively_append_iff as'_def m_def prev_free_def split: if_splits)
      have r: "bs' = [] \<or> \<not> bFree (headers h (hd bs'))" "coalesced h bs'"
        using c [unfolded coalesced_def] bs by (cases bs; cases "tl bs"; auto simp: coalesced_def successively_append_iff bs'_def next_free_def split: if_splits)+
      have "coalesced h3 as'" "coalesced h3 bs'" using eq l(2) r(2) nin(1) by auto
      moreover have "as' = [] \<or> \<not> bFree (headers h3 (last as'))" "bs' = [] \<or> \<not> bFree (headers h3 (hd bs'))"
        using l(1) r(1) nin(1) fr3 by (metis Un_iff last_in_set) (metis Un_iff hd_in_set r(1) nin(1) fr3)
      ultimately show ?thesis by (cases bs') (auto simp: coalesced_def successively_append_iff)
    qed
    have ot: "\<forall>y \<in> set as' \<union> set bs'. bFree (headers h3 y) = bFree (headers h y) \<and> PayloadSize (headers h3 y) = PayloadSize (headers h y)"
    proof
      fix y assume "y \<in> set as' \<union> set bs'"
      then have "y \<noteq> x" "y \<noteq> m" using nin by blast+
      then show "bFree (headers h3 y) = bFree (headers h y) \<and> PayloadSize (headers h3 y) = PayloadSize (headers h y)"
        using fr3 ps3 by simp
    qed
    have "\<not> (prev_free h as \<and> bs = [])" using False .
    then show ?thesis using res as'_def bs'_def m_def ok3 fm be3 ot of3 co unfolding if_not_P [OF False] by blast
  qed
qed

section \<open>Witnesses\<close>

definition wit_heap :: heap where
  "wit_heap = \<lparr> headers = (\<lambda>a. if a = 4096 then \<lparr> hpPrev = 0, hpNext = 4176, PayloadSize = 55, bFree = False \<rparr>
       else \<lparr> hpPrev = 4096, hpNext = 0, PayloadSize = 100, bFree = True \<rparr>),
     offsets = (\<lambda>_. 32), RootHeader = 4096, VaddrHeapSt = 4096, VaddrHeapNd = 4301, HeapVMR = 0, s_HeapInitialized = True \<rparr>"

lemma wit_heap_ok: "heap_ok wit_heap [4096, 4176]"
  by (simp add: heap_ok_def wit_heap_def)

lemma wit_heap_fits: "fits wit_heap (unat (rounded_size 40 4)) (2 ^ 4) 4176"
  by (simp add: fits_def slack_def rounded_size_def wit_heap_def AlignedPayload_def Let_def HeapHeaderPayloadAddress_def
    KrtlAlignUpToPowerOfTwo_def sizeof_HeapHeader_def sizeof_offset_to_meta_t_def HEAP_MIN_PAYLOAD_SIZE_def)

theorem heap_acquire_witness: "\<exists>p h'. HeapAlignedAcquire 3 wit_heap 40 (2 ^ 4) = Inr (p, h') \<and> p \<noteq> 0 \<and> 2 ^ 4 dvd unat p"
proof -
  have "\<exists>x \<in> set [4096, 4176]. fits wit_heap (unat (rounded_size 40 4)) (2 ^ 4) x" using wit_heap_fits by simp
  from heap_acquire [OF wit_heap_ok, of 4 40 3, unfolded if_P [OF this]] show ?thesis by fastforce
qed

theorem heap_relinquish_witness: "\<exists>h'. HeapRelinquish wit_heap 4128 = Inr (True, h') \<and> heap_ok h' [4096] \<and> block_end (headers h') 4096 = 4301"
proof -
  have a: "heap_ok wit_heap ([] @ 4096 # [4176])" using wit_heap_ok by simp
  have b: "header_of wit_heap 4128 = 4096" "\<not> bFree (headers wit_heap 4096)" "VaddrHeapSt wit_heap \<le> 4128" "4128 < VaddrHeapNd wit_heap"
    "next_free wit_heap [4176]" "block_end (headers wit_heap) 4176 = 4301"
    by (simp_all add: header_of_def wit_heap_def next_free_def block_end_def)
  show ?thesis using heap_relinquish [OF a b(3,4,1,2)] b(5,6) by (simp add: prev_free_def) blast
qed

end
