(* ===== verification/DeviceTree.thy ===== *)
theory DeviceTree
  imports Kheap
begin

text \<open>
  Devices and drivers: the device tree of \<^verbatim>\<open>Kernel/Source/Devdriv/Device.c\<close>, the driver table of
  \<^verbatim>\<open>Kernel/Source/Devdriv/Driver.c\<close> and the pairing of devices with drivers of
  \<^verbatim>\<open>Kernel/Source/Devdriv/Pair.c\<close>. Device nodes and drivers are named by their addresses. A driver's
  entry points are functions on the system state, which has room for the state of drivers behind its own
  fields; a null entry point is \<open>None\<close>. The name buffers hold strings shorter than themselves.
\<close>

section \<open>State\<close>

datatype BusType = BUS_IVLD | BUS_ROOT | BUS_PLATFORM | BUS_PCI | BUS_USB

record PciDeviceId =
  VaddrCfgSpace :: UINTPTR
  VendorID :: WORD
  DeviceID :: WORD
  PciBus :: UCHAR
  PciDevice :: UCHAR
  PciFunction :: UCHAR
  ProgIF :: UCHAR
  PciClass :: UCHAR
  PciSubClass :: UCHAR

definition PCI_ANY_VENDOR_ID :: WORD where "PCI_ANY_VENDOR_ID = 0xFFFF"
definition PCI_ANY_DEVICE_ID :: WORD where "PCI_ANY_DEVICE_ID = 0xFFFF"
definition PCI_ANY_BUS :: UCHAR where "PCI_ANY_BUS = 0xFF"
definition PCI_ANY_DEVICE :: UCHAR where "PCI_ANY_DEVICE = 0xFF"
definition PCI_ANY_FUNCTION :: UCHAR where "PCI_ANY_FUNCTION = 0xFF"
definition PCI_ANY_PROG_IF :: UCHAR where "PCI_ANY_PROG_IF = 0xFF"
definition PCI_ANY_CLASS :: UCHAR where "PCI_ANY_CLASS = 0xFF"
definition PCI_ANY_SUBCLASS :: UCHAR where "PCI_ANY_SUBCLASS = 0xFF"

record DriverMatchMethod =
  mmOnBus :: BusType
  mmPci :: PciDeviceId

record DeviceNode =
  dnName :: string
  dnOnBus :: BusType
  dnPci :: PciDeviceId
  pParent :: UINTPTR
  p1stKid :: UINTPTR
  pNxtSib :: UINTPTR
  pDriver :: UINTPTR
  pDriverData :: UINTPTR

datatype DriverType = DRIVER_UNSPECIFIED | DRIVER_BLOCK_DEVICE | DRIVER_VIDEO | DRIVER_NETWORK | DRIVER_KEYBOARD | DRIVER_TIMER

text \<open>The table of drivers is the block at \<open>pTable\<close>; \<open>DrvTable\<close> holds its entries.\<close>

record dev_sys =
  devs :: "UINTPTR \<Rightarrow> DeviceNode"
  g_DeviceCount :: UINT
  dheap :: heap
  pTable :: UINTPTR
  DrvTable :: "nat \<Rightarrow> UINTPTR"
  NrLoaded :: UINT
  NrCap :: UINT
  bRegistered :: "UINTPTR \<Rightarrow> bool"

record 's Driver =
  drvName :: string
  drvType :: DriverType
  pMatchMethods :: "DriverMatchMethod list option"
  Register :: "('s \<Rightarrow> (bool \<times> 's) kres) option"
  DevProbe :: "(UINTPTR \<Rightarrow> DriverMatchMethod \<Rightarrow> 's \<Rightarrow> (bool \<times> 's) kres) option"
  DevInit :: "(UINTPTR \<Rightarrow> 's \<Rightarrow> (bool \<times> 's) kres) option"

text \<open>The static data of the drivers, by address.\<close>

type_synonym 'a drivers = "UINTPTR \<Rightarrow> 'a dev_sys_scheme Driver"

definition pci_zero :: PciDeviceId where
  "pci_zero = \<lparr> VaddrCfgSpace = 0, VendorID = 0, DeviceID = 0, PciBus = 0, PciDevice = 0, PciFunction = 0, ProgIF = 0,
     PciClass = 0, PciSubClass = 0 \<rparr>"

definition device_zero :: DeviceNode where
  "device_zero = \<lparr> dnName = [], dnOnBus = BUS_IVLD, dnPci = pci_zero, pParent = 0, p1stKid = 0, pNxtSib = 0, pDriver = 0, pDriverData = 0 \<rparr>"

definition upd_dev :: "UINTPTR \<Rightarrow> (DeviceNode \<Rightarrow> DeviceNode) \<Rightarrow> 'a dev_sys_scheme \<Rightarrow> 'a dev_sys_scheme" where
  "upd_dev p g s = s\<lparr> devs := (devs s)(p := g (devs s p)) \<rparr>"

section \<open>The device tree\<close>

fun LastSibling :: "nat \<Rightarrow> (UINTPTR \<Rightarrow> DeviceNode) \<Rightarrow> UINTPTR \<Rightarrow> UINTPTR kres" where
  "LastSibling 0 D pSib = Inl OutOfFuel"
| "LastSibling (Suc f) D pSib = (if pNxtSib (D pSib) \<noteq> 0 then LastSibling f D (pNxtSib (D pSib)) else Inr pSib)"

definition AddChildDevice :: "nat \<Rightarrow> UINTPTR \<Rightarrow> UINTPTR \<Rightarrow> 'a dev_sys_scheme \<Rightarrow> 'a dev_sys_scheme kres" where
  "AddChildDevice f pPar pChild s =
     (if \<not> (pPar \<noteq> 0 \<and> pChild \<noteq> 0) then Inr s
      else
        let s1 = upd_dev pChild (\<lambda>d. d\<lparr> pParent := pPar, pNxtSib := 0 \<rparr>) s
        in if p1stKid (devs s1 pPar) = 0 then Inr (upd_dev pPar (\<lambda>d. d\<lparr> p1stKid := pChild \<rparr>) s1)
           else kbind (LastSibling f (devs s1) (p1stKid (devs s1 pPar))) (\<lambda>pSib.
                  Inr (upd_dev pSib (\<lambda>d. d\<lparr> pNxtSib := pChild \<rparr>) s1)))"

text \<open>\<open>Root\<close> is the address of \<^verbatim>\<open>g_RootDevice\<close>.\<close>

definition InitDeviceTreeRoot :: "UINTPTR \<Rightarrow> 'a dev_sys_scheme \<Rightarrow> bool \<times> 'a dev_sys_scheme" where
  "InitDeviceTreeRoot Root s =
     (if dnOnBus (devs s Root) \<noteq> BUS_IVLD then (False, s)
      else (True, (upd_dev Root (\<lambda>_. device_zero\<lparr> dnName := ''System Host'', dnOnBus := BUS_ROOT \<rparr>) s)\<lparr> g_DeviceCount := 1 \<rparr>))"

definition GetSystemDeviceCount :: "'a dev_sys_scheme \<Rightarrow> UINT" where
  "GetSystemDeviceCount s = g_DeviceCount s"

section \<open>The driver table\<close>

definition INITIAL_DRIVERS_RESERVE_COUNT :: UINT where "INITIAL_DRIVERS_RESERVE_COUNT = 32"

text \<open>The table is allocated, or grown when it is full; the reserve is in entries of eight bytes.\<close>

definition ReserveTable :: "nat \<Rightarrow> 'a dev_sys_scheme \<Rightarrow> (bool \<times> 'a dev_sys_scheme) kres" where
  "ReserveTable f s =
     (if NrCap s = 0
      then kbind (HeapAcquire f (dheap s) (ucast INITIAL_DRIVERS_RESERVE_COUNT * 8)) (\<lambda>(p, h).
             let s1 = s\<lparr> dheap := h, pTable := p \<rparr>
             in if p = 0 then Inr (False, s1)
                else Inr (True, s1\<lparr> NrCap := INITIAL_DRIVERS_RESERVE_COUNT, NrLoaded := 0 \<rparr>))
      else if NrLoaded s = NrCap s
      then (let s1 = s\<lparr> pTable := HeapReAcquire (pTable s) (8 * ucast (NrCap s + INITIAL_DRIVERS_RESERVE_COUNT)) \<rparr>
            in if pTable s1 = 0 then Inr (False, s1) else Inr (True, s1\<lparr> NrCap := NrCap s1 + INITIAL_DRIVERS_RESERVE_COUNT \<rparr>))
      else Inr (True, s))"

definition RegisterDriver :: "nat \<Rightarrow> 'a drivers \<Rightarrow> UINTPTR \<Rightarrow> 'a dev_sys_scheme \<Rightarrow> (bool \<times> 'a dev_sys_scheme) kres" where
  "RegisterDriver f drv p s =
     (if p = 0 \<or> bRegistered s p then Inr (False, s)
      else kbind (ReserveTable f s) (\<lambda>(ok, s1).
        if \<not> ok then Inr (False, s1)
        else if pTable s1 = 0 then Inl NullDeref
        else
          let s2 = s1\<lparr> DrvTable := (DrvTable s1)(unat (NrLoaded s1) := p), NrLoaded := NrLoaded s1 + 1 \<rparr>
          in kbind (case Register (drv p) of Some r \<Rightarrow> r s2 | None \<Rightarrow> Inr (True, s2)) (\<lambda>(ok, s3).
               let s4 = s3\<lparr> bRegistered := (bRegistered s3)(p := ok) \<rparr>
               in Inr (True, if \<not> ok then s4\<lparr> NrLoaded := NrLoaded s4 - 1 \<rparr> else s4))))"

section \<open>Pairing\<close>

text \<open>A method of the PCI bus matches when each of its fields is a wildcard or that of the device.\<close>

definition PciMatches :: "PciDeviceId \<Rightarrow> PciDeviceId \<Rightarrow> bool" where
  "PciMatches m d \<longleftrightarrow>
     \<not> (VendorID m \<noteq> PCI_ANY_VENDOR_ID \<and> VendorID m \<noteq> VendorID d) \<and>
     \<not> (DeviceID m \<noteq> PCI_ANY_DEVICE_ID \<and> DeviceID m \<noteq> DeviceID d) \<and>
     \<not> (PciBus m \<noteq> PCI_ANY_BUS \<and> PciBus m \<noteq> PciBus d) \<and>
     \<not> (PciDevice m \<noteq> PCI_ANY_DEVICE \<and> PciDevice m \<noteq> PciDevice d) \<and>
     \<not> (PciFunction m \<noteq> PCI_ANY_FUNCTION \<and> PciFunction m \<noteq> PciFunction d) \<and>
     \<not> (ProgIF m \<noteq> PCI_ANY_PROG_IF \<and> ProgIF m \<noteq> ProgIF d) \<and>
     \<not> (PciClass m \<noteq> PCI_ANY_CLASS \<and> PciClass m \<noteq> PciClass d) \<and>
     \<not> (PciSubClass m \<noteq> PCI_ANY_SUBCLASS \<and> PciSubClass m \<noteq> PciSubClass d)"

text \<open>The methods end with one of the invalid bus; past the end of an array without it the loop reads out of bounds.\<close>

fun MatchLoop :: "DriverMatchMethod list \<Rightarrow> DeviceNode \<Rightarrow> DriverMatchMethod option kres" where
  "MatchLoop [] d = Inl OutOfBounds"
| "MatchLoop (m # ms) d =
     (if mmOnBus m = BUS_IVLD then Inr None
      else if dnOnBus d \<noteq> mmOnBus m then MatchLoop ms d
      else if mmOnBus m = BUS_PCI \<and> PciMatches (mmPci m) (dnPci d) then Inr (Some m)
      else MatchLoop ms d)"

definition IsDriverCompatibleWithDevice :: "'s Driver \<Rightarrow> DeviceNode \<Rightarrow> DriverMatchMethod option kres" where
  "IsDriverCompatibleWithDevice v d = (case pMatchMethods v of None \<Rightarrow> Inr None | Some ms \<Rightarrow> MatchLoop ms d)"

definition TryPairDriverWithDevice :: "'a drivers \<Rightarrow> UINTPTR \<Rightarrow> UINTPTR \<Rightarrow> 'a dev_sys_scheme \<Rightarrow> (bool \<times> 'a dev_sys_scheme) kres" where
  "TryPairDriverWithDevice drv p d s =
     (if p = 0 \<or> d = 0 \<or> pDriver (devs s d) \<noteq> 0 then Inr (False, s)
      else case (DevInit (drv p), DevProbe (drv p)) of
        (Some init, Some probe) \<Rightarrow>
          kbind (IsDriverCompatibleWithDevice (drv p) (devs s d)) (\<lambda>c. case c of
            None \<Rightarrow> Inr (False, s)
          | Some m \<Rightarrow>
              kbind (probe d m s) (\<lambda>(ok, s1).
                if \<not> ok then Inr (False, s1)
                else kbind (init d (upd_dev d (\<lambda>n. n\<lparr> pDriver := p \<rparr>) s1)) (\<lambda>(ok, s2).
                       if \<not> ok then Inr (False, upd_dev d (\<lambda>n. n\<lparr> pDriver := 0 \<rparr>) s2) else Inr (True, s2))))
      | _ \<Rightarrow> Inr (False, s))"

fun AnyDriverLoop :: "nat \<Rightarrow> 'a drivers \<Rightarrow> UINT \<Rightarrow> UINTPTR \<Rightarrow> 'a dev_sys_scheme \<Rightarrow> (bool \<times> 'a dev_sys_scheme) kres" where
  "AnyDriverLoop 0 drv i d s = Inl OutOfFuel"
| "AnyDriverLoop (Suc f) drv i d s =
     (if i < NrLoaded s
      then if pTable s = 0 then Inl NullDeref
      else kbind (TryPairDriverWithDevice drv (DrvTable s (unat i)) d s) (\<lambda>(ok, s1).
             if ok then Inr (True, s1) else AnyDriverLoop f drv (i + 1) d s1)
      else Inr (False, s))"

definition TryPairDeviceWithAnyDriver :: "nat \<Rightarrow> 'a drivers \<Rightarrow> UINTPTR \<Rightarrow> 'a dev_sys_scheme \<Rightarrow> (bool \<times> 'a dev_sys_scheme) kres" where
  "TryPairDeviceWithAnyDriver f drv d s = AnyDriverLoop f drv 0 d s"

text \<open>
  The three nested loops of LocalDevdrivPairAttempt: \<open>ChainLoop\<close> is the loop behind the label KidLoop, which goes
  down first children and calls the whole function for their siblings, \<open>KidLoop\<close> the jumps to the label, and
  the function itself the loop over the siblings of its argument.
\<close>

fun LocalDevdrivPairAttempt :: "nat \<Rightarrow> 'a drivers \<Rightarrow> UINT \<Rightarrow> UINTPTR \<Rightarrow> 'a dev_sys_scheme \<Rightarrow> (UINT \<times> 'a dev_sys_scheme) kres"
  and KidLoop :: "nat \<Rightarrow> 'a drivers \<Rightarrow> UINT \<Rightarrow> UINTPTR \<Rightarrow> 'a dev_sys_scheme \<Rightarrow> (UINT \<times> 'a dev_sys_scheme) kres"
  and ChainLoop :: "nat \<Rightarrow> 'a drivers \<Rightarrow> UINT \<Rightarrow> UINTPTR \<Rightarrow> 'a dev_sys_scheme \<Rightarrow> (UINT \<times> 'a dev_sys_scheme) kres" where
  "LocalDevdrivPairAttempt 0 drv n pRootNode s = Inl OutOfFuel"
| "LocalDevdrivPairAttempt (Suc f) drv n pRootNode s =
     (if pRootNode = 0 then Inr (n, s)
      else kbind (TryPairDeviceWithAnyDriver f drv pRootNode s) (\<lambda>(ok, s1).
           kbind (KidLoop f drv (if ok then n + 1 else n) (p1stKid (devs s1 pRootNode)) s1) (\<lambda>(n2, s2).
             LocalDevdrivPairAttempt f drv n2 (pNxtSib (devs s2 pRootNode)) s2)))"
| "KidLoop 0 drv n pKidBase s = Inl OutOfFuel"
| "KidLoop (Suc f) drv n pKidBase s =
     kbind (ChainLoop f drv n pKidBase s) (\<lambda>(n1, s1).
       if pKidBase \<noteq> 0 then KidLoop f drv n1 (pNxtSib (devs s1 pKidBase)) s1 else Inr (n1, s1))"
| "ChainLoop 0 drv n pKid s = Inl OutOfFuel"
| "ChainLoop (Suc f) drv n pKid s =
     (if pKid = 0 then Inr (n, s)
      else kbind (TryPairDeviceWithAnyDriver f drv pKid s) (\<lambda>(ok, s1).
           let n1 = (if ok then n + 1 else n); pSib = pNxtSib (devs s1 pKid)
           in kbind (if pSib \<noteq> 0 then kbind (LocalDevdrivPairAttempt f drv 0 pSib s1) (\<lambda>(m, s2). Inr (n1 + m, s2))
                     else Inr (n1, s1)) (\<lambda>(n2, s2).
                ChainLoop f drv n2 (p1stKid (devs s2 pKid)) s2)))"

definition GlobalDevdrivPairAttempt :: "nat \<Rightarrow> 'a drivers \<Rightarrow> UINTPTR \<Rightarrow> 'a dev_sys_scheme \<Rightarrow> (UINT \<times> 'a dev_sys_scheme) kres" where
  "GlobalDevdrivPairAttempt f drv Root s = LocalDevdrivPairAttempt f drv 0 Root s"

section \<open>Lists of siblings\<close>

primrec siblings :: "(UINTPTR \<Rightarrow> DeviceNode) \<Rightarrow> UINTPTR \<Rightarrow> UINTPTR list \<Rightarrow> bool" where
  "siblings D p [] \<longleftrightarrow> p = 0"
| "siblings D p (x # xs) \<longleftrightarrow> p = x \<and> x \<noteq> 0 \<and> siblings D (pNxtSib (D x)) xs"

lemma siblings_cong: "(\<And>x. x \<in> set xs \<Longrightarrow> pNxtSib (D' x) = pNxtSib (D x)) \<Longrightarrow> siblings D' p xs = siblings D p xs"
  by (induction xs arbitrary: p) auto

lemma last_sibling:
  "siblings D p xs \<Longrightarrow> xs \<noteq> [] \<Longrightarrow> length xs \<le> f \<Longrightarrow> LastSibling f D p = Inr (last xs)"
proof (induction xs arbitrary: p f)
  case (Cons x xs)
  then obtain f' where f: "f = Suc f'" by (cases f) auto
  show ?case using Cons by (cases xs) (auto simp: f)
qed simp

lemma siblings_snoc:
  assumes "siblings D p xs" "xs \<noteq> []" "distinct xs" "c \<noteq> 0" "c \<notin> set xs" "pNxtSib (D' c) = 0" "pNxtSib (D' (last xs)) = c"
    and same: "\<And>x. x \<in> set (butlast xs) \<Longrightarrow> pNxtSib (D' x) = pNxtSib (D x)"
  shows "siblings D' p (xs @ [c])"
  using assms
proof (induction xs arbitrary: p)
  case (Cons x xs)
  show ?case
  proof (cases "xs = []")
    case True then show ?thesis using Cons.prems by simp
  next
    case False
    then have "siblings D' (pNxtSib (D x)) (xs @ [c])" using Cons by (intro Cons.IH) auto
    moreover have "pNxtSib (D' x) = pNxtSib (D x)" using False Cons.prems(8) by simp
    ultimately show ?thesis using Cons.prems(1) by simp
  qed
qed simp

text \<open>The nodes AddChildDevice writes: the child, and the parent or the last of its children.\<close>

lemma add_child:
  assumes "siblings (devs s) (p1stKid (devs s par)) xs" "distinct xs" "c \<notin> set xs" "par \<noteq> 0" "c \<noteq> 0" "c \<noteq> par" "length xs \<le> f"
  shows "\<exists>s'. AddChildDevice f par c s = Inr s' \<and> siblings (devs s') (p1stKid (devs s' par)) (xs @ [c]) \<and>
    pParent (devs s' c) = par \<and> (\<forall>x. x \<noteq> par \<longrightarrow> p1stKid (devs s' x) = p1stKid (devs s x)) \<and>
    (\<forall>x. x \<notin> insert c (set xs) \<longrightarrow> pNxtSib (devs s' x) = pNxtSib (devs s x)) \<and> (\<forall>x. (devs s' x)\<lparr> pParent := 0, p1stKid := 0, pNxtSib := 0 \<rparr> = (devs s x)\<lparr> pParent := 0, p1stKid := 0, pNxtSib := 0 \<rparr>) \<and>
    s'\<lparr> devs := devs s \<rparr> = s"
proof (cases "xs = []")
  case True
  then show ?thesis using assms by (auto simp: AddChildDevice_def upd_dev_def)
next
  case False
  define s1 where "s1 = upd_dev c (\<lambda>d. d\<lparr> pParent := par, pNxtSib := 0 \<rparr>) s"
  define s' where "s' = upd_dev (last xs) (\<lambda>d. d\<lparr> pNxtSib := c \<rparr>) s1"
  have l: "last xs \<in> set xs" "last xs \<noteq> c" using False assms(3) by auto
  have kid: "p1stKid (devs s1 par) = p1stKid (devs s par)" using assms(6) by (simp add: s1_def upd_dev_def)
  have sib: "siblings (devs s1) (p1stKid (devs s par)) xs"
    using assms(1,3) by (subst siblings_cong [of xs _ "devs s"]) (auto simp: s1_def upd_dev_def)
  have kid0: "p1stKid (devs s par) \<noteq> 0" using assms(1) False by (cases xs) auto
  have r: "AddChildDevice f par c s = Inr s'"
    using assms(4,5) kid kid0 last_sibling [OF sib False assms(7)]
    by (simp add: AddChildDevice_def s1_def [symmetric] s'_def Let_def)
  have "siblings (devs s') (p1stKid (devs s par)) (xs @ [c])"
  proof (rule siblings_snoc [OF sib False assms(2,5,3)])
    show "pNxtSib (devs s' c) = 0" "pNxtSib (devs s' (last xs)) = c" using l by (simp_all add: s'_def s1_def upd_dev_def)
    fix x assume "x \<in> set (butlast xs)"
    then have "x \<noteq> last xs" using assms(2) False by (metis append_butlast_last_id distinct_butlast not_distinct_conv_prefix)
    then show "pNxtSib (devs s' x) = pNxtSib (devs s1 x)" by (simp add: s'_def upd_dev_def)
  qed
  moreover have "p1stKid (devs s' par) = p1stKid (devs s par)" using kid by (auto simp: s'_def upd_dev_def)
  ultimately show ?thesis using r l assms(6) by (auto simp: s'_def s1_def upd_dev_def)
qed

section \<open>Trees\<close>

datatype dtree = DNode UINTPTR "dtree list"

fun forest_at :: "(UINTPTR \<Rightarrow> DeviceNode) \<Rightarrow> UINTPTR \<Rightarrow> dtree list \<Rightarrow> bool" where
  "forest_at D p [] \<longleftrightarrow> p = 0"
| "forest_at D p (DNode a ks # ts) \<longleftrightarrow> p = a \<and> a \<noteq> 0 \<and> forest_at D (p1stKid (D a)) ks \<and> forest_at D (pNxtSib (D a)) ts"

fun forest_nodes :: "dtree list \<Rightarrow> UINTPTR list" where
  "forest_nodes [] = []"
| "forest_nodes (DNode a ks # ts) = a # forest_nodes ks @ forest_nodes ts"

lemma forest_at_cong:
  "(\<And>x. x \<in> set (forest_nodes ts) \<Longrightarrow> p1stKid (D' x) = p1stKid (D x) \<and> pNxtSib (D' x) = pNxtSib (D x)) \<Longrightarrow> forest_at D' p ts = forest_at D p ts"
  by (induction ts arbitrary: p rule: forest_nodes.induct) auto

lemma forest_nodes_nonzero: "forest_at D p ts \<Longrightarrow> 0 \<notin> set (forest_nodes ts)"
  by (induction D p ts rule: forest_at.induct) auto

section \<open>Drivers that only answer\<close>

text \<open>
  The contract between the pairing and the loaded drivers: trying driver \<open>p\<close> on a free device binds it exactly
  when \<open>acc p\<close> accepts the device, and changes nothing else.
\<close>

locale answering_drivers =
  fixes drv :: "'a drivers"
    and tbl :: "UINTPTR list"
    and acc :: "UINTPTR \<Rightarrow> DeviceNode \<Rightarrow> bool"
  assumes try_law: "p \<in> set tbl \<Longrightarrow> d \<noteq> 0 \<Longrightarrow> pDriver (devs s d) = 0 \<Longrightarrow>
      TryPairDriverWithDevice drv p d s = Inr (if acc p (devs s d) then (True, upd_dev d (\<lambda>n. n\<lparr> pDriver := p \<rparr>) s) else (False, s))"
    and tbl_nonzero: "0 \<notin> set tbl"
begin

definition loaded :: "'a dev_sys_scheme \<Rightarrow> bool" where
  "loaded s \<longleftrightarrow> pTable s \<noteq> 0 \<and> unat (NrLoaded s) = length tbl \<and> (\<forall>i < length tbl. DrvTable s i = tbl ! i)"

definition chosen :: "DeviceNode \<Rightarrow> UINTPTR option" where
  "chosen n = (if pDriver n \<noteq> 0 then None else find (\<lambda>p. acc p n) tbl)"

definition pair_node :: "DeviceNode \<Rightarrow> DeviceNode" where
  "pair_node n = (case chosen n of None \<Rightarrow> n | Some p \<Rightarrow> n\<lparr> pDriver := p \<rparr>)"

definition pair_nodes :: "UINTPTR set \<Rightarrow> 'a dev_sys_scheme \<Rightarrow> 'a dev_sys_scheme" where
  "pair_nodes A s = s\<lparr> devs := (\<lambda>x. if x \<in> A then pair_node (devs s x) else devs s x) \<rparr>"

definition pairs :: "UINTPTR set \<Rightarrow> 'a dev_sys_scheme \<Rightarrow> nat" where
  "pairs A s = card {x \<in> A. chosen (devs s x) \<noteq> None}"

lemma chosen_nonzero: "chosen n = Some p \<Longrightarrow> p \<noteq> 0"
  using tbl_nonzero by (auto simp: chosen_def find_Some_iff split: if_splits) (metis nth_mem)

lemma chosen_pair_node [simp]: "chosen (pair_node n) = None"
proof (cases "chosen n")
  case (Some p)
  then show ?thesis using chosen_nonzero [OF Some] by (simp add: pair_node_def) (simp add: chosen_def)
qed (simp add: pair_node_def)

lemma pair_node_idem [simp]: "pair_node (pair_node n) = pair_node n"
  by (subst pair_node_def) simp

lemma pair_nodes_links [simp]:
  "p1stKid (devs (pair_nodes A s) x) = p1stKid (devs s x)" "pNxtSib (devs (pair_nodes A s) x) = pNxtSib (devs s x)"
  by (simp_all add: pair_nodes_def pair_node_def split: option.splits)

lemma loaded_pair_nodes [simp]: "loaded (pair_nodes A s) = loaded s"
  by (simp add: loaded_def pair_nodes_def)

lemma forest_pair_nodes [simp]: "forest_at (devs (pair_nodes A s)) p ts = forest_at (devs s) p ts"
  by (rule forest_at_cong) simp

lemma pair_nodes_Un: "pair_nodes A (pair_nodes B s) = pair_nodes (A \<union> B) s"
  by (simp add: pair_nodes_def fun_eq_iff)

lemma pairs_Un: "finite A \<Longrightarrow> finite B \<Longrightarrow> pairs B s + pairs A (pair_nodes B s) = pairs (A \<union> B) s"
proof -
  assume f: "finite A" "finite B"
  have "{x \<in> A. chosen (devs (pair_nodes B s) x) \<noteq> None} = {x \<in> A - B. chosen (devs s x) \<noteq> None}"
    by (auto simp: pair_nodes_def)
  moreover have "{x \<in> A \<union> B. chosen (devs s x) \<noteq> None} = {x \<in> B. chosen (devs s x) \<noteq> None} \<union> {x \<in> A - B. chosen (devs s x) \<noteq> None}" by auto
  moreover have "card ({x \<in> B. chosen (devs s x) \<noteq> None} \<union> {x \<in> A - B. chosen (devs s x) \<noteq> None}) =
      card {x \<in> B. chosen (devs s x) \<noteq> None} + card {x \<in> A - B. chosen (devs s x) \<noteq> None}"
    using f by (intro card_Un_disjoint) auto
  ultimately show ?thesis by (simp add: pairs_def)
qed

lemma pairs_3:
  assumes "finite A" "finite B" "finite C"
  shows "pairs A s + (pairs B (pair_nodes A s) + pairs C (pair_nodes B (pair_nodes A s))) = pairs (C \<union> (B \<union> A)) s"
  using pairs_Un [of B A s] pairs_Un [of C "B \<union> A" s] assms by (simp add: pair_nodes_Un)

lemma any_driver_loop:
  assumes "loaded s" "d \<noteq> 0" "pDriver (devs s d) = 0" "unat i \<le> length tbl" "length tbl - unat i < f"
  shows "AnyDriverLoop f drv i d s =
    Inr (case find (\<lambda>p. acc p (devs s d)) (drop (unat i) tbl) of None \<Rightarrow> (False, s) | Some p \<Rightarrow> (True, upd_dev d (\<lambda>n. n\<lparr> pDriver := p \<rparr>) s))"
  using assms(4,5)
proof (induction "length tbl - unat i" arbitrary: i f)
  case 0
  then obtain f' where "f = Suc f'" by (cases f) auto
  then show ?case using 0 assms(1) by (simp add: loaded_def word_less_nat_alt)
next
  case (Suc k)
  obtain f' where f: "f = Suc f'" using Suc by (cases f) auto
  have i: "unat i < length tbl" "i < NrLoaded s" using Suc assms(1) by (simp_all add: loaded_def word_less_nat_alt)
  then have u: "unat (i + 1) = unat i + 1" by (metis unat_Suc_less)
  have d: "drop (unat i) tbl = tbl ! unat i # drop (unat (i + 1)) tbl" using i u by (simp add: Cons_nth_drop_Suc)
  have t: "DrvTable s (unat i) = tbl ! unat i" "pTable s \<noteq> 0" using assms(1) i by (simp_all add: loaded_def)
  have t2: "TryPairDriverWithDevice drv (tbl ! unat i) d s = Inr (if acc (tbl ! unat i) (devs s d) then (True, upd_dev d (\<lambda>n. n\<lparr> pDriver := tbl ! unat i \<rparr>) s) else (False, s))"
    using i assms by (intro try_law) simp_all
  show ?case
  proof (cases "acc (tbl ! unat i) (devs s d)")
    case True then show ?thesis using i t t2 d by (simp add: f)
  next
    case False
    then have "AnyDriverLoop f drv i d s = AnyDriverLoop f' drv (i + 1) d s" using i t t2 by (simp add: f)
    also have "\<dots> = Inr (case find (\<lambda>p. acc p (devs s d)) (drop (unat (i + 1)) tbl) of None \<Rightarrow> (False, s) | Some p \<Rightarrow> (True, upd_dev d (\<lambda>n. n\<lparr> pDriver := p \<rparr>) s))"
      using Suc(2-) f u i by (intro Suc(1)) simp_all
    finally show ?thesis using False d by simp
  qed
qed

lemma try_any:
  assumes "loaded s" "d \<noteq> 0" "length tbl < f"
  shows "TryPairDeviceWithAnyDriver f drv d s = Inr (chosen (devs s d) \<noteq> None, pair_nodes {d} s)"
proof (cases "pDriver (devs s d) = 0")
  case True
  have "upd_dev d (\<lambda>n. n\<lparr> pDriver := p \<rparr>) s = pair_nodes {d} s" if "chosen (devs s d) = Some p" for p
  proof -
    have "(devs s)(d := (devs s d)\<lparr> pDriver := p \<rparr>) = (\<lambda>x. if x \<in> {d} then pair_node (devs s x) else devs s x)"
      using that by (simp add: pair_node_def fun_eq_iff)
    then show ?thesis by (simp only: upd_dev_def pair_nodes_def)
  qed
  moreover have "pair_nodes {d} s = s" if "chosen (devs s d) = None"
    using that by (cases s) (simp add: pair_nodes_def pair_node_def fun_eq_iff)
  ultimately show ?thesis
    using any_driver_loop [OF assms(1,2) True, of 0 f] assms(3) True
    by (auto simp: TryPairDeviceWithAnyDriver_def chosen_def split: option.splits)
next
  case False
  have s: "pair_nodes {d} s = s" using False by (cases s) (simp add: pair_nodes_def pair_node_def chosen_def fun_eq_iff)
  have "AnyDriverLoop f drv i d s = Inr (False, s)" if "length tbl - unat i < f" "unat i \<le> length tbl" for i
    using that
  proof (induction f arbitrary: i)
    case (Suc f)
    have "TryPairDriverWithDevice drv p d s = Inr (False, s)" for p using False by (simp add: TryPairDriverWithDevice_def)
    moreover have "unat (i + 1) = unat i + 1" if "i < NrLoaded s" using that by (rule unat_Suc_less)
    ultimately show ?case using Suc assms(1) by (auto simp: loaded_def word_less_nat_alt)
  qed simp
  from this [of 0] show ?thesis using assms(3) False s by (simp add: TryPairDeviceWithAnyDriver_def chosen_def)
qed

lemma pairs_singleton: "pairs {d} s = (if chosen (devs s d) \<noteq> None then 1 else 0)"
proof -
  have "{x \<in> {d}. chosen (devs s x) \<noteq> None} = (if chosen (devs s d) \<noteq> None then {d} else {})" by auto
  then show ?thesis by (simp add: pairs_def)
qed

lemma count_step: "(if chosen (devs s d) \<noteq> None then n + 1 else n :: UINT) = n + of_nat (pairs {d} s)"
  by (simp add: pairs_singleton)

lemma attempts:
  "(\<forall>ts n p s. loaded s \<and> forest_at (devs s) p ts \<and> 3 * length (forest_nodes ts) + length tbl + 3 \<le> f \<longrightarrow>
      LocalDevdrivPairAttempt f drv n p s = Inr (n + of_nat (pairs (set (forest_nodes ts)) s), pair_nodes (set (forest_nodes ts)) s)) \<and>
   (\<forall>ts n p s. loaded s \<and> forest_at (devs s) p ts \<and> 3 * length (forest_nodes ts) + length tbl + 4 \<le> f \<longrightarrow>
      KidLoop f drv n p s = Inr (n + of_nat (pairs (set (forest_nodes ts)) s), pair_nodes (set (forest_nodes ts)) s)) \<and>
   (\<forall>ts n p s. loaded s \<and> forest_at (devs s) p ts \<and> 3 * length (forest_nodes ts) + length tbl + 3 \<le> f \<longrightarrow>
      ChainLoop f drv n p s = Inr (n + of_nat (pairs (set (forest_nodes ts)) s), pair_nodes (set (forest_nodes ts)) s))"
proof (induction f)
  case (Suc f)
  note L = Suc [THEN conjunct1, rule_format, OF conjI, OF _ conjI]
  note K = Suc [THEN conjunct2, THEN conjunct1, rule_format, OF conjI, OF _ conjI]
  note C = Suc [THEN conjunct2, THEN conjunct2, rule_format, OF conjI, OF _ conjI]
  have empty: "pair_nodes {} s = s" "pairs {} s = 0" for s by (simp_all add: pair_nodes_def pairs_def)
  have l: "LocalDevdrivPairAttempt (Suc f) drv n p s = Inr (n + of_nat (pairs (set (forest_nodes ts)) s), pair_nodes (set (forest_nodes ts)) s)"
    if a: "loaded s" "forest_at (devs s) p ts" "3 * length (forest_nodes ts) + length tbl + 3 \<le> Suc f" for ts n p s
  proof (cases ts)
    case Nil then show ?thesis using a by (simp add: empty)
  next
    case (Cons t us)
    obtain a ks where t: "t = DNode a ks" by (cases t)
    let ?s1 = "pair_nodes {a} s" and ?s2 = "pair_nodes (set (forest_nodes ks)) (pair_nodes {a} s)"
    have f: "p = a" "a \<noteq> 0" "forest_at (devs s) (p1stKid (devs s a)) ks" "forest_at (devs s) (pNxtSib (devs s a)) us" using a(2) Cons t by auto
    have T: "TryPairDeviceWithAnyDriver f drv a s = Inr (chosen (devs s a) \<noteq> None, ?s1)" using a Cons t f by (intro try_any) auto
    have k: "KidLoop f drv m (p1stKid (devs ?s1 a)) ?s1 = Inr (m + of_nat (pairs (set (forest_nodes ks)) ?s1), ?s2)" for m
      using a Cons t f by (intro K) auto
    have r: "LocalDevdrivPairAttempt f drv m (pNxtSib (devs ?s2 a)) ?s2 =
        Inr (m + of_nat (pairs (set (forest_nodes us)) ?s2), pair_nodes (set (forest_nodes us)) ?s2)" for m
      using a Cons t f by (intro L) auto
    have set: "set (forest_nodes ts) = set (forest_nodes us) \<union> (set (forest_nodes ks) \<union> {a})" using Cons t by auto
    have s: "pair_nodes (set (forest_nodes us)) ?s2 = pair_nodes (set (forest_nodes ts)) s" unfolding set by (simp only: pair_nodes_Un)
    have c: "pairs {a} s + (pairs (set (forest_nodes ks)) ?s1 + pairs (set (forest_nodes us)) ?s2) = pairs (set (forest_nodes ts)) s"
      unfolding set by (rule pairs_3) simp_all
    have "LocalDevdrivPairAttempt (Suc f) drv n p s =
        Inr (n + of_nat (pairs {a} s) + of_nat (pairs (set (forest_nodes ks)) ?s1) + of_nat (pairs (set (forest_nodes us)) ?s2), pair_nodes (set (forest_nodes us)) ?s2)"
      using f(1,2) by (simp only: LocalDevdrivPairAttempt.simps if_False T kbind_Inr prod.case k r count_step)
    then show ?thesis unfolding s c [symmetric] by (simp add: ac_simps)
  qed
  have c: "ChainLoop (Suc f) drv n p s = Inr (n + of_nat (pairs (set (forest_nodes ts)) s), pair_nodes (set (forest_nodes ts)) s)"
    if a: "loaded s" "forest_at (devs s) p ts" "3 * length (forest_nodes ts) + length tbl + 3 \<le> Suc f" for ts n p s
  proof (cases ts)
    case Nil then show ?thesis using a by (simp add: empty)
  next
    case (Cons t us)
    obtain a ks where t: "t = DNode a ks" by (cases t)
    let ?s1 = "pair_nodes {a} s" and ?s2 = "pair_nodes (set (forest_nodes us)) (pair_nodes {a} s)"
    have f: "p = a" "a \<noteq> 0" "forest_at (devs s) (p1stKid (devs s a)) ks" "forest_at (devs s) (pNxtSib (devs s a)) us" using a(2) Cons t by auto
    have T: "TryPairDeviceWithAnyDriver f drv a s = Inr (chosen (devs s a) \<noteq> None, ?s1)" using a Cons t f by (intro try_any) auto
    have k: "LocalDevdrivPairAttempt f drv 0 (pNxtSib (devs ?s1 a)) ?s1 = Inr (0 + of_nat (pairs (set (forest_nodes us)) ?s1), ?s2)"
      using a Cons t f by (intro L) auto
    have sib: "(if pNxtSib (devs ?s1 a) \<noteq> 0 then kbind (LocalDevdrivPairAttempt f drv 0 (pNxtSib (devs ?s1 a)) ?s1) (\<lambda>(m', s2). Inr (m + m', s2)) else Inr (m, ?s1))
        = Inr (m + of_nat (pairs (set (forest_nodes us)) ?s1), ?s2)" for m
    proof (cases "us = []")
      case True then show ?thesis using f(4) by (simp add: empty)
    next
      case False then show ?thesis using f(4) k by (cases us rule: forest_nodes.cases) auto
    qed
    have r: "ChainLoop f drv m (p1stKid (devs ?s2 a)) ?s2 =
        Inr (m + of_nat (pairs (set (forest_nodes ks)) ?s2), pair_nodes (set (forest_nodes ks)) ?s2)" for m
      using a Cons t f by (intro C) auto
    have set: "set (forest_nodes ts) = set (forest_nodes ks) \<union> (set (forest_nodes us) \<union> {a})" using Cons t by auto
    have s: "pair_nodes (set (forest_nodes ks)) ?s2 = pair_nodes (set (forest_nodes ts)) s" unfolding set by (simp only: pair_nodes_Un)
    have c: "pairs {a} s + (pairs (set (forest_nodes us)) ?s1 + pairs (set (forest_nodes ks)) ?s2) = pairs (set (forest_nodes ts)) s"
      unfolding set by (rule pairs_3) simp_all
    have "ChainLoop (Suc f) drv n p s =
        Inr (n + of_nat (pairs {a} s) + of_nat (pairs (set (forest_nodes us)) ?s1) + of_nat (pairs (set (forest_nodes ks)) ?s2), pair_nodes (set (forest_nodes ks)) ?s2)"
      using f(1,2) by (simp only: ChainLoop.simps if_False T kbind_Inr prod.case Let_def sib r count_step)
    then show ?thesis unfolding s c [symmetric] by (simp add: ac_simps)
  qed
  have k: "KidLoop (Suc f) drv n p s = Inr (n + of_nat (pairs (set (forest_nodes ts)) s), pair_nodes (set (forest_nodes ts)) s)"
    if a: "loaded s" "forest_at (devs s) p ts" "3 * length (forest_nodes ts) + length tbl + 4 \<le> Suc f" for ts n p s
  proof -
    let ?s1 = "pair_nodes (set (forest_nodes ts)) s"
    have h: "ChainLoop f drv n p s = Inr (n + of_nat (pairs (set (forest_nodes ts)) s), ?s1)" using a by (intro C) auto
    show ?thesis
    proof (cases ts)
      case Nil then show ?thesis using a h by simp
    next
      case (Cons t us)
      obtain a ks where t: "t = DNode a ks" by (cases t)
      have f: "p = a" "a \<noteq> 0" "forest_at (devs s) (pNxtSib (devs s a)) us" using a(2) Cons t by auto
      have sub: "set (forest_nodes us) \<union> set (forest_nodes ts) = set (forest_nodes ts)" using Cons t by auto
      have z: "pairs (set (forest_nodes us)) ?s1 = 0"
        using pairs_Un [of "set (forest_nodes us)" "set (forest_nodes ts)" s] sub by simp
      have r: "KidLoop f drv m (pNxtSib (devs ?s1 a)) ?s1 = Inr (m + of_nat (pairs (set (forest_nodes us)) ?s1), pair_nodes (set (forest_nodes us)) ?s1)" for m
        using a Cons t f by (intro K) auto
      then show ?thesis using f h by (simp add: z pair_nodes_Un sub)
    qed
  qed
  show ?case using l k c by blast
qed simp

end

end
