(* ===== verification/HeapAlloc.thy ===== *)
theory HeapAlloc
  imports Kheap
begin

text \<open>
  What the clients of the kernel heap rely on, as a locale, and the proof that the heap provides it: a block
  that is handed out lies in the heap and overlaps nothing that was handed out before.
\<close>

section \<open>The contract of an allocator\<close>

text \<open>\<open>valid h U\<close>: the allocator is in a proper state and \<open>U\<close> are the addresses of the blocks in use.\<close>

locale allocator =
  fixes acquire :: "'h \<Rightarrow> SIZE \<Rightarrow> (UINTPTR \<times> 'h) kres"
    and valid :: "'h \<Rightarrow> nat set \<Rightarrow> bool"
    and arena :: "'h \<Rightarrow> nat set"
  assumes acquire_law: "valid h U \<Longrightarrow> N \<noteq> 0 \<Longrightarrow> unat N < 2 ^ 63 \<Longrightarrow>
    acquire h N = Inr (0, h) \<or>
    (\<exists>p h' U'. acquire h N = Inr (p, h') \<and> p \<noteq> 0 \<and> valid h' U' \<and> U \<subseteq> U' \<and> arena h' = arena h \<and>
      {unat p..<unat p + unat N} \<subseteq> (U' - U) \<inter> arena h)"
begin

text \<open>Requests served one after the other until one is refused.\<close>

primrec acquire_list :: "'h \<Rightarrow> SIZE list \<Rightarrow> (UINTPTR list \<times> 'h) kres" where
  "acquire_list h [] = Inr ([], h)"
| "acquire_list h (N # Ns) =
     kbind (acquire h N) (\<lambda>(p, h'). if p = 0 then Inr ([], h')
       else kbind (acquire_list h' Ns) (\<lambda>(ps, h''). Inr (p # ps, h'')))"

lemma acquired_disjoint:
  assumes "valid h U" "\<forall>N \<in> set Ns. N \<noteq> 0 \<and> unat N < 2 ^ 63"
  shows "\<exists>ps h' U'. acquire_list h Ns = Inr (ps, h') \<and> length ps \<le> length Ns \<and> valid h' U' \<and> U \<subseteq> U' \<and> arena h' = arena h \<and>
    (\<forall>i < length ps. ps ! i \<noteq> 0 \<and> {unat (ps ! i)..<unat (ps ! i) + unat (Ns ! i)} \<subseteq> (U' - U) \<inter> arena h) \<and>
    (\<forall>j < length ps. \<forall>i < j. {unat (ps ! i)..<unat (ps ! i) + unat (Ns ! i)} \<inter> {unat (ps ! j)..<unat (ps ! j) + unat (Ns ! j)} = {})"
  using assms
proof (induction Ns arbitrary: h U)
  case (Cons N Ns)
  have n: "N \<noteq> 0" "unat N < 2 ^ 63" using Cons.prems(2) by simp_all
  consider "acquire h N = Inr (0, h)"
    | p h1 U1 where "acquire h N = Inr (p, h1)" "p \<noteq> 0" "valid h1 U1" "U \<subseteq> U1" "arena h1 = arena h"
      "{unat p..<unat p + unat N} \<subseteq> (U1 - U) \<inter> arena h"
    using acquire_law [OF Cons.prems(1) n] by blast
  then show ?case
  proof cases
    case 1 then show ?thesis using Cons.prems(1) by auto
  next
    case 2
    obtain ps h' U' where i: "acquire_list h1 Ns = Inr (ps, h')" "length ps \<le> length Ns" "valid h' U'" "U1 \<subseteq> U'" "arena h' = arena h1"
      "\<And>i. i < length ps \<Longrightarrow> ps ! i \<noteq> 0 \<and> {unat (ps ! i)..<unat (ps ! i) + unat (Ns ! i)} \<subseteq> (U' - U1) \<inter> arena h1"
      "\<And>i j. j < length ps \<Longrightarrow> i < j \<Longrightarrow>
        {unat (ps ! i)..<unat (ps ! i) + unat (Ns ! i)} \<inter> {unat (ps ! j)..<unat (ps ! j) + unat (Ns ! j)} = {}"
      using Cons.IH [OF 2(3)] Cons.prems(2) by force
    have a: "(p # ps) ! i \<noteq> 0 \<and> {unat ((p # ps) ! i)..<unat ((p # ps) ! i) + unat ((N # Ns) ! i)} \<subseteq> (U' - U) \<inter> arena h"
      if "i < length (p # ps)" for i
      using that 2 i(4) i(5) i(6) [of "i - 1"] by (cases i) auto
    have b: "{unat ((p # ps) ! i)..<unat ((p # ps) ! i) + unat ((N # Ns) ! i)} \<inter>
        {unat ((p # ps) ! j)..<unat ((p # ps) ! j) + unat ((N # Ns) ! j)} = {}"
      if j: "j < length (p # ps)" "i < j" for i j
    proof (cases i)
      case 0
      obtain k where k: "j = Suc k" using j by (cases j) auto
      have A: "{unat p..<unat p + unat N} \<subseteq> U1" using 2(6) by blast
      have B: "{unat (ps ! k)..<unat (ps ! k) + unat (Ns ! k)} \<subseteq> U' - U1" using i(6) [of k] j k by simp
      show ?thesis unfolding 0 k nth_Cons_0 nth_Cons_Suc using A B by blast
    next
      case (Suc i')
      obtain k where k: "j = Suc k" using j by (cases j) auto
      then show ?thesis using Suc i(7) [of k i'] j by simp
    qed
    have "acquire_list h (N # Ns) = Inr (p # ps, h')" using 2(1,2) i(1) by simp
    moreover have "length (p # ps) \<le> length (N # Ns)" "U \<subseteq> U'" "arena h' = arena h" using i(2,4,5) 2(4,5) by auto
    ultimately show ?thesis using i(3) a b
      by (intro exI [of _ "p # ps"] exI [of _ h'] exI [of _ U'] conjI allI impI) blast+
  qed
qed auto

end

section \<open>The kernel heap\<close>

definition block_space :: "(UINTPTR \<Rightarrow> HeapHeader) \<Rightarrow> UINTPTR \<Rightarrow> nat set" where
  "block_space h x = {unat x + 25..<block_end h x}"

definition heap_used :: "heap \<Rightarrow> UINTPTR list \<Rightarrow> nat set" where
  "heap_used h xs = (\<Union>x \<in> {x \<in> set xs. \<not> bFree (headers h x)}. block_space (headers h) x)"

definition heap_arena :: "heap \<Rightarrow> nat set" where
  "heap_arena h = {unat (VaddrHeapSt h)..<unat (VaddrHeapNd h)}"

text \<open>The fuel of the search has to exceed the number of blocks, of at least 57 bytes each.\<close>

definition heap_valid :: "nat \<Rightarrow> heap \<Rightarrow> nat set \<Rightarrow> bool" where
  "heap_valid f h U \<longleftrightarrow> (\<exists>xs. heap_ok h xs \<and> U = heap_used h xs) \<and> (unat (VaddrHeapNd h) - unat (VaddrHeapSt h)) div 57 < f"

lemma hseg_length: "hseg h q a xs e r \<Longrightarrow> a + 57 * length xs \<le> e"
  by (induction xs arbitrary: q a) fastforce+

lemma heap_valid_fuel:
  assumes "heap_ok h xs" "(unat (VaddrHeapNd h) - unat (VaddrHeapSt h)) div 57 < f"
  shows "length xs < f"
proof -
  have "unat (VaddrHeapSt h) + 57 * length xs \<le> unat (VaddrHeapNd h)"
    using assms(1) hseg_length unfolding heap_ok_def by blast
  then have "57 * length xs \<le> unat (VaddrHeapNd h) - unat (VaddrHeapSt h)" by simp
  then have "length xs \<le> (unat (VaddrHeapNd h) - unat (VaddrHeapSt h)) div 57" by (simp add: less_eq_div_iff_mult_less_eq ac_simps)
  then show ?thesis using assms(2) by simp
qed

lemma hseg_disjoint:
  "hseg h q a xs e r \<Longrightarrow> x \<in> set xs \<Longrightarrow> y \<in> set xs \<Longrightarrow> x \<noteq> y \<Longrightarrow> block_space h x \<inter> block_space h y = {}"
proof (induction xs arbitrary: q a)
  case (Cons z xs)
  have s: "hseg h z (block_end h z) xs e r" using Cons.prems(1) by (auto simp: block_end_def)
  have d: "block_space h z \<inter> block_space h w = {}" if "w \<in> set xs" for w
    using hseg_bounds [OF s] that by (fastforce simp: block_space_def)
  show ?case using Cons.prems Cons.IH [OF s] d by (auto 4 3)
qed simp

lemma hseg_space: "hseg h q a xs e r \<Longrightarrow> x \<in> set xs \<Longrightarrow> block_space h x \<subseteq> {a..<e}"
  using hseg_bounds [of h q a xs e r] by (fastforce simp: block_space_def block_end_def)

lemma heap_bounds_same:
  "HeapAlignedAcquire f h N A = Inr (p, h') \<Longrightarrow> VaddrHeapNd h' = VaddrHeapNd h \<and> VaddrHeapSt h' = VaddrHeapSt h"
  by (auto simp: HeapAlignedAcquire_def kbind_eq_Inr Let_def HeapTrySplitAt_def upd_header_def split: if_splits)

lemma heap_used_taken:
  assumes "heap_ok h (as @ x # bs)" "bFree (headers h x)" "block_taken h h' p n x as bs"
  shows "\<exists>ys. heap_ok h' ys \<and> heap_used h' ys = heap_used h (as @ x # bs) \<union> block_space (headers h') x \<and>
    block_space (headers h') x \<inter> heap_used h (as @ x # bs) = {} \<and> {unat p..<unat p + n} \<subseteq> block_space (headers h') x \<and>
    block_space (headers h') x \<subseteq> {unat (VaddrHeapSt h')..<unat (VaddrHeapNd h')}"
proof -
  obtain rs where rs: "heap_ok h' (as @ x # rs @ bs)" "\<forall>r \<in> set rs. bFree (headers h' r)"
  proof -
    have "heap_ok h' (as @ x # [] @ bs) \<or> (\<exists>r. bFree (headers h' r) \<and> heap_ok h' (as @ x # [r] @ bs))"
      using assms(3) unfolding block_taken_def by auto
    then show thesis using that [of "[]"] that by fastforce
  qed
  have seg: "hseg (headers h') 0 (unat (VaddrHeapSt h')) (as @ x # rs @ bs) (unat (VaddrHeapNd h')) 0" using rs(1) unfolding heap_ok_def by blast
  have nf: "\<not> bFree (headers h' x)" using assms(3) by (simp add: block_taken_def)
  have same: "bFree (headers h' y) = bFree (headers h y)" "block_space (headers h') y = block_space (headers h) y"
    if "y \<in> set as \<union> set bs" for y
    using assms(3) that by (auto simp: block_taken_def block_space_def block_end_def)
  have u: "heap_used h (as @ x # bs) = (\<Union>y \<in> {y \<in> set as \<union> set bs. \<not> bFree (headers h' y)}. block_space (headers h') y)"
    using assms(2) same unfolding heap_used_def by auto
  have used: "heap_used h' (as @ x # rs @ bs) = heap_used h (as @ x # bs) \<union> block_space (headers h') x"
    unfolding u using nf rs(2) by (auto simp: heap_used_def)
  have "x \<notin> set as \<union> set bs" using hseg_distinct [OF seg] by auto
  then have "block_space (headers h') x \<inter> block_space (headers h') y = {}" if "y \<in> set as \<union> set bs" for y
    using hseg_disjoint [OF seg, of x y] that by auto
  then have dis: "block_space (headers h') x \<inter> heap_used h (as @ x # bs) = {}" unfolding u by blast
  have "{unat p..<unat p + n} \<subseteq> block_space (headers h') x" using assms(3) by (auto simp: block_taken_def block_space_def)
  moreover have "block_space (headers h') x \<subseteq> {unat (VaddrHeapSt h')..<unat (VaddrHeapNd h')}" using hseg_space [OF seg, of x] by simp
  ultimately show ?thesis using rs(1) used dis by blast
qed

lemma heap_acquire_law:
  assumes "heap_valid f h U" "N \<noteq> 0" "unat N < 2 ^ 63"
  shows "HeapAcquire f h N = Inr (0, h) \<or>
    (\<exists>p h' U'. HeapAcquire f h N = Inr (p, h') \<and> p \<noteq> 0 \<and> heap_valid f h' U' \<and> U \<subseteq> U' \<and> heap_arena h' = heap_arena h \<and>
      {unat p..<unat p + unat N} \<subseteq> (U' - U) \<inter> heap_arena h)"
proof -
  obtain xs where xs: "heap_ok h xs" "U = heap_used h xs" and f: "(unat (VaddrHeapNd h) - unat (VaddrHeapSt h)) div 57 < f"
    using assms(1) by (auto simp: heap_valid_def)
  have e: "HeapAcquire f h N = HeapAlignedAcquire f h N (2 ^ 4)" by (simp add: HeapAcquire_def HEAP_DEFAULT_ALIGNMENT_def)
  note acq = heap_acquire_cases [OF xs(1) order_refl assms(2,3) heap_valid_fuel [OF xs(1) f]]
  show ?thesis
  proof (cases "\<exists>x \<in> set xs. fits h (unat (rounded_size N 4)) (2 ^ 4) x")
    case False then show ?thesis unfolding e using acq by (simp only: if_False) simp
  next
    case True
    then obtain p h' as x bs where r: "HeapAlignedAcquire f h N (2 ^ 4) = Inr (p, h')" "xs = as @ x # bs" "p \<noteq> 0"
      "fits h (unat (rounded_size N 4)) (2 ^ 4) x" "block_taken h h' p (unat N) x as bs"
      using acq by (simp only: if_True) blast
    have bnd: "VaddrHeapNd h' = VaddrHeapNd h" "VaddrHeapSt h' = VaddrHeapSt h" using heap_bounds_same [OF r(1)] by simp_all
    have free: "bFree (headers h x)" using r(4) by (simp add: fits_def)
    obtain ys where ys: "heap_ok h' ys" "heap_used h' ys = U \<union> block_space (headers h') x" "block_space (headers h') x \<inter> U = {}"
      "{unat p..<unat p + unat N} \<subseteq> block_space (headers h') x" "block_space (headers h') x \<subseteq> heap_arena h"
      using heap_used_taken [OF xs(1) [unfolded r(2)] free r(5)] xs(2) r(2) bnd by (auto simp: heap_arena_def)
    have "heap_valid f h' (heap_used h' ys)" using ys(1) f bnd by (auto simp: heap_valid_def)
    moreover have "U \<subseteq> heap_used h' ys" "{unat p..<unat p + unat N} \<subseteq> (heap_used h' ys - U) \<inter> heap_arena h"
      using ys(2-5) by blast+
    moreover have "heap_arena h' = heap_arena h" using bnd by (simp add: heap_arena_def)
    ultimately show ?thesis using r(1,3) e by metis
  qed
qed

interpretation kheap: allocator "HeapAcquire f" "heap_valid f" heap_arena for f
  by unfold_locales (rule heap_acquire_law)

text \<open>Requests to the kernel heap one after the other, until one is refused.\<close>

primrec HeapAcquireList :: "nat \<Rightarrow> heap \<Rightarrow> SIZE list \<Rightarrow> (UINTPTR list \<times> heap) kres" where
  "HeapAcquireList f h [] = Inr ([], h)"
| "HeapAcquireList f h (N # Ns) =
     kbind (HeapAcquire f h N) (\<lambda>(p, h'). if p = 0 then Inr ([], h')
       else kbind (HeapAcquireList f h' Ns) (\<lambda>(ps, h''). Inr (p # ps, h'')))"

lemma HeapAcquireList_eq: "HeapAcquireList f h Ns = kheap.acquire_list f h Ns"
  by (induction Ns arbitrary: h) (simp_all add: case_prod_unfold cong: if_cong)

text \<open>
  C16: Blocks the kernel heap hands out one after the other lie inside the heap, do not overlap each other and
  do not overlap any block that was in use before.
\<close>
theorem heap_blocks_disjoint:
  assumes "heap_valid f h U" "\<forall>N \<in> set Ns. N \<noteq> 0 \<and> unat N < 2 ^ 63"
  shows "\<exists>ps h' U'. HeapAcquireList f h Ns = Inr (ps, h') \<and> length ps \<le> length Ns \<and> heap_valid f h' U' \<and> U \<subseteq> U' \<and>
    heap_arena h' = heap_arena h \<and>
    (\<forall>i < length ps. ps ! i \<noteq> 0 \<and> {unat (ps ! i)..<unat (ps ! i) + unat (Ns ! i)} \<subseteq> (U' - U) \<inter> heap_arena h) \<and>
    (\<forall>j < length ps. \<forall>i < j. {unat (ps ! i)..<unat (ps ! i) + unat (Ns ! i)} \<inter> {unat (ps ! j)..<unat (ps ! j) + unat (Ns ! j)} = {})"
  unfolding HeapAcquireList_eq by (rule kheap.acquired_disjoint [OF assms])

definition wit_heap2 :: heap where
  "wit_heap2 = \<lparr> headers = (\<lambda>a. \<lparr> hpPrev = 0, hpNext = 0, PayloadSize = 975, bFree = True \<rparr>),
     offsets = (\<lambda>_. 0), RootHeader = 4096, VaddrHeapSt = 4096, VaddrHeapNd = 5096, HeapVMR = 0, s_HeapInitialized = True \<rparr>"

lemma wit_heap2_valid: "heap_valid 20 wit_heap2 {}"
proof -
  have "heap_ok wit_heap2 [4096]" "heap_used wit_heap2 [4096] = {}" by (simp_all add: heap_ok_def wit_heap2_def heap_used_def)
  then show ?thesis unfolding heap_valid_def by (auto simp: wit_heap2_def intro!: exI [of _ "[4096]"])
qed

theorem heap_blocks_disjoint_witness:
  "\<exists>ps h'. HeapAcquireList 20 wit_heap2 [100, 200] = Inr (ps, h') \<and> (\<forall>i < length ps. {unat (ps ! i)..<unat (ps ! i) + unat ([100, 200] ! i :: SIZE)} \<subseteq> {4096..<5096})"
proof -
  have a: "heap_arena wit_heap2 = {4096..<5096}" by (simp add: heap_arena_def wit_heap2_def)
  show ?thesis using heap_blocks_disjoint [OF wit_heap2_valid, of "[100, 200]"] unfolding a by (simp add: le_infI2) blast
qed

end
