(* ===== verification/Pcie.thy ===== *)
theory Pcie
  imports DeviceTree HeapAlloc
begin

text \<open>
  The enumeration of PCI functions, \<^verbatim>\<open>Kernel/Source/ACPI/PCIe.c\<close>, and the set-up of the device tree that
  uses it, \<^verbatim>\<open>InitDeviceTree\<close> of \<^verbatim>\<open>Kernel/Source/Devdriv/Device.c\<close>. The configuration space is
  a parameter: what the bytes, words and double words at its addresses hold. The nine arguments of a
  callback are the fields of a \<open>PciDeviceId\<close>.
\<close>

named_theorems pcie "values of PCI constants"

section \<open>Constants\<close>

definition PCIE_MIN_BUS :: nat where [pcie]: "PCIE_MIN_BUS = 0x00"
definition PCIE_MAX_BUS :: nat where [pcie]: "PCIE_MAX_BUS = 0xFF"
definition PCIE_MIN_DEV :: nat where [pcie]: "PCIE_MIN_DEV = 0x00"
definition PCIE_MAX_DEV :: nat where [pcie]: "PCIE_MAX_DEV = 0x20"
definition PCIE_MIN_FUN :: nat where [pcie]: "PCIE_MIN_FUN = 0x00"
definition PCIE_MAX_FUN :: nat where [pcie]: "PCIE_MAX_FUN = 0x08"
definition PCI_CLASS_LEGACY :: UCHAR where [pcie]: "PCI_CLASS_LEGACY = 0x00"
definition PCI_CLASS_MASS_STORAGE_CONTROLLER :: UCHAR where [pcie]: "PCI_CLASS_MASS_STORAGE_CONTROLLER = 0x01"
definition PCI_CLASS_NETWORK_CONTROLLER :: UCHAR where [pcie]: "PCI_CLASS_NETWORK_CONTROLLER = 0x02"
definition PCI_CLASS_DISPLAY_CONTROLLER :: UCHAR where [pcie]: "PCI_CLASS_DISPLAY_CONTROLLER = 0x03"
definition PCI_CLASS_MULTIMEDIA_DEVICE :: UCHAR where [pcie]: "PCI_CLASS_MULTIMEDIA_DEVICE = 0x04"
definition PCI_CLASS_MEMORY_CONTROLLER :: UCHAR where [pcie]: "PCI_CLASS_MEMORY_CONTROLLER = 0x05"
definition PCI_CLASS_BRIDGE_DEVICE :: UCHAR where [pcie]: "PCI_CLASS_BRIDGE_DEVICE = 0x06"
definition PCI_CLASS_SIMPLE_COMMUNICATIONS_CONTROLLERS :: UCHAR where [pcie]: "PCI_CLASS_SIMPLE_COMMUNICATIONS_CONTROLLERS = 0x07"
definition PCI_CLASS_BASE_SYSTEM_PERIPHERALS :: UCHAR where [pcie]: "PCI_CLASS_BASE_SYSTEM_PERIPHERALS = 0x08"
definition PCI_CLASS_INPUT_DEVICES :: UCHAR where [pcie]: "PCI_CLASS_INPUT_DEVICES = 0x09"
definition PCI_CLASS_DOCKING_STATIONS :: UCHAR where [pcie]: "PCI_CLASS_DOCKING_STATIONS = 0x0A"
definition PCI_CLASS_PROCESSORS :: UCHAR where [pcie]: "PCI_CLASS_PROCESSORS = 0x0B"
definition PCI_CLASS_SERIAL_BUS_CONTROLLERS :: UCHAR where [pcie]: "PCI_CLASS_SERIAL_BUS_CONTROLLERS = 0x0C"
definition PCI_CLASS_WIRELESS_CONTROLLERS :: UCHAR where [pcie]: "PCI_CLASS_WIRELESS_CONTROLLERS = 0x0D"
definition PCI_CLASS_INTELLIGENT_CONTROLLERS :: UCHAR where [pcie]: "PCI_CLASS_INTELLIGENT_CONTROLLERS = 0x0E"
definition PCI_SUBCLASS_SCSI :: UCHAR where [pcie]: "PCI_SUBCLASS_SCSI = 0x00"
definition PCI_SUBCLASS_IDE :: UCHAR where [pcie]: "PCI_SUBCLASS_IDE = 0x01"
definition PCI_SUBCLASS_FLOPPY_DISK_CONTROLLER :: UCHAR where [pcie]: "PCI_SUBCLASS_FLOPPY_DISK_CONTROLLER = 0x02"
definition PCI_SUBCLASS_IPI_BUS_CONTROLLER :: UCHAR where [pcie]: "PCI_SUBCLASS_IPI_BUS_CONTROLLER = 0x03"
definition PCI_SUBCLASS_RAID_CONTROLLER :: UCHAR where [pcie]: "PCI_SUBCLASS_RAID_CONTROLLER = 0x04"
definition PCI_SUBCLASS_ATA_CONTROLLER :: UCHAR where [pcie]: "PCI_SUBCLASS_ATA_CONTROLLER = 0x05"
definition PCI_SUBCLASS_SATA_CONTROLLER :: UCHAR where [pcie]: "PCI_SUBCLASS_SATA_CONTROLLER = 0x06"
definition PCI_SUBCLASS_SAS_CONTROLLER :: UCHAR where [pcie]: "PCI_SUBCLASS_SAS_CONTROLLER = 0x07"
definition PCI_SUBCLASS_NVM_CONTROLLER :: UCHAR where [pcie]: "PCI_SUBCLASS_NVM_CONTROLLER = 0x08"
definition PCIE_CFG_REG_VENDOR_ID :: WORD where [pcie]: "PCIE_CFG_REG_VENDOR_ID = 0x0000"
definition PCIE_CFG_REG_DEVICE_ID :: WORD where [pcie]: "PCIE_CFG_REG_DEVICE_ID = 0x0002"
definition PCIE_CFG_REG_COMMAND :: WORD where [pcie]: "PCIE_CFG_REG_COMMAND = 0x0004"
definition PCIE_CFG_REG_STATUS :: WORD where [pcie]: "PCIE_CFG_REG_STATUS = 0x0006"
definition PCIE_CFG_REG_REVISION_ID :: WORD where [pcie]: "PCIE_CFG_REG_REVISION_ID = 0x0008"
definition PCIE_CFG_REG_PROG_IF :: WORD where [pcie]: "PCIE_CFG_REG_PROG_IF = 0x0009"
definition PCIE_CFG_REG_SUBCLASS :: WORD where [pcie]: "PCIE_CFG_REG_SUBCLASS = 0x000A"
definition PCIE_CFG_REG_CLASS :: WORD where [pcie]: "PCIE_CFG_REG_CLASS = 0x000B"
definition PCIE_CFG_REG_CACHE_LINE_SIZE :: WORD where [pcie]: "PCIE_CFG_REG_CACHE_LINE_SIZE = 0x000C"
definition PCIE_CFG_REG_LATENCY_TIMER :: WORD where [pcie]: "PCIE_CFG_REG_LATENCY_TIMER = 0x000D"
definition PCIE_CFG_REG_HEADER_TYPE :: WORD where [pcie]: "PCIE_CFG_REG_HEADER_TYPE = 0x000E"

section \<open>Configuration space\<close>

record ecam =
  cfg8 :: "UINTPTR \<Rightarrow> BYTE"
  cfg16 :: "UINTPTR \<Rightarrow> WORD"
  cfg32 :: "UINTPTR \<Rightarrow> DWORD"
  VaddrPciEcamBase :: UINTPTR

definition PcieGetVoffset :: "'e ecam_scheme \<Rightarrow> UCHAR \<Rightarrow> UCHAR \<Rightarrow> UCHAR \<Rightarrow> WORD \<Rightarrow> UINTPTR" where
  "PcieGetVoffset e Bus Dev Fun Reg =
     (let OffsetIntoVaddr = push_bit 20 (ucast Bus) OR push_bit 15 (ucast Dev) OR push_bit 12 (ucast Fun) OR ucast (Reg AND 0xFFF)
      in VaddrPciEcamBase e + OffsetIntoVaddr)"

definition PcieReadDword :: "'e ecam_scheme \<Rightarrow> UCHAR \<Rightarrow> UCHAR \<Rightarrow> UCHAR \<Rightarrow> WORD \<Rightarrow> DWORD" where
  "PcieReadDword e Bus Dev Fun Reg = cfg32 e (PcieGetVoffset e Bus Dev Fun Reg)"

definition PcieReadWord :: "'e ecam_scheme \<Rightarrow> UCHAR \<Rightarrow> UCHAR \<Rightarrow> UCHAR \<Rightarrow> WORD \<Rightarrow> WORD" where
  "PcieReadWord e Bus Dev Fun Reg = cfg16 e (PcieGetVoffset e Bus Dev Fun Reg)"

definition PcieReadByte :: "'e ecam_scheme \<Rightarrow> UCHAR \<Rightarrow> UCHAR \<Rightarrow> UCHAR \<Rightarrow> WORD \<Rightarrow> BYTE" where
  "PcieReadByte e Bus Dev Fun Reg = cfg8 e (PcieGetVoffset e Bus Dev Fun Reg)"

definition PcieClassStrings :: "(UCHAR \<times> string) list" where
  "PcieClassStrings =
    [(PCI_CLASS_LEGACY, ''Unclassified Legacy Device''),
     (PCI_CLASS_MASS_STORAGE_CONTROLLER, ''Mass Storage Controller''),
     (PCI_CLASS_NETWORK_CONTROLLER, ''Network Controller''),
     (PCI_CLASS_DISPLAY_CONTROLLER, ''Display Controller''),
     (PCI_CLASS_MULTIMEDIA_DEVICE, ''Multimedia Device''),
     (PCI_CLASS_MEMORY_CONTROLLER, ''Memory Controller''),
     (PCI_CLASS_BRIDGE_DEVICE, ''Bridge Device''),
     (PCI_CLASS_SIMPLE_COMMUNICATIONS_CONTROLLERS, ''Simple Communications Controller''),
     (PCI_CLASS_BASE_SYSTEM_PERIPHERALS, ''Base System Peripheral Device''),
     (PCI_CLASS_INPUT_DEVICES, ''Input Device''),
     (PCI_CLASS_DOCKING_STATIONS, ''Docking Station''),
     (PCI_CLASS_PROCESSORS, ''Processor''),
     (PCI_CLASS_SERIAL_BUS_CONTROLLERS, ''Serial Bus Controller''),
     (PCI_CLASS_WIRELESS_CONTROLLERS, ''Wireless Controller''),
     (PCI_CLASS_INTELLIGENT_CONTROLLERS, ''Intelligent Controller'')]"

definition PcieGetClassString :: "UCHAR \<Rightarrow> string" where
  "PcieGetClassString Class = (case map_of PcieClassStrings Class of Some t \<Rightarrow> t | None \<Rightarrow> ''Unclassified PCIe Device'')"

section \<open>Enumeration\<close>

type_synonym 's endpoint_found = "PciDeviceId \<Rightarrow> 's \<Rightarrow> 's kres"

definition PcieProbeFunction :: "'e ecam_scheme \<Rightarrow> 's endpoint_found option \<Rightarrow> UCHAR \<Rightarrow> UCHAR \<Rightarrow> UCHAR \<Rightarrow> 's \<Rightarrow> 's kres" where
  "PcieProbeFunction e cb Bus Dev Fun s =
     (let Vendor = PcieReadWord e Bus Dev Fun PCIE_CFG_REG_VENDOR_ID
      in if Vendor = 0x0000 \<or> Vendor = 0xFFFF then Inr s
         else
           let Did = PcieReadWord e Bus Dev Fun PCIE_CFG_REG_DEVICE_ID;
               Class = PcieReadByte e Bus Dev Fun PCIE_CFG_REG_CLASS;
               SubClass = PcieReadByte e Bus Dev Fun PCIE_CFG_REG_SUBCLASS;
               Pif = PcieReadByte e Bus Dev Fun PCIE_CFG_REG_PROG_IF
           in case cb of
                Some g \<Rightarrow> g \<lparr> VaddrCfgSpace = PcieGetVoffset e Bus Dev Fun 0, VendorID = Vendor, DeviceID = Did, PciBus = Bus,
                             PciDevice = Dev, PciFunction = Fun, ProgIF = Pif, PciClass = Class, PciSubClass = SubClass \<rparr> s
              | None \<Rightarrow> Inr s)"

definition PcieEnumerate :: "'e ecam_scheme \<Rightarrow> 's endpoint_found option \<Rightarrow> 's \<Rightarrow> 's kres" where
  "PcieEnumerate e cb =
     each (\<lambda>Bus. each (\<lambda>Dev s.
       let Vendor = PcieReadWord e (of_nat Bus) (of_nat Dev) 0 PCIE_CFG_REG_VENDOR_ID
       in if Vendor = 0x0000 \<or> Vendor = 0xFFFF then Inr s
          else kbind (PcieProbeFunction e cb (of_nat Bus) (of_nat Dev) 0 s) (\<lambda>s.
            let HeaderType = PcieReadByte e (of_nat Bus) (of_nat Dev) 0 PCIE_CFG_REG_HEADER_TYPE
            in if btest HeaderType 7
               then each (\<lambda>Fun. PcieProbeFunction e cb (of_nat Bus) (of_nat Dev) (of_nat Fun)) [1..<PCIE_MAX_FUN] s
               else Inr s))
       [PCIE_MIN_DEV..<PCIE_MAX_DEV]) [PCIE_MIN_BUS..<PCIE_MAX_BUS + 1]"

section \<open>The devices found\<close>

definition sizeof_DeviceNode :: SIZE where "sizeof_DeviceNode = 200"

text \<open>\<open>PRoot\<close> is the address of \<^verbatim>\<open>g_PcieRoot\<close>, \<open>Root\<close> that of \<^verbatim>\<open>g_RootDevice\<close>.\<close>

definition DevTreeInitPCIeDeviceFound :: "nat \<Rightarrow> UINTPTR \<Rightarrow> PciDeviceId \<Rightarrow> 'a dev_sys_scheme \<Rightarrow> 'a dev_sys_scheme kres" where
  "DevTreeInitPCIeDeviceFound f PRoot d s =
     kbind (HeapAcquire f (dheap s) sizeof_DeviceNode) (\<lambda>(p, h).
       let s1 = s\<lparr> dheap := h \<rparr>
       in if p = 0 then Inr s1
          else
            let s2 = upd_dev p (\<lambda>_. device_zero\<lparr> dnOnBus := BUS_PCI, dnPci := d, dnName := PcieGetClassString (PciClass d) \<rparr>) s1
            in kbind (AddChildDevice f PRoot p s2) (\<lambda>s3. Inr (s3\<lparr> g_DeviceCount := g_DeviceCount s3 + 1 \<rparr>)))"

definition InitDeviceTree :: "nat \<Rightarrow> 'e ecam_scheme \<Rightarrow> UINTPTR \<Rightarrow> UINTPTR \<Rightarrow> 'a dev_sys_scheme \<Rightarrow> 'a dev_sys_scheme kres" where
  "InitDeviceTree f e Root PRoot s =
     (let (ok, s1) = InitDeviceTreeRoot Root s
      in if \<not> ok then Inr s1
         else
           let s2 = upd_dev PRoot (\<lambda>_. device_zero\<lparr> dnName := ''ACPI PCIe Root 0'', dnOnBus := BUS_PCI,
                      dnPci := pci_zero\<lparr> VaddrCfgSpace := PcieGetVoffset e 0 0 0 0 \<rparr> \<rparr>) s1
           in kbind (AddChildDevice f Root PRoot s2) (\<lambda>s3.
                PcieEnumerate e (Some (DevTreeInitPCIeDeviceFound f PRoot)) (s3\<lparr> g_DeviceCount := g_DeviceCount s3 + 1 \<rparr>)))"

section \<open>What is enumerated\<close>

type_synonym function_address = "nat \<times> nat \<times> nat"

definition answers :: "'e ecam_scheme \<Rightarrow> function_address \<Rightarrow> bool" where
  "answers e = (\<lambda>(b, d, f). PcieReadWord e (of_nat b) (of_nat d) (of_nat f) PCIE_CFG_REG_VENDOR_ID \<notin> {0x0000, 0xFFFF})"

definition multi_function :: "'e ecam_scheme \<Rightarrow> nat \<Rightarrow> nat \<Rightarrow> bool" where
  "multi_function e b d \<longleftrightarrow> bit (PcieReadByte e (of_nat b) (of_nat d) 0 PCIE_CFG_REG_HEADER_TYPE) 7"

definition endpoint :: "'e ecam_scheme \<Rightarrow> function_address \<Rightarrow> PciDeviceId" where
  "endpoint e = (\<lambda>(b, d, f).
     \<lparr> VaddrCfgSpace = PcieGetVoffset e (of_nat b) (of_nat d) (of_nat f) 0,
       VendorID = PcieReadWord e (of_nat b) (of_nat d) (of_nat f) PCIE_CFG_REG_VENDOR_ID,
       DeviceID = PcieReadWord e (of_nat b) (of_nat d) (of_nat f) PCIE_CFG_REG_DEVICE_ID,
       PciBus = of_nat b, PciDevice = of_nat d, PciFunction = of_nat f,
       ProgIF = PcieReadByte e (of_nat b) (of_nat d) (of_nat f) PCIE_CFG_REG_PROG_IF,
       PciClass = PcieReadByte e (of_nat b) (of_nat d) (of_nat f) PCIE_CFG_REG_CLASS,
       PciSubClass = PcieReadByte e (of_nat b) (of_nat d) (of_nat f) PCIE_CFG_REG_SUBCLASS \<rparr>)"

text \<open>The functions that exist, in ascending order: function 0 has to answer, and the others count only for devices with several functions.\<close>

definition pcie_functions :: "'e ecam_scheme \<Rightarrow> function_address list" where
  "pcie_functions e = filter (\<lambda>(b, d, f). answers e (b, d, 0) \<and> (f = 0 \<or> multi_function e b d) \<and> answers e (b, d, f))
     (List.product [0..<256] (List.product [0..<32] [0..<8]))"

lemma probe_function:
  "PcieProbeFunction e (Some g) (of_nat b) (of_nat d) (of_nat f) s = (if answers e (b, d, f) then g (endpoint e (b, d, f)) s else Inr s)"
  by (simp add: PcieProbeFunction_def answers_def endpoint_def Let_def)

lemma pcie_enumerate:
  "PcieEnumerate e (Some g) s = each (\<lambda>x. g (endpoint e x)) (pcie_functions e) s"
proof -
  let ?B = "\<lambda>b d f s. if answers e (b, d, 0) \<and> (f = 0 \<or> multi_function e b d) \<and> answers e (b, d, f) then g (endpoint e (b, d, f)) s else Inr s"
  have split8: "[0..<8] = 0 # [1..<8::nat]" by (simp add: upt_rec)
  have dev: "(let Vendor = PcieReadWord e (of_nat b) (of_nat d) 0 PCIE_CFG_REG_VENDOR_ID
       in if Vendor = 0x0000 \<or> Vendor = 0xFFFF then Inr s
          else kbind (PcieProbeFunction e (Some g) (of_nat b) (of_nat d) 0 s) (\<lambda>s.
            let HeaderType = PcieReadByte e (of_nat b) (of_nat d) 0 PCIE_CFG_REG_HEADER_TYPE
            in if btest HeaderType 7
               then each (\<lambda>Fun. PcieProbeFunction e (Some g) (of_nat b) (of_nat d) (of_nat Fun)) [1..<PCIE_MAX_FUN] s
               else Inr s)) = each (?B b d) [0..<8] s" for b d s
  proof (cases "answers e (b, d, 0)")
    case False
    have "each (?B b d) xs s = Inr s" for xs using False by (induction xs) auto
    then show ?thesis using False by (auto simp: answers_def Let_def)
  next
    case True
    have rest: "each (?B b d) [1..<8] s = (if multi_function e b d then each (\<lambda>f. PcieProbeFunction e (Some g) (of_nat b) (of_nat d) (of_nat f)) [1..<8] s else Inr s)" for s
      unfolding each_if [symmetric] by (rule each_cong) (use True in \<open>auto simp: probe_function\<close>)
    have "each (?B b d) [0..<8] s = kbind (g (endpoint e (b, d, 0)) s) (each (?B b d) [1..<8])"
      unfolding split8 by (simp add: True del: upt_rec_numeral)
    moreover have "PcieProbeFunction e (Some g) (of_nat b) (of_nat d) 0 s = g (endpoint e (b, d, 0)) s"
      using probe_function [of e g b d 0 s] True by simp
    moreover have "\<not> (PcieReadWord e (of_nat b) (of_nat d) 0 PCIE_CFG_REG_VENDOR_ID = 0x0000 \<or> PcieReadWord e (of_nat b) (of_nat d) 0 PCIE_CFG_REG_VENDOR_ID = 0xFFFF)"
      using True by (simp add: answers_def)
    ultimately show ?thesis
      unfolding Let_def by (simp only: if_False) (simp only: btest_bit multi_function_def [symmetric] PCIE_MAX_FUN_def rest [abs_def])
  qed
  have "PcieEnumerate e (Some g) s = each (\<lambda>b. each (\<lambda>d. each (?B b d) [0..<8]) [0..<32]) [0..<256] s"
    unfolding PcieEnumerate_def dev by (simp only: pcie) (simp add: numeral_eq_Suc del: upt.simps upt_rec_numeral)
  also have "\<dots> = each (\<lambda>x. g (endpoint e x)) (pcie_functions e) s"
    unfolding pcie_functions_def each_filter each_product by (simp add: case_prod_unfold del: upt_rec_numeral)
  finally show ?thesis .
qed

lemma voffset_fields:
  fixes b d f :: UCHAR and r :: WORD
  defines "w \<equiv> push_bit 20 (ucast b) OR push_bit 15 (ucast d) OR push_bit 12 (ucast f) OR ucast (r AND 0xFFF) :: UINTPTR"
  assumes "unat d < 32" "unat f < 8"
  shows "ucast (drop_bit 20 w) = b" "ucast (drop_bit 15 w) AND mask 5 = d" "ucast (drop_bit 12 w) AND mask 3 = f"
proof -
  have hd: "n < 5" if "bit d n" for n using bit_small [of d 5 n] assms(2) that by force
  have hf: "n < 3" if "bit f n" for n using bit_small [of f 3 n] assms(3) that by force
  have m: "(0xFFF :: WORD) = mask 12" by (simp add: mask_eq_exp_minus_1)
  note bits = w_def m bit_or_iff bit_and_iff bit_push_bit_iff bit_drop_bit_eq bit_unsigned_iff bit_mask_iff comp_apply
  show "ucast (drop_bit 20 w) = b" by (rule bit_word_eqI) (auto simp: bits dest: hd hf bit_imp_le_length)
  show "ucast (drop_bit 15 w) AND mask 5 = d"
    by (rule bit_word_eqI) (auto simp: bits dest: hd hf bit_imp_le_length)
  show "ucast (drop_bit 12 w) AND mask 3 = f"
    by (rule bit_word_eqI) (auto simp: bits dest: hd hf bit_imp_le_length)
qed

lemma voffset_inj:
  assumes "b < 256" "d < 32" "f < 8" "b' < 256" "d' < 32" "f' < 8"
    and eq: "PcieGetVoffset e (of_nat b) (of_nat d) (of_nat f) r = PcieGetVoffset e (of_nat b') (of_nat d') (of_nat f') r"
  shows "(b, d, f) = (b', d', f')"
proof -
  have u: "unat (of_nat d :: UCHAR) = d" "unat (of_nat f :: UCHAR) = f" "unat (of_nat d' :: UCHAR) = d'" "unat (of_nat f' :: UCHAR) = f'"
    "unat (of_nat b :: UCHAR) = b" "unat (of_nat b' :: UCHAR) = b'"
    using assms by (simp_all add: unat_of_nat)
  define w where "w b d f = (push_bit 20 (ucast (b :: UCHAR)) OR push_bit 15 (ucast (d :: UCHAR)) OR push_bit 12 (ucast (f :: UCHAR)) OR ucast (r AND 0xFFF) :: UINTPTR)" for b d f
  have e: "w (of_nat b) (of_nat d) (of_nat f) = w (of_nat b') (of_nat d') (of_nat f')"
    using eq by (simp add: PcieGetVoffset_def Let_def w_def)
  have lt: "unat (of_nat d :: UCHAR) < 32" "unat (of_nat f :: UCHAR) < 8" "unat (of_nat d' :: UCHAR) < 32" "unat (of_nat f' :: UCHAR) < 8"
    using assms u by simp_all
  note F = voffset_fields [OF lt(1,2), where b = "of_nat b" and r = r, folded w_def]
  note F' = voffset_fields [OF lt(3,4), where b = "of_nat b'" and r = r, folded w_def]
  have "(of_nat b :: UCHAR) = of_nat b'" "(of_nat d :: UCHAR) = of_nat d'" "(of_nat f :: UCHAR) = of_nat f'"
    using F F' e by metis+
  then show ?thesis using u by (metis)
qed

lemma functions_bounds: "(b, d, f) \<in> set (pcie_functions e) \<Longrightarrow> b < 256 \<and> d < 32 \<and> f < 8"
  by (auto simp: pcie_functions_def)

lemma functions_distinct: "distinct (map (\<lambda>x. VaddrCfgSpace (endpoint e x)) (pcie_functions e))"
proof (subst distinct_map, intro conjI inj_onI)
  show "distinct (pcie_functions e)" unfolding pcie_functions_def by (intro distinct_filter distinct_product distinct_upt)
  fix x y assume a: "x \<in> set (pcie_functions e)" "y \<in> set (pcie_functions e)" "VaddrCfgSpace (endpoint e x) = VaddrCfgSpace (endpoint e y)"
  obtain b d f b' d' f' where xy: "x = (b, d, f)" "y = (b', d', f')" by (metis prod_cases3)
  then have "b < 256 \<and> d < 32 \<and> f < 8" "b' < 256 \<and> d' < 32 \<and> f' < 8" using a functions_bounds by blast+
  then show "x = y" using voffset_inj [of b d f b' d' f' e 0] a(3) unfolding xy by (simp add: endpoint_def)
qed

lemma functions_length: "length (pcie_functions e) \<le> 65536"
proof -
  have "length (pcie_functions e) \<le> length (List.product [0..<256] (List.product [0..<32] [0..<8::nat]) :: (nat \<times> nat \<times> nat) list)"
    unfolding pcie_functions_def by (rule length_filter_le)
  also have "\<dots> = 65536" by (simp add: length_product del: upt_rec_numeral)
  finally show ?thesis .
qed

lemma enumerate_none: "PcieEnumerate e None s = Inr s"
proof -
  have p: "PcieProbeFunction e None b d f s = Inr s" for b d f and s :: 'a by (simp add: PcieProbeFunction_def Let_def)
  have n: "each (\<lambda>x. Inr) xs = Inr" for xs :: "'x list" by (rule ext, induct xs) simp_all
  show ?thesis unfolding PcieEnumerate_def p [abs_def] kbind_Inr Let_def n if_cancel ..
qed

text \<open>
  C26: PcieEnumerate calls its callback for exactly the functions that exist, in ascending order of bus, device
  and function, with the contents of their identification registers: function 0 of a device has to answer, and
  the functions 1 to 7 are looked for when its header type has bit 7 set. No two of them have the same
  configuration space. Without a callback it changes nothing.
\<close>
theorem enumerates_functions:
  "PcieEnumerate e (Some g) s = each (\<lambda>x. g (endpoint e x)) (pcie_functions e) s \<and>
   distinct (map (\<lambda>x. VaddrCfgSpace (endpoint e x)) (pcie_functions e)) \<and>
   PcieEnumerate e None t = Inr t"
  by (intro conjI pcie_enumerate functions_distinct enumerate_none)

section \<open>The tree after set-up\<close>

definition found_node :: "PciDeviceId \<Rightarrow> DeviceNode" where
  "found_node d = device_zero\<lparr> dnOnBus := BUS_PCI, dnPci := d, dnName := PcieGetClassString (PciClass d) \<rparr>"

definition no_links :: "DeviceNode \<Rightarrow> DeviceNode" where
  "no_links n = n\<lparr> pParent := 0, p1stKid := 0, pNxtSib := 0 \<rparr>"

text \<open>The tree while it is built: the kids of the PCI root are the nodes \<open>ps\<close>, blocks of the heap, made from the identifiers \<open>ds\<close>.\<close>

definition tree_built :: "nat \<Rightarrow> UINTPTR \<Rightarrow> UINTPTR \<Rightarrow> 'a dev_sys_scheme \<Rightarrow> nat set \<Rightarrow> UINTPTR list \<Rightarrow> PciDeviceId list \<Rightarrow> bool" where
  "tree_built f Root PRoot s U ps ds \<longleftrightarrow>
     heap_valid f (dheap s) U \<and> unat Root \<notin> heap_arena (dheap s) \<and> unat PRoot \<notin> heap_arena (dheap s) \<and>
     Root \<noteq> 0 \<and> PRoot \<noteq> 0 \<and> Root \<noteq> PRoot \<and>
     p1stKid (devs s Root) = PRoot \<and> pNxtSib (devs s Root) = 0 \<and> pNxtSib (devs s PRoot) = 0 \<and>
     siblings (devs s) (p1stKid (devs s PRoot)) ps \<and> distinct ps \<and>
     (\<forall>p \<in> set ps. unat p \<in> U \<inter> heap_arena (dheap s) \<and> p1stKid (devs s p) = 0) \<and>
     map (\<lambda>p. no_links (devs s p)) ps = map found_node ds \<and> g_DeviceCount s = 2 + of_nat (length ps)"

lemma device_found:
  assumes "tree_built f Root PRoot s U ps ds" "length ps < f"
  shows "(HeapAcquire f (dheap s) sizeof_DeviceNode = Inr (0, dheap s) \<and> DevTreeInitPCIeDeviceFound f PRoot d s = Inr s) \<or>
    (\<exists>p s' U'. DevTreeInitPCIeDeviceFound f PRoot d s = Inr s' \<and> tree_built f Root PRoot s' U' (ps @ [p]) (ds @ [d]))"
proof -
  note b = assms(1) [unfolded tree_built_def]
  have v: "heap_valid f (dheap s) U" using b by blast
  have N: "sizeof_DeviceNode \<noteq> 0" "unat sizeof_DeviceNode < 2 ^ 63" "unat sizeof_DeviceNode = 200" by (simp_all add: sizeof_DeviceNode_def)
  from heap_acquire_law [OF v N(1,2)] show ?thesis
  proof (elim disjE exE conjE)
    assume "HeapAcquire f (dheap s) sizeof_DeviceNode = Inr (0, dheap s)"
    then show ?thesis by (simp add: DevTreeInitPCIeDeviceFound_def)
  next
    fix p h' U' assume a: "HeapAcquire f (dheap s) sizeof_DeviceNode = Inr (p, h')" "p \<noteq> 0" "heap_valid f h' U'" "U \<subseteq> U'"
      "heap_arena h' = heap_arena (dheap s)" "{unat p..<unat p + unat sizeof_DeviceNode} \<subseteq> (U' - U) \<inter> heap_arena (dheap s)"
    have p: "unat p \<in> U' - U" "unat p \<in> heap_arena (dheap s)" using a(6) N(3) by (simp_all add: subset_iff)
    then have ne: "p \<noteq> Root" "p \<noteq> PRoot" "p \<notin> set ps" using b by blast+
    have pr: "PRoot \<notin> set ps" "Root \<notin> set ps" using b by blast+
    define s2 where "s2 = upd_dev p (\<lambda>_. found_node d) (s\<lparr> dheap := h' \<rparr>)"
    have D: "devs s2 x = (if x = p then found_node d else devs s x)" for x by (simp add: s2_def upd_dev_def)
    have sib: "siblings (devs s2) (p1stKid (devs s2 PRoot)) ps"
      using b ne by (subst siblings_cong [of ps _ "devs s"]) (auto simp: D)
    obtain s3 where s3: "AddChildDevice f PRoot p s2 = Inr s3" "siblings (devs s3) (p1stKid (devs s3 PRoot)) (ps @ [p])"
      "\<And>x. x \<noteq> PRoot \<Longrightarrow> p1stKid (devs s3 x) = p1stKid (devs s2 x)"
      "\<And>x. x \<notin> insert p (set ps) \<Longrightarrow> pNxtSib (devs s3 x) = pNxtSib (devs s2 x)"
      "\<And>x. no_links (devs s3 x) = no_links (devs s2 x)" "s3\<lparr> devs := devs s2 \<rparr> = s2"
      using add_child [OF sib, of p f] b ne a(2) assms(2) unfolding no_links_def by force
    have h3: "dheap s3 = h'" "g_DeviceCount s3 = g_DeviceCount s"
      using arg_cong [OF s3(6), of dheap] arg_cong [OF s3(6), of g_DeviceCount] by (simp_all add: s2_def upd_dev_def)
    have zero: "p1stKid (found_node d) = 0" by (simp add: found_node_def device_zero_def)
    define s' where "s' = s3\<lparr> g_DeviceCount := g_DeviceCount s3 + 1 \<rparr>"
    have "DevTreeInitPCIeDeviceFound f PRoot d s = Inr s'"
      using a(1,2) s3(1) by (simp add: DevTreeInitPCIeDeviceFound_def Let_def s2_def found_node_def s'_def)
    moreover have "tree_built f Root PRoot s' U' (ps @ [p]) (ds @ [d])"
      unfolding tree_built_def
    proof (intro conjI)
      show "heap_valid f (dheap s') U'" using a(3) h3 by (simp add: s'_def)
      show "unat Root \<notin> heap_arena (dheap s')" "unat PRoot \<notin> heap_arena (dheap s')" using b a(5) h3 by (simp_all add: s'_def)
      show "Root \<noteq> 0" "PRoot \<noteq> 0" "Root \<noteq> PRoot" using b by blast+
      show "p1stKid (devs s' Root) = PRoot" "pNxtSib (devs s' Root) = 0" "pNxtSib (devs s' PRoot) = 0"
        using s3(3) [of Root] s3(4) [of Root] s3(4) [of PRoot] b ne pr by (simp_all add: s'_def D)
      show "siblings (devs s') (p1stKid (devs s' PRoot)) (ps @ [p])" using s3(2) by (simp add: s'_def)
      show "distinct (ps @ [p])" using b ne by simp
      show "\<forall>q \<in> set (ps @ [p]). unat q \<in> U' \<inter> heap_arena (dheap s') \<and> p1stKid (devs s' q) = 0"
      proof
        fix q assume "q \<in> set (ps @ [p])"
        then have q: "q = p \<or> q \<in> set ps" by auto
        then have "q \<noteq> PRoot" using pr ne by blast
        then have "p1stKid (devs s' q) = p1stKid (devs s2 q)" using s3(3) by (simp add: s'_def)
        also have "\<dots> = 0" using q b zero by (auto simp: D)
        finally show "unat q \<in> U' \<inter> heap_arena (dheap s') \<and> p1stKid (devs s' q) = 0"
          using q b p a(4,5) h3 by (auto simp: s'_def)
      qed
      have nl: "no_links (found_node d) = found_node d" by (simp add: no_links_def found_node_def device_zero_def)
      have "map (\<lambda>q. no_links (devs s3 q)) ps = map (\<lambda>q. no_links (devs s q)) ps" using ne by (auto simp: s3(5) D)
      then show "map (\<lambda>q. no_links (devs s' q)) (ps @ [p]) = map found_node (ds @ [d])"
        using b nl by (simp add: s'_def s3(5) D)
      show "g_DeviceCount s' = 2 + of_nat (length (ps @ [p]))" using b h3 by (simp add: s'_def)
    qed
    ultimately show ?thesis by blast
  qed
qed

lemma devices_found:
  assumes "tree_built f Root PRoot s U ps ds" "length ps + length xs < f"
  shows "\<exists>s' U' qs. each (DevTreeInitPCIeDeviceFound f PRoot) xs s = Inr s' \<and> length qs \<le> length xs \<and>
    tree_built f Root PRoot s' U' (ps @ qs) (ds @ take (length qs) xs) \<and>
    (length qs = length xs \<or> HeapAcquire f (dheap s') sizeof_DeviceNode = Inr (0, dheap s'))"
  using assms
proof (induction xs arbitrary: s U ps ds)
  case (Cons x xs)
  have l: "length ps < f" using Cons.prems(2) by simp
  from device_found [OF Cons.prems(1) l, of x] show ?case
  proof (elim disjE conjE exE)
    assume a: "HeapAcquire f (dheap s) sizeof_DeviceNode = Inr (0, dheap s)" "DevTreeInitPCIeDeviceFound f PRoot x s = Inr s"
    have "DevTreeInitPCIeDeviceFound f PRoot y s = Inr s" for y using a(1) by (simp add: DevTreeInitPCIeDeviceFound_def)
    then have "each (DevTreeInitPCIeDeviceFound f PRoot) ys s = Inr s" for ys by (induction ys) simp_all
    then show ?thesis using Cons.prems(1) a by (intro exI [of _ s] exI [of _ U] exI [of _ "[]"]) simp
  next
    fix p s1 U1 assume a: "DevTreeInitPCIeDeviceFound f PRoot x s = Inr s1" "tree_built f Root PRoot s1 U1 (ps @ [p]) (ds @ [x])"
    have "length (ps @ [p]) + length xs < f" using Cons.prems(2) by simp
    from Cons.IH [OF a(2) this] obtain s' U' qs where i: "each (DevTreeInitPCIeDeviceFound f PRoot) xs s1 = Inr s'" "length qs \<le> length xs"
      "tree_built f Root PRoot s' U' ((ps @ [p]) @ qs) ((ds @ [x]) @ take (length qs) xs)"
      "length qs = length xs \<or> HeapAcquire f (dheap s') sizeof_DeviceNode = Inr (0, dheap s')" by blast
    have "tree_built f Root PRoot s' U' (ps @ (p # qs)) (ds @ take (length (p # qs)) (x # xs))" using i(3) by simp
    moreover have "each (DevTreeInitPCIeDeviceFound f PRoot) (x # xs) s = Inr s'" using a(1) i(1) by simp
    ultimately show ?thesis using i(2,4) by (metis Suc_le_mono length_Cons)
  qed
qed (auto intro: exI [of _ "[]"])

lemma flat_forest:
  assumes "siblings D p ps" "\<forall>x \<in> set ps. p1stKid (D x) = 0"
  shows "forest_at D p (map (\<lambda>x. DNode x []) ps)"
  using assms by (induction ps arbitrary: p) auto

text \<open>
  C18: InitDeviceTree ends. When the root has not been set up yet, the tree afterwards consists of the root, the
  PCI root as its only child, and below that one node for each function that exists, in the order of the
  enumeration and with its identifiers and class name, up to the point where the heap refuses a node; the
  device count is the number of nodes. Whatever had been added below the root before is no longer in the tree,
  as the root is cleared: among others the keyboard and the timer, whose drivers register before.
\<close>
theorem init_device_tree:
  assumes "heap_valid f (dheap s) U" "unat Root \<notin> heap_arena (dheap s)" "unat PRoot \<notin> heap_arena (dheap s)"
    "Root \<noteq> 0" "PRoot \<noteq> 0" "Root \<noteq> PRoot" "dnOnBus (devs s Root) = BUS_IVLD" "65536 < f"
  shows "\<exists>s' ps. InitDeviceTree f e Root PRoot s = Inr s' \<and>
    forest_at (devs s') Root [DNode Root [DNode PRoot (map (\<lambda>p. DNode p []) ps)]] \<and> distinct (Root # PRoot # ps) \<and>
    length ps \<le> length (pcie_functions e) \<and>
    map (\<lambda>p. no_links (devs s' p)) ps = map (\<lambda>x. found_node (endpoint e x)) (take (length ps) (pcie_functions e)) \<and>
    (length ps = length (pcie_functions e) \<or> HeapAcquire f (dheap s') sizeof_DeviceNode = Inr (0, dheap s')) \<and>
    GetSystemDeviceCount s' = 2 + of_nat (length ps)"
proof -
  define s1 where "s1 = snd (InitDeviceTreeRoot Root s)"
  define s2 where "s2 = upd_dev PRoot (\<lambda>_. device_zero\<lparr> dnName := ''ACPI PCIe Root 0'', dnOnBus := BUS_PCI,
                      dnPci := pci_zero\<lparr> VaddrCfgSpace := PcieGetVoffset e 0 0 0 0 \<rparr> \<rparr>) s1"
  define s3 where "s3 = upd_dev Root (\<lambda>d. d\<lparr> p1stKid := PRoot \<rparr>) (upd_dev PRoot (\<lambda>d. d\<lparr> pParent := Root, pNxtSib := 0 \<rparr>) s2)"
  define s4 where "s4 = s3\<lparr> g_DeviceCount := g_DeviceCount s3 + 1 \<rparr>"
  have r: "InitDeviceTreeRoot Root s = (True, s1)" using assms(7) by (simp add: s1_def InitDeviceTreeRoot_def)
  have "AddChildDevice f Root PRoot s2 = Inr s3"
    using assms(4-7) by (simp add: AddChildDevice_def s3_def s2_def s1_def upd_dev_def InitDeviceTreeRoot_def device_zero_def Let_def)
  then have run: "InitDeviceTree f e Root PRoot s = PcieEnumerate e (Some (DevTreeInitPCIeDeviceFound f PRoot)) s4"
    unfolding InitDeviceTree_def r by (simp add: Let_def s2_def [symmetric] s4_def)
  have t: "tree_built f Root PRoot s4 U [] []"
    unfolding tree_built_def using assms
    by (simp add: s4_def s3_def s2_def s1_def upd_dev_def InitDeviceTreeRoot_def device_zero_def)
  have "length ([] :: UINTPTR list) + length (map (endpoint e) (pcie_functions e)) < f"
    using functions_length [of e] assms(8) by simp
  from devices_found [OF t this] obtain s' U' ps where d: "each (DevTreeInitPCIeDeviceFound f PRoot) (map (endpoint e) (pcie_functions e)) s4 = Inr s'"
    "length ps \<le> length (pcie_functions e)" "tree_built f Root PRoot s' U' ps (take (length ps) (map (endpoint e) (pcie_functions e)))"
    "length ps = length (pcie_functions e) \<or> HeapAcquire f (dheap s') sizeof_DeviceNode = Inr (0, dheap s')"
    by auto
  have e: "InitDeviceTree f e Root PRoot s = Inr s'"
    using d(1) unfolding run pcie_enumerate each_map by (simp add: comp_def)
  note b = d(3) [unfolded tree_built_def]
  have "forest_at (devs s') (p1stKid (devs s' PRoot)) (map (\<lambda>p. DNode p []) ps)" using b by (intro flat_forest) blast+
  then have "forest_at (devs s') Root [DNode Root [DNode PRoot (map (\<lambda>p. DNode p []) ps)]]" using b by simp
  moreover have "distinct (Root # PRoot # ps)" using b by auto
  moreover have "map (\<lambda>p. no_links (devs s' p)) ps = map (\<lambda>x. found_node (endpoint e x)) (take (length ps) (pcie_functions e))"
    using b by (simp add: take_map)
  moreover have "GetSystemDeviceCount s' = 2 + of_nat (length ps)" using b by (simp add: GetSystemDeviceCount_def)
  ultimately show ?thesis using e d(2,4) by blast
qed

definition wit_devs :: dev_sys where
  "wit_devs = \<lparr> devs = (\<lambda>_. device_zero), g_DeviceCount = 0, dheap = wit_heap2, pTable = 0, DrvTable = (\<lambda>_. 0), NrLoaded = 0, NrCap = 0, bRegistered = (\<lambda>_. False) \<rparr>"

definition wit_ecam :: ecam where
  "wit_ecam = \<lparr> cfg8 = (\<lambda>a. if a = 0x2000B then PCI_CLASS_MASS_STORAGE_CONTROLLER else 0), cfg16 = (\<lambda>a. if a = 0x20000 then 0x8086 else 0xFFFF),
     cfg32 = (\<lambda>_. 0), VaddrPciEcamBase = 0x10000 \<rparr>"

theorem init_device_tree_witness:
  "\<exists>s' ps. InitDeviceTree 65537 wit_ecam 64 512 wit_devs = Inr s' \<and>
    forest_at (devs s') 64 [DNode 64 [DNode 512 (map (\<lambda>p. DNode p []) ps)]] \<and> GetSystemDeviceCount s' = 2 + of_nat (length ps)"
proof -
  have v: "heap_valid 65537 (dheap wit_devs) {}" using wit_heap2_valid by (auto simp: wit_devs_def heap_valid_def)
  have a: "heap_arena (dheap wit_devs) = {4096..<5096}" by (simp add: wit_devs_def heap_arena_def wit_heap2_def)
  have "dnOnBus (devs wit_devs 64) = BUS_IVLD" by (simp add: wit_devs_def device_zero_def)
  from init_device_tree [OF v _ _ _ _ _ this, of 512 wit_ecam] show ?thesis unfolding a by (simp del: One_nat_def) blast
qed

end
