(* ===== verification/Keycodes.thy ===== *)
theory Keycodes
  imports Krtl
begin

text \<open>
  Key codes and PS/2 scancodes: \<^verbatim>\<open>Kernel/Include/HumanInterface/Keycodes.h\<close>,
  \<^verbatim>\<open>Kernel/Source/HumanInterface/Keycodes.c\<close> and \<^verbatim>\<open>Kernel/Source/Devdriv/Keyboard/PS2Scancodes.h\<close>. The two
  tables from scancodes to key codes are lists, the switch from key codes to scancodes and the switch from key
  codes to their names are association lists in the order of the cases. Where the header defines a macro
  twice, the later definition counts. A read past the end of a table is a fault.
\<close>

named_theorems kc "values of key codes and scancodes"

type_synonym KeyCode = DWORD
type_synonym KeyState = DWORD
type_synonym KeyMod = DWORD

section \<open>Key codes\<close>

definition KM_CTRL :: KeyMod where [kc]: "KM_CTRL = 1"
definition KM_ALT :: KeyMod where [kc]: "KM_ALT = 2"
definition KM_SHIFT :: KeyMod where [kc]: "KM_SHIFT = 4"
definition KS_RELEASED :: KeyState where [kc]: "KS_RELEASED = 0"
definition KS_PRESSED :: KeyState where [kc]: "KS_PRESSED = 1"
definition KC_INVALID :: KeyCode where [kc]: "KC_INVALID = 0x00"
definition KC_BACKSPACE :: KeyCode where [kc]: "KC_BACKSPACE = 0x08"
definition KC_TAB :: KeyCode where [kc]: "KC_TAB = 0x09"
definition KC_ENTER :: KeyCode where [kc]: "KC_ENTER = 0x0A"
definition KC_CAPS_LOCK :: KeyCode where [kc]: "KC_CAPS_LOCK = 0x14"
definition KC_ESCAPE :: KeyCode where [kc]: "KC_ESCAPE = 0x1B"
definition KC_SPACE :: KeyCode where [kc]: "KC_SPACE = 0x20"
definition KC_APOSTROPHE :: KeyCode where [kc]: "KC_APOSTROPHE = 0x27"
definition KC_COMMA :: KeyCode where [kc]: "KC_COMMA = 0x2C"
definition KC_MINUS :: KeyCode where [kc]: "KC_MINUS = 0x2D"
definition KC_PERIOD :: KeyCode where [kc]: "KC_PERIOD = 0x2E"
definition KC_SLASH :: KeyCode where [kc]: "KC_SLASH = 0x2F"
definition KC_0 :: KeyCode where [kc]: "KC_0 = 0x30"
definition KC_1 :: KeyCode where [kc]: "KC_1 = 0x31"
definition KC_2 :: KeyCode where [kc]: "KC_2 = 0x32"
definition KC_3 :: KeyCode where [kc]: "KC_3 = 0x33"
definition KC_4 :: KeyCode where [kc]: "KC_4 = 0x34"
definition KC_5 :: KeyCode where [kc]: "KC_5 = 0x35"
definition KC_6 :: KeyCode where [kc]: "KC_6 = 0x36"
definition KC_7 :: KeyCode where [kc]: "KC_7 = 0x37"
definition KC_8 :: KeyCode where [kc]: "KC_8 = 0x38"
definition KC_9 :: KeyCode where [kc]: "KC_9 = 0x39"
definition KC_SEMICOLON :: KeyCode where [kc]: "KC_SEMICOLON = 0x3B"
definition KC_EQUAL :: KeyCode where [kc]: "KC_EQUAL = 0x3D"
definition KC_A :: KeyCode where [kc]: "KC_A = 0x41"
definition KC_B :: KeyCode where [kc]: "KC_B = 0x42"
definition KC_C :: KeyCode where [kc]: "KC_C = 0x43"
definition KC_D :: KeyCode where [kc]: "KC_D = 0x44"
definition KC_E :: KeyCode where [kc]: "KC_E = 0x45"
definition KC_F :: KeyCode where [kc]: "KC_F = 0x46"
definition KC_G :: KeyCode where [kc]: "KC_G = 0x47"
definition KC_H :: KeyCode where [kc]: "KC_H = 0x48"
definition KC_I :: KeyCode where [kc]: "KC_I = 0x49"
definition KC_J :: KeyCode where [kc]: "KC_J = 0x4A"
definition KC_K :: KeyCode where [kc]: "KC_K = 0x4B"
definition KC_L :: KeyCode where [kc]: "KC_L = 0x4C"
definition KC_M :: KeyCode where [kc]: "KC_M = 0x4D"
definition KC_N :: KeyCode where [kc]: "KC_N = 0x4E"
definition KC_O :: KeyCode where [kc]: "KC_O = 0x4F"
definition KC_P :: KeyCode where [kc]: "KC_P = 0x50"
definition KC_Q :: KeyCode where [kc]: "KC_Q = 0x51"
definition KC_R :: KeyCode where [kc]: "KC_R = 0x52"
definition KC_S :: KeyCode where [kc]: "KC_S = 0x53"
definition KC_T :: KeyCode where [kc]: "KC_T = 0x54"
definition KC_U :: KeyCode where [kc]: "KC_U = 0x55"
definition KC_V :: KeyCode where [kc]: "KC_V = 0x56"
definition KC_W :: KeyCode where [kc]: "KC_W = 0x57"
definition KC_X :: KeyCode where [kc]: "KC_X = 0x58"
definition KC_Y :: KeyCode where [kc]: "KC_Y = 0x59"
definition KC_Z :: KeyCode where [kc]: "KC_Z = 0x5A"
definition KC_LBRACKET :: KeyCode where [kc]: "KC_LBRACKET = 0x5B"
definition KC_BACKSLASH :: KeyCode where [kc]: "KC_BACKSLASH = 0x5C"
definition KC_RBRACKET :: KeyCode where [kc]: "KC_RBRACKET = 0x5D"
definition KC_BACKTICK :: KeyCode where [kc]: "KC_BACKTICK = 0x60"
definition KC_KP_0 :: KeyCode where [kc]: "KC_KP_0 = 0x70"
definition KC_KP_1 :: KeyCode where [kc]: "KC_KP_1 = 0x71"
definition KC_KP_2 :: KeyCode where [kc]: "KC_KP_2 = 0x72"
definition KC_KP_3 :: KeyCode where [kc]: "KC_KP_3 = 0x73"
definition KC_KP_4 :: KeyCode where [kc]: "KC_KP_4 = 0x74"
definition KC_KP_5 :: KeyCode where [kc]: "KC_KP_5 = 0x75"
definition KC_KP_6 :: KeyCode where [kc]: "KC_KP_6 = 0x76"
definition KC_KP_7 :: KeyCode where [kc]: "KC_KP_7 = 0x77"
definition KC_KP_8 :: KeyCode where [kc]: "KC_KP_8 = 0x78"
definition KC_KP_9 :: KeyCode where [kc]: "KC_KP_9 = 0x79"
definition KC_KP_ENTER :: KeyCode where [kc]: "KC_KP_ENTER = 0x7A"
definition KC_KP_ASTERISK :: KeyCode where [kc]: "KC_KP_ASTERISK = 0x7B"
definition KC_KP_PLUS :: KeyCode where [kc]: "KC_KP_PLUS = 0x7C"
definition KC_KP_MINUS :: KeyCode where [kc]: "KC_KP_MINUS = 0x7D"
definition KC_KP_PERIOD :: KeyCode where [kc]: "KC_KP_PERIOD = 0x7E"
definition KC_KP_SLASH :: KeyCode where [kc]: "KC_KP_SLASH = 0x7F"
definition KC_LSHIFT :: KeyCode where [kc]: "KC_LSHIFT = 0x80"
definition KC_RSHIFT :: KeyCode where [kc]: "KC_RSHIFT = 0x81"
definition KC_LCTRL :: KeyCode where [kc]: "KC_LCTRL = 0x82"
definition KC_RCTRL :: KeyCode where [kc]: "KC_RCTRL = 0x83"
definition KC_LALT :: KeyCode where [kc]: "KC_LALT = 0x84"
definition KC_RALT :: KeyCode where [kc]: "KC_RALT = 0x85"
definition KC_LSUPER :: KeyCode where [kc]: "KC_LSUPER = 0x86"
definition KC_RSUPER :: KeyCode where [kc]: "KC_RSUPER = 0x87"
definition KC_APPS :: KeyCode where [kc]: "KC_APPS = 0x88"
definition KC_NUM_LOCK :: KeyCode where [kc]: "KC_NUM_LOCK = 0x90"
definition KC_SCROLL_LOCK :: KeyCode where [kc]: "KC_SCROLL_LOCK = 0x91"
definition KC_HOME :: KeyCode where [kc]: "KC_HOME = 0x93"
definition KC_END :: KeyCode where [kc]: "KC_END = 0x94"
definition KC_PRINT_SCREEN :: KeyCode where [kc]: "KC_PRINT_SCREEN = 0x95"
definition KC_PAUSE :: KeyCode where [kc]: "KC_PAUSE = 0x96"
definition KC_INSERT :: KeyCode where [kc]: "KC_INSERT = 0x97"
definition KC_PAGE_UP :: KeyCode where [kc]: "KC_PAGE_UP = 0x98"
definition KC_PAGE_DOWN :: KeyCode where [kc]: "KC_PAGE_DOWN = 0x99"
definition KC_DELETE :: KeyCode where [kc]: "KC_DELETE = 0x9A"
definition KC_LARROW :: KeyCode where [kc]: "KC_LARROW = 0xA1"
definition KC_RARROW :: KeyCode where [kc]: "KC_RARROW = 0xA2"
definition KC_UARROW :: KeyCode where [kc]: "KC_UARROW = 0xA4"
definition KC_DARROW :: KeyCode where [kc]: "KC_DARROW = 0xA8"
definition KC_VOLMUTE :: KeyCode where [kc]: "KC_VOLMUTE = 0xB0"
definition KC_VOLDOWN :: KeyCode where [kc]: "KC_VOLDOWN = 0xB1"
definition KC_VOLUP :: KeyCode where [kc]: "KC_VOLUP = 0xB2"
definition KC_F0 :: KeyCode where [kc]: "KC_F0 = 0xF0"
definition KC_F1 :: KeyCode where [kc]: "KC_F1 = 0xF1"
definition KC_F2 :: KeyCode where [kc]: "KC_F2 = 0xF2"
definition KC_F3 :: KeyCode where [kc]: "KC_F3 = 0xF3"
definition KC_F4 :: KeyCode where [kc]: "KC_F4 = 0xF4"
definition KC_F5 :: KeyCode where [kc]: "KC_F5 = 0xF5"
definition KC_F6 :: KeyCode where [kc]: "KC_F6 = 0xF6"
definition KC_F7 :: KeyCode where [kc]: "KC_F7 = 0xF7"
definition KC_F8 :: KeyCode where [kc]: "KC_F8 = 0xF8"
definition KC_F9 :: KeyCode where [kc]: "KC_F9 = 0xF9"
definition KC_F10 :: KeyCode where [kc]: "KC_F10 = 0xFA"
definition KC_F11 :: KeyCode where [kc]: "KC_F11 = 0xFB"
definition KC_F12 :: KeyCode where [kc]: "KC_F12 = 0xFC"

definition KeyStateToString :: "KeyState \<Rightarrow> string" where
  "KeyStateToString State =
     (if State = KS_RELEASED then ''Released'' else if State = KS_PRESSED then ''Pressed'' else ''INVALID'')"

text \<open>The cases of the switch of KeycodeToString; it has none for the keys F6 and VOLDOWN.\<close>

definition KeycodeNames :: "(KeyCode \<times> string) list" where
  "KeycodeNames =
    [(KC_BACKSPACE, ''BACKSPACE''), (KC_TAB, ''TAB''), (KC_ENTER, ''ENTER''), (KC_CAPS_LOCK, ''CAPS_LOCK''),
     (KC_ESCAPE, ''ESCAPE''), (KC_SPACE, ''SPACE''), (KC_APOSTROPHE, ''APOSTROPHE''), (KC_COMMA, ''COMMA''),
     (KC_MINUS, ''MINUS''), (KC_PERIOD, ''PERIOD''), (KC_SLASH, ''SLASH''), (KC_0, ''0''), (KC_1, ''1''),
     (KC_2, ''2''), (KC_3, ''3''), (KC_4, ''4''), (KC_5, ''5''), (KC_6, ''6''), (KC_7, ''7''), (KC_8, ''8''),
     (KC_9, ''9''), (KC_SEMICOLON, ''SEMICOLON''), (KC_EQUAL, ''EQUAL''), (KC_A, ''A''), (KC_B, ''B''),
     (KC_C, ''C''), (KC_D, ''D''), (KC_E, ''E''), (KC_F, ''F''), (KC_G, ''G''), (KC_H, ''H''), (KC_I, ''I''),
     (KC_J, ''J''), (KC_K, ''K''), (KC_L, ''L''), (KC_M, ''M''), (KC_N, ''N''), (KC_O, ''O''), (KC_P, ''P''),
     (KC_Q, ''Q''), (KC_R, ''R''), (KC_S, ''S''), (KC_T, ''T''), (KC_U, ''U''), (KC_V, ''V''), (KC_W, ''W''),
     (KC_X, ''X''), (KC_Y, ''Y''), (KC_Z, ''Z''), (KC_LBRACKET, ''LBRACKET''), (KC_BACKSLASH, ''BACKSLASH''),
     (KC_RBRACKET, ''RBRACKET''), (KC_BACKTICK, ''BACKTICK''), (KC_KP_0, ''KP_0''), (KC_KP_1, ''KP_1''),
     (KC_KP_2, ''KP_2''), (KC_KP_3, ''KP_3''), (KC_KP_4, ''KP_4''), (KC_KP_5, ''KP_5''), (KC_KP_6, ''KP_6''),
     (KC_KP_7, ''KP_7''), (KC_KP_8, ''KP_8''), (KC_KP_9, ''KP_9''), (KC_KP_ENTER, ''KP_ENTER''),
     (KC_KP_ASTERISK, ''KP_ASTERISK''), (KC_KP_PLUS, ''KP_PLUS''), (KC_KP_MINUS, ''KP_MINUS''),
     (KC_KP_PERIOD, ''KP_PERIOD''), (KC_KP_SLASH, ''KP_SLASH''), (KC_LSHIFT, ''LSHIFT''),
     (KC_RSHIFT, ''RSHIFT''), (KC_LCTRL, ''LCTRL''), (KC_RCTRL, ''RCTRL''), (KC_LALT, ''LALT''),
     (KC_RALT, ''RALT''), (KC_LSUPER, ''LSUPER''), (KC_RSUPER, ''RSUPER''), (KC_APPS, ''APPS''),
     (KC_NUM_LOCK, ''NUM_LOCK''), (KC_SCROLL_LOCK, ''SCROLL_LOCK''), (KC_HOME, ''HOME''), (KC_END, ''END''),
     (KC_PRINT_SCREEN, ''PRINT_SCREEN''), (KC_PAUSE, ''PAUSE''), (KC_INSERT, ''INSERT''),
     (KC_PAGE_UP, ''PAGE_UP''), (KC_PAGE_DOWN, ''PAGE_DOWN''), (KC_DELETE, ''DELETE''),
     (KC_LARROW, ''LARROW''), (KC_RARROW, ''RARROW''), (KC_UARROW, ''UARROW''), (KC_DARROW, ''DARROW''),
     (KC_VOLMUTE, ''VOLMUTE''), (KC_VOLUP, ''VOLUP''), (KC_F1, ''F1''), (KC_F2, ''F2''), (KC_F3, ''F3''),
     (KC_F4, ''F4''), (KC_F5, ''F5''), (KC_F7, ''F7''), (KC_F8, ''F8''), (KC_F9, ''F9''), (KC_F10, ''F10''),
     (KC_F11, ''F11''), (KC_F12, ''F12'')]"

definition KeycodeToString :: "KeyCode \<Rightarrow> string" where
  "KeycodeToString Keycode = (case map_of KeycodeNames Keycode of Some s \<Rightarrow> s | None \<Rightarrow> ''INVALID'')"

section \<open>Scancodes\<close>

definition PS2_XSCANCODE :: UCHAR where [kc]: "PS2_XSCANCODE = 0xE0"
definition PS2_BREAK_PREFIX :: UCHAR where [kc]: "PS2_BREAK_PREFIX = 0xF0"
definition PS2_SCANCODE_F9 :: UCHAR where [kc]: "PS2_SCANCODE_F9 = 0x01"
definition PS2_SCANCODE_F5 :: UCHAR where [kc]: "PS2_SCANCODE_F5 = 0x03"
definition PS2_SCANCODE_F3 :: UCHAR where [kc]: "PS2_SCANCODE_F3 = 0x04"
definition PS2_SCANCODE_F1 :: UCHAR where [kc]: "PS2_SCANCODE_F1 = 0x05"
definition PS2_SCANCODE_F2 :: UCHAR where [kc]: "PS2_SCANCODE_F2 = 0x06"
definition PS2_SCANCODE_F12 :: UCHAR where [kc]: "PS2_SCANCODE_F12 = 0x07"
definition PS2_SCANCODE_F10 :: UCHAR where [kc]: "PS2_SCANCODE_F10 = 0x09"
definition PS2_SCANCODE_F8 :: UCHAR where [kc]: "PS2_SCANCODE_F8 = 0x0A"
definition PS2_SCANCODE_F6 :: UCHAR where [kc]: "PS2_SCANCODE_F6 = 0x0B"
definition PS2_SCANCODE_F4 :: UCHAR where [kc]: "PS2_SCANCODE_F4 = 0x0C"
definition PS2_SCANCODE_TAB :: UCHAR where [kc]: "PS2_SCANCODE_TAB = 0x0D"
definition PS2_SCANCODE_BACKTICK :: UCHAR where [kc]: "PS2_SCANCODE_BACKTICK = 0x0E"
definition PS2_SCANCODE_LALT :: UCHAR where [kc]: "PS2_SCANCODE_LALT = 0x11"
definition PS2_SCANCODE_LSHIFT :: UCHAR where [kc]: "PS2_SCANCODE_LSHIFT = 0x12"
definition PS2_SCANCODE_LCTRL :: UCHAR where [kc]: "PS2_SCANCODE_LCTRL = 0x14"
definition PS2_SCANCODE_Q :: UCHAR where [kc]: "PS2_SCANCODE_Q = 0x15"
definition PS2_SCANCODE_1 :: UCHAR where [kc]: "PS2_SCANCODE_1 = 0x16"
definition PS2_SCANCODE_Z :: UCHAR where [kc]: "PS2_SCANCODE_Z = 0x1A"
definition PS2_SCANCODE_S :: UCHAR where [kc]: "PS2_SCANCODE_S = 0x1B"
definition PS2_SCANCODE_A :: UCHAR where [kc]: "PS2_SCANCODE_A = 0x1C"
definition PS2_SCANCODE_W :: UCHAR where [kc]: "PS2_SCANCODE_W = 0x1D"
definition PS2_SCANCODE_2 :: UCHAR where [kc]: "PS2_SCANCODE_2 = 0x1E"
definition PS2_SCANCODE_C :: UCHAR where [kc]: "PS2_SCANCODE_C = 0x21"
definition PS2_SCANCODE_X :: UCHAR where [kc]: "PS2_SCANCODE_X = 0x22"
definition PS2_SCANCODE_D :: UCHAR where [kc]: "PS2_SCANCODE_D = 0x23"
definition PS2_SCANCODE_E :: UCHAR where [kc]: "PS2_SCANCODE_E = 0x24"
definition PS2_SCANCODE_4 :: UCHAR where [kc]: "PS2_SCANCODE_4 = 0x25"
definition PS2_SCANCODE_3 :: UCHAR where [kc]: "PS2_SCANCODE_3 = 0x26"
definition PS2_SCANCODE_SPACE :: UCHAR where [kc]: "PS2_SCANCODE_SPACE = 0x29"
definition PS2_SCANCODE_V :: UCHAR where [kc]: "PS2_SCANCODE_V = 0x2A"
definition PS2_SCANCODE_F :: UCHAR where [kc]: "PS2_SCANCODE_F = 0x2B"
definition PS2_SCANCODE_T :: UCHAR where [kc]: "PS2_SCANCODE_T = 0x2C"
definition PS2_SCANCODE_R :: UCHAR where [kc]: "PS2_SCANCODE_R = 0x2D"
definition PS2_SCANCODE_5 :: UCHAR where [kc]: "PS2_SCANCODE_5 = 0x2E"
definition PS2_SCANCODE_N :: UCHAR where [kc]: "PS2_SCANCODE_N = 0x31"
definition PS2_SCANCODE_B :: UCHAR where [kc]: "PS2_SCANCODE_B = 0x32"
definition PS2_SCANCODE_H :: UCHAR where [kc]: "PS2_SCANCODE_H = 0x33"
definition PS2_SCANCODE_G :: UCHAR where [kc]: "PS2_SCANCODE_G = 0x34"
definition PS2_SCANCODE_Y :: UCHAR where [kc]: "PS2_SCANCODE_Y = 0x35"
definition PS2_SCANCODE_6 :: UCHAR where [kc]: "PS2_SCANCODE_6 = 0x36"
definition PS2_SCANCODE_M :: UCHAR where [kc]: "PS2_SCANCODE_M = 0x3A"
definition PS2_SCANCODE_J :: UCHAR where [kc]: "PS2_SCANCODE_J = 0x3B"
definition PS2_SCANCODE_U :: UCHAR where [kc]: "PS2_SCANCODE_U = 0x3C"
definition PS2_SCANCODE_7 :: UCHAR where [kc]: "PS2_SCANCODE_7 = 0x3D"
definition PS2_SCANCODE_8 :: UCHAR where [kc]: "PS2_SCANCODE_8 = 0x3E"
definition PS2_SCANCODE_COMMA :: UCHAR where [kc]: "PS2_SCANCODE_COMMA = 0x41"
definition PS2_SCANCODE_K :: UCHAR where [kc]: "PS2_SCANCODE_K = 0x42"
definition PS2_SCANCODE_I :: UCHAR where [kc]: "PS2_SCANCODE_I = 0x43"
definition PS2_SCANCODE_O :: UCHAR where [kc]: "PS2_SCANCODE_O = 0x44"
definition PS2_SCANCODE_0 :: UCHAR where [kc]: "PS2_SCANCODE_0 = 0x45"
definition PS2_SCANCODE_9 :: UCHAR where [kc]: "PS2_SCANCODE_9 = 0x46"
definition PS2_SCANCODE_PERIOD :: UCHAR where [kc]: "PS2_SCANCODE_PERIOD = 0x49"
definition PS2_SCANCODE_SLASH :: UCHAR where [kc]: "PS2_SCANCODE_SLASH = 0x4A"
definition PS2_SCANCODE_L :: UCHAR where [kc]: "PS2_SCANCODE_L = 0x4B"
definition PS2_SCANCODE_SEMICOLON :: UCHAR where [kc]: "PS2_SCANCODE_SEMICOLON = 0x4C"
definition PS2_SCANCODE_P :: UCHAR where [kc]: "PS2_SCANCODE_P = 0x4D"
definition PS2_SCANCODE_MINUS :: UCHAR where [kc]: "PS2_SCANCODE_MINUS = 0x4E"
definition PS2_SCANCODE_APOSTROPHE :: UCHAR where [kc]: "PS2_SCANCODE_APOSTROPHE = 0x52"
definition PS2_SCANCODE_LBRACKET :: UCHAR where [kc]: "PS2_SCANCODE_LBRACKET = 0x54"
definition PS2_SCANCODE_EQUAL :: UCHAR where [kc]: "PS2_SCANCODE_EQUAL = 0x55"
definition PS2_SCANCODE_CAPS_LOCK :: UCHAR where [kc]: "PS2_SCANCODE_CAPS_LOCK = 0x58"
definition PS2_SCANCODE_RSHIFT :: UCHAR where [kc]: "PS2_SCANCODE_RSHIFT = 0x59"
definition PS2_SCANCODE_ENTER :: UCHAR where [kc]: "PS2_SCANCODE_ENTER = 0x5A"
definition PS2_SCANCODE_RBRACKET :: UCHAR where [kc]: "PS2_SCANCODE_RBRACKET = 0x5B"
definition PS2_SCANCODE_BACKSLASH :: UCHAR where [kc]: "PS2_SCANCODE_BACKSLASH = 0x5D"
definition PS2_SCANCODE_BACKSPACE :: UCHAR where [kc]: "PS2_SCANCODE_BACKSPACE = 0x66"
definition PS2_SCANCODE_KP_1 :: UCHAR where [kc]: "PS2_SCANCODE_KP_1 = 0x69"
definition PS2_SCANCODE_KP_4 :: UCHAR where [kc]: "PS2_SCANCODE_KP_4 = 0x6B"
definition PS2_SCANCODE_KP_7 :: UCHAR where [kc]: "PS2_SCANCODE_KP_7 = 0x6C"
definition PS2_SCANCODE_KP_0 :: UCHAR where [kc]: "PS2_SCANCODE_KP_0 = 0x70"
definition PS2_SCANCODE_KP_PERIOD :: UCHAR where [kc]: "PS2_SCANCODE_KP_PERIOD = 0x71"
definition PS2_SCANCODE_KP_2 :: UCHAR where [kc]: "PS2_SCANCODE_KP_2 = 0x72"
definition PS2_SCANCODE_KP_5 :: UCHAR where [kc]: "PS2_SCANCODE_KP_5 = 0x73"
definition PS2_SCANCODE_KP_6 :: UCHAR where [kc]: "PS2_SCANCODE_KP_6 = 0x74"
definition PS2_SCANCODE_KP_8 :: UCHAR where [kc]: "PS2_SCANCODE_KP_8 = 0x75"
definition PS2_SCANCODE_ESCAPE :: UCHAR where [kc]: "PS2_SCANCODE_ESCAPE = 0x76"
definition PS2_SCANCODE_NUM_LOCK :: UCHAR where [kc]: "PS2_SCANCODE_NUM_LOCK = 0x77"
definition PS2_SCANCODE_F11 :: UCHAR where [kc]: "PS2_SCANCODE_F11 = 0x78"
definition PS2_SCANCODE_KP_PLUS :: UCHAR where [kc]: "PS2_SCANCODE_KP_PLUS = 0x79"
definition PS2_SCANCODE_KP_3 :: UCHAR where [kc]: "PS2_SCANCODE_KP_3 = 0x7A"
definition PS2_SCANCODE_KP_MINUS :: UCHAR where [kc]: "PS2_SCANCODE_KP_MINUS = 0x7B"
definition PS2_SCANCODE_KP_ASTERISK :: UCHAR where [kc]: "PS2_SCANCODE_KP_ASTERISK = 0x7C"
definition PS2_SCANCODE_KP_9 :: UCHAR where [kc]: "PS2_SCANCODE_KP_9 = 0x7D"
definition PS2_SCANCODE_SCROLL_LOCK :: UCHAR where [kc]: "PS2_SCANCODE_SCROLL_LOCK = 0x7E"
definition PS2_SCANCODE_F7 :: UCHAR where [kc]: "PS2_SCANCODE_F7 = 0x83"
definition PS2_XSCANCODE_SEARCH :: UCHAR where [kc]: "PS2_XSCANCODE_SEARCH = 0x10"
definition PS2_XSCANCODE_RALT :: UCHAR where [kc]: "PS2_XSCANCODE_RALT = 0x11"
definition PS2_XSCANCODE_RCTRL :: UCHAR where [kc]: "PS2_XSCANCODE_RCTRL = 0x14"
definition PS2_XSCANCODE_PREV_TRACK :: UCHAR where [kc]: "PS2_XSCANCODE_PREV_TRACK = 0x15"
definition PS2_XSCANCODE_FAVORITES :: UCHAR where [kc]: "PS2_XSCANCODE_FAVORITES = 0x18"
definition PS2_XSCANCODE_LGUI :: UCHAR where [kc]: "PS2_XSCANCODE_LGUI = 0x1F"
definition PS2_XSCANCODE_REFRESH :: UCHAR where [kc]: "PS2_XSCANCODE_REFRESH = 0x20"
definition PS2_XSCANCODE_VOLDOWN :: UCHAR where [kc]: "PS2_XSCANCODE_VOLDOWN = 0x21"
definition PS2_XSCANCODE_VOLMUTE :: UCHAR where [kc]: "PS2_XSCANCODE_VOLMUTE = 0x23"
definition PS2_XSCANCODE_RGUI :: UCHAR where [kc]: "PS2_XSCANCODE_RGUI = 0x27"
definition PS2_XSCANCODE_STOP :: UCHAR where [kc]: "PS2_XSCANCODE_STOP = 0x3B"
definition PS2_XSCANCODE_CALC :: UCHAR where [kc]: "PS2_XSCANCODE_CALC = 0x2B"
definition PS2_XSCANCODE_FORWARD :: UCHAR where [kc]: "PS2_XSCANCODE_FORWARD = 0x30"
definition PS2_XSCANCODE_VOLUP :: UCHAR where [kc]: "PS2_XSCANCODE_VOLUP = 0x32"
definition PS2_XSCANCODE_PLAYPAUSE :: UCHAR where [kc]: "PS2_XSCANCODE_PLAYPAUSE = 0x34"
definition PS2_XSCANCODE_POWER :: UCHAR where [kc]: "PS2_XSCANCODE_POWER = 0x37"
definition PS2_XSCANCODE_BACK :: UCHAR where [kc]: "PS2_XSCANCODE_BACK = 0x38"
definition PS2_XSCANCODE_HOME :: UCHAR where [kc]: "PS2_XSCANCODE_HOME = 0x6C"
definition PS2_XSCANCODE_SLEEP :: UCHAR where [kc]: "PS2_XSCANCODE_SLEEP = 0x3F"
definition PS2_XSCANCODE_MY_COMP :: UCHAR where [kc]: "PS2_XSCANCODE_MY_COMP = 0x40"
definition PS2_XSCANCODE_EMAIL :: UCHAR where [kc]: "PS2_XSCANCODE_EMAIL = 0x48"
definition PS2_XSCANCODE_KP_SLASH :: UCHAR where [kc]: "PS2_XSCANCODE_KP_SLASH = 0x4A"
definition PS2_XSCANCODE_NEXT_TRACK :: UCHAR where [kc]: "PS2_XSCANCODE_NEXT_TRACK = 0x4D"
definition PS2_XSCANCODE_MEDIASEL :: UCHAR where [kc]: "PS2_XSCANCODE_MEDIASEL = 0x50"
definition PS2_XSCANCODE_KP_ENTER :: UCHAR where [kc]: "PS2_XSCANCODE_KP_ENTER = 0x5A"
definition PS2_XSCANCODE_WAKE :: UCHAR where [kc]: "PS2_XSCANCODE_WAKE = 0x5E"
definition PS2_XSCANCODE_END :: UCHAR where [kc]: "PS2_XSCANCODE_END = 0x69"
definition PS2_XSCANCODE_LEFT :: UCHAR where [kc]: "PS2_XSCANCODE_LEFT = 0x6B"
definition PS2_XSCANCODE_INSERT :: UCHAR where [kc]: "PS2_XSCANCODE_INSERT = 0x70"
definition PS2_XSCANCODE_DELETE :: UCHAR where [kc]: "PS2_XSCANCODE_DELETE = 0x71"
definition PS2_XSCANCODE_DOWN :: UCHAR where [kc]: "PS2_XSCANCODE_DOWN = 0x72"
definition PS2_XSCANCODE_RIGHT :: UCHAR where [kc]: "PS2_XSCANCODE_RIGHT = 0x74"
definition PS2_XSCANCODE_UP :: UCHAR where [kc]: "PS2_XSCANCODE_UP = 0x75"
definition PS2_XSCANCODE_PAGE_DOWN :: UCHAR where [kc]: "PS2_XSCANCODE_PAGE_DOWN = 0x7A"
definition PS2_XSCANCODE_PAGE_UP :: UCHAR where [kc]: "PS2_XSCANCODE_PAGE_UP = 0x7D"

definition StandardScancodeToKeycodeMap :: "KeyCode list" where
  "StandardScancodeToKeycodeMap =
    [KC_INVALID, KC_F9, KC_INVALID, KC_F5, KC_F3, KC_F1, KC_F2, KC_F12, KC_INVALID, KC_F10, KC_F8, KC_F6,
     KC_F4, KC_TAB, KC_BACKTICK, KC_INVALID, KC_INVALID, KC_LALT, KC_LSHIFT, KC_INVALID, KC_LCTRL, KC_Q,
     KC_1, KC_INVALID, KC_INVALID, KC_INVALID, KC_Z, KC_S, KC_A, KC_W, KC_2, KC_INVALID, KC_INVALID, KC_C,
     KC_X, KC_D, KC_E, KC_4, KC_3, KC_INVALID, KC_INVALID, KC_SPACE, KC_V, KC_F, KC_T, KC_R, KC_5,
     KC_INVALID, KC_INVALID, KC_N, KC_B, KC_H, KC_G, KC_Y, KC_6, KC_INVALID, KC_INVALID, KC_INVALID, KC_M,
     KC_J, KC_U, KC_7, KC_8, KC_INVALID, KC_INVALID, KC_COMMA, KC_K, KC_I, KC_O, KC_0, KC_9, KC_INVALID,
     KC_INVALID, KC_PERIOD, KC_SLASH, KC_L, KC_SEMICOLON, KC_P, KC_MINUS, KC_INVALID, KC_INVALID, KC_INVALID,
     KC_APOSTROPHE, KC_INVALID, KC_LBRACKET, KC_EQUAL, KC_INVALID, KC_INVALID, KC_CAPS_LOCK, KC_RSHIFT,
     KC_ENTER, KC_RBRACKET, KC_INVALID, KC_BACKSLASH, KC_INVALID, KC_INVALID, KC_INVALID, KC_INVALID,
     KC_INVALID, KC_INVALID, KC_INVALID, KC_INVALID, KC_BACKSPACE, KC_INVALID, KC_INVALID, KC_KP_1,
     KC_INVALID, KC_KP_4, KC_KP_7, KC_INVALID, KC_INVALID, KC_INVALID, KC_KP_0, KC_KP_PERIOD, KC_KP_2,
     KC_KP_5, KC_KP_6, KC_KP_8, KC_ESCAPE, KC_NUM_LOCK, KC_F11, KC_KP_PLUS, KC_KP_3, KC_KP_MINUS,
     KC_KP_ASTERISK, KC_KP_9, KC_SCROLL_LOCK, KC_INVALID, KC_INVALID, KC_INVALID, KC_INVALID, KC_F7]"

definition ExtendedScancodeToKeycodeMap :: "KeyCode list" where
  "ExtendedScancodeToKeycodeMap =
    [KC_INVALID, KC_INVALID, KC_INVALID, KC_INVALID, KC_INVALID, KC_INVALID, KC_INVALID, KC_INVALID,
     KC_INVALID, KC_INVALID, KC_INVALID, KC_INVALID, KC_INVALID, KC_INVALID, KC_INVALID, KC_INVALID,
     KC_INVALID, KC_RALT, KC_INVALID, KC_INVALID, KC_RCTRL, KC_INVALID, KC_INVALID, KC_INVALID, KC_INVALID,
     KC_INVALID, KC_INVALID, KC_INVALID, KC_INVALID, KC_INVALID, KC_INVALID, KC_LSUPER, KC_INVALID,
     KC_VOLDOWN, KC_INVALID, KC_VOLMUTE, KC_INVALID, KC_INVALID, KC_INVALID, KC_RSUPER, KC_INVALID,
     KC_INVALID, KC_INVALID, KC_INVALID, KC_INVALID, KC_INVALID, KC_INVALID, KC_APPS, KC_INVALID, KC_INVALID,
     KC_VOLUP, KC_INVALID, KC_INVALID, KC_INVALID, KC_INVALID, KC_INVALID, KC_INVALID, KC_INVALID,
     KC_INVALID, KC_INVALID, KC_INVALID, KC_INVALID, KC_INVALID, KC_INVALID, KC_INVALID, KC_INVALID,
     KC_INVALID, KC_INVALID, KC_INVALID, KC_INVALID, KC_INVALID, KC_INVALID, KC_INVALID, KC_INVALID,
     KC_KP_SLASH, KC_INVALID, KC_INVALID, KC_INVALID, KC_INVALID, KC_INVALID, KC_INVALID, KC_INVALID,
     KC_INVALID, KC_INVALID, KC_INVALID, KC_INVALID, KC_INVALID, KC_INVALID, KC_INVALID, KC_INVALID,
     KC_KP_ENTER, KC_INVALID, KC_INVALID, KC_INVALID, KC_INVALID, KC_INVALID, KC_INVALID, KC_INVALID,
     KC_INVALID, KC_INVALID, KC_INVALID, KC_INVALID, KC_INVALID, KC_INVALID, KC_INVALID, KC_END, KC_INVALID,
     KC_LARROW, KC_HOME, KC_INVALID, KC_INVALID, KC_INVALID, KC_INSERT, KC_DELETE, KC_DARROW, KC_INVALID,
     KC_RARROW, KC_UARROW, KC_INVALID, KC_INVALID, KC_INVALID, KC_INVALID, KC_PAGE_DOWN, KC_INVALID,
     KC_INVALID, KC_PAGE_UP]"

text \<open>The cases of the switch of PS2_KeycodeToScancode: key code, scancode and whether it is extended.\<close>

definition KeycodeCases :: "(KeyCode \<times> UCHAR \<times> bool) list" where
  "KeycodeCases =
    [(KC_BACKSPACE, PS2_SCANCODE_BACKSPACE, False), (KC_TAB, PS2_SCANCODE_TAB, False),
     (KC_ENTER, PS2_SCANCODE_ENTER, False), (KC_CAPS_LOCK, PS2_SCANCODE_CAPS_LOCK, False),
     (KC_ESCAPE, PS2_SCANCODE_ESCAPE, False), (KC_SPACE, PS2_SCANCODE_SPACE, False),
     (KC_APOSTROPHE, PS2_SCANCODE_APOSTROPHE, False), (KC_COMMA, PS2_SCANCODE_COMMA, False),
     (KC_MINUS, PS2_SCANCODE_MINUS, False), (KC_PERIOD, PS2_SCANCODE_PERIOD, False),
     (KC_SLASH, PS2_SCANCODE_SLASH, False), (KC_0, PS2_SCANCODE_0, False), (KC_1, PS2_SCANCODE_1, False),
     (KC_2, PS2_SCANCODE_2, False), (KC_3, PS2_SCANCODE_3, False), (KC_4, PS2_SCANCODE_4, False),
     (KC_5, PS2_SCANCODE_5, False), (KC_6, PS2_SCANCODE_6, False), (KC_7, PS2_SCANCODE_7, False),
     (KC_8, PS2_SCANCODE_8, False), (KC_9, PS2_SCANCODE_9, False),
     (KC_SEMICOLON, PS2_SCANCODE_SEMICOLON, False), (KC_EQUAL, PS2_SCANCODE_EQUAL, False),
     (KC_A, PS2_SCANCODE_A, False), (KC_B, PS2_SCANCODE_B, False), (KC_C, PS2_SCANCODE_C, False),
     (KC_D, PS2_SCANCODE_D, False), (KC_E, PS2_SCANCODE_E, False), (KC_F, PS2_SCANCODE_F, False),
     (KC_G, PS2_SCANCODE_G, False), (KC_H, PS2_SCANCODE_H, False), (KC_I, PS2_SCANCODE_I, False),
     (KC_J, PS2_SCANCODE_J, False), (KC_K, PS2_SCANCODE_K, False), (KC_L, PS2_SCANCODE_L, False),
     (KC_M, PS2_SCANCODE_M, False), (KC_N, PS2_SCANCODE_N, False), (KC_O, PS2_SCANCODE_O, False),
     (KC_P, PS2_SCANCODE_P, False), (KC_Q, PS2_SCANCODE_Q, False), (KC_R, PS2_SCANCODE_R, False),
     (KC_S, PS2_SCANCODE_S, False), (KC_T, PS2_SCANCODE_T, False), (KC_U, PS2_SCANCODE_U, False),
     (KC_V, PS2_SCANCODE_V, False), (KC_W, PS2_SCANCODE_W, False), (KC_X, PS2_SCANCODE_X, False),
     (KC_Y, PS2_SCANCODE_Y, False), (KC_Z, PS2_SCANCODE_Z, False),
     (KC_LBRACKET, PS2_SCANCODE_LBRACKET, False), (KC_BACKSLASH, PS2_SCANCODE_BACKSLASH, False),
     (KC_RBRACKET, PS2_SCANCODE_RBRACKET, False), (KC_BACKTICK, PS2_SCANCODE_BACKTICK, False),
     (KC_KP_0, PS2_SCANCODE_KP_0, False), (KC_KP_1, PS2_SCANCODE_KP_1, False),
     (KC_KP_2, PS2_SCANCODE_KP_2, False), (KC_KP_3, PS2_SCANCODE_KP_3, False),
     (KC_KP_4, PS2_SCANCODE_KP_4, False), (KC_KP_5, PS2_SCANCODE_KP_5, False),
     (KC_KP_6, PS2_SCANCODE_KP_6, False), (KC_KP_7, PS2_SCANCODE_KP_7, False),
     (KC_KP_8, PS2_SCANCODE_KP_8, False), (KC_KP_9, PS2_SCANCODE_KP_9, False),
     (KC_KP_ENTER, PS2_XSCANCODE_KP_ENTER, True), (KC_KP_ASTERISK, PS2_SCANCODE_KP_ASTERISK, False),
     (KC_KP_PLUS, PS2_SCANCODE_KP_PLUS, False), (KC_KP_MINUS, PS2_SCANCODE_KP_MINUS, False),
     (KC_KP_PERIOD, PS2_SCANCODE_KP_PERIOD, False), (KC_KP_SLASH, PS2_XSCANCODE_KP_SLASH, True),
     (KC_LSHIFT, PS2_SCANCODE_LSHIFT, False), (KC_RSHIFT, PS2_SCANCODE_RSHIFT, False),
     (KC_LCTRL, PS2_SCANCODE_LCTRL, False), (KC_RCTRL, PS2_XSCANCODE_RCTRL, True),
     (KC_LALT, PS2_SCANCODE_LALT, False), (KC_RALT, PS2_XSCANCODE_RALT, True),
     (KC_LSUPER, PS2_XSCANCODE_LGUI, True), (KC_RSUPER, PS2_XSCANCODE_RGUI, True), (KC_APPS, 0x2F, True),
     (KC_NUM_LOCK, PS2_SCANCODE_NUM_LOCK, False), (KC_SCROLL_LOCK, PS2_SCANCODE_SCROLL_LOCK, False),
     (KC_HOME, PS2_XSCANCODE_HOME, True), (KC_END, PS2_XSCANCODE_END, True), (KC_PRINT_SCREEN, 0xF7, False),
     (KC_PAUSE, 0xF8, False), (KC_INSERT, PS2_XSCANCODE_INSERT, True),
     (KC_PAGE_UP, PS2_XSCANCODE_PAGE_UP, True), (KC_PAGE_DOWN, PS2_XSCANCODE_PAGE_DOWN, True),
     (KC_DELETE, PS2_XSCANCODE_DELETE, True), (KC_LARROW, PS2_XSCANCODE_LEFT, True),
     (KC_RARROW, PS2_XSCANCODE_RIGHT, True), (KC_UARROW, PS2_XSCANCODE_UP, True),
     (KC_DARROW, PS2_XSCANCODE_DOWN, True), (KC_VOLMUTE, PS2_XSCANCODE_VOLMUTE, True),
     (KC_VOLDOWN, PS2_XSCANCODE_VOLDOWN, True), (KC_VOLUP, PS2_XSCANCODE_VOLUP, True),
     (KC_F1, PS2_SCANCODE_F1, False), (KC_F2, PS2_SCANCODE_F2, False), (KC_F3, PS2_SCANCODE_F3, False),
     (KC_F4, PS2_SCANCODE_F4, False), (KC_F5, PS2_SCANCODE_F5, False), (KC_F6, PS2_SCANCODE_F6, False),
     (KC_F7, PS2_SCANCODE_F7, False), (KC_F8, PS2_SCANCODE_F8, False), (KC_F9, PS2_SCANCODE_F9, False),
     (KC_F10, PS2_SCANCODE_F10, False), (KC_F11, PS2_SCANCODE_F11, False), (KC_F12, PS2_SCANCODE_F12, False)]"

text \<open>The first result is the scancode, the second what is stored through the pointer, if anything.\<close>

definition PS2_KeycodeToScancode :: "KeyCode \<Rightarrow> bool \<Rightarrow> UCHAR \<times> bool option" where
  "PS2_KeycodeToScancode Keycode HasOutExtended =
     (if \<not> HasOutExtended then (0x00, None)
      else case map_of KeycodeCases Keycode of Some (s, e) \<Rightarrow> (s, Some e) | None \<Rightarrow> (ucast KC_INVALID, None))"

text \<open>The bound is the size of the table in bytes, four times its number of entries, and no byte exceeds it.\<close>

definition table_get :: "KeyCode list \<Rightarrow> UCHAR \<Rightarrow> KeyCode kres" where
  "table_get t Scancode =
     (if (ucast Scancode :: SIZE) > of_nat (4 * length t) then Inr KC_INVALID
      else if unat Scancode < length t then Inr (t ! unat Scancode) else Inl OutOfBounds)"

definition PS2_ScancodeToKeycode :: "bool \<Rightarrow> UCHAR \<Rightarrow> KeyCode kres" where
  "PS2_ScancodeToKeycode bExtend Scancode =
     (if bExtend then table_get ExtendedScancodeToKeycodeMap Scancode else table_get StandardScancodeToKeycodeMap Scancode)"

lemma table_get_eq: "table_get t s = (if unat s < length t then Inr (t ! unat s) else if 4 * length t < unat s then Inr KC_INVALID else Inl OutOfBounds)"
  if "length t < 256"
proof -
  have "unat (of_nat (4 * length t) :: SIZE) = 4 * length t"
    using that by (intro unat_of_nat_small) simp
  moreover have "unat (ucast s :: SIZE) = unat s" by (simp add: unat_ucast_up)
  ultimately have "((ucast s :: SIZE) > of_nat (4 * length t)) = (4 * length t < unat s)"
    by (simp only: word_less_nat_alt)
  then show ?thesis by (simp add: table_get_def)
qed

lemmas scan_tables = StandardScancodeToKeycodeMap_def ExtendedScancodeToKeycodeMap_def

lemma table_lengths: "length StandardScancodeToKeycodeMap = 132" "length ExtendedScancodeToKeycodeMap = 126"
  by (simp_all add: scan_tables)

lemma scancode_value:
  "PS2_ScancodeToKeycode e s =
    (let t = (if e then ExtendedScancodeToKeycodeMap else StandardScancodeToKeycodeMap)
     in if unat s < length t then Inr (t ! unat s) else Inl OutOfBounds)"
proof -
  have "unat s < 256" by (rule less_le_trans [OF unsigned_less]) simp
  then show ?thesis by (simp add: PS2_ScancodeToKeycode_def table_get_eq table_lengths)
qed

lemma cases_values: "list_all (\<lambda>(k, s, e). k \<in> {KC_PRINT_SCREEN, KC_PAUSE} \<or> PS2_ScancodeToKeycode e s = Inr k) KeycodeCases"
  unfolding KeycodeCases_def list.pred_inject prod.case
  apply (intro conjI TrueI)
  apply (simp_all only: scancode_value table_lengths Let_def if_True if_False insert_iff kc)
  apply (simp_all add: scan_tables kc)
  done


lemma standard_values:
  "list_all (\<lambda>(i, k). k = KC_INVALID \<or> map_of KeycodeCases k = Some (word_of_nat i, False)) (zip [0..<132] StandardScancodeToKeycodeMap)"
  by code_simp

lemma extended_values:
  "list_all (\<lambda>(i, k). k = KC_INVALID \<or> map_of KeycodeCases k = Some (word_of_nat i, True)) (zip [0..<126] ExtendedScancodeToKeycodeMap)"
  by code_simp

lemma named_keys:
  "list_all (\<lambda>(k, _). List.member (map fst KeycodeNames) k = (k \<noteq> KC_F6 \<and> k \<noteq> KC_VOLDOWN)) KeycodeCases"
  by code_simp

lemma key_names: "''INVALID'' \<notin> set (map snd KeycodeNames)"
  unfolding KeycodeNames_def by simp

lemma names_values:
  assumes "(k, v) \<in> set KeycodeCases"
  shows "KeycodeToString k = ''INVALID'' \<longleftrightarrow> k = KC_F6 \<or> k = KC_VOLDOWN"
proof -
  have m: "map_of KeycodeNames k = None \<longleftrightarrow> k = KC_F6 \<or> k = KC_VOLDOWN"
    unfolding map_of_eq_None_iff using named_keys assms by (auto simp: list_all_iff)
  have "map_of KeycodeNames k \<noteq> Some ''INVALID''" using key_names by (force dest: map_of_SomeD)
  then show ?thesis using m by (cases "map_of KeycodeNames k") (simp_all add: KeycodeToString_def)
qed

text \<open>
  C38: The tables of the PS/2 driver agree: every key code with a scancode, except the two keys sent as
  sequences, is what its scancode is translated to; every translation to a valid key code is inverted by
  PS2_KeycodeToScancode; a scancode at or past the end of its table is read out of bounds, because the bound
  tested is the size in bytes; and the only keys with a scancode but no name are F6 and VOLDOWN.
\<close>
theorem scancode_tables:
  "(\<forall>k s e. PS2_KeycodeToScancode k True = (s, Some e) \<and> k \<notin> {KC_PRINT_SCREEN, KC_PAUSE} \<longrightarrow> PS2_ScancodeToKeycode e s = Inr k) \<and>
   (\<forall>e s k. PS2_ScancodeToKeycode e s = Inr k \<and> k \<noteq> KC_INVALID \<longrightarrow> PS2_KeycodeToScancode k True = (s, Some e)) \<and>
   (\<forall>e s. PS2_ScancodeToKeycode e s = Inl OutOfBounds \<longleftrightarrow> (if e then 126 else 132) \<le> unat s) \<and>
   (\<forall>k s e. PS2_KeycodeToScancode k True = (s, Some e) \<longrightarrow> (KeycodeToString k = ''INVALID'' \<longleftrightarrow> k = KC_F6 \<or> k = KC_VOLDOWN))"
proof (intro conjI allI impI)
  fix k s e
  assume a: "PS2_KeycodeToScancode k True = (s, Some e) \<and> k \<notin> {KC_PRINT_SCREEN, KC_PAUSE}"
  then have "(k, s, e) \<in> set KeycodeCases"
    by (auto simp: PS2_KeycodeToScancode_def split: option.splits dest: map_of_SomeD)
  then show "PS2_ScancodeToKeycode e s = Inr k" using cases_values a by (auto simp: list_all_iff)
next
  fix e s k
  assume a: "PS2_ScancodeToKeycode e s = Inr k \<and> k \<noteq> KC_INVALID"
  define t where "t = (if e then ExtendedScancodeToKeycodeMap else StandardScancodeToKeycodeMap)"
  have l: "unat s < length t" "t ! unat s = k" "length t = (if e then 126 else 132)"
    using a by (auto simp: scancode_value t_def table_lengths Let_def split: if_splits)
  then have "(unat s, k) \<in> set (zip [0..<length t] t)" by (auto simp: in_set_zip intro!: exI [of _ "unat s"])
  then have "map_of KeycodeCases k = Some (word_of_nat (unat s), e)"
    using standard_values extended_values a l(3) by (auto simp: list_all_iff t_def split: if_splits)
  then show "PS2_KeycodeToScancode k True = (s, Some e)" by (simp add: PS2_KeycodeToScancode_def)
next
  fix e s
  show "PS2_ScancodeToKeycode e s = Inl OutOfBounds \<longleftrightarrow> (if e then 126 else 132) \<le> unat s"
    by (simp add: scancode_value table_lengths Let_def)
next
  fix k s e
  assume "PS2_KeycodeToScancode k True = (s, Some e)"
  then have "(k, s, e) \<in> set KeycodeCases"
    by (auto simp: PS2_KeycodeToScancode_def split: option.splits dest: map_of_SomeD)
  then show "KeycodeToString k = ''INVALID'' \<longleftrightarrow> k = KC_F6 \<or> k = KC_VOLDOWN" by (rule names_values)
qed

theorem scancode_tables_witness: "PS2_ScancodeToKeycode False PS2_SCANCODE_A = Inr KC_A \<and> PS2_KeycodeToScancode KC_A True = (PS2_SCANCODE_A, Some False)"
proof -
  have v: "PS2_ScancodeToKeycode False PS2_SCANCODE_A = Inr KC_A" by (simp add: scancode_value table_lengths) (simp add: scan_tables kc)
  moreover have "KC_A \<noteq> KC_INVALID" by (simp add: kc)
  ultimately show ?thesis using scancode_tables by blast
qed

end
