(* ===== verification/KeyboardHub.thy ===== *)
theory KeyboardHub
  imports Keycodes
begin

text \<open>
  The keyboard hub, \<^verbatim>\<open>Kernel/Source/HumanInterface/KeyboardHub.c\<close>: a ring of 128 events with a head and a tail
  index and a count. The interface of a bounded queue is a locale; the hub is an interpretation of it as long
  as it does not overflow. Device nodes are named by their addresses.
\<close>

section \<open>Bounded queues\<close>

primrec push_all :: "('a \<Rightarrow> 'q \<Rightarrow> 'q kres) \<Rightarrow> 'a list \<Rightarrow> 'q \<Rightarrow> 'q kres" where
  "push_all push [] q = Inr q"
| "push_all push (x # xs) q = kbind (push x q) (push_all push xs)"

primrec pop_times :: "('q \<Rightarrow> ('a \<times> 'q) kres) \<Rightarrow> nat \<Rightarrow> 'q \<Rightarrow> ('a list \<times> 'q) kres" where
  "pop_times pop 0 q = Inr ([], q)"
| "pop_times pop (Suc n) q = kbind (pop q) (\<lambda>(x, q). kbind (pop_times pop n q) (\<lambda>(xs, q). Inr (x # xs, q)))"

locale bounded_fifo =
  fixes push :: "'a \<Rightarrow> 'q \<Rightarrow> 'q kres"
    and pop :: "'q \<Rightarrow> ('a \<times> 'q) kres"
    and contents :: "'q \<Rightarrow> 'a list"
    and valid :: "'q \<Rightarrow> bool"
    and cap :: nat
  assumes push_law: "valid q \<Longrightarrow> length (contents q) < cap \<Longrightarrow> \<exists>q'. push x q = Inr q' \<and> valid q' \<and> contents q' = contents q @ [x]"
    and pop_law: "valid q \<Longrightarrow> contents q \<noteq> [] \<Longrightarrow> \<exists>q'. pop q = Inr (hd (contents q), q') \<and> valid q' \<and> contents q' = tl (contents q)"
begin

lemma push_all:
  "valid q \<Longrightarrow> length (contents q) + length xs \<le> cap \<Longrightarrow>
    \<exists>q'. push_all push xs q = Inr q' \<and> valid q' \<and> contents q' = contents q @ xs"
proof (induction xs arbitrary: q)
  case (Cons x xs)
  then obtain q1 where q1: "push x q = Inr q1" "valid q1" "contents q1 = contents q @ [x]"
    using push_law [of q x] by fastforce
  then show ?case using Cons.IH [of q1] Cons.prems by simp
qed simp

lemma pop_times:
  "valid q \<Longrightarrow> n \<le> length (contents q) \<Longrightarrow>
    \<exists>q'. pop_times pop n q = Inr (take n (contents q), q') \<and> valid q' \<and> contents q' = drop n (contents q)"
proof (induction n arbitrary: q)
  case (Suc n)
  then have ne: "contents q \<noteq> []" by auto
  then obtain q1 where q1: "pop q = Inr (hd (contents q), q1)" "valid q1" "contents q1 = tl (contents q)"
    using pop_law [of q] Suc.prems by blast
  obtain q2 where "pop_times pop n q1 = Inr (take n (contents q1), q2)" "valid q2" "contents q2 = drop n (contents q1)"
    using Suc.IH [of q1] Suc.prems q1 by (metis Suc_le_mono Suc_le_D length_tl diff_Suc_1)
  then show ?case using q1 ne by (cases "contents q") auto
qed simp

lemma first_in_first_out:
  assumes "valid q" "length (contents q) + length xs \<le> cap"
  shows "\<exists>q' q''. push_all push xs q = Inr q' \<and> pop_times pop (length (contents q) + length xs) q' = Inr (contents q @ xs, q'') \<and>
    valid q'' \<and> contents q'' = []"
proof -
  obtain q' where q': "push_all push xs q = Inr q'" "valid q'" "contents q' = contents q @ xs"
    using push_all [OF assms] by blast
  then show ?thesis using pop_times [of q' "length (contents q) + length xs"] by auto
qed

end

section \<open>The hub\<close>

record HiKeyboardEvent =
  Source :: UINTPTR
  OldState :: KeyState
  NewState :: KeyState
  Keycode :: KeyCode
  Keymod :: KeyMod

definition MAX_KEYBOARD_EVENTS :: UINT where "MAX_KEYBOARD_EVENTS = 128"

record hub =
  KeyboardEventQueue :: "HiKeyboardEvent list"
  KeyevHeadidx :: UINT
  KeyevTailidx :: UINT
  KeyevCount :: UINT

definition HiPushKeyboardEvent :: "HiKeyboardEvent \<Rightarrow> 'a hub_scheme \<Rightarrow> 'a hub_scheme kres" where
  "HiPushKeyboardEvent Data h =
     (if length (KeyboardEventQueue h) \<le> unat (KeyevTailidx h) then Inl OutOfBounds
      else
        let t = KeyevTailidx h + 1
        in Inr (h\<lparr> KeyboardEventQueue := (KeyboardEventQueue h)[unat (KeyevTailidx h) := Data],
                  KeyevTailidx := (if t \<ge> MAX_KEYBOARD_EVENTS then 0 else t),
                  KeyevCount := min MAX_KEYBOARD_EVENTS (KeyevCount h + 1) \<rparr>))"

definition HiPopKeyboardEvent :: "'a hub_scheme \<Rightarrow> (HiKeyboardEvent \<times> 'a hub_scheme) kres" where
  "HiPopKeyboardEvent h =
     (if length (KeyboardEventQueue h) \<le> unat (KeyevHeadidx h) then Inl OutOfBounds
      else
        let i = KeyevHeadidx h + 1
        in Inr (KeyboardEventQueue h ! unat (KeyevHeadidx h),
             h\<lparr> KeyevHeadidx := (if i \<ge> MAX_KEYBOARD_EVENTS then 0 else i), KeyevCount := KeyevCount h - 1 \<rparr>))"

definition HiGetKeyboardEventQueueNum :: "'a hub_scheme \<Rightarrow> UINT" where
  "HiGetKeyboardEventQueueNum h = KeyevCount h"

definition hub_init :: hub where
  "hub_init = \<lparr> KeyboardEventQueue = replicate 128 \<lparr> Source = 0, OldState = 0, NewState = 0, Keycode = 0, Keymod = 0 \<rparr>,
     KeyevHeadidx = 0, KeyevTailidx = 0, KeyevCount = 0 \<rparr>"

section \<open>The hub as a queue\<close>

text \<open>The events from the head on, as many as the count says.\<close>

definition hub_contents :: "'a hub_scheme \<Rightarrow> HiKeyboardEvent list" where
  "hub_contents h = map (\<lambda>i. KeyboardEventQueue h ! ((unat (KeyevHeadidx h) + i) mod 128)) [0..<unat (KeyevCount h)]"

definition hub_valid :: "'a hub_scheme \<Rightarrow> bool" where
  "hub_valid h \<longleftrightarrow> length (KeyboardEventQueue h) = 128 \<and> unat (KeyevHeadidx h) < 128 \<and> unat (KeyevCount h) \<le> 128 \<and>
     unat (KeyevTailidx h) = (unat (KeyevHeadidx h) + unat (KeyevCount h)) mod 128"

lemma hub_contents_length [simp]: "length (hub_contents h) = unat (KeyevCount h)"
  by (simp add: hub_contents_def)

lemma unat_next:
  assumes "unat (i :: UINT) < 128"
  shows "unat (i + 1) = unat i + 1" "unat (if i + 1 \<ge> MAX_KEYBOARD_EVENTS then 0 else i + 1) = (unat i + 1) mod 128"
proof -
  show u: "unat (i + 1) = unat i + 1" using assms by (subst unat_plus_le) auto
  show "unat (if i + 1 \<ge> MAX_KEYBOARD_EVENTS then 0 else i + 1) = (unat i + 1) mod 128"
    using assms u by (cases "unat i = 127") (auto simp: MAX_KEYBOARD_EVENTS_def word_le_nat_alt)
qed

lemma hub_push:
  assumes "hub_valid h" "unat (KeyevCount h) < 128"
  shows "\<exists>h'. HiPushKeyboardEvent x h = Inr h' \<and> hub_valid h' \<and> hub_contents h' = hub_contents h @ [x]"
proof -
  note v = assms(1) [unfolded hub_valid_def]
  have t: "unat (KeyevTailidx h) < 128" using v by simp
  have c: "unat (min MAX_KEYBOARD_EVENTS (KeyevCount h + 1)) = unat (KeyevCount h) + 1"
    using assms(2) unat_next(1) [OF assms(2)] by (auto simp: min_def MAX_KEYBOARD_EVENTS_def word_le_nat_alt)
  define h' where "h' = h\<lparr> KeyboardEventQueue := (KeyboardEventQueue h)[unat (KeyevTailidx h) := x],
    KeyevTailidx := (if KeyevTailidx h + 1 \<ge> MAX_KEYBOARD_EVENTS then 0 else KeyevTailidx h + 1),
    KeyevCount := min MAX_KEYBOARD_EVENTS (KeyevCount h + 1) \<rparr>"
  have r: "HiPushKeyboardEvent x h = Inr h'" using v t by (simp add: HiPushKeyboardEvent_def h'_def Let_def)
  have "hub_valid h'"
    using v assms(2) c unat_next(2) [OF t] by (simp add: hub_valid_def h'_def mod_Suc_eq)
  moreover have "hub_contents h' = hub_contents h @ [x]"
  proof (rule nth_equalityI)
    show "length (hub_contents h') = length (hub_contents h @ [x])" using c by (simp add: h'_def)
    fix i assume "i < length (hub_contents h')"
    then have i: "i < unat (KeyevCount h) + 1" using c by (simp add: h'_def)
    have ne: "(unat (KeyevHeadidx h) + i) mod 128 \<noteq> unat (KeyevTailidx h)" if "i < unat (KeyevCount h)"
    proof -
      have "(unat (KeyevHeadidx h) + i) mod 128 \<noteq> (unat (KeyevHeadidx h) + unat (KeyevCount h)) mod 128"
        using that assms(2) mod_eq_dvd_iff_nat [of "unat (KeyevHeadidx h) + i" "unat (KeyevHeadidx h) + unat (KeyevCount h)" 128]
        by (auto dest: dvd_imp_le)
      then show ?thesis using v by simp
    qed
    show "hub_contents h' ! i = (hub_contents h @ [x]) ! i"
    proof (cases "i < unat (KeyevCount h)")
      case True then show ?thesis using c ne by (simp add: hub_contents_def h'_def nth_append)
    next
      case False
      then have "i = unat (KeyevCount h)" using i by simp
      then show ?thesis using c v by (simp add: hub_contents_def h'_def nth_append)
    qed
  qed
  ultimately show ?thesis using r by blast
qed

lemma hub_pop:
  assumes "hub_valid h" "hub_contents h \<noteq> []"
  shows "\<exists>h'. HiPopKeyboardEvent h = Inr (hd (hub_contents h), h') \<and> hub_valid h' \<and> hub_contents h' = tl (hub_contents h)"
proof -
  note v = assms(1) [unfolded hub_valid_def]
  have n: "unat (KeyevCount h) \<noteq> 0" using assms(2) by (simp add: hub_contents_def)
  then have c: "unat (KeyevCount h - 1) = unat (KeyevCount h) - 1" by (subst unat_minus_le) (auto simp: word_le_nat_alt)
  define h' where "h' = h\<lparr> KeyevHeadidx := (if KeyevHeadidx h + 1 \<ge> MAX_KEYBOARD_EVENTS then 0 else KeyevHeadidx h + 1), KeyevCount := KeyevCount h - 1 \<rparr>"
  have hd: "unat (KeyevHeadidx h') = (unat (KeyevHeadidx h) + 1) mod 128" using unat_next(2) v by (simp add: h'_def)
  have h0: "hub_contents h = KeyboardEventQueue h ! unat (KeyevHeadidx h) #
      map (\<lambda>i. KeyboardEventQueue h ! ((unat (KeyevHeadidx h) + Suc i) mod 128)) [0..<unat (KeyevCount h) - 1]"
  proof -
    have "[0..<unat (KeyevCount h)] = 0 # map Suc [0..<unat (KeyevCount h) - 1]"
      using n by (simp add: map_Suc_upt upt_conv_Cons)
    then show ?thesis using v by (simp add: hub_contents_def)
  qed
  have "HiPopKeyboardEvent h = Inr (hd (hub_contents h), h')"
    using v h0 by (simp add: HiPopKeyboardEvent_def h'_def Let_def)
  moreover have "hub_valid h'"
  proof -
    have "((unat (KeyevHeadidx h) + 1) mod 128 + (unat (KeyevCount h) - 1)) mod 128 = (unat (KeyevHeadidx h) + unat (KeyevCount h)) mod 128"
      unfolding mod_add_left_eq using n by simp
    moreover have "KeyboardEventQueue h' = KeyboardEventQueue h" "KeyevTailidx h' = KeyevTailidx h" "KeyevCount h' = KeyevCount h - 1"
      by (simp_all add: h'_def)
    ultimately show ?thesis unfolding hub_valid_def using v hd c by auto
  qed
  moreover have "hub_contents h' = tl (hub_contents h)"
    unfolding h0 using hd c by (simp add: hub_contents_def mod_add_left_eq) (simp add: h'_def)
  ultimately show ?thesis by blast
qed

interpretation hubq: bounded_fifo HiPushKeyboardEvent HiPopKeyboardEvent hub_contents hub_valid 128
  by unfold_locales (auto intro: hub_push hub_pop)

text \<open>
  C36: While no more than 128 events wait, the hub is a first-in first-out queue: after any number of pushes
  that fit, popping all events returns those that were waiting and then the new ones in their order, and the
  count is the number of events that wait.
\<close>
theorem hub_refines_queue:
  fixes h :: hub
  assumes "hub_valid h" "length (hub_contents h) + length xs \<le> 128"
  shows "(\<exists>h' h''. push_all HiPushKeyboardEvent xs h = Inr h' \<and>
      pop_times HiPopKeyboardEvent (length (hub_contents h) + length xs) h' = Inr (hub_contents h @ xs, h'') \<and>
      hub_valid h'' \<and> HiGetKeyboardEventQueueNum h'' = 0) \<and>
    unat (HiGetKeyboardEventQueueNum h) = length (hub_contents h)"
proof -
  obtain h' h'' :: hub where "push_all HiPushKeyboardEvent xs h = Inr h'"
    "pop_times HiPopKeyboardEvent (length (hub_contents h) + length xs) h' = Inr (hub_contents h @ xs, h'')"
    "hub_valid h''" "hub_contents h'' = []"
    using hubq.first_in_first_out [OF assms] by blast
  moreover from this(4) have "unat (HiGetKeyboardEventQueueNum h'') = 0"
    using hub_contents_length [of h''] by (simp add: HiGetKeyboardEventQueueNum_def del: hub_contents_length)
  ultimately show ?thesis by (auto simp: HiGetKeyboardEventQueueNum_def word_eq_unat)
qed

lemma hub_init_valid: "hub_valid hub_init \<and> hub_contents hub_init = []"
  by (simp add: hub_valid_def hub_init_def hub_contents_def)

theorem hub_refines_queue_witness:
  "\<exists>h'. push_all HiPushKeyboardEvent [\<lparr> Source = 1, OldState = 0, NewState = 1, Keycode = KC_A, Keymod = 0 \<rparr>] hub_init = Inr h'"
  using hub_refines_queue [of hub_init "[\<lparr> Source = 1, OldState = 0, NewState = 1, Keycode = KC_A, Keymod = 0 \<rparr>]"] hub_init_valid by auto

text \<open>
  At the edges the hub is not a queue: an event pushed onto a full hub is the next one popped, before the
  older ones, and the oldest one is lost without a trace; popping an empty hub makes the count wrap to the
  largest value, and the next push resets it to 0, so that the pushed event is not counted.
\<close>
theorem hub_edges:
  fixes h :: hub
  assumes "hub_valid h"
  shows "(unat (KeyevCount h) = 128 \<longrightarrow> (\<exists>h' h''. HiPushKeyboardEvent x h = Inr h' \<and> HiGetKeyboardEventQueueNum h' = 128 \<and>
      HiPopKeyboardEvent h' = Inr (x, h'') \<and> hub_contents h'' = tl (hub_contents h))) \<and>
    (KeyevCount h = 0 \<longrightarrow> (\<exists>e h' h''. HiPopKeyboardEvent h = Inr (e, h') \<and> HiGetKeyboardEventQueueNum h' = 0xFFFFFFFF \<and>
      HiPushKeyboardEvent x h' = Inr h'' \<and> HiGetKeyboardEventQueueNum h'' = 0))"
proof (intro conjI impI)
  note v = assms [unfolded hub_valid_def]
  assume full: "unat (KeyevCount h) = 128"
  then have t: "KeyevTailidx h = KeyevHeadidx h" and c: "KeyevCount h = 128" using v by (simp_all add: word_eq_unat)
  define q where "q = (KeyboardEventQueue h)[unat (KeyevHeadidx h) := x]"
  define i where "i = (if KeyevHeadidx h + 1 \<ge> MAX_KEYBOARD_EVENTS then 0 else KeyevHeadidx h + 1)"
  define h' where "h' = h\<lparr> KeyboardEventQueue := q, KeyevTailidx := i, KeyevCount := 128 \<rparr>"
  define h'' where "h'' = h'\<lparr> KeyevHeadidx := i, KeyevCount := 127 \<rparr>"
  have hd: "unat (KeyevHeadidx h) < 128" using v by simp
  have i: "unat i = (unat (KeyevHeadidx h) + 1) mod 128" using unat_next(2) [OF hd] by (simp add: i_def)
  have "HiPushKeyboardEvent x h = Inr h'"
    using v c t by (simp add: HiPushKeyboardEvent_def Let_def h'_def q_def i_def min_def MAX_KEYBOARD_EVENTS_def)
  moreover have "HiGetKeyboardEventQueueNum h' = 128" by (simp add: HiGetKeyboardEventQueueNum_def h'_def)
  moreover have "HiPopKeyboardEvent h' = Inr (x, h'')"
    using v by (simp add: HiPopKeyboardEvent_def Let_def h'_def h''_def q_def i_def)
  moreover have "hub_contents h'' = tl (hub_contents h)"
  proof (rule nth_equalityI)
    show "length (hub_contents h'') = length (tl (hub_contents h))" by (simp add: h''_def full)
    fix j assume "j < length (hub_contents h'')"
    then have j: "j < 127" by (simp add: h''_def)
    have ne: "(unat (KeyevHeadidx h) + Suc j) mod 128 \<noteq> unat (KeyevHeadidx h)"
      using j hd mod_eq_dvd_iff_nat [of "unat (KeyevHeadidx h)" "unat (KeyevHeadidx h) + Suc j" 128]
      by (auto dest: dvd_imp_le)
    have "((unat (KeyevHeadidx h) + 1) mod 128 + j) mod 128 = (unat (KeyevHeadidx h) + Suc j) mod 128"
      unfolding mod_add_left_eq by simp
    then have "hub_contents h'' ! j = q ! ((unat (KeyevHeadidx h) + Suc j) mod 128)"
      using j i by (simp add: hub_contents_def h''_def h'_def)
    also have "\<dots> = tl (hub_contents h) ! j"
      using j ne full by (simp add: q_def hub_contents_def nth_tl)
    finally show "hub_contents h'' ! j = tl (hub_contents h) ! j" .
  qed
  ultimately show "\<exists>h' h''. HiPushKeyboardEvent x h = Inr h' \<and> HiGetKeyboardEventQueueNum h' = 128 \<and>
      HiPopKeyboardEvent h' = Inr (x, h'') \<and> hub_contents h'' = tl (hub_contents h)" by blast
next
  note v = assms [unfolded hub_valid_def]
  assume c: "KeyevCount h = 0"
  then show "\<exists>e h' h''. HiPopKeyboardEvent h = Inr (e, h') \<and> HiGetKeyboardEventQueueNum h' = 0xFFFFFFFF \<and>
      HiPushKeyboardEvent x h' = Inr h'' \<and> HiGetKeyboardEventQueueNum h'' = 0"
    using v by (simp add: HiPopKeyboardEvent_def HiPushKeyboardEvent_def HiGetKeyboardEventQueueNum_def Let_def MAX_KEYBOARD_EVENTS_def)
qed

theorem hub_edges_witness:
  "\<exists>e h'. HiPopKeyboardEvent hub_init = Inr (e, h') \<and> HiGetKeyboardEventQueueNum h' = 0xFFFFFFFF"
proof -
  have "KeyevCount hub_init = 0" by (simp add: hub_init_def)
  then show ?thesis using hub_edges [of hub_init] hub_init_valid by blast
qed

end
