(* ===== verification/Ps2Keyboard.thy ===== *)
theory Ps2Keyboard
  imports Pcie KeyboardHub Mmio Interrupts
begin

text \<open>
  The PS/2 keyboard driver, \<^verbatim>\<open>Kernel/Source/Devdriv/Keyboard/PS2Keyboard.c\<close>: the state machine of the
  interrupt handler, the states of the keys, the commands to the controller and the registration of the
  driver. The controller is the parameter \<open>dev\<close>; its status port may keep the driver waiting forever, so the
  waiting loops have fuel.
\<close>

section \<open>Constants and state\<close>

definition PS2_PORT_DATA :: WORD where "PS2_PORT_DATA = 0x60"
definition PS2_PORT_STATUS :: WORD where "PS2_PORT_STATUS = 0x64"
definition PS2_PORT_CMD :: WORD where "PS2_PORT_CMD = 0x64"
definition PS2_STATUS_OUTPUT :: BYTE where "PS2_STATUS_OUTPUT = push_bit 0 1"
definition PS2_STATUS_INPUT :: BYTE where "PS2_STATUS_INPUT = push_bit 1 1"
definition PS2_CONT_CFG_TRANSLATE :: BYTE where "PS2_CONT_CFG_TRANSLATE = push_bit 6 1"
definition PS2_CMD_READ_CONT_CFG_BYTE :: BYTE where "PS2_CMD_READ_CONT_CFG_BYTE = 0x20"
definition PS2_CMD_WRITE_CONT_CFG_BYTE :: BYTE where "PS2_CMD_WRITE_CONT_CFG_BYTE = 0x60"
definition PS2_CMD_GETSET_SCANSET :: BYTE where "PS2_CMD_GETSET_SCANSET = 0xF0"
definition PS2_CMD_GETSET_SCANSET_SET2 :: BYTE where "PS2_CMD_GETSET_SCANSET_SET2 = 0x02"
definition PS2_RESPONSE_ACK :: BYTE where "PS2_RESPONSE_ACK = 0xFA"
definition PS2_RESPONSE_RESEND :: BYTE where "PS2_RESPONSE_RESEND = 0xFE"
definition PS2_KEYBOARD_IRQ :: DWORD where "PS2_KEYBOARD_IRQ = 0x1"

definition LISTEN_EXTENDED :: UINT where "LISTEN_EXTENDED = 2"
definition LISTEN_BROKEN :: UINT where "LISTEN_BROKEN = 4"
definition LISTEN_PRTSCAS :: UINT where "LISTEN_PRTSCAS = 8"
definition LISTEN_PRTSCDEAS :: UINT where "LISTEN_PRTSCDEAS = 16"
definition LISTEN_PAUSE :: UINT where "LISTEN_PAUSE = 32"

lemmas listen = LISTEN_EXTENDED_def LISTEN_BROKEN_def LISTEN_PRTSCAS_def LISTEN_PRTSCDEAS_def LISTEN_PAUSE_def

record keys =
  PS2_StandardKeyStates :: "UCHAR \<Rightarrow> KeyState"
  PS2_ExtendedKeyStates :: "UCHAR \<Rightarrow> KeyState"

record kbd = keys +
  Listen :: UINT
  ListenIdx :: UINT
  kHub :: hub

definition kbd_init :: kbd where
  "kbd_init = \<lparr> PS2_StandardKeyStates = (\<lambda>_. 0), PS2_ExtendedKeyStates = (\<lambda>_. 0), Listen = 0, ListenIdx = 0, kHub = hub_init \<rparr>"

section \<open>The interrupt handler\<close>

definition PS2_SampleKeymod :: "'a keys_scheme \<Rightarrow> KeyMod" where
  "PS2_SampleKeymod k =
     (let m0 = 0 :: KeyMod;
          m1 = (if PS2_StandardKeyStates k PS2_SCANCODE_LCTRL = KS_PRESSED \<or> PS2_ExtendedKeyStates k PS2_XSCANCODE_RCTRL = KS_PRESSED
                then m0 OR KM_CTRL else m0);
          m2 = (if PS2_StandardKeyStates k PS2_SCANCODE_LALT = KS_PRESSED \<or> PS2_ExtendedKeyStates k PS2_XSCANCODE_RALT = KS_PRESSED
                then m1 OR KM_ALT else m1)
      in if PS2_StandardKeyStates k PS2_SCANCODE_LSHIFT = KS_PRESSED \<or> PS2_StandardKeyStates k PS2_SCANCODE_RSHIFT = KS_PRESSED
         then m2 OR KM_SHIFT else m2)"

text \<open>\<open>Dev\<close> is the address of the keyboard's device node.\<close>

definition key_event :: "UINTPTR \<Rightarrow> KeyCode \<Rightarrow> KeyState \<Rightarrow> KeyState \<Rightarrow> 'a keys_scheme \<Rightarrow> HiKeyboardEvent" where
  "key_event Dev kc old new k = \<lparr> Source = Dev, OldState = old, NewState = new, Keycode = kc, Keymod = PS2_SampleKeymod k \<rparr>"

definition push_event :: "HiKeyboardEvent \<Rightarrow> kbd \<Rightarrow> kbd kres" where
  "push_event e k = kbind (HiPushKeyboardEvent e (kHub k)) (\<lambda>h. Inr (k\<lparr> kHub := h \<rparr>))"

definition listen_idle :: "kbd \<Rightarrow> kbd" where
  "listen_idle k = k\<lparr> Listen := 0, ListenIdx := 0 \<rparr>"

text \<open>The three branches that collect the bytes of a long sequence; \<open>ListenIdx++\<close> compares before it increments.\<close>

definition CollectLong :: "UINTPTR \<Rightarrow> kbd \<Rightarrow> kbd kres" where
  "CollectLong Dev k =
     (let k1 = k\<lparr> ListenIdx := ListenIdx k + 1 \<rparr>
      in if Listen k AND LISTEN_PRTSCAS \<noteq> 0
         then if ListenIdx k = 3
              then kbind (push_event (key_event Dev KC_PRINT_SCREEN KS_RELEASED KS_PRESSED k1) k1) (\<lambda>k2.
                     Inr (listen_idle (k2\<lparr> PS2_StandardKeyStates := (PS2_StandardKeyStates k2)(0xF7 := KS_PRESSED) \<rparr>)))
              else Inr k1
         else if Listen k AND LISTEN_PRTSCDEAS \<noteq> 0
         then if ListenIdx k = 5
              then kbind (push_event (key_event Dev KC_PRINT_SCREEN KS_PRESSED KS_RELEASED k1) k1) (\<lambda>k2.
                     Inr (listen_idle (k2\<lparr> PS2_StandardKeyStates := (PS2_StandardKeyStates k2)(0xF7 := KS_RELEASED) \<rparr>)))
              else Inr k1
         else if ListenIdx k = 7
              then kbind (push_event (key_event Dev KC_PAUSE KS_RELEASED KS_PRESSED k1) k1) (\<lambda>k2.
                   kbind (push_event (key_event Dev KC_PAUSE KS_PRESSED KS_RELEASED k2) k2) (\<lambda>k3.
                     Inr (listen_idle k3)))
              else Inr k1)"

text \<open>The end of the handler: the key of a short sequence changes its state.\<close>

definition FinishKey :: "UINTPTR \<Rightarrow> UCHAR \<Rightarrow> kbd \<Rightarrow> kbd kres" where
  "FinishKey Dev Data k =
     (let broken = Listen k AND LISTEN_BROKEN \<noteq> 0; extended = Listen k AND LISTEN_EXTENDED \<noteq> 0;
          KsOld = (if broken then KS_PRESSED else KS_RELEASED);
          KsNew = (if broken then KS_RELEASED else KS_PRESSED);
          k1 = (if extended then k\<lparr> PS2_ExtendedKeyStates := (PS2_ExtendedKeyStates k)(Data := KsNew) \<rparr>
                else k\<lparr> PS2_StandardKeyStates := (PS2_StandardKeyStates k)(Data := KsNew) \<rparr>)
      in kbind (PS2_ScancodeToKeycode extended Data) (\<lambda>kc.
         kbind (push_event (key_event Dev kc KsOld KsNew k1) k1) (\<lambda>k2. Inr (listen_idle k2))))"

definition HandleByte :: "UINTPTR \<Rightarrow> UCHAR \<Rightarrow> kbd \<Rightarrow> kbd kres" where
  "HandleByte Dev Data k =
     (let listen_to = (\<lambda>flag. Inr (k\<lparr> Listen := Listen k OR flag, ListenIdx := ListenIdx k + 1 \<rparr>))
      in if Listen k AND LISTEN_PRTSCAS \<noteq> 0 \<or> Listen k AND LISTEN_PRTSCDEAS \<noteq> 0 \<or> Listen k AND LISTEN_PAUSE \<noteq> 0
         then CollectLong Dev k
         else if Data = PS2_XSCANCODE then listen_to LISTEN_EXTENDED
         else if Data = PS2_BREAK_PREFIX then listen_to LISTEN_BROKEN
         else if Data = 0x12 \<and> ListenIdx k = 1 \<and> Listen k AND LISTEN_EXTENDED \<noteq> 0 then listen_to LISTEN_PRTSCAS
         else if Data = 0x7C \<and> ListenIdx k = 2 \<and>
                 Listen k AND (LISTEN_EXTENDED OR LISTEN_BROKEN) = LISTEN_EXTENDED OR LISTEN_BROKEN then listen_to LISTEN_PRTSCDEAS
         else if Data = 0xE1 then listen_to LISTEN_PAUSE
         else FinishKey Dev Data k)"

definition PS2_KeyboardInterrupt :: "'d devices \<Rightarrow> UINTPTR \<Rightarrow> kbd \<Rightarrow> 'd \<Rightarrow> (kbd \<times> 'd) kres" where
  "PS2_KeyboardInterrupt dev Dev k d =
     (let (Data, d1) = port_in8 dev PS2_PORT_DATA d in kbind (HandleByte Dev Data k) (\<lambda>k1. Inr (k1, d1)))"

definition PS2_KeyboardGetKeyState :: "'a keys_scheme \<Rightarrow> KeyCode \<Rightarrow> KeyState" where
  "PS2_KeyboardGetKeyState k kc =
     (case PS2_KeycodeToScancode kc True of (Scancode, ext) \<Rightarrow>
        if Scancode = 0 then KS_RELEASED
        else if ext = Some True then PS2_ExtendedKeyStates k Scancode else PS2_StandardKeyStates k Scancode)"

section \<open>Commands\<close>

fun PS2_WaitInputBufferEmpty :: "nat \<Rightarrow> 'd devices \<Rightarrow> 'd \<Rightarrow> 'd kres" where
  "PS2_WaitInputBufferEmpty 0 dev d = Inl OutOfFuel"
| "PS2_WaitInputBufferEmpty (Suc f) dev d =
     (let (st, d1) = port_in8 dev PS2_PORT_STATUS d
      in if st AND PS2_STATUS_INPUT \<noteq> 0 then PS2_WaitInputBufferEmpty f dev d1 else Inr d1)"

fun PS2_WaitOutputBufferEmpty :: "nat \<Rightarrow> 'd devices \<Rightarrow> 'd \<Rightarrow> 'd kres" where
  "PS2_WaitOutputBufferEmpty 0 dev d = Inl OutOfFuel"
| "PS2_WaitOutputBufferEmpty (Suc f) dev d =
     (let (st, d1) = port_in8 dev PS2_PORT_STATUS d
      in if st AND PS2_STATUS_OUTPUT = 0 then PS2_WaitOutputBufferEmpty f dev d1 else Inr d1)"

definition MAX_RESENDS :: UINT where "MAX_RESENDS = 3"

text \<open>The loop of PS2_IssueCommand; \<open>w\<close> is the fuel of the waits.\<close>

fun IssueLoop :: "nat \<Rightarrow> nat \<Rightarrow> 'd devices \<Rightarrow> BYTE list \<Rightarrow> UINT \<Rightarrow> bool \<Rightarrow> UINT \<Rightarrow> UINT \<Rightarrow> BYTE \<Rightarrow> 'd \<Rightarrow> (BYTE \<times> 'd) kres" where
  "IssueLoop 0 w dev Str NrBytes ToCmd i NrResends Response d = Inl OutOfFuel"
| "IssueLoop (Suc f) w dev Str NrBytes ToCmd i NrResends Response d =
     (if i < NrBytes \<and> NrResends < MAX_RESENDS
      then kbind (PS2_WaitInputBufferEmpty w dev d) (\<lambda>d1.
        if length Str \<le> unat i then Inl OutOfBounds
        else
          let d2 = port_out8 dev (if i = 0 \<and> ToCmd then PS2_PORT_CMD else PS2_PORT_DATA) (Str ! unat i) d1
          in kbind (if ToCmd then PS2_WaitInputBufferEmpty w dev d2 else PS2_WaitOutputBufferEmpty w dev d2) (\<lambda>d3.
               let (Rsp, d4) = port_in8 dev PS2_PORT_DATA d3
               in if Rsp = PS2_RESPONSE_RESEND
                  then IssueLoop f w dev Str NrBytes ToCmd (0 + 1) (NrResends + 1) Rsp d4
                  else IssueLoop f w dev Str NrBytes ToCmd (i + 1) NrResends Rsp d4))
      else Inr (Response, d))"

text \<open>\<open>Junk\<close> is the indeterminate first value of the response, which only an empty command returns.\<close>

definition PS2_IssueCommand :: "nat \<Rightarrow> 'd devices \<Rightarrow> BYTE \<Rightarrow> BYTE list \<Rightarrow> UINT \<Rightarrow> bool \<Rightarrow> 'd \<Rightarrow> (BYTE \<times> 'd) kres" where
  "PS2_IssueCommand f dev Junk Str NrBytes ToCmd d = IssueLoop f f dev Str NrBytes ToCmd 0 0 Junk d"

section \<open>Registration\<close>

record 'd kbd_sys = dev_sys +
  kHw :: 'd
  kCpus :: cpus
  kCpuIDs :: "UINT list"
  kAldistIdx :: DWORD
  kDeviceInitialized :: bool
  kKbd :: kbd

definition kbd_attach :: "nat \<Rightarrow> UINTPTR \<Rightarrow> UINTPTR \<Rightarrow> UINTPTR \<Rightarrow> ('d, 'a) kbd_sys_scheme \<Rightarrow> ('d, 'a) kbd_sys_scheme kres" where
  "kbd_attach f Root Dev Drv s =
     (let s1 = upd_dev Dev (\<lambda>n. n\<lparr> pDriver := Drv \<rparr>) s
      in if kDeviceInitialized s1 then Inr s1
         else
           let s2 = upd_dev Dev (\<lambda>n. n\<lparr> dnName := ''PS/2 Keyboard'', dnOnBus := BUS_PLATFORM \<rparr>) s1
           in kbind (AddChildDevice f Root Dev s2) (\<lambda>s3. Inr (s3\<lparr> kDeviceInitialized := True \<rparr>)))"

definition kbd_configure :: "nat \<Rightarrow> 'd devices \<Rightarrow> BYTE \<Rightarrow> 'd \<Rightarrow> (bool \<times> 'd) kres" where
  "kbd_configure f dev Junk d =
     kbind (PS2_IssueCommand f dev Junk [PS2_CMD_READ_CONT_CFG_BYTE] 1 True d) (\<lambda>(CCB0, d1).
       let CCB = CCB0 AND NOT PS2_CONT_CFG_TRANSLATE
       in kbind (PS2_WaitInputBufferEmpty f dev d1) (\<lambda>d2.
          kbind (PS2_WaitInputBufferEmpty f dev (port_out8 dev PS2_PORT_CMD PS2_CMD_WRITE_CONT_CFG_BYTE d2)) (\<lambda>d3.
          kbind (PS2_IssueCommand f dev Junk [PS2_CMD_GETSET_SCANSET, PS2_CMD_GETSET_SCANSET_SET2] 2 False (port_out8 dev PS2_PORT_DATA CCB d3)) (\<lambda>(Rsp, d4).
            Inr (Rsp = PS2_RESPONSE_ACK, d4)))))"

definition PS2_KeyboardDriverRegister :: "nat \<Rightarrow> 'd devices \<Rightarrow> ioapic_state \<Rightarrow> BYTE \<Rightarrow> UINTPTR \<Rightarrow> UINTPTR \<Rightarrow> UINTPTR \<Rightarrow>
    ('d, 'a) kbd_sys_scheme \<Rightarrow> (bool \<times> ('d, 'a) kbd_sys_scheme) kres" where
  "PS2_KeyboardDriverRegister f dev io Junk Root Dev Drv s =
     kbind (kbd_attach f Root Dev Drv s) (\<lambda>s1.
     kbind (kbd_configure f dev Junk (kHw s1)) (\<lambda>(ok, d).
       let s2 = s1\<lparr> kHw := d \<rparr>
       in if \<not> ok then Inr (False, s2)
          else kbind (AldistOfferSetupForIRQ (kCpus s2) (kCpuIDs s2) (kAldistIdx s2)) (\<lambda>(Offer, Idx).
               kbind (SetHardwareInterrupt (kCpus s2) (OfferCpuID Offer) (OfferIntVector Offer) Dev PS2_KEYBOARD_IRQ (Some HKeyboardInterrupt)) (\<lambda>cs.
               kbind (SetRedirectIRQ dev io PS2_KEYBOARD_IRQ (OfferCpuID Offer) (OfferIntVector Offer) d) (\<lambda>(_, d1).
                 Inr (True, s2\<lparr> kAldistIdx := Idx, kCpus := cs, kHw := d1 \<rparr>))))))"

definition PS2_KeyboardDriverUnregister :: "'d devices \<Rightarrow> ioapic_state \<Rightarrow> 'd \<Rightarrow> 'd kres" where
  "PS2_KeyboardDriverUnregister dev io d = kbind (SetEnableIRQ dev io PS2_KEYBOARD_IRQ False d) (\<lambda>(_, d1). Inr d1)"

section \<open>What the handler decodes\<close>

text \<open>What a user does to the keys, and the bytes a keyboard sends for it in scancode set 2; the flag says extended.\<close>

datatype key_action = Press bool UCHAR | Release bool UCHAR | PressPrintScreen | ReleasePrintScreen | PressPause

fun key_codes :: "key_action \<Rightarrow> UCHAR list" where
  "key_codes (Press e c) = (if e then [0xE0, c] else [c])"
| "key_codes (Release e c) = (if e then [0xE0, 0xF0, c] else [0xF0, c])"
| "key_codes PressPrintScreen = [0xE0, 0x12, 0xE0, 0x7C]"
| "key_codes ReleasePrintScreen = [0xE0, 0xF0, 0x7C, 0xE0, 0xF0, 0x12]"
| "key_codes PressPause = [0xE1, 0x14, 0x77, 0xE1, 0xF0, 0x14, 0xF0, 0x77]"

text \<open>Codes inside the tables, without the two that begin a sequence of Print Screen.\<close>

fun key_ok :: "key_action \<Rightarrow> bool" where
  "key_ok (Press e c) \<longleftrightarrow> (if e then unat c < 126 \<and> c \<noteq> 0x12 else unat c < 132)"
| "key_ok (Release e c) \<longleftrightarrow> (if e then unat c < 126 \<and> c \<noteq> 0x7C else unat c < 132)"
| "key_ok _ \<longleftrightarrow> True"

definition key_of :: "bool \<Rightarrow> UCHAR \<Rightarrow> KeyCode" where
  "key_of e c = (if e then ExtendedScancodeToKeycodeMap else StandardScancodeToKeycodeMap) ! unat c"

definition set_key :: "bool \<Rightarrow> UCHAR \<Rightarrow> KeyState \<Rightarrow> 'a keys_scheme \<Rightarrow> 'a keys_scheme" where
  "set_key e c st k = (if e then k\<lparr> PS2_ExtendedKeyStates := (PS2_ExtendedKeyStates k)(c := st) \<rparr>
     else k\<lparr> PS2_StandardKeyStates := (PS2_StandardKeyStates k)(c := st) \<rparr>)"

text \<open>The specification: the events an action causes and the key states after it.\<close>

fun action_keys :: "key_action \<Rightarrow> 'a keys_scheme \<Rightarrow> 'a keys_scheme" where
  "action_keys (Press e c) k = set_key e c KS_PRESSED k"
| "action_keys (Release e c) k = set_key e c KS_RELEASED k"
| "action_keys PressPrintScreen k = set_key False 0xF7 KS_PRESSED k"
| "action_keys ReleasePrintScreen k = set_key False 0xF7 KS_RELEASED k"
| "action_keys PressPause k = k"

fun action_events :: "UINTPTR \<Rightarrow> key_action \<Rightarrow> 'a keys_scheme \<Rightarrow> HiKeyboardEvent list" where
  "action_events Dev (Press e c) k = [key_event Dev (key_of e c) KS_RELEASED KS_PRESSED (set_key e c KS_PRESSED k)]"
| "action_events Dev (Release e c) k = [key_event Dev (key_of e c) KS_PRESSED KS_RELEASED (set_key e c KS_RELEASED k)]"
| "action_events Dev PressPrintScreen k = [key_event Dev KC_PRINT_SCREEN KS_RELEASED KS_PRESSED k]"
| "action_events Dev ReleasePrintScreen k = [key_event Dev KC_PRINT_SCREEN KS_PRESSED KS_RELEASED k]"
| "action_events Dev PressPause k = [key_event Dev KC_PAUSE KS_RELEASED KS_PRESSED k, key_event Dev KC_PAUSE KS_PRESSED KS_RELEASED k]"

fun events_of :: "UINTPTR \<Rightarrow> key_action list \<Rightarrow> 'a keys_scheme \<Rightarrow> HiKeyboardEvent list" where
  "events_of Dev [] k = []"
| "events_of Dev (a # as) k = action_events Dev a k @ events_of Dev as (action_keys a k)"

definition idle :: "kbd \<Rightarrow> bool" where
  "idle k \<longleftrightarrow> Listen k = 0 \<and> ListenIdx k = 0"

definition keymod_of :: "(UCHAR \<Rightarrow> KeyState) \<Rightarrow> (UCHAR \<Rightarrow> KeyState) \<Rightarrow> KeyMod" where
  "keymod_of std ext = PS2_SampleKeymod \<lparr> PS2_StandardKeyStates = std, PS2_ExtendedKeyStates = ext \<rparr>"

lemma keymod: "PS2_SampleKeymod k = keymod_of (PS2_StandardKeyStates k) (PS2_ExtendedKeyStates k)"
  by (simp add: keymod_of_def PS2_SampleKeymod_def)

lemma scancode_in_table: "unat c < (if e then 126 else 132) \<Longrightarrow> PS2_ScancodeToKeycode e c = Inr (key_of e c)"
  by (cases e) (simp_all add: scancode_value key_of_def table_lengths Let_def)

text \<open>One action on an idle keyboard: its codes push its events and set its keys.\<close>

definition push_list :: "HiKeyboardEvent list \<Rightarrow> hub \<Rightarrow> hub kres" where
  "push_list es h = push_all HiPushKeyboardEvent es h"

lemma decode_action:
  assumes "idle k" "key_ok a"
  shows "each (HandleByte Dev) (key_codes a) k =
    kbind (push_list (action_events Dev a k) (kHub k)) (\<lambda>h. Inr ((action_keys a k)\<lparr> kHub := h \<rparr>))"
proof -
  obtain std ext h where k: "k = \<lparr> PS2_StandardKeyStates = std, PS2_ExtendedKeyStates = ext, Listen = 0, ListenIdx = 0, kHub = h \<rparr>"
    using assms(1) by (cases k) (simp add: idle_def)
  have big: "c \<noteq> 0xE0 \<and> c \<noteq> 0xF0 \<and> c \<noteq> 0xE1" if "unat c < 132" for c :: UCHAR using that by auto
  note ev = HandleByte_def CollectLong_def FinishKey_def push_event_def listen_idle_def push_list_def Let_def listen
    PS2_XSCANCODE_def PS2_BREAK_PREFIX_def k key_event_def keymod
  show ?thesis
  proof (cases a)
    case (Press e c)
    have c: "unat c < (if e then 126 else 132)" "e \<longrightarrow> c \<noteq> 0x12" using assms(2) Press by (simp_all split: if_splits)
    then have "unat c < 132" by (simp split: if_splits)
    note n = big [OF this]
    show ?thesis using c n scancode_in_table [OF c(1)]
      by (cases e) (simp_all add: Press ev set_key_def kbind_def split: sum.splits)
  next
    case (Release e c)
    have c: "unat c < (if e then 126 else 132)" "e \<longrightarrow> c \<noteq> 0x7C" using assms(2) Release by (simp_all split: if_splits)
    then have "unat c < 132" by (simp split: if_splits)
    note n = big [OF this]
    show ?thesis using c n scancode_in_table [OF c(1)]
      by (cases e) (simp_all add: Release ev set_key_def kbind_def split: sum.splits)
  next
    case PressPrintScreen then show ?thesis by (simp add: ev set_key_def kbind_def split: sum.splits)
  next
    case ReleasePrintScreen then show ?thesis by (simp add: ev set_key_def kbind_def split: sum.splits)
  next
    case PressPause then show ?thesis by (simp add: ev kbind_def split: sum.splits)
  qed
qed

definition keys_after :: "key_action list \<Rightarrow> 'a keys_scheme \<Rightarrow> 'a keys_scheme" where
  "keys_after as k = fold action_keys as k"

lemma events_keys_cong:
  "PS2_StandardKeyStates k = PS2_StandardKeyStates j \<Longrightarrow> PS2_ExtendedKeyStates k = PS2_ExtendedKeyStates j \<Longrightarrow>
    events_of Dev as k = events_of Dev as j"
  for k :: "'a keys_scheme" and j :: "'b keys_scheme"
proof (induction as arbitrary: k j)
  case (Cons a as)
  have "action_events Dev a k = action_events Dev a j" using Cons.prems
    by (cases a) (simp_all add: key_event_def keymod set_key_def)
  moreover have "events_of Dev as (action_keys a k) = events_of Dev as (action_keys a j)"
    by (rule Cons.IH) (use Cons.prems in \<open>cases a; simp add: set_key_def\<close>)+
  ultimately show ?case by simp
qed simp

lemma action_keys_hub: "(action_keys a k)\<lparr> kHub := h \<rparr> = action_keys a (k\<lparr> kHub := h \<rparr>)"
  "idle (action_keys a k) = idle k" "kHub (action_keys a k) = kHub k" for k :: kbd
  by (cases a; simp add: set_key_def idle_def)+

lemma keys_after_hub: "(keys_after as k)\<lparr> kHub := h \<rparr> = keys_after as (k\<lparr> kHub := h \<rparr>)" for k :: kbd
  by (induction as arbitrary: k) (simp_all add: keys_after_def action_keys_hub)

lemma idle_keys_after: "idle ((keys_after as k)\<lparr> kHub := h \<rparr>) = idle k"
proof -
  have "idle (keys_after as k) = idle k" by (induction as arbitrary: k) (simp_all add: keys_after_def action_keys_hub)
  then show ?thesis by (simp add: idle_def)
qed

lemma decode_actions:
  assumes "idle k" "list_all key_ok as" "hub_valid (kHub k)"
    "length (hub_contents (kHub k)) + length (events_of Dev as k) \<le> 128"
  shows "\<exists>h. each (HandleByte Dev) (concat (map key_codes as)) k = Inr ((keys_after as k)\<lparr> kHub := h \<rparr>) \<and> hub_valid h \<and>
    hub_contents h = hub_contents (kHub k) @ events_of Dev as k"
  using assms
proof (induction as arbitrary: k)
  case Nil then show ?case by (intro exI [of _ "kHub k"]) (simp add: keys_after_def)
next
  case (Cons a as)
  obtain h1 where h1: "push_list (action_events Dev a k) (kHub k) = Inr h1" "hub_valid h1"
    "hub_contents h1 = hub_contents (kHub k) @ action_events Dev a k"
    using hubq.push_all [OF Cons.prems(3), of "action_events Dev a k"] Cons.prems(4) by (auto simp: push_list_def)
  define k1 where "k1 = (action_keys a k)\<lparr> kHub := h1 \<rparr>"
  have s: "each (HandleByte Dev) (key_codes a) k = Inr k1"
    using decode_action [OF Cons.prems(1)] Cons.prems(2) h1(1) by (simp add: k1_def)
  have ev: "events_of Dev as k1 = events_of Dev as (action_keys a k)" by (rule events_keys_cong) (simp_all add: k1_def)
  have "idle k1" using Cons.prems(1) by (simp add: k1_def action_keys_hub) (simp add: idle_def)
  moreover have "kHub k1 = h1" by (simp add: k1_def)
  ultimately obtain h where h: "each (HandleByte Dev) (concat (map key_codes as)) k1 = Inr ((keys_after as k1)\<lparr> kHub := h \<rparr>)"
    "hub_valid h" "hub_contents h = hub_contents h1 @ events_of Dev as k1"
    using Cons.IH [of k1] Cons.prems(2,4) h1 ev by auto
  have "(keys_after as k1)\<lparr> kHub := h \<rparr> = (keys_after (a # as) k)\<lparr> kHub := h \<rparr>"
    by (simp add: keys_after_hub k1_def action_keys_hub) (simp add: keys_after_def)
  then show ?case using s h h1(3) ev by (intro exI [of _ h]) (simp add: each_append)
qed

text \<open>
  C11: The bytes of any sequence of key actions, each an ordinary or extended key inside the tables, Print Screen
  or Pause, are decoded into exactly the events of those actions in their order: the hub queues them behind what
  it held, provided they fit, the key states are those of the actions, and the handler is idle again.
\<close>
theorem keyboard_decodes:
  assumes "idle k" "list_all key_ok as" "hub_valid (kHub k)"
    "length (hub_contents (kHub k)) + length (events_of Dev as k) \<le> 128"
  shows "\<exists>h. each (HandleByte Dev) (concat (map key_codes as)) k = Inr ((keys_after as k)\<lparr> kHub := h \<rparr>) \<and> hub_valid h \<and>
    hub_contents h = hub_contents (kHub k) @ events_of Dev as k \<and> idle ((keys_after as k)\<lparr> kHub := h \<rparr>)"
  using decode_actions [OF assms] assms(1) by (auto simp: idle_keys_after)

theorem keyboard_decodes_witness:
  "\<exists>h. each (HandleByte 64) (concat (map key_codes [Press False PS2_SCANCODE_LSHIFT, Press False PS2_SCANCODE_A, PressPause])) kbd_init =
      Inr ((keys_after [Press False PS2_SCANCODE_LSHIFT, Press False PS2_SCANCODE_A, PressPause] kbd_init)\<lparr> kHub := h \<rparr>) \<and>
    length (hub_contents h) = 4"
proof -
  have a: "idle kbd_init" "list_all key_ok [Press False PS2_SCANCODE_LSHIFT, Press False PS2_SCANCODE_A, PressPause]"
    by (simp_all add: idle_def kbd_init_def PS2_SCANCODE_LSHIFT_def PS2_SCANCODE_A_def)
  have h: "hub_valid (kHub kbd_init)" "hub_contents (kHub kbd_init) = []"
    by (simp_all add: kbd_init_def hub_init_def hub_valid_def hub_contents_def)
  show ?thesis using keyboard_decodes [OF a h(1), of 64] h(2) by fastforce
qed

section \<open>Sequences the handler gets wrong\<close>

lemma collect_stuck:
  assumes "Listen k AND LISTEN_PAUSE \<noteq> 0" "Listen k AND LISTEN_PRTSCAS = 0" "Listen k AND LISTEN_PRTSCDEAS = 0"
    "7 < unat (ListenIdx k)" "unat (ListenIdx k) + length bs < 2 ^ 32"
  shows "each (HandleByte Dev) bs k = Inr (k\<lparr> ListenIdx := ListenIdx k + of_nat (length bs) \<rparr>)"
  using assms
proof (induction bs arbitrary: k)
  case (Cons b bs)
  have i: "ListenIdx k \<noteq> 7" using Cons.prems(4) by auto
  have u: "unat (ListenIdx k + 1) = unat (ListenIdx k) + 1" using Cons.prems(5) by (intro unat_Suc_word) simp
  have "HandleByte Dev b k = Inr (k\<lparr> ListenIdx := ListenIdx k + 1 \<rparr>)"
    using Cons.prems(1-3) i by (simp add: HandleByte_def CollectLong_def Let_def)
  then show ?case using Cons.IH [of "k\<lparr> ListenIdx := ListenIdx k + 1 \<rparr>"] Cons.prems u by (simp add: add.assoc)
qed simp

lemma prefixes:
  assumes "Listen k AND LISTEN_PAUSE = 0" "Listen k AND LISTEN_PRTSCAS = 0" "Listen k AND LISTEN_PRTSCDEAS = 0"
  shows "\<exists>l. each (HandleByte Dev) (replicate n 0xE0) k = Inr (k\<lparr> Listen := l, ListenIdx := ListenIdx k + of_nat n \<rparr>) \<and>
    l AND LISTEN_PAUSE = 0 \<and> l AND LISTEN_PRTSCAS = 0 \<and> l AND LISTEN_PRTSCDEAS = 0"
  using assms
proof (induction n arbitrary: k)
  case 0 then show ?case by (intro exI [of _ "Listen k"]) simp
next
  case (Suc n)
  let ?k = "k\<lparr> Listen := Listen k OR LISTEN_EXTENDED, ListenIdx := ListenIdx k + 1 \<rparr>"
  have "HandleByte Dev 0xE0 k = Inr ?k" using Suc.prems by (simp add: HandleByte_def Let_def PS2_XSCANCODE_def)
  moreover have "Listen ?k AND LISTEN_PAUSE = 0" "Listen ?k AND LISTEN_PRTSCAS = 0" "Listen ?k AND LISTEN_PRTSCDEAS = 0"
    using Suc.prems by (simp_all add: bit.conj_disj_distrib2 listen)
  ultimately show ?case using Suc.IH [of ?k] by (simp add: add.assoc add.commute add.left_commute)
qed

text \<open>
  The handler misreads some byte sequences. After seven prefixes E0 in a row and an E1 it waits for an index
  that has already passed: the next bytes, about four thousand million of them, whatever they are, cause no
  event and no change of a key state. And after E0 12, which keyboards also send as a shift in front of some
  extended keys, any two bytes count as Print Screen pressed.
\<close>
theorem keyboard_misreads:
  assumes "idle k" "length bs < 2 ^ 32 - 8"
  shows "(\<exists>l. each (HandleByte Dev) (replicate 7 0xE0 @ 0xE1 # bs) k = Inr (k\<lparr> Listen := l, ListenIdx := 8 + of_nat (length bs) \<rparr>)) \<and>
    each (HandleByte Dev) [0xE0, 0x12, b1, b2] k =
      kbind (push_event (key_event Dev KC_PRINT_SCREEN KS_RELEASED KS_PRESSED k) k) (\<lambda>k1. Inr (set_key False 0xF7 KS_PRESSED k1))"
proof
  have k0: "Listen k AND LISTEN_PAUSE = 0" "Listen k AND LISTEN_PRTSCAS = 0" "Listen k AND LISTEN_PRTSCDEAS = 0" "ListenIdx k = 0"
    using assms(1) by (simp_all add: idle_def)
  obtain l where l: "each (HandleByte Dev) (replicate 7 0xE0) k = Inr (k\<lparr> Listen := l, ListenIdx := 7 \<rparr>)"
    "l AND LISTEN_PAUSE = 0" "l AND LISTEN_PRTSCAS = 0" "l AND LISTEN_PRTSCDEAS = 0"
    using prefixes [OF k0(1-3), of Dev 7] k0(4) by auto
  let ?k = "k\<lparr> Listen := l OR LISTEN_PAUSE, ListenIdx := 8 \<rparr>"
  have e: "HandleByte Dev 0xE1 (k\<lparr> Listen := l, ListenIdx := 7 \<rparr>) = Inr ?k"
    using l(2-4) by (simp add: HandleByte_def Let_def PS2_XSCANCODE_def PS2_BREAK_PREFIX_def)
  have "Listen ?k AND LISTEN_PAUSE \<noteq> 0" "Listen ?k AND LISTEN_PRTSCAS = 0" "Listen ?k AND LISTEN_PRTSCDEAS = 0"
    using l(2-4) by (simp_all add: bit.conj_disj_distrib2) (simp_all add: listen)
  from collect_stuck [OF this, of bs Dev] assms(2)
  have "each (HandleByte Dev) bs ?k = Inr (k\<lparr> Listen := l OR LISTEN_PAUSE, ListenIdx := 8 + of_nat (length bs) \<rparr>)" by simp
  then have "each (HandleByte Dev) (replicate 7 0xE0 @ 0xE1 # bs) k = Inr (k\<lparr> Listen := l OR LISTEN_PAUSE, ListenIdx := 8 + of_nat (length bs) \<rparr>)"
    using l(1) e by (simp add: each_append)
  then show "\<exists>l. each (HandleByte Dev) (replicate 7 0xE0 @ 0xE1 # bs) k = Inr (k\<lparr> Listen := l, ListenIdx := 8 + of_nat (length bs) \<rparr>)" by blast
  obtain std ext h where k: "k = \<lparr> PS2_StandardKeyStates = std, PS2_ExtendedKeyStates = ext, Listen = 0, ListenIdx = 0, kHub = h \<rparr>"
    using assms(1) by (cases k) (simp add: idle_def)
  show "each (HandleByte Dev) [0xE0, 0x12, b1, b2] k =
      kbind (push_event (key_event Dev KC_PRINT_SCREEN KS_RELEASED KS_PRESSED k) k) (\<lambda>k1. Inr (set_key False 0xF7 KS_PRESSED k1))"
    by (simp add: k HandleByte_def CollectLong_def push_event_def listen_idle_def Let_def listen PS2_XSCANCODE_def PS2_BREAK_PREFIX_def
        key_event_def keymod set_key_def kbind_def split: sum.splits)
qed

theorem keyboard_misreads_witness: "\<exists>l. each (HandleByte 64) (replicate 7 0xE0 @ 0xE1 # [0x1C]) kbd_init = Inr (kbd_init\<lparr> Listen := l, ListenIdx := 9 \<rparr>)"
proof -
  have "idle kbd_init" by (simp add: idle_def kbd_init_def)
  from keyboard_misreads [OF this, of "[0x1C]" 64] show ?thesis by (simp del: each.simps append.simps)
qed

section \<open>Commands to a controller that is always ready\<close>

text \<open>Its state: the responses it will give, and the bytes it got with their ports.\<close>

type_synonym script = "BYTE list \<times> (WORD \<times> BYTE) list"

definition script_dev :: "script devices" where
  "script_dev = \<lparr> dev_read32 = (\<lambda>a d. (0, d)), dev_write32 = (\<lambda>a v d. d),
     port_in8 = (\<lambda>p (rs, log). if p = PS2_PORT_DATA then (case rs of [] \<Rightarrow> (0, ([], log)) | r # rs \<Rightarrow> (r, (rs, log))) else (PS2_STATUS_OUTPUT, (rs, log))),
     port_out8 = (\<lambda>p v (rs, log). (rs, log @ [(p, v)])), port_in32 = (\<lambda>p d. (0, d)) \<rparr>"

lemma script_simps:
  "port_in8 script_dev PS2_PORT_STATUS d = (PS2_STATUS_OUTPUT, d)"
  "port_in8 script_dev PS2_PORT_DATA (r # rs, log) = (r, (rs, log))"
  "port_out8 script_dev p v (rs, log) = (rs, log @ [(p, v)])"
  "PS2_WaitInputBufferEmpty (Suc w) script_dev d = Inr d"
  "PS2_WaitOutputBufferEmpty (Suc w) script_dev d = Inr d"
  by (cases d; simp add: script_dev_def PS2_PORT_STATUS_def PS2_PORT_DATA_def PS2_STATUS_OUTPUT_def PS2_STATUS_INPUT_def)+

definition command_port :: "bool \<Rightarrow> nat \<Rightarrow> WORD" where
  "command_port ToCmd i = (if i = 0 \<and> ToCmd then PS2_PORT_CMD else PS2_PORT_DATA)"

text \<open>One turn of the loop.\<close>

lemma issue_step:
  assumes "i < length Str" "length Str < 2 ^ 32" "n < MAX_RESENDS"
  shows "IssueLoop (Suc f) (Suc w) script_dev Str (of_nat (length Str)) t (of_nat i) n R (r # rs, log) =
    (if r = PS2_RESPONSE_RESEND
     then IssueLoop f (Suc w) script_dev Str (of_nat (length Str)) t (of_nat 1) (n + 1) r (rs, log @ [(command_port t i, Str ! i)])
     else IssueLoop f (Suc w) script_dev Str (of_nat (length Str)) t (of_nat (Suc i)) n r (rs, log @ [(command_port t i, Str ! i)]))"
proof -
  have u: "unat (of_nat i :: UINT) = i" "(of_nat i :: UINT) < of_nat (length Str)" "(of_nat i = (0 :: UINT)) = (i = 0)"
    using assms(1,2) unat_of_nat_small [of i, where ?'a = 32] unat_of_nat_small [of "length Str", where ?'a = 32]
    by (auto simp: word_less_nat_alt unat_eq_0 [symmetric])
  have l: "\<not> length Str \<le> i" using assms(1) by simp
  show ?thesis unfolding IssueLoop.simps
    by (cases t) (simp_all only: u l assms(3) simp_thms if_True if_False script_simps kbind_Inr Let_def prod.case command_port_def, simp_all add: add.commute)
qed

lemma issue_done: "IssueLoop (Suc f) w dev Str n t n m R d = Inr (R, d)"
  by simp

lemma issue_accepted:
  assumes "i \<le> length Str" "length Str < 2 ^ 32" "length Str - i \<le> length rs" "PS2_RESPONSE_RESEND \<notin> set (take (length Str - i) rs)"
    "length Str - i < f" "n < MAX_RESENDS"
  shows "IssueLoop f (Suc w) script_dev Str (of_nat (length Str)) t (of_nat i) n R (rs, log) =
    Inr (last (R # take (length Str - i) rs), drop (length Str - i) rs, log @ map (\<lambda>j. (command_port t j, Str ! j)) [i..<length Str])"
  using assms(1,3,4,5)
proof (induction "length Str - i" arbitrary: i rs log f R)
  case 0
  then obtain f' where "f = Suc f'" by (cases f) auto
  moreover have "i = length Str" using 0 by simp
  ultimately show ?case by simp
next
  case (Suc k)
  obtain f' where f: "f = Suc f'" using Suc.prems(4) by (cases f) auto
  obtain r rs' where rs: "rs = r # rs'" using Suc by (cases rs) auto
  have i: "i < length Str" using Suc by simp
  have nr: "r \<noteq> PS2_RESPONSE_RESEND" "PS2_RESPONSE_RESEND \<notin> set (take (length Str - Suc i) rs')"
    using Suc.prems(3) Suc(2) i by (auto simp: rs take_Cons')
  have "IssueLoop f (Suc w) script_dev Str (of_nat (length Str)) t (of_nat i) n R (rs, log) =
      IssueLoop f' (Suc w) script_dev Str (of_nat (length Str)) t (of_nat (Suc i)) n r (rs', log @ [(command_port t i, Str ! i)])"
    unfolding f rs using issue_step [OF i assms(2,6)] nr(1) by simp
  also have "\<dots> = Inr (last (r # take (length Str - Suc i) rs'), drop (length Str - Suc i) rs',
      (log @ [(command_port t i, Str ! i)]) @ map (\<lambda>j. (command_port t j, Str ! j)) [Suc i..<length Str])"
    using Suc.prems Suc(2) i nr(2) by (intro Suc(1)) (auto simp: rs f)
  finally show ?case using i by (simp add: rs upt_conv_Cons Suc_diff_Suc [symmetric])
qed

text \<open>
  On a controller that is always ready and accepts every byte, PS2_IssueCommand writes the bytes of the
  command in order, the first to the command port when asked to, and returns the last response. When a byte is
  answered with a request to resend, it goes on with the second byte: a command of one byte is not sent again,
  and a command of two bytes whose first byte was refused is completed without it and may report success.
\<close>
theorem issue_command:
  assumes "Str \<noteq> []" "length Str < 2 ^ 32" "length Str \<le> length rs" "PS2_RESPONSE_RESEND \<notin> set (take (length Str) rs)" "length Str < f"
  shows "PS2_IssueCommand f script_dev Junk Str (of_nat (length Str)) t (rs, log) =
      Inr (rs ! (length Str - 1), drop (length Str) rs, log @ map (\<lambda>j. (command_port t j, Str ! j)) [0..<length Str]) \<and>
    PS2_IssueCommand (f + 1) script_dev Junk [c] 1 t (PS2_RESPONSE_RESEND # rs, log) =
      Inr (PS2_RESPONSE_RESEND, rs, log @ [(command_port t 0, c)]) \<and>
    PS2_IssueCommand (f + 2) script_dev Junk [c, c'] 2 t (PS2_RESPONSE_RESEND # PS2_RESPONSE_ACK # rs, log) =
      Inr (PS2_RESPONSE_ACK, rs, log @ [(command_port t 0, c), (command_port t 1, c')])"
proof (intro conjI)
  obtain w where f: "f = Suc w" using assms(5) by (cases f) auto
  have m: "0 < MAX_RESENDS" "1 < MAX_RESENDS" by (simp_all add: MAX_RESENDS_def)
  have "last (Junk # take (length Str) rs) = rs ! (length Str - 1)"
    using assms(1,3) by (cases "rs = []") (auto simp: last_conv_nth)
  then show "PS2_IssueCommand f script_dev Junk Str (of_nat (length Str)) t (rs, log) =
      Inr (rs ! (length Str - 1), drop (length Str) rs, log @ map (\<lambda>j. (command_port t j, Str ! j)) [0..<length Str])"
    using issue_accepted [of 0 Str rs f 0 w t Junk log] assms m by (simp add: PS2_IssueCommand_def f)
  have one: "IssueLoop (Suc f) (Suc f) script_dev [c] 1 t 0 0 Junk (PS2_RESPONSE_RESEND # rs, log) =
      IssueLoop f (Suc f) script_dev [c] 1 t 1 1 PS2_RESPONSE_RESEND (rs, log @ [(command_port t 0, c)])"
    using issue_step [of 0 "[c]" 0 f f t Junk PS2_RESPONSE_RESEND rs log] m by simp
  have two: "IssueLoop (Suc (Suc f)) (Suc (Suc f)) script_dev [c, c'] 2 t 0 0 Junk (PS2_RESPONSE_RESEND # PS2_RESPONSE_ACK # rs, log) =
      IssueLoop (Suc f) (Suc (Suc f)) script_dev [c, c'] 2 t 1 1 PS2_RESPONSE_RESEND (PS2_RESPONSE_ACK # rs, log @ [(command_port t 0, c)])"
    using issue_step [of 0 "[c, c']" 0 "Suc f" "Suc f" t Junk PS2_RESPONSE_RESEND "PS2_RESPONSE_ACK # rs" log] m by simp
  have ack: "PS2_RESPONSE_ACK \<noteq> PS2_RESPONSE_RESEND" by (simp add: PS2_RESPONSE_ACK_def PS2_RESPONSE_RESEND_def)
  have three: "IssueLoop (Suc f) (Suc (Suc f)) script_dev [c, c'] 2 t 1 1 PS2_RESPONSE_RESEND (PS2_RESPONSE_ACK # rs, log @ [(command_port t 0, c)]) =
      IssueLoop f (Suc (Suc f)) script_dev [c, c'] 2 t 2 1 PS2_RESPONSE_ACK (rs, (log @ [(command_port t 0, c)]) @ [(command_port t 1, c')])"
    using issue_step [of 1 "[c, c']" 1 f "Suc f" t PS2_RESPONSE_RESEND PS2_RESPONSE_ACK rs "log @ [(command_port t 0, c)]"] m ack by simp
  show "PS2_IssueCommand (f + 1) script_dev Junk [c] 1 t (PS2_RESPONSE_RESEND # rs, log) =
      Inr (PS2_RESPONSE_RESEND, rs, log @ [(command_port t 0, c)])"
    using one by (simp add: PS2_IssueCommand_def f)
  show "PS2_IssueCommand (f + 2) script_dev Junk [c, c'] 2 t (PS2_RESPONSE_RESEND # PS2_RESPONSE_ACK # rs, log) =
      Inr (PS2_RESPONSE_ACK, rs, log @ [(command_port t 0, c), (command_port t 1, c')])"
    using two three by (simp add: PS2_IssueCommand_def f)
qed

theorem issue_command_witness:
  "PS2_IssueCommand 9 script_dev 0 [0xF0, 0x02] 2 False ([0xFA, 0xFA], []) = Inr (0xFA, [], [(PS2_PORT_DATA, 0xF0), (PS2_PORT_DATA, 0x02)])"
proof -
  have "PS2_IssueCommand 9 script_dev 0 [0xF0, 0x02] (of_nat (length [0xF0, 0x02 :: BYTE])) False ([0xFA, 0xFA], []) =
      Inr ([0xFA, 0xFA :: BYTE] ! (length [0xF0, 0x02 :: BYTE] - 1), drop (length [0xF0, 0x02 :: BYTE]) [0xFA, 0xFA],
        [] @ map (\<lambda>j. (command_port False j, [0xF0, 0x02] ! j)) [0..<length [0xF0, 0x02 :: BYTE]])"
    by (rule issue_command [THEN conjunct1]) (simp_all add: PS2_RESPONSE_RESEND_def)
  then show ?thesis by (simp add: command_port_def)
qed

end
