(* ===== verification/BuiltinDrivers.thy ===== *)
theory BuiltinDrivers
  imports Acpi Ps2Keyboard
begin

text \<open>
  The drivers of the kernel: the ACPI timer, \<^verbatim>\<open>Kernel/Source/Devdriv/Timer/AcpiPmTimer.c\<close>, the NVM Express
  driver, \<^verbatim>\<open>Kernel/Source/Devdriv/BlockDevice/NVMe.c\<close>, and the PS/2 keyboard, with their registration in
  \<^verbatim>\<open>Kernel/Source/Init/KrInitDrivers.c\<close> and the pairing of the devices with them.
\<close>

section \<open>The ACPI timer\<close>

definition ACPI_ADDR_SPACE_MEMORY :: UCHAR where "ACPI_ADDR_SPACE_MEMORY = 0"
definition ACPI_ADDR_SPACE_PORT :: UCHAR where "ACPI_ADDR_SPACE_PORT = 1"
definition ACPI_FADT_FLAG_PM_TIMER_CNTR_IS_32BITS :: DWORD where "ACPI_FADT_FLAG_PM_TIMER_CNTR_IS_32BITS = push_bit 8 1"

definition Fadt_PMTimerLength :: "memory \<Rightarrow> UINTPTR \<Rightarrow> BYTE" where "Fadt_PMTimerLength mem p = mem (p + 91)"
definition Fadt_Flags :: "memory \<Rightarrow> UINTPTR \<Rightarrow> DWORD" where "Fadt_Flags mem p = rd32 mem (p + 112)"
definition Fadt_X_PMTimerBlock_AddrSpace :: "memory \<Rightarrow> UINTPTR \<Rightarrow> BYTE" where "Fadt_X_PMTimerBlock_AddrSpace mem p = mem (p + 208)"
definition Fadt_X_PMTimerBlock_Address :: "memory \<Rightarrow> UINTPTR \<Rightarrow> QWORD" where "Fadt_X_PMTimerBlock_Address mem p = rd64 mem (p + 212)"

record 'd pm_sys = "'d kbd_sys" +
  pmMem :: memory
  pmFadt :: UINTPTR
  pmRna :: rna_sys
  pmMmioHead :: UINTPTR
  AcpiPmTimerDeviceInitialized :: bool
  AcpiPmTimerAddr :: UINTPTR
  AcpiPmTimerBitWidth :: UINT
  AcpiPmTimerAddrSpace :: BYTE

definition pm_attach :: "nat \<Rightarrow> UINTPTR \<Rightarrow> UINTPTR \<Rightarrow> UINTPTR \<Rightarrow> ('d, 'a) pm_sys_scheme \<Rightarrow> ('d, 'a) pm_sys_scheme kres" where
  "pm_attach f Root Dev Drv s =
     (let s1 = upd_dev Dev (\<lambda>n. n\<lparr> pDriver := Drv \<rparr>) s
      in if AcpiPmTimerDeviceInitialized s1 then Inr s1
         else
           let s2 = upd_dev Dev (\<lambda>n. n\<lparr> dnName := ''ACPI Power Management Timer'', pDriverData := pmFadt s1, dnOnBus := BUS_PLATFORM \<rparr>) s1
           in kbind (AddChildDevice f Root Dev s2) (\<lambda>s3. Inr (s3\<lparr> AcpiPmTimerDeviceInitialized := True \<rparr>)))"

definition AcpiPmTimerDriverRegister :: "nat \<Rightarrow> UINTPTR \<Rightarrow> UINTPTR \<Rightarrow> UINTPTR \<Rightarrow> ('d, 'a) pm_sys_scheme \<Rightarrow> (bool \<times> ('d, 'a) pm_sys_scheme) kres" where
  "AcpiPmTimerDriverRegister f Root Dev Drv s =
     kbind (pm_attach f Root Dev Drv s) (\<lambda>s1.
       let mem = pmMem s1; F = pmFadt s1
       in if Fadt_PMTimerLength mem F \<noteq> 4 then Inr (False, s1)
          else
            let s2 = s1\<lparr> AcpiPmTimerBitWidth := (if Fadt_Flags mem F AND ACPI_FADT_FLAG_PM_TIMER_CNTR_IS_32BITS \<noteq> 0 then 32 else 24) \<rparr>
            in if Fadt_X_PMTimerBlock_AddrSpace mem F = ACPI_ADDR_SPACE_MEMORY
               then kbind (MmioMapDevice f (pmRna s2) (pmMmioHead s2) ''ACPI PM Timer Tick'' (Fadt_X_PMTimerBlock_Address mem F) 4096 MMIO_NF)
                      (\<lambda>(v, Head, m).
                        let s3 = s2\<lparr> AcpiPmTimerAddr := v, pmMmioHead := Head, pmRna := m \<rparr>
                        in if v = 0 then Inr (False, s3)
                           else Inr (True, s3\<lparr> AcpiPmTimerAddrSpace := ACPI_ADDR_SPACE_MEMORY \<rparr>))
               else Inr (True, s2\<lparr> AcpiPmTimerAddr := Fadt_X_PMTimerBlock_Address mem F, AcpiPmTimerAddrSpace := ACPI_ADDR_SPACE_PORT \<rparr>))"

definition AcpiPmTimerDriverUnregister :: "('d, 'a) pm_sys_scheme \<Rightarrow> ('d, 'a) pm_sys_scheme" where
  "AcpiPmTimerDriverUnregister s = s\<lparr> AcpiPmTimerAddr := 0, AcpiPmTimerAddrSpace := - 1, AcpiPmTimerBitWidth := 0 \<rparr>"

text \<open>The ticks that are stored through the pointer.\<close>

definition AcpiPmTimerGetTicks :: "'d devices \<Rightarrow> ('d, 'a) pm_sys_scheme \<Rightarrow> 'd \<Rightarrow> DWORD \<times> 'd" where
  "AcpiPmTimerGetTicks dev s d =
     (if AcpiPmTimerAddrSpace s = ACPI_ADDR_SPACE_MEMORY then dev_read32 dev (AcpiPmTimerAddr s) d
      else port_in32 dev (ucast (AcpiPmTimerAddr s)) d)"

definition AcpiPmTimerGetTimerBitWidth :: "('d, 'a) pm_sys_scheme \<Rightarrow> UINT" where
  "AcpiPmTimerGetTimerBitWidth s = AcpiPmTimerBitWidth s"

definition AcpiPmTimerGetTimerFrequency :: UINT where
  "AcpiPmTimerGetTimerFrequency = 3579545"

section \<open>The NVM Express driver\<close>

definition NvmeDevProbe :: "UINTPTR \<Rightarrow> DriverMatchMethod \<Rightarrow> 's \<Rightarrow> (bool \<times> 's) kres" where
  "NvmeDevProbe pDev m s = Inr (True, s)"

definition NvmeDevInit :: "UINTPTR \<Rightarrow> 's \<Rightarrow> (bool \<times> 's) kres" where
  "NvmeDevInit pDev s = Inr (True, s)"

definition NvmeGetSectorSize :: "UINTPTR \<Rightarrow> UINT" where "NvmeGetSectorSize pDev = 0"
definition NvmeGetSectorCount :: "UINTPTR \<Rightarrow> ULONG" where "NvmeGetSectorCount pDev = 0"

definition g_NvmeDriverMatchMethods :: "DriverMatchMethod list" where
  "g_NvmeDriverMatchMethods =
     [\<lparr> mmOnBus = BUS_PCI, mmPci = \<lparr> VaddrCfgSpace = 0, VendorID = PCI_ANY_VENDOR_ID, DeviceID = PCI_ANY_DEVICE_ID, PciBus = PCI_ANY_BUS,
          PciDevice = PCI_ANY_DEVICE, PciFunction = PCI_ANY_FUNCTION, ProgIF = PCI_ANY_PROG_IF, PciClass = PCI_CLASS_MASS_STORAGE_CONTROLLER,
          PciSubClass = PCI_SUBCLASS_NVM_CONTROLLER \<rparr> \<rparr>,
      \<lparr> mmOnBus = BUS_IVLD, mmPci = pci_zero \<rparr>]"

definition g_GenericNvmeDriver :: "'s Driver" where
  "g_GenericNvmeDriver = \<lparr> drvName = ''Ych NVM Express Block Device Driver'', drvType = DRIVER_BLOCK_DEVICE,
     pMatchMethods = Some g_NvmeDriverMatchMethods, Register = None, DevProbe = Some NvmeDevProbe, DevInit = Some NvmeDevInit \<rparr>"

section \<open>The built-in drivers\<close>

text \<open>The addresses of the three driver objects and of the static device nodes.\<close>

record statics =
  aRoot :: UINTPTR
  aPcieRoot :: UINTPTR
  aNvmeDriver :: UINTPTR
  aPmDriver :: UINTPTR
  aPmDevice :: UINTPTR
  aKbdDriver :: UINTPTR
  aKbdDevice :: UINTPTR

definition g_AcpiPmTimerDriver :: "nat \<Rightarrow> statics \<Rightarrow> ('d, 'a) pm_sys_scheme Driver" where
  "g_AcpiPmTimerDriver f st = \<lparr> drvName = ''ACPI Power Management Timer Driver'', drvType = DRIVER_TIMER, pMatchMethods = None,
     Register = Some (AcpiPmTimerDriverRegister f (aRoot st) (aPmDevice st) (aPmDriver st)), DevProbe = None, DevInit = None \<rparr>"

definition g_PS2_KeyboardDriver :: "nat \<Rightarrow> 'd devices \<Rightarrow> ioapic_state \<Rightarrow> BYTE \<Rightarrow> statics \<Rightarrow> ('d, 'a) kbd_sys_scheme Driver" where
  "g_PS2_KeyboardDriver f dev io Junk st = \<lparr> drvName = ''PS/2 Keyboard Driver'', drvType = DRIVER_KEYBOARD, pMatchMethods = None,
     Register = Some (PS2_KeyboardDriverRegister f dev io Junk (aRoot st) (aKbdDevice st) (aKbdDriver st)), DevProbe = None, DevInit = None \<rparr>"

definition builtin_drivers :: "nat \<Rightarrow> 'd devices \<Rightarrow> ioapic_state \<Rightarrow> BYTE \<Rightarrow> statics \<Rightarrow> UINTPTR \<Rightarrow> ('d, 'a) pm_sys_scheme Driver" where
  "builtin_drivers f dev io Junk st p =
     (if p = aNvmeDriver st then g_GenericNvmeDriver
      else if p = aPmDriver st then g_AcpiPmTimerDriver f st
      else g_PS2_KeyboardDriver f dev io Junk st)"

definition InitBuiltinDrivers :: "nat \<Rightarrow> 'd devices \<Rightarrow> ioapic_state \<Rightarrow> BYTE \<Rightarrow> statics \<Rightarrow> ('d, 'a) pm_sys_scheme \<Rightarrow> ('d, 'a) pm_sys_scheme kres" where
  "InitBuiltinDrivers f dev io Junk st s =
     kbind (RegisterDriver f (builtin_drivers f dev io Junk st) (aNvmeDriver st) s) (\<lambda>(_, s1).
     kbind (RegisterDriver f (builtin_drivers f dev io Junk st) (aPmDriver st) s1) (\<lambda>(_, s2).
     kbind (RegisterDriver f (builtin_drivers f dev io Junk st) (aKbdDriver st) s2) (\<lambda>(_, s3). Inr s3)))"

section \<open>Pairing with the built-in drivers\<close>

definition is_nvme :: "DeviceNode \<Rightarrow> bool" where
  "is_nvme n \<longleftrightarrow> dnOnBus n = BUS_PCI \<and> PciClass (dnPci n) = PCI_CLASS_MASS_STORAGE_CONTROLLER \<and> PciSubClass (dnPci n) = PCI_SUBCLASS_NVM_CONTROLLER"

lemma nvme_match:
  "IsDriverCompatibleWithDevice g_GenericNvmeDriver n = Inr (if is_nvme n then Some (hd g_NvmeDriverMatchMethods) else None)"
  by (simp add: IsDriverCompatibleWithDevice_def g_GenericNvmeDriver_def g_NvmeDriverMatchMethods_def PciMatches_def is_nvme_def
      PCI_ANY_CLASS_def PCI_ANY_SUBCLASS_def pcie)

lemma nvme_try:
  assumes "p \<noteq> 0" "d \<noteq> 0" "pDriver (devs s d) = 0" "drv p = g_GenericNvmeDriver"
  shows "TryPairDriverWithDevice drv p d s = Inr (if is_nvme (devs s d) then (True, upd_dev d (\<lambda>n. n\<lparr> pDriver := p \<rparr>) s) else (False, s))"
proof -
  have "DevInit (drv p) = Some NvmeDevInit" "DevProbe (drv p) = Some NvmeDevProbe" unfolding assms(4) by (simp_all add: g_GenericNvmeDriver_def)
  then show ?thesis using assms(1-3) unfolding TryPairDriverWithDevice_def assms(4) nvme_match
    by (simp add: NvmeDevProbe_def NvmeDevInit_def)
qed

lemma quiet_try:
  assumes "DevInit (drv p) = None"
  shows "TryPairDriverWithDevice drv p d s = Inr (False, s)"
  by (simp add: TryPairDriverWithDevice_def assms)

interpretation builtin: answering_drivers "builtin_drivers f dev io Junk st" "filter (\<lambda>p. p \<noteq> 0) ps" "\<lambda>p n. p = aNvmeDriver st \<and> is_nvme n"
  for f dev io Junk st ps
proof
  fix p d and s :: "('a, 'b) pm_sys_scheme"
  assume a: "p \<in> set (filter (\<lambda>p. p \<noteq> 0) ps)" "d \<noteq> 0" "pDriver (devs s d) = 0"
  show "TryPairDriverWithDevice (builtin_drivers f dev io Junk st) p d s =
    Inr (if p = aNvmeDriver st \<and> is_nvme (devs s d) then (True, upd_dev d (\<lambda>n. n\<lparr> pDriver := p \<rparr>) s) else (False, s))"
  proof (cases "p = aNvmeDriver st")
    case True then show ?thesis using a by (subst nvme_try) (simp_all add: builtin_drivers_def)
  next
    case False
    then have "DevInit (builtin_drivers f dev io Junk st p :: ('a, 'b) pm_sys_scheme Driver) = None"
      by (simp add: builtin_drivers_def g_AcpiPmTimerDriver_def g_PS2_KeyboardDriver_def)
    then show ?thesis using False by (simp only: simp_thms if_False quiet_try)
  qed
qed simp

lemma find_same: "a \<in> set ps \<Longrightarrow> find (\<lambda>p. p = a \<and> Q) ps = (if Q then Some a else None)"
  by (induction ps) (auto simp: find_None_iff)

text \<open>
  C24: With the built-in drivers loaded and a well-formed device tree, GlobalDevdrivPairAttempt terminates, with
  fuel for three times the number of devices: every device of the tree without a driver that is a PCI mass
  storage controller of the NVM subclass is bound to the NVM Express driver, no other device changes, and the
  result is the number of devices bound, although the nested loops visit most devices several times.
\<close>
theorem pair_attempt:
  assumes "forest_at (devs s) Root ts" "pTable s \<noteq> 0" "unat (NrLoaded s) = length ps" "\<forall>i < length ps. DrvTable s i = ps ! i"
    "0 \<notin> set ps" "aNvmeDriver st \<in> set ps" "3 * length (forest_nodes ts) + length ps + 3 \<le> f"
  shows "GlobalDevdrivPairAttempt f (builtin_drivers fd dev io Junk st) Root s =
    Inr (of_nat (card {x \<in> set (forest_nodes ts). pDriver (devs s x) = 0 \<and> is_nvme (devs s x)}),
      s\<lparr> devs := (\<lambda>x. if x \<in> set (forest_nodes ts) \<and> pDriver (devs s x) = 0 \<and> is_nvme (devs s x)
        then (devs s x)\<lparr> pDriver := aNvmeDriver st \<rparr> else devs s x) \<rparr>)"
proof -
  have ps: "filter (\<lambda>p. p \<noteq> 0) ps = ps" using assms(5) by (auto simp: filter_id_conv)
  have ch: "answering_drivers.chosen ps (\<lambda>p n. p = aNvmeDriver st \<and> is_nvme n) n =
      (if pDriver n = 0 \<and> is_nvme n then Some (aNvmeDriver st) else None)" for n
    unfolding builtin.chosen_def [of ps, unfolded ps] by (simp only: find_same [OF assms(6)]) simp
  have node: "answering_drivers.pair_node ps (\<lambda>p n. p = aNvmeDriver st \<and> is_nvme n) n =
      (if pDriver n = 0 \<and> is_nvme n then n\<lparr> pDriver := aNvmeDriver st \<rparr> else n)" for n
    unfolding builtin.pair_node_def [of ps, unfolded ps] ch by simp
  have ld: "answering_drivers.loaded ps s" unfolding builtin.loaded_def [of ps, unfolded ps] using assms(2-4) by blast
  have "LocalDevdrivPairAttempt f (builtin_drivers fd dev io Junk st) 0 Root s =
    Inr (0 + of_nat (answering_drivers.pairs ps (\<lambda>p n. p = aNvmeDriver st \<and> is_nvme n) (set (forest_nodes ts)) s),
      answering_drivers.pair_nodes ps (\<lambda>p n. p = aNvmeDriver st \<and> is_nvme n) (set (forest_nodes ts)) s)"
    using builtin.attempts [of ps, unfolded ps, THEN conjunct1, rule_format, OF conjI, OF ld conjI, OF assms(1)] assms(7) by blast
  moreover have "{x \<in> set (forest_nodes ts). (if pDriver (devs s x) = 0 \<and> is_nvme (devs s x) then Some (aNvmeDriver st) else None) \<noteq> None} =
      {x \<in> set (forest_nodes ts). pDriver (devs s x) = 0 \<and> is_nvme (devs s x)}" by (rule Collect_cong) simp
  moreover have "(\<lambda>x. if x \<in> set (forest_nodes ts) then if pDriver (devs s x) = 0 \<and> is_nvme (devs s x) then (devs s x)\<lparr> pDriver := aNvmeDriver st \<rparr> else devs s x else devs s x) =
      (\<lambda>x. if x \<in> set (forest_nodes ts) \<and> pDriver (devs s x) = 0 \<and> is_nvme (devs s x) then (devs s x)\<lparr> pDriver := aNvmeDriver st \<rparr> else devs s x)"
    by (rule ext) simp
  ultimately show ?thesis
    unfolding GlobalDevdrivPairAttempt_def builtin.pairs_def [of ps, unfolded ps] builtin.pair_nodes_def [of ps, unfolded ps] ch node
    by (simp only: add_0)
qed

definition wit_statics :: statics where
  "wit_statics = \<lparr> aRoot = 16, aPcieRoot = 32, aNvmeDriver = 48, aPmDriver = 64, aPmDevice = 80, aKbdDriver = 96, aKbdDevice = 112 \<rparr>"

text \<open>A root at 16 with one child at 32, a controller of the right class.\<close>

definition wit_pair :: "script pm_sys" where
  "wit_pair = \<lparr> devs = (\<lambda>x. if x = 16 then device_zero\<lparr> p1stKid := 32 \<rparr>
       else device_zero\<lparr> dnOnBus := BUS_PCI, dnPci := pci_zero\<lparr> PciClass := PCI_CLASS_MASS_STORAGE_CONTROLLER, PciSubClass := PCI_SUBCLASS_NVM_CONTROLLER \<rparr> \<rparr>),
     g_DeviceCount = 2, dheap = wit_heap2, pTable = 8, DrvTable = (\<lambda>_. 48), NrLoaded = 1, NrCap = 32, bRegistered = (\<lambda>_. False),
     kHw = ([], []), kCpus = [], kCpuIDs = [], kAldistIdx = 0, kDeviceInitialized = False, kKbd = kbd_init,
     pmMem = (\<lambda>_. 0), pmFadt = 0, pmRna = wit_vmr, pmMmioHead = 0, AcpiPmTimerDeviceInitialized = False, AcpiPmTimerAddr = 0,
     AcpiPmTimerBitWidth = 0, AcpiPmTimerAddrSpace = 0 \<rparr>"

theorem pair_attempt_witness:
  "\<exists>s'. GlobalDevdrivPairAttempt 10 (builtin_drivers 0 script_dev wit_ioapics 0 wit_statics) 16 wit_pair = Inr (1, s') \<and> pDriver (devs s' 32) = 48"
proof -
  have f: "forest_at (devs wit_pair) 16 [DNode 16 [DNode 32 []]]" by (simp add: wit_pair_def device_zero_def)
  have "{x \<in> set (forest_nodes [DNode 16 [DNode 32 []]]). pDriver (devs wit_pair x) = 0 \<and> is_nvme (devs wit_pair x)} = {32}"
    by (auto simp: wit_pair_def device_zero_def is_nvme_def pci_zero_def)
  then have c: "card {x \<in> set (forest_nodes [DNode 16 [DNode 32 []]]). pDriver (devs wit_pair x) = 0 \<and> is_nvme (devs wit_pair x)} = 1" by simp
  have t: "pTable wit_pair \<noteq> 0" "unat (NrLoaded wit_pair) = length [48 :: UINTPTR]" "\<forall>i < length [48 :: UINTPTR]. DrvTable wit_pair i = [48] ! i"
    by (simp_all add: wit_pair_def)
  have st: "aNvmeDriver wit_statics \<in> set [48]" "aNvmeDriver wit_statics = 48" by (simp_all add: wit_statics_def)
  have n: "pDriver (devs wit_pair 32) = 0 \<and> is_nvme (devs wit_pair 32)" by (simp add: wit_pair_def device_zero_def is_nvme_def pci_zero_def)
  show ?thesis using pair_attempt [OF f t _ st(1), of 10 0 script_dev wit_ioapics 0] n c st(2) by simp
qed

end
