(* ===== verification/Timers.thy ===== *)
theory Timers
  imports Kheap Interrupts
begin

text \<open>
  Timer events, \<^verbatim>\<open>SetTimer\<close>, \<^verbatim>\<open>Sleep\<close> and their helpers of \<^verbatim>\<open>Kernel/Source/CPU/PerCpu.c\<close> and the timer
  interrupt of \<^verbatim>\<open>Kernel/Source/Intmgmt/Timer.c\<close>. The state is that of the running processor: its structure,
  the store of timer events, the kernel heap and the initial count register of its interrupt controller.
  A callback is an address; what the code at an address does is a parameter.
\<close>

section \<open>State\<close>

definition TIMER_EVENT_FLAGS_USECONDS_AS_TICKS :: DWORD where "TIMER_EVENT_FLAGS_USECONDS_AS_TICKS = push_bit 31 1"
definition MAX_CONCURRENT_SLEEPS :: UCHAR where "MAX_CONCURRENT_SLEEPS = 8"
definition sizeof_TimerEvent :: SIZE where "sizeof_TimerEvent = 40"

record TimerEvent =
  teNext :: UINTPTR
  LastTickCount :: ULONG
  Callback :: UINTPTR
  UserParam :: UINTPTR
  dwFlags :: DWORD

record timer_sys =
  this_cpu :: PerCpu
  tevents :: "UINTPTR \<Rightarrow> TimerEvent"
  theap :: heap
  INITCR :: DWORD

type_synonym 'a callbacks = "UINTPTR \<Rightarrow> UINTPTR \<Rightarrow> 'a timer_sys_scheme \<Rightarrow> 'a timer_sys_scheme kres"

definition upd_timer :: "(TimerInfo \<Rightarrow> TimerInfo) \<Rightarrow> 'a timer_sys_scheme \<Rightarrow> 'a timer_sys_scheme" where
  "upd_timer g s = s\<lparr> this_cpu := (this_cpu s)\<lparr> TimerInf := g (TimerInf (this_cpu s)) \<rparr> \<rparr>"

definition upd_event :: "UINTPTR \<Rightarrow> (TimerEvent \<Rightarrow> TimerEvent) \<Rightarrow> 'a timer_sys_scheme \<Rightarrow> 'a timer_sys_scheme" where
  "upd_event p g s = s\<lparr> tevents := (tevents s)(p := g (tevents s p)) \<rparr>"

definition ApicSetTimerCount :: "DWORD \<Rightarrow> 'a timer_sys_scheme \<Rightarrow> 'a timer_sys_scheme" where
  "ApicSetTimerCount dwInitCnt s = s\<lparr> INITCR := dwInitCnt \<rparr>"

definition ApicGetTimerInitialCount :: "'a timer_sys_scheme \<Rightarrow> DWORD" where
  "ApicGetTimerInitialCount s = INITCR s"

section \<open>Setting a timer\<close>

fun InsertPointLoop :: "nat \<Rightarrow> (UINTPTR \<Rightarrow> TimerEvent) \<Rightarrow> UINTPTR \<Rightarrow> UINTPTR \<Rightarrow> ULONG \<Rightarrow> UINTPTR kres" where
  "InsertPointLoop 0 ev Prev Event NrTicks = Inl OutOfFuel"
| "InsertPointLoop (Suc f) ev Prev Event NrTicks =
     (if Event = 0 then Inr Prev
      else if NrTicks \<le> LastTickCount (ev Event) then Inr Prev
      else InsertPointLoop f ev Event (teNext (ev Event)) NrTicks)"

definition FindTimerEventInsertPoint :: "nat \<Rightarrow> (UINTPTR \<Rightarrow> TimerEvent) \<Rightarrow> UINTPTR \<Rightarrow> ULONG \<Rightarrow> UINTPTR kres" where
  "FindTimerEventInsertPoint f ev Root NrTicks = InsertPointLoop f ev 0 Root NrTicks"

definition root_of :: "'a timer_sys_scheme \<Rightarrow> UINTPTR" where
  "root_of s = (let t = TimerInf (this_cpu s) in if bInTimerInt t then TimerDeferredRoot t else TimerRoot t)"

definition set_root :: "UINTPTR \<Rightarrow> 'a timer_sys_scheme \<Rightarrow> 'a timer_sys_scheme" where
  "set_root p s = upd_timer (\<lambda>t. if bInTimerInt t then t\<lparr> TimerDeferredRoot := p \<rparr> else t\<lparr> TimerRoot := p \<rparr>) s"

text \<open>The count written for a root event: at most what the register holds.\<close>

definition armed_count :: "ULONG \<Rightarrow> DWORD" where
  "armed_count n = ucast (min (ucast DWORD_MAX) n)"

definition SetTimer :: "nat \<Rightarrow> 'a timer_sys_scheme \<Rightarrow> ULONG \<Rightarrow> UINTPTR \<Rightarrow> UINTPTR \<Rightarrow> DWORD \<Rightarrow> (bool \<times> 'a timer_sys_scheme) kres" where
  "SetTimer f s uSeconds cbk param flags =
     (let s1 = ApicSetTimerCount 0 s;
          (NrTicks, flags1) =
            (if flags AND TIMER_EVENT_FLAGS_USECONDS_AS_TICKS = 0
             then (uSeconds * ucast (CalibrationValue (TimerInf (this_cpu s1))), flags)
             else (uSeconds, flags AND NOT TIMER_EVENT_FLAGS_USECONDS_AS_TICKS))
      in kbind (HeapAcquire f (theap s1) sizeof_TimerEvent) (\<lambda>(Event, h).
           let s2 = s1\<lparr> theap := h \<rparr>
           in if Event = 0 then Inr (False, ApicSetTimerCount (ApicGetTimerInitialCount s2) s2)
              else
                let s3 = upd_event Event (\<lambda>e. e\<lparr> LastTickCount := NrTicks, Callback := cbk, UserParam := param, dwFlags := flags1 \<rparr>) s2
                in kbind (FindTimerEventInsertPoint f (tevents s3) (root_of s3) NrTicks) (\<lambda>InsertAfter.
                     let s4 = (if InsertAfter \<noteq> 0
                               then upd_event InsertAfter (\<lambda>e. e\<lparr> teNext := Event \<rparr>)
                                      (upd_event Event (\<lambda>e. e\<lparr> teNext := teNext (tevents s3 InsertAfter) \<rparr>) s3)
                               else set_root Event (upd_event Event (\<lambda>e. e\<lparr> teNext := root_of s3 \<rparr>) s3))
                     in Inr (True,
                          if bInTimerInt (TimerInf (this_cpu s4)) then s4
                          else ApicSetTimerCount (armed_count (LastTickCount (tevents s4 (TimerRoot (TimerInf (this_cpu s4)))))) s4))))"

section \<open>The timer interrupt\<close>

text \<open>The first loop runs and frees the due events and returns the first event that is not due.\<close>

fun ExpireLoop :: "nat \<Rightarrow> 'a callbacks \<Rightarrow> DWORD \<Rightarrow> UINTPTR \<Rightarrow> 'a timer_sys_scheme \<Rightarrow> (UINTPTR \<times> 'a timer_sys_scheme) kres" where
  "ExpireLoop 0 cb n Event s = Inl OutOfFuel"
| "ExpireLoop (Suc f) cb n Event s =
     (if Event = 0 then Inr (0, s)
      else if LastTickCount (tevents s Event) \<le> ucast n
      then kbind (if Callback (tevents s Event) \<noteq> 0 then cb (Callback (tevents s Event)) (UserParam (tevents s Event)) s else Inr s) (\<lambda>s1.
             let Nxt = teNext (tevents s1 Event);
                 s2 = upd_timer (\<lambda>t. t\<lparr> TimerRoot := Nxt \<rparr>) s1
             in kbind (HeapRelinquish (theap s2) Event) (\<lambda>(_, h). ExpireLoop f cb n Nxt (s2\<lparr> theap := h \<rparr>)))
      else Inr (Event, s))"

fun ReduceLoop :: "nat \<Rightarrow> DWORD \<Rightarrow> UINTPTR \<Rightarrow> 'a timer_sys_scheme \<Rightarrow> 'a timer_sys_scheme kres" where
  "ReduceLoop 0 n Event s = Inl OutOfFuel"
| "ReduceLoop (Suc f) n Event s =
     (if Event = 0 then Inr s
      else ReduceLoop f n (teNext (tevents s Event)) (upd_event Event (\<lambda>e. e\<lparr> LastTickCount := LastTickCount e - ucast n \<rparr>) s))"

fun DeferredLoop :: "nat \<Rightarrow> UINTPTR \<Rightarrow> 'a timer_sys_scheme \<Rightarrow> 'a timer_sys_scheme kres" where
  "DeferredLoop 0 Event s = Inl OutOfFuel"
| "DeferredLoop (Suc f) Event s =
     (if Event = 0 then Inr s
      else
        let e = tevents s Event
        in kbind (SetTimer f s (LastTickCount e) (Callback e) (UserParam e) (dwFlags e OR TIMER_EVENT_FLAGS_USECONDS_AS_TICKS)) (\<lambda>(_, s1).
             let Nxt = teNext (tevents s1 Event)
             in kbind (HeapRelinquish (theap s1) Event) (\<lambda>(_, h). DeferredLoop f Nxt (s1\<lparr> theap := h \<rparr>))))"

definition IntmgmtTimerInterrupt :: "nat \<Rightarrow> 'a callbacks \<Rightarrow> 'a timer_sys_scheme \<Rightarrow> 'a timer_sys_scheme kres" where
  "IntmgmtTimerInterrupt f cb s =
     (let s1 = upd_timer (\<lambda>t. t\<lparr> bInTimerInt := True \<rparr>) s;
          n = ApicGetTimerInitialCount s1
      in kbind (ExpireLoop f cb n (TimerRoot (TimerInf (this_cpu s1))) s1) (\<lambda>(Event, s2).
         kbind (ReduceLoop f n Event s2) (\<lambda>s3.
           let s4 = upd_timer (\<lambda>t. t\<lparr> bInTimerInt := False \<rparr>) s3
           in kbind (DeferredLoop f (TimerDeferredRoot (TimerInf (this_cpu s4))) s4) (\<lambda>s5.
                let s6 = upd_timer (\<lambda>t. t\<lparr> TimerDeferredRoot := 0 \<rparr>) s5;
                    r = TimerRoot (TimerInf (this_cpu s6))
                in Inr (if r \<noteq> 0 then ApicSetTimerCount (armed_count (LastTickCount (tevents s6 r))) s6 else s6)))))"

section \<open>Sleeping\<close>

text \<open>
  Sleep up to its halting loop, and the test that ends the loop. \<open>Done\<close> is the address of SleepDoneCallback.
  The ballot is the lowest set bit of the counter, not the lowest clear one.
\<close>

definition SleepBallot :: "UCHAR \<Rightarrow> UCHAR" where
  "SleepBallot c = (if c = 0 then 0 else of_nat (ctz (ucast c :: UINT)))"

definition SleepStart :: "nat \<Rightarrow> UINTPTR \<Rightarrow> 'a timer_sys_scheme \<Rightarrow> ULONG \<Rightarrow> (UCHAR \<times> 'a timer_sys_scheme) kres" where
  "SleepStart f Done s uSeconds =
     (if bInTimerInt (TimerInf (this_cpu s)) then Inl (Meltdown KR_MDCODE_SLEEP_INSIDE_TIMER_CALLBACK)
      else
        let Ballot = SleepBallot (SleepCounter (TimerInf (this_cpu s)))
        in if \<not> Ballot < MAX_CONCURRENT_SLEEPS then Inl (Meltdown KR_MDCODE_ABSURD_CONCURRENT_SLEEPS)
           else
             let s1 = upd_timer (\<lambda>t. t\<lparr> SleepCounter := SleepCounter t OR push_bit (unat Ballot) 1 \<rparr>) s
             in kbind (SetTimer f s1 uSeconds Done (ucast Ballot) 0) (\<lambda>(_, s2). Inr (Ballot, s2)))"

definition SleepOver :: "'a timer_sys_scheme \<Rightarrow> UCHAR \<Rightarrow> bool" where
  "SleepOver s Ballot \<longleftrightarrow> SleepCounter (TimerInf (this_cpu s)) AND push_bit (unat Ballot) 1 = 0"

definition SleepDoneCallback :: "UINTPTR \<Rightarrow> 'a timer_sys_scheme \<Rightarrow> 'a timer_sys_scheme" where
  "SleepDoneCallback Aux s =
     upd_timer (\<lambda>t. t\<lparr> SleepCounter := SleepCounter t AND NOT (push_bit (unat (ucast Aux :: UCHAR)) 1) \<rparr>) s"

section \<open>Timer queues\<close>

primrec tqueue :: "(UINTPTR \<Rightarrow> TimerEvent) \<Rightarrow> UINTPTR \<Rightarrow> UINTPTR list \<Rightarrow> bool" where
  "tqueue ev p [] \<longleftrightarrow> p = 0"
| "tqueue ev p (x # xs) \<longleftrightarrow> p = x \<and> x \<noteq> 0 \<and> tqueue ev (teNext (ev x)) xs"

definition tsorted :: "(UINTPTR \<Rightarrow> TimerEvent) \<Rightarrow> UINTPTR list \<Rightarrow> bool" where
  "tsorted ev xs \<longleftrightarrow> distinct xs \<and> sorted (map (\<lambda>x. LastTickCount (ev x)) xs)"

lemma tqueue_cong: "(\<And>x. x \<in> set xs \<Longrightarrow> teNext (ev' x) = teNext (ev x)) \<Longrightarrow> tqueue ev' p xs = tqueue ev p xs"
  by (induction xs arbitrary: p) auto

lemma tqueue_hd: "tqueue ev p xs \<Longrightarrow> p = hd_or 0 xs"
  by (cases xs) auto

lemma tqueue_nonzero: "tqueue ev p xs \<Longrightarrow> 0 \<notin> set xs"
  by (induction xs arbitrary: p) auto

lemma tqueue_append: "tqueue ev p (xs @ ys) \<Longrightarrow> tqueue ev (hd_or 0 ys) ys"
  by (induction xs arbitrary: p) (auto dest: tqueue_hd)

lemma timer_upd_simps [simp]:
  "tevents (upd_timer g s) = tevents s" "theap (upd_timer g s) = theap s" "INITCR (upd_timer g s) = INITCR s"
  "TimerInf (this_cpu (upd_timer g s)) = g (TimerInf (this_cpu s))" "timer_sys.more (upd_timer g s) = timer_sys.more s"
  "tevents (upd_event p k s) = (tevents s)(p := k (tevents s p))" "theap (upd_event p k s) = theap s"
  "INITCR (upd_event p k s) = INITCR s" "this_cpu (upd_event p k s) = this_cpu s" "timer_sys.more (upd_event p k s) = timer_sys.more s"
  "tevents (ApicSetTimerCount n s) = tevents s" "theap (ApicSetTimerCount n s) = theap s" "INITCR (ApicSetTimerCount n s) = n"
  "this_cpu (ApicSetTimerCount n s) = this_cpu s" "timer_sys.more (ApicSetTimerCount n s) = timer_sys.more s"
  by (simp_all add: upd_timer_def upd_event_def ApicSetTimerCount_def)

section \<open>Expiry\<close>

text \<open>Freeing events one after the other.\<close>

primrec relinquish_all :: "heap \<Rightarrow> UINTPTR list \<Rightarrow> heap kres" where
  "relinquish_all h [] = Inr h"
| "relinquish_all h (x # xs) = kbind (HeapRelinquish h x) (\<lambda>(_, h). relinquish_all h xs)"

text \<open>What the callbacks of a list of events do to the rest of the system, in order.\<close>

definition run_callback :: "(UINTPTR \<Rightarrow> UINTPTR \<Rightarrow> 'a \<Rightarrow> 'a) \<Rightarrow> TimerEvent \<Rightarrow> 'a \<Rightarrow> 'a" where
  "run_callback eff e m = (if Callback e \<noteq> 0 then eff (Callback e) (UserParam e) m else m)"

text \<open>Callbacks that act outside the timers of this processor.\<close>

definition outside_callbacks :: "'a callbacks \<Rightarrow> (UINTPTR \<Rightarrow> UINTPTR \<Rightarrow> 'a \<Rightarrow> 'a) \<Rightarrow> bool" where
  "outside_callbacks cb eff \<longleftrightarrow> (\<forall>c p s. cb c p s = Inr (s\<lparr> timer_sys.more := eff c p (timer_sys.more s) \<rparr>))"

lemma expire_loop:
  assumes "outside_callbacks cb eff"
  shows "tqueue (tevents s) E xs \<Longrightarrow> length xs < f \<Longrightarrow>
    relinquish_all (theap s) (takeWhile (\<lambda>x. LastTickCount (tevents s x) \<le> ucast n) xs) = Inr h \<Longrightarrow>
    \<exists>s'. ExpireLoop f cb n E s = Inr (hd_or 0 (dropWhile (\<lambda>x. LastTickCount (tevents s x) \<le> ucast n) xs), s') \<and>
      tevents s' = tevents s \<and> theap s' = h \<and>
      TimerInf (this_cpu s') = (if takeWhile (\<lambda>x. LastTickCount (tevents s x) \<le> ucast n) xs = [] then TimerInf (this_cpu s)
        else (TimerInf (this_cpu s))\<lparr> TimerRoot := hd_or 0 (dropWhile (\<lambda>x. LastTickCount (tevents s x) \<le> ucast n) xs) \<rparr>) \<and>
      timer_sys.more s' = fold (\<lambda>x. run_callback eff (tevents s x)) (takeWhile (\<lambda>x. LastTickCount (tevents s x) \<le> ucast n) xs) (timer_sys.more s)"
proof (induction xs arbitrary: E f s)
  case Nil
  then show ?case by (cases f) auto
next
  case (Cons x xs)
  obtain g where f: "f = Suc g" using Cons.prems by (cases f) auto
  have E: "E = x" "x \<noteq> 0" "tqueue (tevents s) (teNext (tevents s x)) xs" using Cons.prems(1) by auto
  show ?case
  proof (cases "LastTickCount (tevents s x) \<le> ucast n")
    case False
    then show ?thesis using Cons.prems E by (simp add: f)
  next
    case True
    define s1 where "s1 = s\<lparr> timer_sys.more := run_callback eff (tevents s x) (timer_sys.more s) \<rparr>"
    have c: "(if Callback (tevents s x) \<noteq> 0 then cb (Callback (tevents s x)) (UserParam (tevents s x)) s else Inr s) = Inr s1"
      using assms by (simp add: outside_callbacks_def s1_def run_callback_def)
    obtain b h1 where h1: "HeapRelinquish (theap s) x = Inr (b, h1)"
      "relinquish_all h1 (takeWhile (\<lambda>x. LastTickCount (tevents s x) \<le> ucast n) xs) = Inr h"
      using Cons.prems(3) True by (auto simp: kbind_eq_Inr)
    define s2 where "s2 = upd_timer (\<lambda>t. t\<lparr> TimerRoot := teNext (tevents s x) \<rparr>) s1\<lparr> theap := h1 \<rparr>"
    have s2: "tevents s2 = tevents s" "theap s2 = h1" "TimerInf (this_cpu s2) = (TimerInf (this_cpu s))\<lparr> TimerRoot := teNext (tevents s x) \<rparr>"
      "timer_sys.more s2 = run_callback eff (tevents s x) (timer_sys.more s)"
      by (simp_all add: s2_def s1_def upd_timer_def)
    have step: "ExpireLoop f cb n E s = ExpireLoop g cb n (teNext (tevents s x)) s2"
      using True E h1 by (simp add: f c s2_def s1_def upd_timer_def Let_def)
    obtain s' where s': "ExpireLoop g cb n (teNext (tevents s x)) s2 = Inr (hd_or 0 (dropWhile (\<lambda>x. LastTickCount (tevents s x) \<le> ucast n) xs), s')"
      "tevents s' = tevents s" "theap s' = h"
      "TimerInf (this_cpu s') = (if takeWhile (\<lambda>x. LastTickCount (tevents s x) \<le> ucast n) xs = [] then TimerInf (this_cpu s2)
        else (TimerInf (this_cpu s2))\<lparr> TimerRoot := hd_or 0 (dropWhile (\<lambda>x. LastTickCount (tevents s x) \<le> ucast n) xs) \<rparr>)"
      "timer_sys.more s' = fold (\<lambda>x. run_callback eff (tevents s x)) (takeWhile (\<lambda>x. LastTickCount (tevents s x) \<le> ucast n) xs) (timer_sys.more s2)"
      using Cons.IH [of s2 "teNext (tevents s x)" g] E(3) Cons.prems(2) h1(2) f by (auto simp: s2)
    have "TimerInf (this_cpu s') = (TimerInf (this_cpu s))\<lparr> TimerRoot := hd_or 0 (dropWhile (\<lambda>x. LastTickCount (tevents s x) \<le> ucast n) xs) \<rparr>"
    proof (cases "takeWhile (\<lambda>x. LastTickCount (tevents s x) \<le> ucast n) xs = []")
      case True
      then have "dropWhile (\<lambda>x. LastTickCount (tevents s x) \<le> ucast n) xs = xs" by (metis append_Nil takeWhile_dropWhile_id)
      then show ?thesis using s'(4) True tqueue_hd [OF E(3)] by (simp add: s2)
    next
      case False
      then show ?thesis using s'(4) by (simp add: s2)
    qed
    then show ?thesis using s' True by (simp add: step s2)
  qed
qed

lemma reduce_loop:
  "tqueue (tevents s) E xs \<Longrightarrow> distinct xs \<Longrightarrow> length xs < f \<Longrightarrow>
    \<exists>s'. ReduceLoop f n E s = Inr s' \<and> theap s' = theap s \<and> this_cpu s' = this_cpu s \<and> timer_sys.more s' = timer_sys.more s \<and>
      (\<forall>x. tevents s' x = (if x \<in> set xs then (tevents s x)\<lparr> LastTickCount := LastTickCount (tevents s x) - ucast n \<rparr> else tevents s x))"
proof (induction xs arbitrary: E f s)
  case Nil
  then show ?case by (cases f) auto
next
  case (Cons x xs)
  obtain g where f: "f = Suc g" using Cons.prems by (cases f) auto
  define s1 where "s1 = upd_event x (\<lambda>e. e\<lparr> LastTickCount := LastTickCount e - ucast n \<rparr>) s"
  have q: "tqueue (tevents s1) (teNext (tevents s x)) xs"
    using Cons.prems(1) tqueue_cong [of xs "tevents s1" "tevents s"] by (simp add: s1_def)
  obtain s' where s': "ReduceLoop g n (teNext (tevents s x)) s1 = Inr s'" "theap s' = theap s1" "this_cpu s' = this_cpu s1"
    "timer_sys.more s' = timer_sys.more s1"
    "\<forall>y. tevents s' y = (if y \<in> set xs then (tevents s1 y)\<lparr> LastTickCount := LastTickCount (tevents s1 y) - ucast n \<rparr> else tevents s1 y)"
    using Cons.IH [OF q, of g] Cons.prems f by auto
  then show ?case using Cons.prems by (simp add: f s1_def)
qed


lemma sorted_rest:
  assumes "tsorted ev xs" "x \<in> set (dropWhile (\<lambda>x. LastTickCount (ev x) \<le> m) xs)"
  shows "m < LastTickCount (ev x)"
  using assms
proof (induction xs)
  case (Cons y ys)
  show ?case
  proof (cases "LastTickCount (ev y) \<le> m")
    case True then show ?thesis using Cons by (simp add: tsorted_def)
  next
    case False
    then have "LastTickCount (ev y) \<le> LastTickCount (ev x)" using Cons.prems by (auto simp: tsorted_def)
    then show ?thesis using False by simp
  qed
qed simp


section \<open>Insertion\<close>

lemma insert_point_loop:
  "tqueue ev E xs \<Longrightarrow> length xs < f \<Longrightarrow> InsertPointLoop f ev q E N = Inr (last_or q (takeWhile (\<lambda>x. LastTickCount (ev x) < N) xs))"
proof (induction xs arbitrary: E f q)
  case Nil
  then show ?case by (cases f) auto
next
  case (Cons x xs)
  then show ?case by (cases f) (auto simp: not_less not_le)
qed

lemma tqueue_insert:
  "tqueue ev a (ys @ zs) \<Longrightarrow> ys \<noteq> [] \<Longrightarrow> p \<noteq> 0 \<Longrightarrow>
    (\<And>x. x \<in> set (butlast ys) \<union> set zs \<Longrightarrow> teNext (ev' x) = teNext (ev x)) \<Longrightarrow>
    teNext (ev' (last ys)) = p \<Longrightarrow> teNext (ev' p) = hd_or 0 zs \<Longrightarrow> tqueue ev' a (ys @ p # zs)"
proof (induction ys arbitrary: a)
  case (Cons y ys)
  show ?case
  proof (cases "ys = []")
    case True
    then have q: "tqueue ev (teNext (ev y)) zs" using Cons.prems(1) by simp
    then have "tqueue ev (hd_or 0 zs) zs" using tqueue_hd [OF q] by simp
    then have "tqueue ev' (hd_or 0 zs) zs" using tqueue_cong [of zs ev' ev] Cons.prems(4) by simp
    then show ?thesis using True Cons.prems by simp
  next
    case False
    then have "y \<in> set (butlast (y # ys))" by simp
    then have "teNext (ev' y) = teNext (ev y)" using Cons.prems(4) by blast
    moreover have "tqueue ev' (teNext (ev y)) (ys @ p # zs)"
      by (rule Cons.IH) (use Cons.prems False in auto)
    ultimately show ?thesis using Cons.prems(1) by simp
  qed
qed simp

text \<open>The ticks of a request.\<close>

definition request_ticks :: "'a timer_sys_scheme \<Rightarrow> ULONG \<Rightarrow> DWORD \<Rightarrow> ULONG" where
  "request_ticks s uSeconds flags =
     (if flags AND TIMER_EVENT_FLAGS_USECONDS_AS_TICKS = 0 then uSeconds * ucast (CalibrationValue (TimerInf (this_cpu s))) else uSeconds)"

text \<open>
  C29: SetTimer outside the timer interrupt, when the heap gives it a fresh block, inserts the new event into
  the sorted queue behind the events with fewer ticks and before all others, and arms the controller with
  the ticks of the first event. It does not look at the current count, so the ticks the other events have
  already waited since the last interrupt are not deducted. When the heap has no block it leaves the
  controller stopped, with an initial count of 0, and the queued events never fire.
\<close>
theorem set_timer:
  assumes "tqueue (tevents s) (TimerRoot (TimerInf (this_cpu s))) xs" "tsorted (tevents s) xs" "\<not> bInTimerInt (TimerInf (this_cpu s))"
    "length xs < f" "HeapAcquire f (theap s) sizeof_TimerEvent = Inr (p, h)" "p \<notin> set xs" "N = request_ticks s us flags"
  shows "if p = 0 then \<exists>s'. SetTimer f s us cbk param flags = Inr (False, s') \<and> INITCR s' = 0 \<and> tevents s' = tevents s \<and>
      TimerInf (this_cpu s') = TimerInf (this_cpu s)
    else \<exists>s' ys zs. SetTimer f s us cbk param flags = Inr (True, s') \<and> xs = ys @ zs \<and>
      (\<forall>x \<in> set ys. LastTickCount (tevents s x) < N) \<and> (\<forall>x \<in> set zs. N \<le> LastTickCount (tevents s x)) \<and>
      tqueue (tevents s') (TimerRoot (TimerInf (this_cpu s'))) (ys @ p # zs) \<and> tsorted (tevents s') (ys @ p # zs) \<and>
      LastTickCount (tevents s' p) = N \<and> Callback (tevents s' p) = cbk \<and> UserParam (tevents s' p) = param \<and>
      (\<forall>x \<in> set xs. LastTickCount (tevents s' x) = LastTickCount (tevents s x) \<and> Callback (tevents s' x) = Callback (tevents s x)) \<and>
      INITCR s' = armed_count (LastTickCount (tevents s' (hd (ys @ p # zs))))"
proof -
  define fl where "fl = (if flags AND TIMER_EVENT_FLAGS_USECONDS_AS_TICKS = 0 then flags else flags AND NOT TIMER_EVENT_FLAGS_USECONDS_AS_TICKS)"
  define s1 where "s1 = ApicSetTimerCount 0 s"
  define s2 where "s2 = s1\<lparr> theap := h \<rparr>"
  have b: "tevents s2 = tevents s" "this_cpu s2 = this_cpu s" "this_cpu s1 = this_cpu s" "theap s1 = theap s" "INITCR s2 = 0"
    by (simp_all add: s1_def s2_def)
  have Nf: "(if flags AND TIMER_EVENT_FLAGS_USECONDS_AS_TICKS = 0 then (us * ucast (CalibrationValue (TimerInf (this_cpu s1))), flags)
      else (us, flags AND NOT TIMER_EVENT_FLAGS_USECONDS_AS_TICKS)) = (N, fl)"
    by (simp add: assms(7) request_ticks_def fl_def b(3))
  note st = SetTimer_def [of f s us cbk param flags, unfolded Let_def s1_def [symmetric] Nf prod.case b(4) assms(5) kbind_Inr s2_def [symmetric]]
  show ?thesis
  proof (cases "p = 0")
    case True
    then have "SetTimer f s us cbk param flags = Inr (False, ApicSetTimerCount 0 s2)"
      using st by (simp add: ApicGetTimerInitialCount_def b(5))
    then show ?thesis using True b by (simp add: s2_def s1_def ApicSetTimerCount_def)
  next
    case False
    define ys where "ys = takeWhile (\<lambda>x. LastTickCount (tevents s x) < N) xs"
    define zs where "zs = dropWhile (\<lambda>x. LastTickCount (tevents s x) < N) xs"
    have xs: "xs = ys @ zs" by (simp add: ys_def zs_def)
    have lt: "\<forall>x \<in> set ys. LastTickCount (tevents s x) < N" unfolding ys_def by (auto dest: set_takeWhileD)
    have ge: "\<forall>x \<in> set zs. N \<le> LastTickCount (tevents s x)"
    proof (cases zs)
      case (Cons z zs')
      then have "\<not> LastTickCount (tevents s z) < N" unfolding zs_def by (rule dropWhile_eq_Cons_conv [THEN iffD1, THEN conjunct2])
      moreover have "sorted (map (\<lambda>x. LastTickCount (tevents s x)) zs)" using assms(2) xs by (simp add: tsorted_def sorted_append)
      ultimately show ?thesis using Cons by (auto simp: not_less)
    qed simp
    define e where "e = (tevents s p)\<lparr> LastTickCount := N, Callback := cbk, UserParam := param, dwFlags := fl \<rparr>"
    define s3 where "s3 = upd_event p (\<lambda>e. e\<lparr> LastTickCount := N, Callback := cbk, UserParam := param, dwFlags := fl \<rparr>) s2"
    have e3: "tevents s3 = (tevents s)(p := e)" "this_cpu s3 = this_cpu s" by (simp_all add: s3_def b e_def)
    have root3: "root_of s3 = hd_or 0 xs" using assms(3) tqueue_hd [OF assms(1)] by (simp add: root_of_def e3(2) Let_def)
    have q3: "tqueue (tevents s3) (hd_or 0 xs) xs"
    proof -
      have "tqueue (tevents s3) (hd_or 0 xs) xs = tqueue (tevents s) (hd_or 0 xs) xs"
        by (rule tqueue_cong) (use assms(6) in \<open>auto simp: e3(1)\<close>)
      then show ?thesis using assms(1) tqueue_hd [OF assms(1)] by simp
    qed
    have tw: "takeWhile (\<lambda>x. LastTickCount (tevents s3 x) < N) xs = ys"
      unfolding ys_def by (rule takeWhile_cong) (use assms(6) in \<open>auto simp: e3(1)\<close>)
    have find: "FindTimerEventInsertPoint f (tevents s3) (root_of s3) N = Inr (last_or 0 ys)"
      unfolding FindTimerEventInsertPoint_def root3 insert_point_loop [OF q3 assms(4)] tw ..
    have nz: "0 \<notin> set xs" by (rule tqueue_nonzero [OF assms(1)])
    define s4 where "s4 = (if last_or 0 ys \<noteq> 0
        then upd_event (last_or 0 ys) (\<lambda>e. e\<lparr> teNext := p \<rparr>) (upd_event p (\<lambda>e. e\<lparr> teNext := teNext (tevents s3 (last_or 0 ys)) \<rparr>) s3)
        else set_root p (upd_event p (\<lambda>e. e\<lparr> teNext := root_of s3 \<rparr>) s3))"
    have run: "SetTimer f s us cbk param flags = Inr (True, if bInTimerInt (TimerInf (this_cpu s4)) then s4
        else ApicSetTimerCount (armed_count (LastTickCount (tevents s4 (TimerRoot (TimerInf (this_cpu s4)))))) s4)"
      using st False find unfolding s3_def [symmetric] by (simp only: if_False kbind_Inr s4_def)
    have l: "last_or 0 ys = 0 \<longleftrightarrow> ys = []" "ys \<noteq> [] \<Longrightarrow> last_or 0 ys = last ys" "ys \<noteq> [] \<Longrightarrow> last ys \<noteq> p" "ys \<noteq> [] \<Longrightarrow> last ys \<in> set ys"
      using nz assms(6) xs by (auto simp: last_or_def) (metis UnI1 last_in_set set_append)+
    have d: "distinct (ys @ zs)" using assms(2) xs by (simp add: tsorted_def)
    have t4: "tqueue (tevents s4) (hd (ys @ p # zs)) (ys @ p # zs) \<and> TimerRoot (TimerInf (this_cpu s4)) = hd (ys @ p # zs) \<and>
        \<not> bInTimerInt (TimerInf (this_cpu s4))"
    proof (cases "ys = []")
      case True
      then have z: "zs = xs" using xs by simp
      have "tqueue (tevents s4) (hd_or 0 zs) zs = tqueue (tevents s) (hd_or 0 zs) zs"
        by (rule tqueue_cong) (use assms(6) True l(1) z in \<open>auto simp: s4_def set_root_def e3\<close>)
      then have "tqueue (tevents s4) (hd_or 0 zs) zs" using assms(1) tqueue_hd [OF assms(1)] z by simp
      then show ?thesis using True l(1) False assms(3) root3 z by (simp add: s4_def set_root_def e3)
    next
      case nb: False
      have nl: "teNext (tevents s (last ys)) = hd_or 0 zs"
      proof -
        have "tqueue (tevents s) (TimerRoot (TimerInf (this_cpu s))) (butlast ys @ last ys # zs)"
          using assms(1) xs nb by (metis append_butlast_last_id append_Cons append_Nil append_assoc)
        then have "tqueue (tevents s) (last ys) (last ys # zs)" using tqueue_append by fastforce
        then show ?thesis using tqueue_hd by auto
      qed
      have ev: "tevents s4 = (tevents s)(p := e\<lparr> teNext := hd_or 0 zs \<rparr>, last ys := (tevents s (last ys))\<lparr> teNext := p \<rparr>)"
        using nb l nl by (simp add: s4_def e3(1))
      have "tqueue (tevents s4) (hd ys) (ys @ p # zs)"
      proof (rule tqueue_insert)
        show "tqueue (tevents s) (hd ys) (ys @ zs)" using assms(1) xs tqueue_hd [OF assms(1)] nb by (cases ys) auto
        show "ys \<noteq> []" by (rule nb)
        show "p \<noteq> 0" by (rule False)
        show "teNext (tevents s4 (last ys)) = p" by (simp add: ev)
        show "teNext (tevents s4 p) = hd_or 0 zs" using l(3) [OF nb] by (simp add: ev)
        fix x assume "x \<in> set (butlast ys) \<union> set zs"
        moreover have "last ys \<notin> set (butlast ys) \<union> set zs" using d nb by (cases ys rule: rev_cases) auto
        moreover have "p \<notin> set (butlast ys) \<union> set zs" using assms(6) xs by (auto dest: in_set_butlastD)
        ultimately show "teNext (tevents s4 x) = teNext (tevents s x)" by (auto simp: ev)
      qed
      moreover have "hd_or 0 xs = hd ys" using nb xs by (cases ys) auto
      ultimately show ?thesis using nb l(1) tqueue_hd [OF assms(1)] assms(3) by (simp add: s4_def e3)
    qed
    have cnt: "LastTickCount (tevents s4 x) = (if x = p then N else LastTickCount (tevents s x))"
      "Callback (tevents s4 x) = (if x = p then cbk else Callback (tevents s x))"
      "UserParam (tevents s4 x) = (if x = p then param else UserParam (tevents s x))" for x
      by (auto simp: s4_def set_root_def e3 e_def)
    have mp: "map (\<lambda>x. LastTickCount (tevents s4 x)) vs = map (\<lambda>x. LastTickCount (tevents s x)) vs" if "set vs \<subseteq> set xs" for vs
      using that assms(6) by (intro map_cong) (auto simp: cnt)
    have "map (\<lambda>x. LastTickCount (tevents s4 x)) (ys @ p # zs) =
        map (\<lambda>x. LastTickCount (tevents s x)) ys @ N # map (\<lambda>x. LastTickCount (tevents s x)) zs"
      using mp [of ys] mp [of zs] xs by (simp add: cnt)
    moreover have "sorted (map (\<lambda>x. LastTickCount (tevents s x)) ys @ N # map (\<lambda>x. LastTickCount (tevents s x)) zs)"
      using assms(2) lt ge unfolding xs by (auto simp: tsorted_def sorted_append intro: less_imp_le)
    ultimately have "sorted (map (\<lambda>x. LastTickCount (tevents s4 x)) (ys @ p # zs))" by (simp only:)
    then have so: "tsorted (tevents s4) (ys @ p # zs)" using d assms(6) xs by (auto simp: tsorted_def)
    define s5 where "s5 = ApicSetTimerCount (armed_count (LastTickCount (tevents s4 (TimerRoot (TimerInf (this_cpu s4)))))) s4"
    have run5: "SetTimer f s us cbk param flags = Inr (True, s5)" using run t4 by (simp add: s5_def)
    have e5: "tevents s5 = tevents s4" "this_cpu s5 = this_cpu s4" "INITCR s5 = armed_count (LastTickCount (tevents s4 (hd (ys @ p # zs))))"
      using t4 by (simp_all add: s5_def)
    show ?thesis unfolding if_not_P [OF False]
    proof (rule exI [of _ s5], rule exI [of _ ys], rule exI [of _ zs], intro conjI)
      show "tqueue (tevents s5) (TimerRoot (TimerInf (this_cpu s5))) (ys @ p # zs)" using t4 unfolding e5 by simp
      show "tsorted (tevents s5) (ys @ p # zs)" unfolding e5 by (rule so)
      show "\<forall>x \<in> set xs. LastTickCount (tevents s5 x) = LastTickCount (tevents s x) \<and> Callback (tevents s5 x) = Callback (tevents s x)"
        using assms(6) by (auto simp: e5 cnt)
      show "INITCR s5 = armed_count (LastTickCount (tevents s5 (hd (ys @ p # zs))))" unfolding e5(1) by (rule e5(3))
      show "SetTimer f s us cbk param flags = Inr (True, s5)" by (rule run5)
      show "xs = ys @ zs" by (rule xs)
      show "\<forall>x \<in> set ys. LastTickCount (tevents s x) < N" by (rule lt)
      show "\<forall>x \<in> set zs. N \<le> LastTickCount (tevents s x)" by (rule ge)
      show "LastTickCount (tevents s5 p) = N" "Callback (tevents s5 p) = cbk" "UserParam (tevents s5 p) = param"
        unfolding e5(1) cnt by simp_all
    qed
  qed
qed


text \<open>
  Sleep gives every sleeper the same ballot: as long as only sleepers and their callbacks change the
  counter, it is 0 or 1, the ballot is 0, and the first callback to run ends the wait of all sleepers.
\<close>
theorem sleep_ballots_collide:
  fixes s :: "'a timer_sys_scheme"
  assumes "SleepCounter (TimerInf (this_cpu s)) \<in> {0, 1}" "SleepStart f Done s us = Inr (b, s')"
  shows "b = 0 \<and> SleepCounter (TimerInf (this_cpu s')) = 1 \<and> \<not> SleepOver s' b \<and>
    SleepOver (SleepDoneCallback 0 s') b \<and> SleepCounter (TimerInf (this_cpu (SleepDoneCallback 0 s'))) = 0"
proof -
  have ctz1: "ctz (1 :: UINT) = 0" by (rule ctz_eqI) simp_all
  have b0: "SleepBallot (SleepCounter (TimerInf (this_cpu s))) = 0"
    using assms(1) ctz1 by (auto simp: SleepBallot_def)
  have set: "SleepCounter (TimerInf (this_cpu t)) = SleepCounter (TimerInf (this_cpu s0))"
    if "SetTimer f s0 u c p fl = Inr (r, t)" for s0 t :: "'a timer_sys_scheme" and u c p fl r
    using that by (auto simp: SetTimer_def Let_def kbind_eq_Inr set_root_def split: if_splits prod.splits)
  obtain r where r: "SetTimer f (upd_timer (\<lambda>t. t\<lparr> SleepCounter := SleepCounter t OR 1 \<rparr>) s) us Done 0 0 = Inr (r, s')" and b: "b = 0"
    using assms(2) b0 by (auto simp: SleepStart_def Let_def kbind_eq_Inr MAX_CONCURRENT_SLEEPS_def split: if_splits)
  have c: "SleepCounter (TimerInf (this_cpu s')) = 1"
    using set [OF r] assms(1) by auto
  then show ?thesis using b by (simp add: SleepOver_def SleepDoneCallback_def)
qed

definition wit_cpu :: PerCpu where
  "wit_cpu = (wit_cpus ! 0)\<lparr> TimerInf := \<lparr> CalibrationValue = 1, TimerRoot = 0x1000, TimerDeferredRoot = 0, bInTimerInt = False, SleepCounter = 0 \<rparr> \<rparr>"

definition wit_timers :: "UINTPTR list timer_sys_scheme" where
  "wit_timers = \<lparr> this_cpu = wit_cpu,
     tevents = (\<lambda>p. if p = 0x1000 then \<lparr> teNext = 0x2000, LastTickCount = 5, Callback = 1, UserParam = 7, dwFlags = 0 \<rparr>
       else \<lparr> teNext = 0, LastTickCount = 9, Callback = 1, UserParam = 8, dwFlags = 0 \<rparr>),
     theap = wit_heap, INITCR = 4, \<dots> = [] \<rparr>"


lemma wit_queue: "tqueue (tevents wit_timers) (TimerRoot (TimerInf (this_cpu wit_timers))) [0x1000, 0x2000]" "tsorted (tevents wit_timers) [0x1000, 0x2000]"
  by (simp_all add: wit_timers_def wit_cpu_def tsorted_def)


lemma wit_heap_acquires: "\<exists>h. HeapAcquire 3 wit_heap sizeof_TimerEvent = Inr (0x1070, h)"
proof -
  have "HeapLocateAlignedFreeOfSizeFrom (Suc (Suc (Suc 0))) wit_heap 0x1000 48 0x10 = Inr (0x1050, 0x1070)"
    by (simp add: wit_heap_def AlignedPayload_def KrtlAlignUpToPowerOfTwo_def Let_def HeapHeaderPayloadAddress_def sizeof_HeapHeader_def
      sizeof_offset_to_meta_t_def)
  then have l: "HeapLocateAlignedFreeOfSizeFrom 3 wit_heap (RootHeader wit_heap) 48 HEAP_DEFAULT_ALIGNMENT = Inr (0x1050, 0x1070)"
    by (simp add: numeral_3_eq_3 HEAP_DEFAULT_ALIGNMENT_def wit_heap_def)
  have n: "KrtlAlignUpToPowerOfTwo (if sizeof_TimerEvent < HEAP_MIN_PAYLOAD_SIZE then HEAP_MIN_PAYLOAD_SIZE else sizeof_TimerEvent) HEAP_DEFAULT_ALIGNMENT = 48"
    by (simp add: sizeof_TimerEvent_def HEAP_MIN_PAYLOAD_SIZE_def KrtlAlignUpToPowerOfTwo_def HEAP_DEFAULT_ALIGNMENT_def)
  have g: "\<not> (sizeof_TimerEvent = 0 \<or> HEAP_DEFAULT_ALIGNMENT = 0 \<or> HEAP_DEFAULT_ALIGNMENT AND (HEAP_DEFAULT_ALIGNMENT - 1) \<noteq> 0)"
    by (simp add: sizeof_TimerEvent_def HEAP_DEFAULT_ALIGNMENT_def)
  show ?thesis
    unfolding HeapAcquire_def HeapAlignedAcquire_def if_not_P [OF g] Let_def n l kbind_Inr prod.case
    by (simp add: MAX_offset_to_meta_def)
qed

theorem set_timer_witness:
  "\<exists>s'. SetTimer 3 wit_timers 7 1 0 0 = Inr (True, s') \<and> tqueue (tevents s') 0x1000 [0x1000, 0x1070, 0x2000]"
proof -
  obtain hp where h: "HeapAcquire 3 (theap wit_timers) sizeof_TimerEvent = Inr (0x1070, hp)"
    using wit_heap_acquires by (auto simp: wit_timers_def)
  have t: "request_ticks wit_timers 7 0 = 7" by (simp add: request_ticks_def wit_timers_def wit_cpu_def)
  have b: "\<not> bInTimerInt (TimerInf (this_cpu wit_timers))" "length [0x1000 :: UINTPTR, 0x2000] < 3" "(0x1070 :: UINTPTR) \<notin> set [0x1000, 0x2000]"
    by (simp_all add: wit_timers_def wit_cpu_def)
  have n0: "(0x1070 :: UINTPTR) \<noteq> 0" by simp
  obtain s' ys zs where s: "SetTimer 3 wit_timers 7 1 0 0 = Inr (True, s')" "[0x1000, 0x2000] = ys @ zs"
    "\<forall>x \<in> set ys. LastTickCount (tevents wit_timers x) < 7" "\<forall>x \<in> set zs. 7 \<le> LastTickCount (tevents wit_timers x)"
    "tqueue (tevents s') (TimerRoot (TimerInf (this_cpu s'))) (ys @ 0x1070 # zs)"
    using set_timer [OF wit_queue b(1,2) h b(3) t [symmetric], of 1 0, unfolded if_not_P [OF n0]] by blast
  have "ys = [0x1000] \<and> zs = [0x2000]"
    using s(2,3,4) by (cases ys; cases "tl ys") (auto simp: wit_timers_def)
  then show ?thesis using s(1,5) by auto
qed

text \<open>Interrupts on one processor set at most one timer between two of these states; \<open>no_timers\<close> is the idle one.\<close>

definition no_timers :: timer_sys where
  "no_timers = \<lparr> this_cpu = wit_cpus ! 0, tevents = (\<lambda>_. \<lparr> teNext = 0, LastTickCount = 0, Callback = 0, UserParam = 0, dwFlags = 0 \<rparr>),
     theap = wit_heap, INITCR = 0 \<rparr>"

lemma wit_sleep: "\<exists>b s'. SleepStart 3 2 no_timers 7 = Inr (b, s')"
proof -
  obtain hp where h: "HeapAcquire 3 wit_heap sizeof_TimerEvent = Inr (0x1070, hp)" using wit_heap_acquires by blast
  show ?thesis
    by (simp add: SleepStart_def SleepBallot_def no_timers_def wit_cpus_def MAX_CONCURRENT_SLEEPS_def SetTimer_def Let_def h [unfolded numeral_3_eq_3]
      FindTimerEventInsertPoint_def root_of_def upd_timer_def upd_event_def ApicSetTimerCount_def numeral_3_eq_3)
qed

theorem sleep_ballots_collide_witness:
  "\<exists>b s'. SleepStart 3 2 no_timers 7 = Inr (b, s') \<and> SleepOver (SleepDoneCallback 0 s') b"
proof -
  obtain b s' where s: "SleepStart 3 2 no_timers 7 = Inr (b, s')" using wit_sleep by blast
  have c: "SleepCounter (TimerInf (this_cpu no_timers)) \<in> {0, 1}" by (simp add: no_timers_def wit_cpus_def)
  show ?thesis using s sleep_ballots_collide [OF c s] by blast
qed

end
