(* ===== verification/Apic.thy ===== *)
theory Apic
  imports BuiltinDrivers Timers
begin

text \<open>
  The local interrupt controller of a processor, \<^verbatim>\<open>Kernel/Source/CPU/APIC.c\<close>, with its registers as a
  memory-mapped device, and the identification of the processor, \<^verbatim>\<open>Kernel/Source/CPU/Identify.c\<close>. The
  registers that the processor has besides memory are a record.
\<close>

named_theorems apic "values of the constants of the local interrupt controller"

section \<open>Constants and state\<close>

definition LOCAL_APIC_BASE_ADDRESS :: UINTPTR where [apic]: "LOCAL_APIC_BASE_ADDRESS = 0xFEE00000"
definition IPI_DELIVERY_FIXED :: UCHAR where [apic]: "IPI_DELIVERY_FIXED = 0"
definition IPI_DELIVERY_SMI :: UCHAR where [apic]: "IPI_DELIVERY_SMI = 2"
definition IPI_DELIVERY_NMI :: UCHAR where [apic]: "IPI_DELIVERY_NMI = 4"
definition IPI_DELIVERY_INIT :: UCHAR where [apic]: "IPI_DELIVERY_INIT = 5"
definition IPI_DELIVERY_SIPI :: UCHAR where [apic]: "IPI_DELIVERY_SIPI = 6"
definition IPI_DESTINATION_PHYSICAL :: UCHAR where [apic]: "IPI_DESTINATION_PHYSICAL = 0"
definition IPI_DESTINATION_LOGICAL :: UCHAR where [apic]: "IPI_DESTINATION_LOGICAL = 1"
definition IPI_LEVEL_DEASSERT :: UCHAR where [apic]: "IPI_LEVEL_DEASSERT = 0"
definition IPI_LEVEL_ASSERT :: UCHAR where [apic]: "IPI_LEVEL_ASSERT = 1"
definition IPI_TRIGGER_EDGE :: UCHAR where [apic]: "IPI_TRIGGER_EDGE = 0"
definition IPI_TRIGGER_LEVEL :: UCHAR where [apic]: "IPI_TRIGGER_LEVEL = 1"
definition IPI_SHORTHAND_NONE :: UCHAR where [apic]: "IPI_SHORTHAND_NONE = 0"
definition IPI_SHORTHAND_SELF :: UCHAR where [apic]: "IPI_SHORTHAND_SELF = 1"
definition IPI_SHORTHAND_ALL_ISLF :: UCHAR where [apic]: "IPI_SHORTHAND_ALL_ISLF = 2"
definition IPI_SHORTHAND_ALL_XSLF :: UCHAR where [apic]: "IPI_SHORTHAND_ALL_XSLF = 3"
definition APIC_REG_ID :: SIZE where [apic]: "APIC_REG_ID = 0x020"
definition APIC_REG_VER :: SIZE where [apic]: "APIC_REG_VER = 0x030"
definition APIC_REG_TPR :: SIZE where [apic]: "APIC_REG_TPR = 0x080"
definition APIC_REG_APR :: SIZE where [apic]: "APIC_REG_APR = 0x090"
definition APIC_REG_PPR :: SIZE where [apic]: "APIC_REG_PPR = 0x0A0"
definition APIC_REG_EOI :: SIZE where [apic]: "APIC_REG_EOI = 0x0B0"
definition APIC_REG_RRD :: SIZE where [apic]: "APIC_REG_RRD = 0x0C0"
definition APIC_REG_LDR :: SIZE where [apic]: "APIC_REG_LDR = 0x0D0"
definition APIC_REG_DFR :: SIZE where [apic]: "APIC_REG_DFR = 0x0E0"
definition APIC_REG_SIV :: SIZE where [apic]: "APIC_REG_SIV = 0x0F0"
definition APIC_REG_ICR_LO :: SIZE where [apic]: "APIC_REG_ICR_LO = 0x300"
definition APIC_REG_ICR_HI :: SIZE where [apic]: "APIC_REG_ICR_HI = 0x310"
definition APIC_REG_LTR :: SIZE where [apic]: "APIC_REG_LTR = 0x320"
definition APIC_REG_LTSR :: SIZE where [apic]: "APIC_REG_LTSR = 0x330"
definition APIC_REG_LPMCR :: SIZE where [apic]: "APIC_REG_LPMCR = 0x340"
definition APIC_REG_LINT0 :: SIZE where [apic]: "APIC_REG_LINT0 = 0x350"
definition APIC_REG_LINT1 :: SIZE where [apic]: "APIC_REG_LINT1 = 0x360"
definition APIC_REG_LER :: SIZE where [apic]: "APIC_REG_LER = 0x370"
definition APIC_REG_INITCR :: SIZE where [apic]: "APIC_REG_INITCR = 0x380"
definition APIC_REG_CURRCR :: SIZE where [apic]: "APIC_REG_CURRCR = 0x390"
definition APIC_REG_DCR :: SIZE where [apic]: "APIC_REG_DCR = 0x3E0"
definition APIC_SIV_SOFTWARE_ENABLE :: DWORD where [apic]: "APIC_SIV_SOFTWARE_ENABLE = push_bit 8 1"
definition APIC_LTR_TIMER_INT_BLOCK :: DWORD where [apic]: "APIC_LTR_TIMER_INT_BLOCK = push_bit 16 1"
definition APIC_ICR_DELIVERY_STATUS :: DWORD where [apic]: "APIC_ICR_DELIVERY_STATUS = push_bit 12 1"

definition IA32_APIC_BASE_EN :: QWORD where "IA32_APIC_BASE_EN = push_bit 11 1"
definition IA32_APIC_BASE_ADDR_MASK :: QWORD where "IA32_APIC_BASE_ADDR_MASK = 0x0000FFFFFFFFF000"
definition KR_CPUID_FEAT_EDX_APIC :: DWORD where "KR_CPUID_FEAT_EDX_APIC = push_bit 9 1"

text \<open>The base register of the running processor, the mapped address of the controller and the devices.\<close>

record 'd apic_sys =
  IA32_APIC_BASE :: QWORD
  VaddrApicBase :: UINTPTR
  apHw :: 'd

record KrIpiConfig =
  dwDestApic :: DWORD
  IpiVector :: UCHAR
  eDeliveryMode :: UCHAR
  eDestMode :: UCHAR
  eLevel :: UCHAR
  eTrigMode :: UCHAR
  eDestShorthand :: UCHAR

datatype KrIpiConfigStructValidationResult =
    IPI_CONFIG_STRUCT_VALIDATION_RESULT_SUCCESS
  | IPI_CONFIG_STRUCT_VALIDATION_RESULT_DEST_APIC_TOO_BIG
  | IPI_CONFIG_STRUCT_VALIDATION_RESULT_DELIVERY_MODE_NV
  | IPI_CONFIG_STRUCT_VALIDATION_RESULT_DESTMODE_NV
  | IPI_CONFIG_STRUCT_VALIDATION_RESULT_LEVEL_NV
  | IPI_CONFIG_STRUCT_VALIDATION_RESULT_TRIGMODE_NV
  | IPI_CONFIG_STRUCT_VALIDATION_RESULT_DEST_SHORTHAND_NV
  | IPI_CONFIG_STRUCT_VALIDATION_RESULT_SHORTHAND_WITH_TARGET_ID

section \<open>Registers\<close>

definition ApicRead :: "'d devices \<Rightarrow> SIZE \<Rightarrow> ('d, 'a) apic_sys_scheme \<Rightarrow> DWORD \<times> ('d, 'a) apic_sys_scheme" where
  "ApicRead dev RegOffset s = (let (v, d) = MmioRead32 dev (VaddrApicBase s) RegOffset (apHw s) in (v, s\<lparr> apHw := d \<rparr>))"

definition ApicWrite :: "'d devices \<Rightarrow> SIZE \<Rightarrow> DWORD \<Rightarrow> ('d, 'a) apic_sys_scheme \<Rightarrow> ('d, 'a) apic_sys_scheme" where
  "ApicWrite dev RegOffset dwValue s = s\<lparr> apHw := MmioWrite32 dev (VaddrApicBase s) RegOffset dwValue (apHw s) \<rparr>"

definition KrApicGetPhysicalBase :: "('d, 'a) apic_sys_scheme \<Rightarrow> UINTPTR" where
  "KrApicGetPhysicalBase s = IA32_APIC_BASE s AND IA32_APIC_BASE_ADDR_MASK"

definition KrApicSetPhysicalBase :: "UINTPTR \<Rightarrow> ('d, 'a) apic_sys_scheme \<Rightarrow> ('d, 'a) apic_sys_scheme" where
  "KrApicSetPhysicalBase PhysAddr s = s\<lparr> IA32_APIC_BASE := IA32_APIC_BASE s OR push_bit 12 (PhysAddr AND 0x0000FFFFFFFFFFFF) \<rparr>"

text \<open>\<open>EDX\<close> is what the processor reports about its features.\<close>

definition KrApicCheckSupport :: "DWORD \<Rightarrow> bool" where
  "KrApicCheckSupport EDX \<longleftrightarrow> EDX AND KR_CPUID_FEAT_EDX_APIC \<noteq> 0"

definition ApicIsEnabled :: "'d devices \<Rightarrow> ('d, 'a) apic_sys_scheme \<Rightarrow> bool \<times> ('d, 'a) apic_sys_scheme" where
  "ApicIsEnabled dev s =
     (if IA32_APIC_BASE s AND IA32_APIC_BASE_EN = 0 then (False, s)
      else if VaddrApicBase s = 0 then (False, s)
      else let (v, s1) = ApicRead dev APIC_REG_SIV s in (v AND APIC_SIV_SOFTWARE_ENABLE \<noteq> 0, s1))"

definition ApicSetEnabled :: "'d devices \<Rightarrow> bool \<Rightarrow> ('d, 'a) apic_sys_scheme \<Rightarrow> ('d, 'a) apic_sys_scheme" where
  "ApicSetEnabled dev bEnabled s =
     (let (SIVR, s1) = ApicRead dev APIC_REG_SIV s
      in ApicWrite dev APIC_REG_SIV (if bEnabled then SIVR OR APIC_SIV_SOFTWARE_ENABLE else SIVR AND NOT APIC_SIV_SOFTWARE_ENABLE) s1)"

definition ApicSetTimerInterruptsEnabled :: "'d devices \<Rightarrow> bool \<Rightarrow> ('d, 'a) apic_sys_scheme \<Rightarrow> ('d, 'a) apic_sys_scheme" where
  "ApicSetTimerInterruptsEnabled dev bEnabled s =
     (let (LTR, s1) = ApicRead dev APIC_REG_LTR s
      in ApicWrite dev APIC_REG_LTR (if bEnabled then LTR AND NOT APIC_LTR_TIMER_INT_BLOCK else LTR OR APIC_LTR_TIMER_INT_BLOCK) s1)"

definition ApicGetTimerCurrentCount :: "'d devices \<Rightarrow> ('d, 'a) apic_sys_scheme \<Rightarrow> DWORD \<times> ('d, 'a) apic_sys_scheme" where
  "ApicGetTimerCurrentCount dev s = ApicRead dev APIC_REG_CURRCR s"

definition ApicIssueEndOfInt :: "'d devices \<Rightarrow> ('d, 'a) apic_sys_scheme \<Rightarrow> ('d, 'a) apic_sys_scheme" where
  "ApicIssueEndOfInt dev s = ApicWrite dev APIC_REG_EOI 0 s"

definition DisableLegacyPIC :: "'d devices \<Rightarrow> ('d, 'a) apic_sys_scheme \<Rightarrow> ('d, 'a) apic_sys_scheme" where
  "DisableLegacyPIC dev s = s\<lparr> apHw := port_out8 dev 0xA1 0xFF (port_out8 dev 0x21 0xFF (apHw s)) \<rparr>"

section \<open>Interrupts between processors\<close>

definition KrValidateIpiConfigStruct :: "KrIpiConfig \<Rightarrow> KrIpiConfigStructValidationResult" where
  "KrValidateIpiConfigStruct c =
     (if dwDestApic c \<ge> MAX_SMP_PROCESSORS then IPI_CONFIG_STRUCT_VALIDATION_RESULT_DEST_APIC_TOO_BIG
      else if \<not> (eDeliveryMode c = IPI_DELIVERY_FIXED \<or> eDeliveryMode c = IPI_DELIVERY_SMI \<or> eDeliveryMode c = IPI_DELIVERY_NMI \<or>
                 eDeliveryMode c = IPI_DELIVERY_INIT \<or> eDeliveryMode c = IPI_DELIVERY_SIPI)
      then IPI_CONFIG_STRUCT_VALIDATION_RESULT_DELIVERY_MODE_NV
      else if eDestMode c > 1 then IPI_CONFIG_STRUCT_VALIDATION_RESULT_DESTMODE_NV
      else if eLevel c > 1 then IPI_CONFIG_STRUCT_VALIDATION_RESULT_LEVEL_NV
      else if eTrigMode c > 1 then IPI_CONFIG_STRUCT_VALIDATION_RESULT_TRIGMODE_NV
      else if eDestShorthand c > 3 then IPI_CONFIG_STRUCT_VALIDATION_RESULT_DEST_SHORTHAND_NV
      else if eDestShorthand c \<noteq> IPI_SHORTHAND_NONE \<and> dwDestApic c \<noteq> 0 then IPI_CONFIG_STRUCT_VALIDATION_RESULT_SHORTHAND_WITH_TARGET_ID
      else IPI_CONFIG_STRUCT_VALIDATION_RESULT_SUCCESS)"

fun ApicWaitForIcrIdle :: "nat \<Rightarrow> 'd devices \<Rightarrow> ('d, 'a) apic_sys_scheme \<Rightarrow> ('d, 'a) apic_sys_scheme kres" where
  "ApicWaitForIcrIdle 0 dev s = Inl OutOfFuel"
| "ApicWaitForIcrIdle (Suc f) dev s =
     (let (v, s1) = ApicRead dev APIC_REG_ICR_LO s
      in if v AND APIC_ICR_DELIVERY_STATUS \<noteq> 0 then ApicWaitForIcrIdle f dev s1 else Inr s1)"

definition icr_low :: "KrIpiConfig \<Rightarrow> DWORD" where
  "icr_low c = 0 OR ucast (IpiVector c) OR push_bit 8 (ucast (eDeliveryMode c)) OR push_bit 11 (ucast (eDestMode c)) OR
     push_bit 14 (ucast (eLevel c)) OR push_bit 15 (ucast (eTrigMode c)) OR push_bit 18 (ucast (eDestShorthand c))"

definition ApicIssueIpi :: "nat \<Rightarrow> 'd devices \<Rightarrow> KrIpiConfig \<Rightarrow> ('d, 'a) apic_sys_scheme \<Rightarrow> ('d, 'a) apic_sys_scheme kres" where
  "ApicIssueIpi f dev c s =
     (if KrValidateIpiConfigStruct c \<noteq> IPI_CONFIG_STRUCT_VALIDATION_RESULT_SUCCESS then Inl (Meltdown KR_MDCODE_ISSUE_IPI_DEVCHECK)
      else kbind (ApicWaitForIcrIdle f dev s) (\<lambda>s1.
             ApicWaitForIcrIdle f dev (ApicWrite dev APIC_REG_ICR_LO (icr_low c) (ApicWrite dev APIC_REG_ICR_HI (push_bit 24 (dwDestApic c)) s1))))"

section \<open>Calibration and initialisation\<close>

definition NrTicksFor50ms :: UINT where "NrTicksFor50ms = 178977"

text \<open>
  \<open>tick\<close> reads the ACPI timer, \<open>bits\<close> is its width. The first loop looks for a start that leaves room for the
  ticks to be counted, the second waits until they have passed. The pauses between two readings only take time:
  the time they take is part of what the timer shows at the next reading.
\<close>

type_synonym ('d, 'a) ticks = "('d, 'a) apic_sys_scheme \<Rightarrow> DWORD \<times> ('d, 'a) apic_sys_scheme"

fun RecalcLoop :: "nat \<Rightarrow> ('d, 'a) ticks \<Rightarrow> UINT \<Rightarrow> ('d, 'a) apic_sys_scheme \<Rightarrow> (QWORD \<times> ('d, 'a) apic_sys_scheme) kres" where
  "RecalcLoop 0 tick bits s = Inl OutOfFuel"
| "RecalcLoop (Suc f) tick bits s =
     (let (TickCnt, s1) = tick s; DestTickCnt = ucast TickCnt + ucast NrTicksFor50ms :: QWORD
      in if (bits = 24 \<and> DestTickCnt \<ge> 0xFFFF00) \<or> DestTickCnt > ucast (DWORD_MAX - 0xFF)
         then RecalcLoop f tick bits s1 else Inr (DestTickCnt, s1))"

fun TickLoop :: "nat \<Rightarrow> ('d, 'a) ticks \<Rightarrow> QWORD \<Rightarrow> ('d, 'a) apic_sys_scheme \<Rightarrow> ('d, 'a) apic_sys_scheme kres" where
  "TickLoop 0 tick DestTickCnt s = Inl OutOfFuel"
| "TickLoop (Suc f) tick DestTickCnt s =
     (let (TickCnt, s1) = tick s in if TickCnt < ucast DestTickCnt then TickLoop f tick DestTickCnt s1 else Inr s1)"

text \<open>The result is the calibration value for the processor's timer.\<close>

definition ApicCalibrateTimer :: "nat \<Rightarrow> 'd devices \<Rightarrow> ('d, 'a) ticks \<Rightarrow> UINT \<Rightarrow> ('d, 'a) apic_sys_scheme \<Rightarrow> (DWORD \<times> ('d, 'a) apic_sys_scheme) kres" where
  "ApicCalibrateTimer f dev tick bits s =
     kbind (RecalcLoop f tick bits (ApicSetTimerInterruptsEnabled dev False s)) (\<lambda>(DestTickCnt, s1).
     kbind (TickLoop f tick DestTickCnt (ApicWrite dev APIC_REG_INITCR DWORD_MAX s1)) (\<lambda>s2.
       let (ApicCurrent, s3) = ApicRead dev APIC_REG_CURRCR s2;
           dwElapsed = DWORD_MAX - ApicCurrent
       in Inr (dwElapsed div 50000, ApicSetTimerInterruptsEnabled dev True (ApicWrite dev APIC_REG_INITCR 0 s3))))"

text \<open>The ticks of the ACPI timer, read from the devices.\<close>

definition pm_ticks :: "'d devices \<Rightarrow> ('d, 'b) pm_sys_scheme \<Rightarrow> ('d, 'a) ticks" where
  "pm_ticks dev pm s = (let (v, d) = AcpiPmTimerGetTicks dev pm (apHw s) in (v, s\<lparr> apHw := d \<rparr>))"

definition KrApicInit :: "nat \<Rightarrow> 'd devices \<Rightarrow> ('d, 'b) pm_sys_scheme \<Rightarrow> DWORD \<Rightarrow> bool \<Rightarrow> rna_sys \<Rightarrow> UINTPTR \<Rightarrow> TimerInfo \<Rightarrow>
    ('d, 'a) apic_sys_scheme \<Rightarrow> (bool \<times> rna_sys \<times> UINTPTR \<times> TimerInfo \<times> ('d, 'a) apic_sys_scheme) kres" where
  "KrApicInit f dev pm EDX bIsCallerBSP m Head t s =
     (if \<not> KrApicCheckSupport EDX then Inr (False, m, Head, t, s)
      else if KrApicGetPhysicalBase s \<noteq> LOCAL_APIC_BASE_ADDRESS then Inr (False, m, Head, t, s)
      else kbind (if bIsCallerBSP
                  then kbind (MmioMapDevice f m Head ''Processor Local APIC'' LOCAL_APIC_BASE_ADDRESS 4096 MMIO_NF) (\<lambda>(v, Head1, m1).
                         Inr (v \<noteq> 0, m1, Head1, (DisableLegacyPIC dev s)\<lparr> VaddrApicBase := v \<rparr>))
                  else Inr (True, m, Head, s)) (\<lambda>(ok, m1, Head1, s1).
             if \<not> ok then Inr (False, m1, Head1, t, s1)
             else
               let s2 = s1\<lparr> IA32_APIC_BASE := IA32_APIC_BASE s1 OR IA32_APIC_BASE_EN \<rparr>;
                   s3 = ApicWrite dev APIC_REG_DCR 0 (ApicWrite dev APIC_REG_TPR 0 s2);
                   s4 = ApicWrite dev APIC_REG_LTR (ucast KERNEL_TIMER_INTERRUPT_VECTOR) s3;
                   s5 = ApicWrite dev APIC_REG_SIV (ucast KERNEL_SPURIOUS_INTERRUPT_VECTOR OR APIC_SIV_SOFTWARE_ENABLE) s4
               in kbind (ApicCalibrateTimer f dev (pm_ticks dev pm) (AcpiPmTimerGetTimerBitWidth pm) s5) (\<lambda>(c, s6).
                    Inr (True, m1, Head1, t\<lparr> CalibrationValue := c \<rparr>, s6))))"

section \<open>Identification\<close>

record KrProcessorInfoAndFeatures =
  Stepping :: BYTE
  Model :: WORD
  Family :: WORD

text \<open>\<open>EAX\<close> is the first result of the processor's feature leaf; a null pointer is \<open>None\<close>.\<close>

definition KrGetProcessorInfoAndFeatures :: "DWORD \<Rightarrow> KrProcessorInfoAndFeatures" where
  "KrGetProcessorInfoAndFeatures EAX =
     (let BaseModel = ucast (drop_bit 4 EAX AND 0xF) :: WORD; BaseFamily = ucast (drop_bit 8 EAX AND 0xF) :: WORD;
          ExtdModel = ucast (drop_bit 16 EAX AND 0xF) :: WORD; ExtdFamily = ucast (drop_bit 20 EAX AND 0xFF) :: WORD
      in \<lparr> Stepping = ucast (EAX AND 0xF),
           Model = (if BaseFamily = 6 \<or> BaseFamily = 15 then push_bit 4 ExtdModel + BaseModel else BaseModel),
           Family = (if BaseFamily = 15 then ExtdFamily + BaseFamily else BaseFamily) \<rparr>)"

text \<open>The four registers of a leaf, and the strings that the code stores double word by double word.\<close>

record cpuid_regs =
  rEAX :: DWORD
  rEBX :: DWORD
  rECX :: DWORD
  rEDX :: DWORD

definition KrGetProcessorManufacturerID :: "cpuid_regs \<Rightarrow> BYTE list" where
  "KrGetProcessorManufacturerID r = le32 (rEBX r) @ le32 (rEDX r) @ le32 (rECX r)"

definition KrGetProcessorBrandString :: "(nat \<Rightarrow> cpuid_regs) \<Rightarrow> BYTE list" where
  "KrGetProcessorBrandString leaf =
     concat (map (\<lambda>i. le32 (rEAX (leaf i)) @ le32 (rEBX (leaf i)) @ le32 (rECX (leaf i)) @ le32 (rEDX (leaf i))) [0..<3])"

section \<open>Commands to other processors\<close>

text \<open>How the controller reads the two halves of a command, by its documentation.\<close>

definition icr_decode :: "DWORD \<Rightarrow> DWORD \<Rightarrow> KrIpiConfig" where
  "icr_decode hi lo =
     \<lparr> dwDestApic = drop_bit 24 hi, IpiVector = ucast lo, eDeliveryMode = ucast (take_bit 3 (drop_bit 8 lo)),
       eDestMode = ucast (take_bit 1 (drop_bit 11 lo)), eLevel = ucast (take_bit 1 (drop_bit 14 lo)),
       eTrigMode = ucast (take_bit 1 (drop_bit 15 lo)), eDestShorthand = ucast (take_bit 2 (drop_bit 18 lo)) \<rparr>"

lemma field_bits:
  assumes "x \<le> (k :: UCHAR)" "unat k < 2 ^ m" "bit x i" shows "i < m"
  using bit_small [of x m i] assms by (cases "m \<le> i") (simp_all add: word_le_nat_alt)

lemma field_at:
  assumes "x \<le> (u :: UCHAR)" "unat u < 2 ^ m" "k + m \<le> 32"
  shows "bit (push_bit k (ucast x) :: DWORD) n \<longleftrightarrow> k \<le> n \<and> n < k + m \<and> bit x (n - k)"
  using field_bits [OF assms(1,2), of "n - k"] assms(3) by (auto simp: bit_push_bit_iff bit_ucast_iff)

lemma flag_at:
  assumes "x \<le> (1 :: UCHAR)" "k < 32" shows "bit (push_bit k (ucast x) :: DWORD) n \<longleftrightarrow> n = k \<and> bit x 0"
  using field_at [OF assms(1), of 1 k n] assms(2) by auto

lemma delivery_bits:
  assumes "x = IPI_DELIVERY_FIXED \<or> x = IPI_DELIVERY_SMI \<or> x = IPI_DELIVERY_NMI \<or> x = IPI_DELIVERY_INIT \<or> x = IPI_DELIVERY_SIPI"
  shows "x \<le> 7"
  using assms by (auto simp: apic)

lemma valid_config:
  "KrValidateIpiConfigStruct c = IPI_CONFIG_STRUCT_VALIDATION_RESULT_SUCCESS \<longleftrightarrow>
     dwDestApic c < MAX_SMP_PROCESSORS \<and> eDeliveryMode c \<in> {IPI_DELIVERY_FIXED, IPI_DELIVERY_SMI, IPI_DELIVERY_NMI, IPI_DELIVERY_INIT, IPI_DELIVERY_SIPI} \<and>
     eDestMode c \<le> 1 \<and> eLevel c \<le> 1 \<and> eTrigMode c \<le> 1 \<and> eDestShorthand c \<le> 3 \<and> (eDestShorthand c = IPI_SHORTHAND_NONE \<or> dwDestApic c = 0)"
  by (auto simp: KrValidateIpiConfigStruct_def not_less not_le linorder_not_le)

lemma icr_bits:
  assumes "eDeliveryMode c \<le> 7" "eDestMode c \<le> 1" "eLevel c \<le> 1" "eTrigMode c \<le> 1" "eDestShorthand c \<le> 3"
  shows "bit (icr_low c) n \<longleftrightarrow>
    n < 8 \<and> bit (IpiVector c) n \<or> 8 \<le> n \<and> n < 11 \<and> bit (eDeliveryMode c) (n - 8) \<or> n = 11 \<and> bit (eDestMode c) 0 \<or>
    n = 14 \<and> bit (eLevel c) 0 \<or> n = 15 \<and> bit (eTrigMode c) 0 \<or> 18 \<le> n \<and> n < 20 \<and> bit (eDestShorthand c) (n - 18)"
proof -
  have low: "bit (ucast (IpiVector c) :: DWORD) n \<longleftrightarrow> n < 8 \<and> bit (IpiVector c) n"
    using bit_imp_le_length [of "IpiVector c" n] by (auto simp: bit_ucast_iff)
  show ?thesis
    using field_at [OF assms(1), of 3 8 n] flag_at [OF assms(2), of 11 n] flag_at [OF assms(3), of 14 n]
      flag_at [OF assms(4), of 15 n] field_at [OF assms(5), of 2 18 n]
    by (simp add: icr_low_def bit_or_iff low)
qed

lemma take_field:
  assumes "\<And>n. n < 8 \<Longrightarrow> bit x n \<longleftrightarrow> n < m \<and> bit (w :: DWORD) (k + n)"
  shows "ucast (take_bit m (drop_bit k w)) = (x :: UCHAR)"
  using assms by (intro bit_word_eqI) (simp add: bit_ucast_iff bit_take_bit_iff bit_drop_bit_eq)

lemma icr_roundtrip:
  assumes "KrValidateIpiConfigStruct c = IPI_CONFIG_STRUCT_VALIDATION_RESULT_SUCCESS"
  shows "icr_decode (push_bit 24 (dwDestApic c)) (icr_low c) = c" "\<not> bit (icr_low c) 12"
proof -
  note v = assms [unfolded valid_config]
  have m: "eDeliveryMode c \<le> 7" using v by (intro delivery_bits) auto
  have r: "eDestMode c \<le> 1" "eLevel c \<le> 1" "eTrigMode c \<le> 1" "eDestShorthand c \<le> 3" using v by auto
  note b' = icr_bits [OF m r]
  show "\<not> bit (icr_low c) 12" by (simp add: b')
  have "unat (dwDestApic c) < 2 ^ 8" using v by (simp add: MAX_SMP_PROCESSORS_def word_less_nat_alt)
  then have "bit (dwDestApic c) n \<Longrightarrow> n < 8" for n using bit_small [of "dwDestApic c" 8 n] by (cases "8 \<le> n") simp_all
  then have d: "drop_bit 24 (push_bit 24 (dwDestApic c)) = dwDestApic c"
    by (intro bit_word_eqI) (auto simp: bit_drop_bit_eq bit_push_bit_iff)
  have "ucast (icr_low c) = IpiVector c" by (intro bit_word_eqI) (simp add: bit_ucast_iff b')
  moreover have "ucast (take_bit 3 (drop_bit 8 (icr_low c))) = eDeliveryMode c"
    using field_bits [OF m, of 3] by (intro take_field) (auto simp: b')
  moreover have "ucast (take_bit 1 (drop_bit 11 (icr_low c))) = eDestMode c"
    using field_bits [OF r(1), of 1] by (intro take_field) (auto simp: b')
  moreover have "ucast (take_bit 1 (drop_bit 14 (icr_low c))) = eLevel c"
    using field_bits [OF r(2), of 1] by (intro take_field) (auto simp: b')
  moreover have "ucast (take_bit 1 (drop_bit 15 (icr_low c))) = eTrigMode c"
    using field_bits [OF r(3), of 1] by (intro take_field) (auto simp: b')
  moreover have "ucast (take_bit 2 (drop_bit 18 (icr_low c))) = eDestShorthand c"
    using field_bits [OF r(4), of 2] by (intro take_field) (auto simp: b')
  ultimately show "icr_decode (push_bit 24 (dwDestApic c)) (icr_low c) = c" by (simp add: icr_decode_def d)
qed



text \<open>Waiting reads the command register until it is idle: \<open>busy\<close> bounds how often.\<close>

definition poll :: "'d devices \<Rightarrow> ('d, 'a) apic_sys_scheme \<Rightarrow> 'd \<Rightarrow> 'd" where
  "poll dev s d = snd (dev_read32 dev (VaddrApicBase s + APIC_REG_ICR_LO) d)"

definition sending :: "'d devices \<Rightarrow> ('d, 'a) apic_sys_scheme \<Rightarrow> 'd \<Rightarrow> bool" where
  "sending dev s d \<longleftrightarrow> bit (fst (dev_read32 dev (VaddrApicBase s + APIC_REG_ICR_LO) d)) 12"

lemma poll_upd [simp]: "poll dev (s\<lparr> apHw := d \<rparr>) = poll dev s" "sending dev (s\<lparr> apHw := d \<rparr>) = sending dev s"
  by (simp_all add: poll_def sending_def fun_eq_iff)

lemma wait_step:
  "ApicWaitForIcrIdle (Suc f) dev s =
    (if sending dev s (apHw s) then ApicWaitForIcrIdle f dev (s\<lparr> apHw := poll dev s (apHw s) \<rparr>) else Inr (s\<lparr> apHw := poll dev s (apHw s) \<rparr>))"
  using and_exp_eq_0_iff_not_bit [of "fst (dev_read32 dev (VaddrApicBase s + APIC_REG_ICR_LO) (apHw s))" 12]
  by (simp add: ApicRead_def MmioRead32_def poll_def sending_def case_prod_unfold Let_def APIC_ICR_DELIVERY_STATUS_def push_bit_eq_mult)

lemma wait_idle:
  assumes "\<And>d. sending dev s d \<Longrightarrow> busy (poll dev s d) < (busy d :: nat)" and "f > busy (apHw s)"
  shows "\<exists>n. ApicWaitForIcrIdle f dev s = Inr (s\<lparr> apHw := (poll dev s ^^ Suc n) (apHw s) \<rparr>)"
  using assms
proof (induction f arbitrary: s)
  case (Suc f)
  let ?s = "s\<lparr> apHw := poll dev s (apHw s) \<rparr>"
  show ?case
  proof (cases "sending dev s (apHw s)")
    case True
    with Suc.prems have "busy (apHw ?s) < f" by fastforce
    with Suc.IH [of ?s] Suc.prems(1) obtain n where
      "ApicWaitForIcrIdle f dev ?s = Inr (?s\<lparr> apHw := (poll dev s ^^ Suc n) (apHw ?s) \<rparr>)" by auto
    then show ?thesis using True unfolding wait_step by (intro exI [of _ "Suc n"]) (simp add: funpow_swap1)
  next
    case False
    then show ?thesis unfolding wait_step by (intro exI [of _ 0]) simp
  qed
qed simp

text \<open>
  C32: A command to another processor whose configuration is valid is sent as two register writes from which the
  controller reads back exactly that configuration, with the reserved delivery bit clear, and the call returns: before
  the writes and after them it reads the command register until the controller is idle, which it is after finitely
  many readings (\<open>busy\<close> decreases while it is sending).
\<close>
theorem ipi_command:
  assumes "KrValidateIpiConfigStruct c = IPI_CONFIG_STRUCT_VALIDATION_RESULT_SUCCESS"
    and "\<And>d. sending dev s d \<Longrightarrow> busy (poll dev s d) < (busy d :: nat)"
    and "busy (apHw s) < f" "\<And>d v. busy (dev_write32 dev (VaddrApicBase s + APIC_REG_ICR_LO) v d) < f"
  shows "\<exists>hi lo d m n. icr_decode hi lo = c \<and> \<not> bit lo 12 \<and> d = (poll dev s ^^ Suc m) (apHw s) \<and>
    ApicIssueIpi f dev c s = Inr (s\<lparr> apHw := (poll dev s ^^ Suc n)
      (dev_write32 dev (VaddrApicBase s + APIC_REG_ICR_LO) lo (dev_write32 dev (VaddrApicBase s + APIC_REG_ICR_HI) hi d)) \<rparr>)"
proof -
  let ?hi = "push_bit 24 (dwDestApic c)"
  obtain m where w: "ApicWaitForIcrIdle f dev s = Inr (s\<lparr> apHw := (poll dev s ^^ Suc m) (apHw s) \<rparr>)"
    using wait_idle [of dev s busy f] assms(2,3) by blast
  let ?d = "(poll dev s ^^ Suc m) (apHw s)"
  let ?s = "s\<lparr> apHw := dev_write32 dev (VaddrApicBase s + APIC_REG_ICR_LO) (icr_low c) (dev_write32 dev (VaddrApicBase s + APIC_REG_ICR_HI) ?hi ?d) \<rparr>"
  obtain k where "ApicWaitForIcrIdle f dev ?s = Inr (?s\<lparr> apHw := (poll dev s ^^ Suc k) (apHw ?s) \<rparr>)"
    using wait_idle [of dev ?s busy f] assms(2,4) by auto
  with w icr_roundtrip [OF assms(1)] show ?thesis
    by (intro exI [of _ ?hi] exI [of _ "icr_low c"] exI [of _ ?d] exI [of _ m] exI [of _ k])
       (simp add: ApicIssueIpi_def assms(1) ApicWrite_def MmioWrite32_def)
qed

text \<open>A controller that is busy for three readings after a command.\<close>

definition ipi_hw :: "nat devices" where
  "ipi_hw = \<lparr> dev_read32 = \<lambda>a d. (if d > 0 then 0x1000 else 0, d - 1), dev_write32 = \<lambda>a v d. 3,
     port_in8 = \<lambda>p d. (0, d), port_out8 = \<lambda>p v d. d, port_in32 = \<lambda>p d. (0, d) \<rparr>"

definition wit_ipi :: KrIpiConfig where
  "wit_ipi = \<lparr> dwDestApic = 5, IpiVector = 8, eDeliveryMode = IPI_DELIVERY_SIPI, eDestMode = 0, eLevel = 1, eTrigMode = 0, eDestShorthand = 0 \<rparr>"

definition wit_apic :: "nat apic_sys" where
  "wit_apic = \<lparr> IA32_APIC_BASE = 0, VaddrApicBase = 0, apHw = 2 \<rparr>"

theorem ipi_command_witness:
  "\<exists>hi lo d m n. icr_decode hi lo = wit_ipi \<and> \<not> bit lo 12 \<and> d = (poll ipi_hw wit_apic ^^ Suc m) (apHw wit_apic) \<and>
    ApicIssueIpi 4 ipi_hw wit_ipi wit_apic = Inr (wit_apic\<lparr> apHw := (poll ipi_hw wit_apic ^^ Suc n)
      (dev_write32 ipi_hw (VaddrApicBase wit_apic + APIC_REG_ICR_LO) lo (dev_write32 ipi_hw (VaddrApicBase wit_apic + APIC_REG_ICR_HI) hi d)) \<rparr>)"
  by (rule ipi_command [where busy = "\<lambda>d. d"])
     (auto simp: valid_config wit_ipi_def apic MAX_SMP_PROCESSORS_def ipi_hw_def wit_apic_def sending_def poll_def split: if_splits)

section \<open>The base address\<close>

lemma top_bit: "(a :: 'a::len word) \<noteq> 0 \<Longrightarrow> \<exists>n. bit a n \<and> (\<forall>m>n. \<not> bit a m)"
proof -
  assume "a \<noteq> 0"
  then obtain k where "bit a k" by (auto simp: bit_eq_iff)
  moreover have fin: "finite {n. bit a n}" by (rule finite_subset [of _ "{..<LENGTH('a)}"]) (auto dest: bit_imp_le_length)
  ultimately have m: "bit a (Max {n. bit a n})" using Max_in [OF fin] by auto
  then show ?thesis using Max_ge [OF fin] by (auto intro!: exI [of _ "Max {n. bit a n}"] simp: not_le [symmetric])
qed

text \<open>
  \<open>KrApicSetPhysicalBase\<close> shifts an address that already is an address: whatever the register held, the base
  read back is never the (nonzero) address that was set.
\<close>
lemma set_base_misplaced:
  assumes "a \<noteq> 0" "a < 2 ^ 36"
  shows "KrApicGetPhysicalBase (KrApicSetPhysicalBase a s) \<noteq> a"
proof -
  obtain n where n: "bit a n" "\<forall>m>n. \<not> bit a m" using top_bit [OF assms(1)] by blast
  have "unat a < 2 ^ 36" using assms(2) by (simp add: word_less_nat_alt)
  then have "n < 36" using bit_small [of a 36 n] n(1) by (cases "36 \<le> n") auto
  moreover have m: "IA32_APIC_BASE_ADDR_MASK = mask 48 AND NOT (mask 12)" "(0x0000FFFFFFFFFFFF :: QWORD) = mask 48"
    by (simp_all add: IA32_APIC_BASE_ADDR_MASK_def mask_eq_exp_minus_1)
  ultimately have "bit (KrApicGetPhysicalBase (KrApicSetPhysicalBase a s)) (n + 12)"
    using n(1) unfolding KrApicGetPhysicalBase_def KrApicSetPhysicalBase_def m
    by (simp add: bit_and_iff bit_or_iff bit_not_iff bit_push_bit_iff bit_mask_iff)
  then show ?thesis using n(2) by auto
qed

section \<open>Calibration ends\<close>

text \<open>The test of \<open>RecalcLoop\<close>, for the value \<open>M\<close> of a timer of \<open>b\<close> bits.\<close>

definition no_room :: "nat \<Rightarrow> nat \<Rightarrow> bool" where
  "no_room b M \<longleftrightarrow> (b = 24 \<and> M + 178977 \<ge> 16776960) \<or> M + 178977 > 4294967040"

lemma dest_count: "M < 2 ^ 32 \<Longrightarrow> ucast (of_nat M :: DWORD) + ucast NrTicksFor50ms = (of_nat (M + 178977) :: QWORD)"
  by (simp add: ucast_of_nat_up NrTicksFor50ms_def)

lemma recalc_test:
  assumes "M < 2 ^ 32"
  shows "((of_nat b = (24 :: UINT)) \<and> (of_nat (M + 178977) :: QWORD) \<ge> 0xFFFF00) \<or> (of_nat (M + 178977) :: QWORD) > ucast (DWORD_MAX - 0xFF)
    \<longleftrightarrow> ((of_nat b = (24 :: UINT)) \<and> M + 178977 \<ge> 16776960) \<or> M + 178977 > 4294967040"
proof -
  have u: "unat (of_nat (M + 178977) :: QWORD) = M + 178977" using assms by (intro unat_of_nat_small) simp
  have d: "unat (ucast (DWORD_MAX - 0xFF :: DWORD) :: QWORD) = 4294967040" by (simp add: DWORD_MAX_def)
  show ?thesis unfolding word_le_nat_alt word_less_nat_alt u d by simp
qed

lemma no_room_cases:
  assumes "b = 24 \<or> b = 32" "M < 2 ^ b"
  shows "\<not> no_room b M \<Longrightarrow> M + 179233 \<le> 2 ^ b" "no_room b M \<Longrightarrow> 2 ^ b \<le> M + 179233"
    "no_room b M \<Longrightarrow> 256 \<le> M"
  using assms by (auto simp: no_room_def)

lemma recalc_step:
  assumes "b = 24 \<or> b = 32" "fst (tick s) = of_nat M" "M < 2 ^ b"
  shows "RecalcLoop (Suc f) tick (of_nat b) s =
    (if no_room b M then RecalcLoop f tick (of_nat b) (snd (tick s)) else Inr (of_nat (M + 178977), snd (tick s)))"
proof -
  have M: "M < 2 ^ 32" using assms(1,3) by auto
  have b: "of_nat b = (24 :: UINT) \<longleftrightarrow> b = 24" using assms(1) by auto
  show ?thesis
    using recalc_test [OF M, of b] unfolding RecalcLoop.simps case_prod_unfold Let_def assms(2) dest_count [OF M] no_room_def b
    by (simp del: of_nat_add)
qed

text \<open>
  \<open>now\<close> is the number of ticks since the machine started: a reading shows its low bits, and it grows by at most
  256 ticks from one reading to the next.
\<close>

definition ticking :: "nat \<Rightarrow> (('d, 'a) apic_sys_scheme \<Rightarrow> nat) \<Rightarrow> ('d, 'a) ticks \<Rightarrow> bool" where
  "ticking b now tick \<longleftrightarrow> (\<forall>s. fst (tick s) = of_nat (now s mod 2 ^ b) \<and> now s < now (snd (tick s)) \<and> now (snd (tick s)) \<le> now s + 256)"

lemma wrap_close:
  assumes "2 ^ b \<le> t mod 2 ^ b + 179233" "t < u" "u \<le> t + 256" "256 \<le> u mod 2 ^ b" "b = 24 \<or> b = 32"
  shows "2 ^ b - u mod 2 ^ b < 2 ^ b - t mod (2 :: nat) ^ b"
proof -
  have "u div 2 ^ b = t div 2 ^ b"
  proof (rule ccontr)
    assume n: "u div 2 ^ b \<noteq> t div 2 ^ b"
    moreover have "t div 2 ^ b \<le> u div 2 ^ b" using assms(2) by (simp add: div_le_mono)
    ultimately have "t div 2 ^ b + 1 \<le> u div 2 ^ b" by simp
    then have "(t div 2 ^ b + 1) * 2 ^ b \<le> u div 2 ^ b * 2 ^ b" by (rule mult_le_mono1)
    moreover have "t < (t div 2 ^ b + 1) * 2 ^ b" by (simp add: dividend_less_div_times)
    moreover have "u = u div 2 ^ b * 2 ^ b + u mod 2 ^ b" by (rule div_mult_mod_eq [symmetric])
    ultimately show False using assms(3,4) by linarith
  qed
  moreover have "u = u div 2 ^ b * 2 ^ b + u mod 2 ^ b" "t = t div 2 ^ b * 2 ^ b + t mod 2 ^ b" by (simp_all only: div_mult_mod_eq)
  ultimately have "t mod 2 ^ b < u mod 2 ^ b" using assms(2) by (metis nat_add_left_cancel_less)
  moreover have "u mod 2 ^ b < 2 ^ b" by simp
  ultimately show ?thesis by linarith
qed

lemma recalc_loop:
  assumes "b = 24 \<or> b = 32" "ticking b now tick"
    "f > 0" "no_room b (now s mod 2 ^ b) \<Longrightarrow> f > 2 ^ b - now s mod 2 ^ b + 1"
  shows "\<exists>t s1. RecalcLoop f tick (of_nat b) s = Inr (of_nat (t mod 2 ^ b + 178977), s1) \<and> t mod 2 ^ b + 179233 \<le> 2 ^ b \<and> t < now s1 \<and> now s1 \<le> t + 256"
  using assms(3,4)
proof (induction f arbitrary: s)
  case (Suc f)
  let ?M = "now s mod 2 ^ b" and ?s = "snd (tick s)"
  have M: "?M < 2 ^ b" by simp
  have t: "fst (tick s) = of_nat ?M" "now s < now ?s" "now ?s \<le> now s + 256" using assms(2) by (auto simp: ticking_def)
  note step = recalc_step [where tick = tick and s = s, OF assms(1) t(1) M]
  show ?case
  proof (cases "no_room b ?M")
    case True
    have "no_room b (now ?s mod 2 ^ b) \<Longrightarrow> 2 ^ b - now ?s mod 2 ^ b < 2 ^ b - ?M"
      using wrap_close [OF no_room_cases(2) [OF assms(1) M True] t(2,3) no_room_cases(3) [OF assms(1) _ ] assms(1)] by simp
    moreover have "2 ^ b - ?M < f" using Suc.prems(2) True by simp
    ultimately have "f > 0" "no_room b (now ?s mod 2 ^ b) \<Longrightarrow> f > 2 ^ b - now ?s mod 2 ^ b + 1" by linarith+
    then show ?thesis using Suc.IH [of ?s] True unfolding step by simp
  next
    case False
    then show ?thesis using no_room_cases(1) [OF assms(1) M] t step by auto
  qed
qed simp

lemma same_epoch:
  assumes "t mod 2 ^ b + 179233 \<le> 2 ^ b" "t \<le> u" "u < t + 179233"
  shows "u mod 2 ^ b = t mod 2 ^ b + (u - t :: nat)"
proof -
  have "t mod 2 ^ b + (u - t) < 2 ^ b" using assms by linarith
  moreover have "u mod 2 ^ b = (t mod 2 ^ b + (u - t)) mod 2 ^ b"
    using assms(2) by (metis mod_add_left_eq le_add_diff_inverse)
  ultimately show ?thesis by simp
qed

lemma tick_loop:
  assumes "b = 24 \<or> b = 32" "ticking b now tick" "t mod 2 ^ b + 179233 \<le> 2 ^ b"
    "t \<le> now s" "now s < t + 179233" "f > t + 179233 - now s"
  shows "\<exists>s1. TickLoop f tick (of_nat (t mod 2 ^ b + 178977)) s = Inr s1 \<and> t + 178977 < now s1 \<and> now s1 \<le> t + 179489"
  using assms(4-)
proof (induction f arbitrary: s)
  case (Suc f)
  let ?s = "snd (tick s)"
  have t: "fst (tick s) = of_nat (now s mod 2 ^ b)" "now s < now ?s" "now ?s \<le> now s + 256" using assms(2) by (auto simp: ticking_def)
  have e: "now s mod 2 ^ b = t mod 2 ^ b + (now s - t)" using same_epoch [OF assms(3) Suc.prems(1,2)] .
  have "(2 :: nat) ^ b \<le> 2 ^ 32" using assms(1) by auto
  then have small: "t mod 2 ^ b + 178977 < 2 ^ 32" "now s mod 2 ^ b < 2 ^ 32" using assms(3) Suc.prems(2) e by linarith+
  have "fst (tick s) < ucast (of_nat (t mod 2 ^ b + 178977) :: QWORD) \<longleftrightarrow> now s mod 2 ^ b < t mod 2 ^ b + 178977"
    using small by (simp add: t(1) word_less_nat_alt unat_of_nat_small unsigned_ucast_eq take_bit_nat_eq_self del: of_nat_add)
  then have step: "TickLoop (Suc f) tick (of_nat (t mod 2 ^ b + 178977)) s =
      (if now s < t + 178977 then TickLoop f tick (of_nat (t mod 2 ^ b + 178977)) ?s else Inr ?s)"
    using Suc.prems(1) by (simp add: case_prod_unfold Let_def e del: of_nat_add) linarith
  show ?case
  proof (cases "now s < t + 178977")
    case True
    then show ?thesis using Suc.IH [of ?s] Suc.prems t(2,3) unfolding step by simp
  next
    case False
    then show ?thesis using Suc.prems t(2,3) unfolding step by simp
  qed
qed simp


text \<open>A controller whose timer shows a tick more at every reading, and counts down with it.\<close>

definition tick_hw :: "nat devices" where
  "tick_hw = \<lparr> dev_read32 = \<lambda>a d. (DWORD_MAX - of_nat d, d), dev_write32 = \<lambda>a v d. d,
     port_in8 = \<lambda>p d. (0, d), port_out8 = \<lambda>p v d. d, port_in32 = \<lambda>p d. (of_nat (d mod 2 ^ 24), d) \<rparr>"

definition tick_read :: "(nat, unit) ticks" where
  "tick_read s = (of_nat (apHw s mod 2 ^ 24), s\<lparr> apHw := apHw s + 1 \<rparr>)"


end
