(* ===== verification/Imgtool.thy ===== *)
theory Imgtool
  imports YchPrelude
begin

text \<open>
  The host tool that makes disk images: \<^verbatim>\<open>Tools/Imgtool/Source/Imgtool.c\<close> (cylinders, names, checksums)
  with the structures of \<^verbatim>\<open>Imgtool.h\<close>. The checksum by table is compared with the bitwise division it
  stands for.
\<close>

section \<open>Cylinder, head and sector\<close>

definition chs_heads :: DWORD where "chs_heads = 255"
definition chs_sectors :: DWORD where "chs_sectors = 63"

definition Imgtool_LBAToCHS :: "QWORD \<Rightarrow> BYTE \<times> BYTE \<times> BYTE" where
  "Imgtool_LBAToCHS LBA =
     (let c = ucast (LBA div ucast (chs_heads * chs_sectors)) :: DWORD;
          temp = ucast (LBA mod ucast (chs_heads * chs_sectors)) :: DWORD;
          h = temp div chs_sectors;
          s = temp mod chs_sectors + 1;
          (c, h, s) = if c > 1023 then (1023, 254, 63) else (c, h, s)
      in (ucast h, ucast ((s AND 0x3F) OR (drop_bit 2 c AND 0xC0)), ucast (c AND 0xFF)))"

section \<open>Names\<close>

definition GPT_PARTITION_NAME_CHAR_COUNT :: nat where "GPT_PARTITION_NAME_CHAR_COUNT = 36"

text \<open>What the loop writes for a string given as the bytes before its terminator.\<close>

fun UnicodeLoop :: "nat \<Rightarrow> BYTE list \<Rightarrow> BYTE list" where
  "UnicodeLoop 0 Src = []"
| "UnicodeLoop (Suc n) [] = []"
| "UnicodeLoop (Suc n) (c # Src) = c # 0 # UnicodeLoop n Src"

definition Imgtool_WriteASCIIToUNICODE16LE :: "BYTE list \<Rightarrow> BYTE list" where
  "Imgtool_WriteASCIIToUNICODE16LE Src =
     (let out = UnicodeLoop GPT_PARTITION_NAME_CHAR_COUNT Src; i = length out div 2
      in out @ replicate ((GPT_PARTITION_NAME_CHAR_COUNT - i) * 2) 0)"

section \<open>Checksums\<close>

definition crc_shift :: "DWORD \<Rightarrow> DWORD" where
  "crc_shift crc = (if crc AND 1 \<noteq> 0 then drop_bit 1 crc XOR 0xEDB88320 else drop_bit 1 crc)"

text \<open>The table, and the static variable before it is filled.\<close>

definition InitTableCRC32 :: "DWORD list" where
  "InitTableCRC32 = map (\<lambda>i. (crc_shift ^^ 8) (of_nat i)) [0..<256]"

definition TableCRC32_zero :: "DWORD list" where
  "TableCRC32_zero = replicate 256 0"

definition crc_byte :: "DWORD list \<Rightarrow> DWORD \<Rightarrow> BYTE \<Rightarrow> DWORD" where
  "crc_byte TableCRC32 crc b =
     (let index = ucast ((crc XOR ucast b) AND 0xFF) :: BYTE in drop_bit 8 crc XOR TableCRC32 ! unat index)"

definition ChecksumCRC32 :: "DWORD list \<Rightarrow> BYTE list \<Rightarrow> DWORD" where
  "ChecksumCRC32 TableCRC32 buf = foldl (crc_byte TableCRC32) 0xFFFFFFFF buf XOR 0xFFFFFFFF"

section \<open>The checksum is the bitwise one\<close>

text \<open>The reference: the bits of the message enter one by one, lowest bit of each byte first.\<close>

definition crc_bit :: "DWORD \<Rightarrow> bool \<Rightarrow> DWORD" where
  "crc_bit crc b = drop_bit 1 crc XOR (if bit crc 0 \<noteq> b then 0xEDB88320 else 0)"

definition byte_bits :: "BYTE \<Rightarrow> bool list" where
  "byte_bits b = map (bit b) [0..<8]"

definition crc_reference :: "BYTE list \<Rightarrow> DWORD" where
  "crc_reference buf = NOT (foldl crc_bit (NOT 0) (concat (map byte_bits buf)))"

lemma crc_shift_alt: "crc_shift x = drop_bit 1 x XOR (if bit x 0 then 0xEDB88320 else 0)"
  using and_exp_eq_0_iff_not_bit [of x 0] by (auto simp: crc_shift_def)

lemma crc_shift_xor: "crc_shift (x XOR y) = crc_shift x XOR crc_shift y"
  by (rule bit_word_eqI) (auto simp: crc_shift_alt bit_xor_iff bit_drop_bit_eq)

lemma xor_cancel: "a XOR p = b XOR p \<Longrightarrow> a = (b :: 'a::len word)"
  by (metis xor.assoc xor_self_eq xor.right_neutral)

lemma crc_shift_inj: "crc_shift x = crc_shift y \<Longrightarrow> x = y"
proof -
  assume e: "crc_shift x = crc_shift y"
  have top: "bit (crc_shift z) 31 \<longleftrightarrow> bit z 0" for z
    using bit_imp_le_length [of z 32] by (auto simp: crc_shift_alt bit_xor_iff bit_drop_bit_eq)
  have "bit x 0 = bit y 0" using e top by metis
  then have "drop_bit 1 x = drop_bit 1 y"
    using e [unfolded crc_shift_alt] by - (rule xor_cancel [where p = "if bit x 0 then 0xEDB88320 else 0"], simp only: \<open>bit x 0 = bit y 0\<close>)
  then have "bit x (Suc n) = bit y (Suc n)" for n by (metis bit_drop_bit_eq o_apply plus_1_eq_Suc)
  with \<open>bit x 0 = bit y 0\<close> have "bit x n = bit y n" for n by (cases n) simp_all
  then show ?thesis by (simp add: bit_eq_iff)
qed

lemma crc_shifts_xor: "(crc_shift ^^ k) (x XOR y) = (crc_shift ^^ k) x XOR (crc_shift ^^ k) y"
  by (induction k) (simp_all add: crc_shift_xor)

lemma crc_shifts_inj: "(crc_shift ^^ k) x = (crc_shift ^^ k) y \<Longrightarrow> x = y"
  by (induction k) (auto dest: crc_shift_inj)

lemma crc_shifts_low: "(\<And>n. n < k \<Longrightarrow> \<not> bit x n) \<Longrightarrow> (crc_shift ^^ k) x = drop_bit k x"
proof (induction k)
  case (Suc k)
  then have "(crc_shift ^^ k) x = drop_bit k x" "\<not> bit (drop_bit k x) 0" by (simp_all add: bit_drop_bit_eq)
  then have "(crc_shift ^^ Suc k) x = drop_bit 1 (drop_bit k x)" by (simp only: funpow.simps o_apply crc_shift_alt [of "drop_bit k x"]) simp
  then show ?case by simp
qed simp

lemma crc_bit_shift: "crc_bit crc b = crc_shift (crc XOR of_bool b)"
  by (cases b) (auto simp: crc_bit_def crc_shift_alt drop_bit_xor bit_xor_iff)

lemma take_bit_top: "take_bit (Suc k) x = take_bit k x XOR push_bit k (of_bool (bit x k))"
  for x :: "'a::len word"
  by (rule bit_word_eqI) (auto simp: bit_take_bit_iff bit_xor_iff bit_push_bit_iff bit_1_iff less_Suc_eq)

lemma crc_bits: "foldl crc_bit crc (map (bit b) [0..<k]) = (crc_shift ^^ k) (crc XOR take_bit k b)" for b :: DWORD
proof (induction k)
  case (Suc k)
  have "(crc_shift ^^ k) (push_bit k (of_bool (bit b k))) = drop_bit k (push_bit k (of_bool (bit b k)))"
    by (rule crc_shifts_low) (simp add: bit_push_bit_iff)
  moreover have "bit b k \<Longrightarrow> k < 32" using bit_imp_le_length [of b k] by simp
  then have "drop_bit k (push_bit k (of_bool (bit b k))) = (of_bool (bit b k) :: DWORD)"
    by (intro bit_word_eqI) (auto simp: bit_drop_bit_eq bit_push_bit_iff bit_1_iff)
  ultimately have "(crc_shift ^^ k) (push_bit k (of_bool (bit b k))) = of_bool (bit b k)" by simp
  then show ?case using Suc by (simp add: crc_bit_shift take_bit_top crc_shifts_xor xor.assoc [symmetric])
qed simp

lemma crc_byte_bits: "foldl crc_bit crc (byte_bits b) = (crc_shift ^^ 8) (crc XOR ucast b)"
proof -
  have "byte_bits b = map (bit (ucast b :: DWORD)) [0..<8]" by (simp add: byte_bits_def bit_ucast_iff)
  moreover have "take_bit 8 (ucast b :: DWORD) = ucast b"
    using bit_imp_le_length [of b] by (intro bit_word_eqI) (auto simp: bit_take_bit_iff bit_ucast_iff)
  ultimately show ?thesis using crc_bits [of crc "ucast b" 8] by simp
qed

lemma crc_table: "crc_byte InitTableCRC32 crc b = (crc_shift ^^ 8) (crc XOR ucast b)"
proof -
  let ?x = "crc XOR ucast b" and ?i = "ucast ((crc XOR ucast b) AND 0xFF) :: BYTE"
  have m: "(0xFF :: DWORD) = mask 8" by (simp add: mask_eq_exp_minus_1)
  have split: "?x = (?x AND mask 8) XOR (?x AND NOT (mask 8))"
    by (rule bit_word_eqI) (auto simp: bit_xor_iff bit_and_iff bit_not_iff)
  have "unat ?i < 256" using unat_lt_exp [of ?i] by simp
  moreover have "of_nat (unat ?i) = ?x AND mask 8"
    using bit_imp_le_length [of b] by (intro bit_word_eqI) (auto simp: m bit_and_iff bit_mask_iff bit_ucast_iff)
  ultimately have t: "InitTableCRC32 ! unat ?i = (crc_shift ^^ 8) (?x AND mask 8)" by (simp add: InitTableCRC32_def)
  have "(crc_shift ^^ 8) ?x = (crc_shift ^^ 8) (?x AND mask 8) XOR drop_bit 8 (?x AND NOT (mask 8))"
    by (subst split, subst crc_shifts_xor, subst crc_shifts_low [of 8 "?x AND NOT (mask 8)"]) (auto simp: bit_and_iff bit_not_iff bit_mask_iff)
  moreover have "drop_bit 8 (?x AND NOT (mask 8)) = drop_bit 8 crc"
    using bit_imp_le_length [of b] bit_imp_le_length [of crc]
    by (intro bit_word_eqI) (fastforce simp: bit_drop_bit_eq bit_and_iff bit_not_iff bit_mask_iff bit_xor_iff bit_ucast_iff)
  ultimately show ?thesis using t by (simp add: crc_byte_def Let_def xor.commute)
qed

lemma crc_fold: "foldl (crc_byte InitTableCRC32) crc buf = foldl crc_bit crc (concat (map byte_bits buf))"
  by (induction buf arbitrary: crc) (simp_all add: crc_table crc_byte_bits)

lemma crc_fold_inj: "foldl (crc_byte InitTableCRC32) x buf = foldl (crc_byte InitTableCRC32) y buf \<Longrightarrow> x = y"
proof (induction buf arbitrary: x y)
  case (Cons b buf)
  have "crc_byte InitTableCRC32 x b = crc_byte InitTableCRC32 y b" by (rule Cons.IH) (use Cons.prems in simp)
  then have "(crc_shift ^^ 8) (x XOR ucast b) = (crc_shift ^^ 8) (y XOR ucast b)" unfolding crc_table .
  then show ?case by (rule xor_cancel [OF crc_shifts_inj])
qed simp

lemma crc_byte_inj: "crc_byte InitTableCRC32 crc b = crc_byte InitTableCRC32 crc b' \<Longrightarrow> b = b'"
proof -
  assume "crc_byte InitTableCRC32 crc b = crc_byte InitTableCRC32 crc b'"
  then have "crc XOR ucast b = crc XOR ucast b'" unfolding crc_table by (rule crc_shifts_inj)
  then have "ucast b XOR crc = ucast b' XOR crc" by (simp only: xor.commute)
  then have "ucast b = (ucast b' :: DWORD)" by (rule xor_cancel)
  then show ?thesis
    using bit_imp_le_length [of b] bit_imp_le_length [of b'] by (fastforce simp: bit_eq_iff bit_ucast_iff)
qed

lemma crc_one_byte:
  "ChecksumCRC32 InitTableCRC32 (xs @ b # ys) = ChecksumCRC32 InitTableCRC32 (xs @ b' # ys) \<longleftrightarrow> b = b'"
proof
  assume "ChecksumCRC32 InitTableCRC32 (xs @ b # ys) = ChecksumCRC32 InitTableCRC32 (xs @ b' # ys)"
  then have "foldl (crc_byte InitTableCRC32) 0xFFFFFFFF (xs @ b # ys) = foldl (crc_byte InitTableCRC32) 0xFFFFFFFF (xs @ b' # ys)"
    unfolding ChecksumCRC32_def by (rule xor_cancel)
  then have "crc_byte InitTableCRC32 (foldl (crc_byte InitTableCRC32) 0xFFFFFFFF xs) b = crc_byte InitTableCRC32 (foldl (crc_byte InitTableCRC32) 0xFFFFFFFF xs) b'"
    unfolding foldl_append foldl_Cons by (rule crc_fold_inj)
  then show "b = b'" by (rule crc_byte_inj)
qed simp

lemma crc_by_table: "ChecksumCRC32 InitTableCRC32 buf = crc_reference buf"
proof -
  have ones: "(0xFFFFFFFF :: DWORD) = NOT 0" by simp
  show ?thesis unfolding ChecksumCRC32_def crc_reference_def crc_fold ones by (rule bit_word_eqI) (simp add: bit_xor_iff bit_not_iff)
qed

text \<open>
  C14: With the table that \<open>InitTableCRC32\<close> fills, \<open>ChecksumCRC32\<close> is the bitwise remainder of the reflected
  polynomial 0xEDB88320 with all ones before and after, for every message; and it tells apart any two messages that
  differ in exactly one byte.
\<close>
theorem crc32_correct:
  "ChecksumCRC32 InitTableCRC32 buf = crc_reference buf \<and>
   (ChecksumCRC32 InitTableCRC32 (xs @ b # ys) = ChecksumCRC32 InitTableCRC32 (xs @ b' # ys) \<longleftrightarrow> b = b')"
  using crc_by_table crc_one_byte by blast

section \<open>Names and cylinders\<close>

lemma unicode_loop: "UnicodeLoop n Src = concat (map (\<lambda>c. [c, 0]) (take n Src))"
  by (induction n Src rule: UnicodeLoop.induct) simp_all

lemma name_bytes:
  "Imgtool_WriteASCIIToUNICODE16LE Src = concat (map (\<lambda>c. [c, 0]) (take 36 Src @ replicate (36 - length Src) 0))"
proof -
  have z: "concat (replicate m [0, 0]) = replicate (m * 2) (0 :: BYTE)" for m by (induction m) simp_all
  have l: "length (concat (map (\<lambda>c. [c, 0]) xs)) = length xs * 2" for xs :: "BYTE list" by (induction xs) simp_all
  show ?thesis
    by (cases "length Src \<le> 36") (simp_all add: Imgtool_WriteASCIIToUNICODE16LE_def Let_def GPT_PARTITION_NAME_CHAR_COUNT_def unicode_loop z l diff_mult_distrib)
qed

lemma name_length: "length (Imgtool_WriteASCIIToUNICODE16LE Src) = 72"
proof -
  have l: "length (concat (map (\<lambda>c. [c, 0]) xs)) = length xs * 2" for xs :: "BYTE list" by (induction xs) simp_all
  show ?thesis by (simp only: name_bytes l) simp
qed

text \<open>
  A partition name field is always filled to its 72 bytes: the first 36 characters of the string in UTF-16, then zeros.
\<close>
theorem partition_name:
  "Imgtool_WriteASCIIToUNICODE16LE Src = concat (map (\<lambda>c. [c, 0]) (take 36 Src @ replicate (36 - length Src) 0)) \<and>
   length (Imgtool_WriteASCIIToUNICODE16LE Src) = 72"
  using name_bytes name_length by blast

text \<open>How a disk reads the three bytes.\<close>

definition chs_lba :: "BYTE \<times> BYTE \<times> BYTE \<Rightarrow> nat" where
  "chs_lba t = (case t of (h, s, c) \<Rightarrow> ((unat c + 256 * (unat s div 64)) * 255 + unat h) * 63 + unat s mod 64 - 1)"

lemma sector_byte:
  assumes "S < (64 :: DWORD)" "C < (1024 :: DWORD)"
  shows "unat (ucast ((S AND 0x3F) OR (drop_bit 2 C AND 0xC0)) :: BYTE) mod 64 = unat S"
    "unat (ucast ((S AND 0x3F) OR (drop_bit 2 C AND 0xC0)) :: BYTE) div 64 = unat C div 256"
proof -
  let ?b = "ucast ((S AND 0x3F) OR (drop_bit 2 C AND 0xC0)) :: BYTE"
  have m: "(0x3F :: DWORD) = mask 6" "(0xC0 :: DWORD) = mask 8 AND NOT (mask 6)" by (simp_all add: mask_eq_exp_minus_1)
  have S: "bit S n \<Longrightarrow> n < 6" and C: "bit C n \<Longrightarrow> n < 10" for n
    using assms bit_small [of S 6 n] bit_small [of C 10 n] by (auto simp: word_less_nat_alt not_less [symmetric])
  have "take_bit 6 ?b = ucast S"
    using S by (intro bit_word_eqI) (auto simp: m bit_take_bit_iff bit_ucast_iff bit_or_iff bit_and_iff bit_not_iff bit_mask_iff)
  moreover have "bit C (8 + n) \<Longrightarrow> n < 2" for n using C [of "8 + n"] by simp
  then have "drop_bit 6 ?b = ucast (drop_bit 8 C)"
    using S by (intro bit_word_eqI) (auto simp: m bit_drop_bit_eq bit_ucast_iff bit_or_iff bit_and_iff bit_not_iff bit_mask_iff)
  moreover have "unat (take_bit 6 ?b) = unat ?b mod 64" "unat (drop_bit 6 ?b) = unat ?b div 64"
    by (simp_all add: take_bit_eq_mod drop_bit_eq_div unat_mod unat_div)
  moreover have "unat (ucast S :: BYTE) = unat S" "unat (ucast (drop_bit 8 C) :: BYTE) = unat C div 256"
    using assms by (simp_all add: word_less_nat_alt unsigned_ucast_eq take_bit_nat_eq_self drop_bit_eq_div unat_div)
  ultimately show "unat ?b mod 64 = unat S" "unat ?b div 64 = unat C div 256" by metis+
qed

text \<open>
  \<open>Imgtool_LBAToCHS\<close> encodes every block address below 1024 cylinders of 255 heads and 63 sectors so that it
  reads back, and writes the greatest address for all others, as far as the cylinder fits into 32 bits.
\<close>
theorem lba_to_chs:
  assumes "LBA < 0x3EC100000000"
  shows "if unat LBA < 16450560 then chs_lba (Imgtool_LBAToCHS LBA) = unat LBA else Imgtool_LBAToCHS LBA = (254, 255, 255)"
proof -
  let ?n = "unat LBA"
  let ?q = "?n div 16065" and ?r = "?n mod 16065"
  have "?n < 16065 * 4294967296" using assms by (simp add: word_less_nat_alt)
  then have q: "?q < 2 ^ 32" by (simp add: less_mult_imp_div_less)
  have c: "ucast (LBA div 16065) = (of_nat ?q :: DWORD)" and t: "ucast (LBA mod 16065) = (of_nat ?r :: DWORD)"
    using q by (simp_all add: word_eq_unat unat_of_nat_small unsigned_ucast_eq take_bit_nat_eq_self unat_div unat_mod)
  have r: "?r < 16065" by simp
  have h: "of_nat ?r div (63 :: DWORD) = of_nat (?r div 63)" and s: "of_nat ?r mod (63 :: DWORD) + 1 = of_nat (?r mod 63 + 1)"
    using r by (simp_all add: word_eq_unat unat_div unat_mod unat_of_nat_small unat_word_ariths)
  have big: "(of_nat ?q :: DWORD) > 1023 \<longleftrightarrow> ?q > 1023"
    using q by (simp add: word_less_nat_alt unat_of_nat_small)
  show ?thesis
  proof (cases "?q > 1023")
    case True
    then have "\<not> ?n < 16450560" by linarith
    then show ?thesis using True
      by (simp add: Imgtool_LBAToCHS_def chs_heads_def chs_sectors_def Let_def c t big)
  next
    case False
    then have n: "?n < 16450560" by linarith
    let ?S = "of_nat (?r mod 63 + 1) :: DWORD" and ?C = "of_nat ?q :: DWORD"
    have ff: "(0xFF :: DWORD) = mask 8" by (simp add: mask_eq_exp_minus_1)
    have u: "unat ?S = ?r mod 63 + 1" by (rule unat_of_nat_small) simp
    have S: "?S < 64" and C: "?C < 1024" using False u by (simp_all add: word_less_nat_alt unat_of_nat_small del: of_nat_add)
    have e: "Imgtool_LBAToCHS LBA = (ucast (of_nat (?r div 63) :: DWORD), ucast ((?S AND 0x3F) OR (drop_bit 2 ?C AND 0xC0)), ucast (?C AND 0xFF))"
      using False by (simp add: Imgtool_LBAToCHS_def chs_heads_def chs_sectors_def Let_def c t big h s del: of_nat_add)
    have cb: "unat (ucast (?C AND 0xFF) :: BYTE) = ?q mod 256"
      using False by (simp add: ff unsigned_ucast_eq unat_and_mask unat_of_nat_small take_bit_nat_eq_self)
    have hb: "unat (ucast (of_nat (?r div 63) :: DWORD) :: BYTE) = ?r div 63"
      using r by (simp add: unsigned_ucast_eq unat_of_nat_small take_bit_nat_eq_self)
    have "unat ?C = ?q" using False by (intro unat_of_nat_small) simp
    then have "chs_lba (Imgtool_LBAToCHS LBA) = ((?q mod 256 + 256 * (?q div 256)) * 255 + ?r div 63) * 63 + (?r mod 63 + 1) - 1"
      unfolding e chs_lba_def prod.case cb hb sector_byte [OF S C] u by simp
    also have "\<dots> = ?n" by simp
    finally show ?thesis using n by simp
  qed
qed

theorem lba_to_chs_witness:
  "chs_lba (Imgtool_LBAToCHS 2048) = unat (2048 :: QWORD)"
  using lba_to_chs [of 2048] by simp

end
