(* ===== verification/MakeStandard.thy ===== *)
theory MakeStandard
  imports Imgtool "HOL-Library.Signed_Division"
begin

text \<open>
  The routine of the host tool that makes a disk image,
  \<^verbatim>\<open>Tools/Imgtool/Source/Routines/MakeStandard.c\<close>: the protective boot record, both partition headers and
  both partition tables. What the host answers to the calls of its library is a parameter.
\<close>

section \<open>Structures\<close>

type_synonym INT32 = "32 word"

definition MBR_BOOT_INDICATOR_NO :: BYTE where "MBR_BOOT_INDICATOR_NO = 0x00"
definition MBR_SYSTEM_ID_GPT_PROTECTIVE :: BYTE where "MBR_SYSTEM_ID_GPT_PROTECTIVE = 0xEE"
definition MBR_PARTITION_TABLE_OFFSET :: SIZE where "MBR_PARTITION_TABLE_OFFSET = 0x01BE"
definition MBR_SIGNATURE_OFFSET :: SIZE where "MBR_SIGNATURE_OFFSET = 0x01FE"
definition MBR_SIGNATURE :: WORD where "MBR_SIGNATURE = 0xAA55"

record MBR_PARTITION_ENTRY =
  BootIndicator :: BYTE
  StartCHS :: "BYTE \<times> BYTE \<times> BYTE"
  SystemID :: BYTE
  EndCHS :: "BYTE \<times> BYTE \<times> BYTE"
  mbrStartLBA :: DWORD
  mbrSize :: DWORD

definition GPT_PARTITION_HEADER_SIGNATURE :: "BYTE list" where
  "GPT_PARTITION_HEADER_SIGNATURE = map (of_nat \<circ> of_char) ''EFI PART''"
definition GPT_INITIAL_REVISION :: DWORD where "GPT_INITIAL_REVISION = 0x00010000"
definition GPT_EFI_SYSTEM_PARTITION_UUID :: "BYTE list" where
  "GPT_EFI_SYSTEM_PARTITION_UUID = [0x28, 0x73, 0x2A, 0xC1, 0x1F, 0xF8, 0xD2, 0x11, 0xBA, 0x4B, 0x00, 0xA0, 0xC9, 0x3E, 0xC9, 0x3B]"
definition GPT_MICROSOFT_BASIC_DATA :: "BYTE list" where
  "GPT_MICROSOFT_BASIC_DATA = [0xA2, 0xA0, 0xD0, 0xEB, 0xE5, 0xB9, 0x33, 0x44, 0x87, 0xC0, 0x68, 0xB6, 0xB7, 0x26, 0x99, 0xC7]"
definition GPT_ATTRIBUTE_REQUIRED :: QWORD where "GPT_ATTRIBUTE_REQUIRED = push_bit 0 1"

record GPT_PARTITION_HEADER =
  gSignature :: "BYTE list"
  gRevision :: DWORD
  gHeaderSize :: DWORD
  gChecksum :: DWORD
  gReserved :: "BYTE list"
  SelfLBA :: QWORD
  AlternateLBA :: QWORD
  FirstUsableLBA :: QWORD
  LastUsableLBA :: QWORD
  DiskGUID :: "BYTE list"
  PartitionTableLBA :: QWORD
  NoPartitionEntries :: DWORD
  BytesPerPartitionEntry :: DWORD
  PartitionTableChecksum :: DWORD

record GPT_PARTITION_ENTRY =
  PartitionTypeGUID :: "BYTE list"
  PartitionGUID :: "BYTE list"
  StartLBA :: QWORD
  EndLBA :: QWORD
  Attributes :: QWORD
  PartitionName :: "BYTE list"

text \<open>The packed structures in memory.\<close>

definition chs_bytes :: "BYTE \<times> BYTE \<times> BYTE \<Rightarrow> BYTE list" where
  "chs_bytes t = (case t of (a, b, c) \<Rightarrow> [a, b, c])"

definition mbr_entry_bytes :: "MBR_PARTITION_ENTRY \<Rightarrow> BYTE list" where
  "mbr_entry_bytes e = [BootIndicator e] @ chs_bytes (StartCHS e) @ [SystemID e] @ chs_bytes (EndCHS e) @ le32 (mbrStartLBA e) @ le32 (mbrSize e)"

definition header_bytes :: "GPT_PARTITION_HEADER \<Rightarrow> BYTE list" where
  "header_bytes h = gSignature h @ le32 (gRevision h) @ le32 (gHeaderSize h) @ le32 (gChecksum h) @ gReserved h @
     le64 (SelfLBA h) @ le64 (AlternateLBA h) @ le64 (FirstUsableLBA h) @ le64 (LastUsableLBA h) @ DiskGUID h @
     le64 (PartitionTableLBA h) @ le32 (NoPartitionEntries h) @ le32 (BytesPerPartitionEntry h) @ le32 (PartitionTableChecksum h)"

definition entry_bytes :: "GPT_PARTITION_ENTRY \<Rightarrow> BYTE list" where
  "entry_bytes e = PartitionTypeGUID e @ PartitionGUID e @ le64 (StartLBA e) @ le64 (EndLBA e) @ le64 (Attributes e) @ PartitionName e"

definition sizeof_GPT_PARTITION_HEADER :: DWORD where "sizeof_GPT_PARTITION_HEADER = 92"
definition sizeof_GPT_PARTITION_ENTRY :: DWORD where "sizeof_GPT_PARTITION_ENTRY = 128"

section \<open>The host\<close>

text \<open>
  The file, and the answers of the host: \<open>host_ok k\<close> says whether the \<open>k\<close>-th call that opens, resizes, seeks or
  allocates succeeds, \<open>host_items k n\<close> how many of \<open>n\<close> items the \<open>k\<close>-th call writes, and \<open>host_guid\<close> gives the
  identifiers it generates.
\<close>

record diskfile =
  fsize :: nat
  fdata :: "nat \<Rightarrow> BYTE"
  fpos :: nat

record host =
  host_ok :: "nat \<Rightarrow> bool"
  host_items :: "nat \<Rightarrow> nat \<Rightarrow> nat"
  host_guid :: "nat \<Rightarrow> BYTE list"

text \<open>\<open>Inl\<close> is the file when the routine gives up.\<close>

type_synonym fres = "diskfile + diskfile"

definition fbind :: "fres \<Rightarrow> (diskfile \<Rightarrow> fres) \<Rightarrow> fres" where
  "fbind m f = (case m of Inl d \<Rightarrow> Inl d | Inr d \<Rightarrow> f d)"

definition file_truncate :: "host \<Rightarrow> nat \<Rightarrow> SIZE \<Rightarrow> diskfile \<Rightarrow> fres" where
  "file_truncate io k n d = (if host_ok io k \<and> 0 \<le> sint n then Inr (d\<lparr> fsize := unat n, fdata := \<lambda>a. if a < unat n then fdata d a else 0 \<rparr>) else Inl d)"

definition file_seek :: "host \<Rightarrow> nat \<Rightarrow> SIZE \<Rightarrow> diskfile \<Rightarrow> fres" where
  "file_seek io k off d = (if host_ok io k \<and> 0 \<le> sint off then Inr (d\<lparr> fpos := unat off \<rparr>) else Inl d)"

definition put_bytes :: "nat \<Rightarrow> BYTE list \<Rightarrow> (nat \<Rightarrow> BYTE) \<Rightarrow> nat \<Rightarrow> BYTE" where
  "put_bytes p bs m = (\<lambda>a. if p \<le> a \<and> a < p + length bs then bs ! (a - p) else m a)"

definition file_write :: "host \<Rightarrow> nat \<Rightarrow> nat \<Rightarrow> nat \<Rightarrow> BYTE list \<Rightarrow> diskfile \<Rightarrow> fres" where
  "file_write io k n sz bs d =
     (let m = host_items io k n; out = take (m * sz) bs;
          d' = d\<lparr> fdata := put_bytes (fpos d) out (fdata d), fsize := max (fsize d) (fpos d + length out), fpos := fpos d + length out \<rparr>
      in if m = n then Inr d' else Inl d')"

section \<open>The layout\<close>

definition NO_PARTITIONS_TO_ALLOCATE :: INT32 where "NO_PARTITIONS_TO_ALLOCATE = 128"
definition MINIMUM_DISK_SIZE_MIB :: INT32 where "MINIMUM_DISK_SIZE_MIB = 128"
definition EFI_SYSTEM_PART_ADDRESS :: INT32 where "EFI_SYSTEM_PART_ADDRESS = 1024 * 1024"
definition EFI_SYSTEM_PART_SIZE_MIB :: INT32 where "EFI_SYSTEM_PART_SIZE_MIB = 100"
definition STD_LAYOUT_PARTITION_COUNT :: nat where "STD_LAYOUT_PARTITION_COUNT = 2"
definition ROUTINE_OK :: INT32 where "ROUTINE_OK = 0"
definition ROUTINE_FAIL :: INT32 where "ROUTINE_FAIL = 1"

definition blockCount :: "INT32 \<Rightarrow> INT32 \<Rightarrow> SIZE" where
  "blockCount iDiskSize iBlockSize =
     (let rawDiskSize = scast iDiskSize * 1024 * 1024 in (rawDiskSize + scast iBlockSize - 1) div scast iBlockSize)"

definition partitionTableBlockCount :: "INT32 \<Rightarrow> SIZE" where
  "partitionTableBlockCount iBlockSize =
     (scast NO_PARTITIONS_TO_ALLOCATE * ucast sizeof_GPT_PARTITION_ENTRY + scast iBlockSize - 1) div scast iBlockSize"

definition protective_entry :: "SIZE \<Rightarrow> MBR_PARTITION_ENTRY" where
  "protective_entry n =
     (let Size = ucast (n - 1) :: DWORD
      in \<lparr> BootIndicator = MBR_BOOT_INDICATOR_NO, StartCHS = Imgtool_LBAToCHS 1, SystemID = MBR_SYSTEM_ID_GPT_PROTECTIVE,
           EndCHS = Imgtool_LBAToCHS (ucast Size), mbrStartLBA = 1, mbrSize = Size \<rparr>)"

definition standard_header :: "host \<Rightarrow> SIZE \<Rightarrow> SIZE \<Rightarrow> GPT_PARTITION_HEADER" where
  "standard_header io n tableBlocks =
     \<lparr> gSignature = GPT_PARTITION_HEADER_SIGNATURE, gRevision = GPT_INITIAL_REVISION, gHeaderSize = sizeof_GPT_PARTITION_HEADER,
       gChecksum = 0, gReserved = replicate 4 0, SelfLBA = 1, AlternateLBA = n - 1, FirstUsableLBA = 2 + tableBlocks,
       LastUsableLBA = n - 1 - 1 - tableBlocks, DiskGUID = host_guid io 0, PartitionTableLBA = 2,
       NoPartitionEntries = NO_PARTITIONS_TO_ALLOCATE, BytesPerPartitionEntry = sizeof_GPT_PARTITION_ENTRY, PartitionTableChecksum = 0 \<rparr>"

text \<open>A quotient of two \<^verbatim>\<open>int\<close> values, converted to 64 bits.\<close>

definition int_quot :: "INT32 \<Rightarrow> INT32 \<Rightarrow> QWORD" where
  "int_quot a b = of_int (sint a sdiv sint b)"

definition partEFI :: "host \<Rightarrow> INT32 \<Rightarrow> GPT_PARTITION_ENTRY" where
  "partEFI io iBlockSize =
     (let start = int_quot EFI_SYSTEM_PART_ADDRESS iBlockSize
      in \<lparr> PartitionTypeGUID = GPT_EFI_SYSTEM_PARTITION_UUID, PartitionGUID = host_guid io 1, StartLBA = start,
           EndLBA = start + int_quot (EFI_SYSTEM_PART_SIZE_MIB * 1024 * 1024) iBlockSize - 1, Attributes = GPT_ATTRIBUTE_REQUIRED,
           PartitionName = Imgtool_WriteASCIIToUNICODE16LE (map (of_nat \<circ> of_char) ''EFI System Partition'') \<rparr>)"

definition partOS :: "host \<Rightarrow> GPT_PARTITION_ENTRY \<Rightarrow> QWORD \<Rightarrow> GPT_PARTITION_ENTRY" where
  "partOS io efi lastLBA =
     \<lparr> PartitionTypeGUID = GPT_MICROSOFT_BASIC_DATA, PartitionGUID = host_guid io 2, StartLBA = EndLBA efi + 1, EndLBA = lastLBA,
       Attributes = GPT_ATTRIBUTE_REQUIRED,
       PartitionName = Imgtool_WriteASCIIToUNICODE16LE (map (of_nat \<circ> of_char) ''Ych Operating System'') \<rparr>"

definition standard_table :: "host \<Rightarrow> INT32 \<Rightarrow> QWORD \<Rightarrow> BYTE list" where
  "standard_table io iBlockSize lastLBA =
     (let efi = partEFI io iBlockSize
      in entry_bytes efi @ entry_bytes (partOS io efi lastLBA) @
         replicate (unat (NO_PARTITIONS_TO_ALLOCATE * sizeof_GPT_PARTITION_ENTRY) - unat sizeof_GPT_PARTITION_ENTRY * STD_LAYOUT_PARTITION_COUNT) 0)"

text \<open>The header with both checksums, and its mirror.\<close>

definition primary_header :: "DWORD list \<Rightarrow> BYTE list \<Rightarrow> GPT_PARTITION_HEADER \<Rightarrow> GPT_PARTITION_HEADER" where
  "primary_header crc table h =
     (let h1 = h\<lparr> PartitionTableChecksum := ChecksumCRC32 crc table \<rparr> in h1\<lparr> gChecksum := ChecksumCRC32 crc (header_bytes h1) \<rparr>)"

definition alternate_header :: "DWORD list \<Rightarrow> GPT_PARTITION_HEADER \<Rightarrow> GPT_PARTITION_HEADER" where
  "alternate_header crc h =
     (let a = h\<lparr> SelfLBA := AlternateLBA h, AlternateLBA := SelfLBA h, PartitionTableLBA := LastUsableLBA h + 1, gChecksum := 0 \<rparr>
      in a\<lparr> gChecksum := ChecksumCRC32 crc (header_bytes a) \<rparr>)"

section \<open>The routine\<close>

definition new_file :: diskfile where "new_file = \<lparr> fsize = 0, fdata = \<lambda>_. 0, fpos = 0 \<rparr>"

definition write_protective :: "host \<Rightarrow> SIZE \<Rightarrow> diskfile \<Rightarrow> fres" where
  "write_protective io n d =
     fbind (file_seek io 2 MBR_PARTITION_TABLE_OFFSET d) (\<lambda>d.
     fbind (file_write io 3 16 1 (mbr_entry_bytes (protective_entry n)) d) (\<lambda>d.
     fbind (file_seek io 4 MBR_SIGNATURE_OFFSET d) (\<lambda>d.
       file_write io 5 2 1 (le16 MBR_SIGNATURE) d)))"

definition write_headers :: "host \<Rightarrow> INT32 \<Rightarrow> GPT_PARTITION_HEADER \<Rightarrow> GPT_PARTITION_HEADER \<Rightarrow> diskfile \<Rightarrow> fres" where
  "write_headers io iBlockSize header alternate d =
     fbind (file_seek io 7 (SelfLBA header * scast iBlockSize) d) (\<lambda>d.
     fbind (file_write io 8 92 1 (header_bytes header) d) (\<lambda>d.
     fbind (file_seek io 9 (SelfLBA alternate * scast iBlockSize) d) (\<lambda>d.
       file_write io 10 92 1 (header_bytes alternate) d)))"

text \<open>The first table may fail to be written: the routine says so and goes on.\<close>

definition write_tables :: "host \<Rightarrow> INT32 \<Rightarrow> BYTE list \<Rightarrow> GPT_PARTITION_HEADER \<Rightarrow> GPT_PARTITION_HEADER \<Rightarrow> diskfile \<Rightarrow> fres" where
  "write_tables io iBlockSize table header alternate d =
     fbind (file_seek io 11 (PartitionTableLBA header * scast iBlockSize) d) (\<lambda>d.
     fbind (Inr (case file_write io 12 STD_LAYOUT_PARTITION_COUNT 128 table d of Inl d \<Rightarrow> d | Inr d \<Rightarrow> d)) (\<lambda>d.
     fbind (file_seek io 13 (PartitionTableLBA alternate * scast iBlockSize) d) (\<lambda>d.
       file_write io 14 STD_LAYOUT_PARTITION_COUNT 128 table d)))"

definition write_disk :: "DWORD list \<Rightarrow> host \<Rightarrow> INT32 \<Rightarrow> INT32 \<Rightarrow> fres" where
  "write_disk crc io iDiskSize iBlockSize =
     (let n = blockCount iDiskSize iBlockSize
      in fbind (file_truncate io 1 (n * scast iBlockSize) new_file) (\<lambda>d.
         fbind (write_protective io n d) (\<lambda>d.
           let h = standard_header io n (partitionTableBlockCount iBlockSize);
               table = standard_table io iBlockSize (LastUsableLBA h);
               header = primary_header crc table h;
               alternate = alternate_header crc header
           in if \<not> host_ok io 6 then Inl d
              else fbind (write_headers io iBlockSize header alternate d) (write_tables io iBlockSize table header alternate))))"

text \<open>The file is \<open>None\<close> when the routine has not opened it.\<close>

definition Routine_MakeStandard :: "DWORD list \<Rightarrow> host \<Rightarrow> INT32 \<Rightarrow> INT32 \<Rightarrow> (INT32 \<times> diskfile option) kres" where
  "Routine_MakeStandard crc io iDiskSize iBlockSize =
     (if sint iDiskSize < sint MINIMUM_DISK_SIZE_MIB then Inr (ROUTINE_FAIL, None)
      else if sint iBlockSize > 0 \<and> sint iBlockSize smod 512 \<noteq> 0 then Inr (ROUTINE_FAIL, None)
      else if iBlockSize = 0 then Inl DivideError
      else if \<not> host_ok io 0 then Inr (ROUTINE_FAIL, None)
      else case write_disk crc io iDiskSize iBlockSize of
             Inl d \<Rightarrow> Inr (ROUTINE_FAIL, Some d)
           | Inr d \<Rightarrow> Inr (ROUTINE_OK, Some d))"

section \<open>The layout in numbers\<close>

lemma scast_of_nat: "B < 2 ^ 31 \<Longrightarrow> (scast (of_nat B :: INT32) :: SIZE) = of_nat B"
proof -
  assume "B < 2 ^ 31"
  then have "sint (of_nat B :: INT32) = int B" by (intro sint_of_nat_small) simp
  then show ?thesis by (metis of_int_of_nat_eq scast_eq)
qed

lemma block_numbers:
  assumes "S < 2 ^ 31" "0 < B" "B < 2 ^ 31"
  shows "unat (blockCount (of_nat S) (of_nat B)) = (S * 1048576 + B - 1) div B"
    "unat (partitionTableBlockCount (of_nat B)) = (16384 + B - 1) div B"
proof -
  have raw: "scast (of_nat S :: INT32) * 1024 * 1024 + of_nat B - 1 = (of_nat (S * 1048576 + B - 1) :: SIZE)"
    using assms by (simp add: scast_of_nat of_nat_diff)
  have "S * 1048576 + B - 1 < 2 ^ 64" "B < 2 ^ 64" using assms by auto
  then show "unat (blockCount (of_nat S) (of_nat B)) = (S * 1048576 + B - 1) div B"
    using assms(3) unfolding blockCount_def Let_def raw scast_of_nat [OF assms(3)]
    by (simp add: unat_div unat_of_nat_small del: of_nat_add of_nat_mult)
  have t: "(scast NO_PARTITIONS_TO_ALLOCATE * ucast sizeof_GPT_PARTITION_ENTRY + of_nat B - 1 :: SIZE) = of_nat (16384 + B - 1)"
    using assms(2) by (simp add: NO_PARTITIONS_TO_ALLOCATE_def sizeof_GPT_PARTITION_ENTRY_def of_nat_diff)
  have "16384 + B - 1 < 2 ^ 64" "B < 2 ^ 64" using assms by auto
  then show "unat (partitionTableBlockCount (of_nat B)) = (16384 + B - 1) div B"
    unfolding partitionTableBlockCount_def scast_of_nat [OF assms(3)] t by (simp add: unat_div unat_of_nat_small del: of_nat_add)
qed

lemma int_quot_nat:
  assumes "A < 2 ^ 31" "B < 2 ^ 31"
  shows "int_quot (of_nat A) (of_nat B) = of_nat (A div B)"
proof -
  have "sint (of_nat A :: INT32) = int A" "sint (of_nat B :: INT32) = int B" using assms by (simp_all add: sint_of_nat_small)
  then show ?thesis by (simp add: int_quot_def signed_divide_int_def zdiv_int [symmetric])
qed

text \<open>Division rounded up.\<close>

lemma ceil_bounds:
  assumes "0 < (B :: nat)"
  shows "A \<le> (A + B - 1) div B * B" "(A + B - 1) div B * B < A + B"
proof -
  have "A + B - 1 = (A + B - 1) div B * B + (A + B - 1) mod B" by simp
  moreover have "(A + B - 1) mod B < B" using assms by simp
  ultimately show "A \<le> (A + B - 1) div B * B" "(A + B - 1) div B * B < A + B" using assms by linarith+
qed

lemma unat_minus_small: "unat y \<le> unat x \<Longrightarrow> unat (x - y) = unat x - unat (y :: 'a::len word)"
  by (simp add: unat_sub word_le_nat_alt)

text \<open>What the two headers and the partitions of a disk of \<open>N\<close> blocks of \<open>B\<close> bytes must satisfy.\<close>

definition gpt_layout_ok :: "nat \<Rightarrow> nat \<Rightarrow> GPT_PARTITION_HEADER \<Rightarrow> GPT_PARTITION_HEADER \<Rightarrow> GPT_PARTITION_ENTRY list \<Rightarrow> bool" where
  "gpt_layout_ok N B h a es \<longleftrightarrow>
     (let tableSize = unat (NoPartitionEntries h) * unat (BytesPerPartitionEntry h)
      in SelfLBA h = 1 \<and> unat (AlternateLBA h) + 1 = N \<and> SelfLBA a = AlternateLBA h \<and> AlternateLBA a = 1 \<and>
         2 \<le> unat (PartitionTableLBA h) \<and> unat (PartitionTableLBA h) * B + tableSize \<le> unat (FirstUsableLBA h) * B \<and>
         unat (FirstUsableLBA h) \<le> unat (LastUsableLBA h) \<and> unat (LastUsableLBA h) < unat (PartitionTableLBA a) \<and>
         unat (PartitionTableLBA a) * B + tableSize \<le> (N - 1) * B \<and>
         list_all (\<lambda>e. FirstUsableLBA h \<le> StartLBA e \<and> StartLBA e \<le> EndLBA e \<and> EndLBA e \<le> LastUsableLBA h) es \<and>
         sorted_wrt (\<lambda>e f. EndLBA e < StartLBA f) es)"

definition standard_disk :: "DWORD list \<Rightarrow> host \<Rightarrow> INT32 \<Rightarrow> INT32 \<Rightarrow> GPT_PARTITION_HEADER \<times> GPT_PARTITION_HEADER \<times> GPT_PARTITION_ENTRY list" where
  "standard_disk crc io s b =
     (let h0 = standard_header io (blockCount s b) (partitionTableBlockCount b);
          h = primary_header crc (standard_table io b (LastUsableLBA h0)) h0
      in (h, alternate_header crc h, [partEFI io b, partOS io (partEFI io b) (LastUsableLBA h0)]))"

lemma layout_bounds:
  fixes S B :: nat
  defines "N \<equiv> (S * 1048576 + B - 1) div B" and "T \<equiv> (16384 + B - 1) div B" and "E \<equiv> 1048576 div B" and "F \<equiv> 104857600 div B"
  assumes "128 \<le> S" "512 \<le> B" "B \<le> 349525"
  shows "2 + T \<le> E" "0 < F" "E + F \<le> N - 2 - T" "2 + T < N" "16384 \<le> T * B" "S * 1048576 \<le> N * B"
proof -
  have N: "S * 1048576 \<le> N * B" and T: "16384 \<le> T * B" "T * B < 16384 + B"
    using ceil_bounds [of B "S * 1048576"] ceil_bounds [of B 16384] assms(6) by (auto simp: N_def T_def)
  have E: "E * B \<le> 1048576" "1048576 < (E + 1) * B" and F: "F * B \<le> 104857600" "104857600 < (F + 1) * B"
    using assms(6) by (auto simp: E_def F_def dividend_less_div_times)
  show "0 < F" using F(2) assms(7) by (cases F) auto
  show "16384 \<le> T * B" "S * 1048576 \<le> N * B" using T N by simp_all
  have "(2 + T) * B < (E + 1) * B"
  proof (cases "B < 16384")
    case True then show ?thesis using T E by (simp add: algebra_simps)
  next
    case False
    then have "T * B < 2 * B" using T(2) by linarith
    then have "T \<le> 1" using assms(6) by simp
    then have "(2 + T) * B \<le> 3 * B" by (intro mult_le_mono1) simp
    then show ?thesis using E(2) assms(7) by linarith
  qed
  then show "2 + T \<le> E" unfolding mult_less_cancel2 by simp
  have "(E + F + 2 + T) * B \<le> N * B" 
    using E(1) F(1) T(2) N assms(5,7) unfolding add_mult_distrib by linarith
  then have "E + F + 2 + T \<le> N" using assms(6) unfolding mult_le_cancel2 by simp
  then show "E + F \<le> N - 2 - T" "2 + T < N" using \<open>0 < F\<close> by simp_all
qed

lemma table_fits: "M + T = K \<Longrightarrow> c \<le> T * B \<Longrightarrow> M * B + c \<le> K * (B :: nat)"
  by (auto simp: add_mult_distrib)

lemma standard_numbers:
  fixes S B :: nat
  defines "N \<equiv> (S * 1048576 + B - 1) div B" and "T \<equiv> (16384 + B - 1) div B" and "E \<equiv> 1048576 div B" and "F \<equiv> 104857600 div B"
  assumes "128 \<le> S" "S < 2 ^ 31" "512 \<le> B" "B \<le> 349525"
    and h: "h = standard_header io (blockCount (of_nat S) (of_nat B)) (partitionTableBlockCount (of_nat B))"
  shows "unat (AlternateLBA h) = N - 1" "unat (FirstUsableLBA h) = 2 + T" "unat (LastUsableLBA h) = N - 2 - T"
    "unat (StartLBA (partEFI io (of_nat B))) = E" "unat (EndLBA (partEFI io (of_nat B))) = E + F - 1"
    "unat (StartLBA (partOS io (partEFI io (of_nat B)) x)) = E + F" "N < 2 ^ 60"
proof -
  note l = layout_bounds [OF assms(5,7,8), folded N_def T_def E_def F_def]
  have B: "0 < B" "B < 2 ^ 31" using assms(7,8) by auto
  note n = block_numbers [OF assms(6) B, folded N_def T_def]
  have "N \<le> S * 1048576 + B - 1" unfolding N_def by (rule div_le_dividend)
  then show N: "N < 2 ^ 60" using assms(6,8) by simp
  have E: "E \<le> 1048576" "F \<le> 104857600" unfolding E_def F_def by (rule div_le_dividend)+
  show "unat (AlternateLBA h) = N - 1" using l(4) n by (simp add: h standard_header_def unat_minus_small)
  show "unat (FirstUsableLBA h) = 2 + T" using l(4) n N by (simp add: h standard_header_def unat_word_ariths)
  show "unat (LastUsableLBA h) = N - 2 - T" using l(4) n by (simp add: h standard_header_def unat_minus_small)
  have q: "int_quot EFI_SYSTEM_PART_ADDRESS (of_nat B) = of_nat E" "int_quot (EFI_SYSTEM_PART_SIZE_MIB * 1024 * 1024) (of_nat B) = of_nat F"
    using int_quot_nat [of 1048576 B] int_quot_nat [of 104857600 B] B
    by (simp_all add: EFI_SYSTEM_PART_ADDRESS_def EFI_SYSTEM_PART_SIZE_MIB_def E_def F_def)
  have "of_nat E + of_nat F - 1 = (of_nat (E + F - 1) :: QWORD)" using l(2) by (simp add: of_nat_diff)
  then have e: "StartLBA (partEFI io (of_nat B)) = of_nat E" "EndLBA (partEFI io (of_nat B)) = of_nat (E + F - 1)"
    unfolding partEFI_def Let_def q by simp_all
  then show "unat (StartLBA (partEFI io (of_nat B))) = E" "unat (EndLBA (partEFI io (of_nat B))) = E + F - 1"
    using E by (simp_all add: unat_of_nat_small del: of_nat_diff of_nat_add)
  have "of_nat (E + F - 1) + 1 = (of_nat (E + F) :: QWORD)" using l(2) by (simp add: of_nat_diff)
  then show "unat (StartLBA (partOS io (partEFI io (of_nat B)) x)) = E + F"
    using E by (simp add: partOS_def e unat_of_nat_small del: of_nat_add)
qed

lemma standard_fields:
  "SelfLBA (primary_header crc t h) = SelfLBA h" "AlternateLBA (primary_header crc t h) = AlternateLBA h"
  "FirstUsableLBA (primary_header crc t h) = FirstUsableLBA h" "LastUsableLBA (primary_header crc t h) = LastUsableLBA h"
  "PartitionTableLBA (primary_header crc t h) = PartitionTableLBA h" "NoPartitionEntries (primary_header crc t h) = NoPartitionEntries h"
  "BytesPerPartitionEntry (primary_header crc t h) = BytesPerPartitionEntry h"
  "SelfLBA (alternate_header crc h) = AlternateLBA h" "AlternateLBA (alternate_header crc h) = SelfLBA h"
  "PartitionTableLBA (alternate_header crc h) = LastUsableLBA h + 1"
  by (simp_all add: primary_header_def alternate_header_def Let_def)

text \<open>
  C30: The layout that \<open>Routine_MakeStandard\<close> computes for a disk of \<open>S\<close> MiB in blocks of \<open>B\<close> bytes is well formed
  exactly up to a block size of 349525: the headers name each other, the tables and their mirrors fit between the
  headers and the usable blocks, the two partitions lie in the usable blocks and do not overlap. Above that block size,
  which the routine accepts, the first partition starts inside the partition table.
\<close>
theorem standard_layout:
  assumes "128 \<le> S" "S < 2 ^ 31" "512 \<le> B" "B < 2 ^ 31"
    and "(h, a, es) = standard_disk crc io (of_nat S) (of_nat B)"
  shows "gpt_layout_ok (unat (blockCount (of_nat S) (of_nat B))) B h a es \<longleftrightarrow> B \<le> 349525"
proof (cases "B \<le> 349525")
  case True
  define N T E F where d: "N = (S * 1048576 + B - 1) div B" "T = (16384 + B - 1) div B" "E = 1048576 div B" "F = 104857600 div B"
  define h0 where h0: "h0 = standard_header io (blockCount (of_nat S) (of_nat B)) (partitionTableBlockCount (of_nat B))"
  note l = layout_bounds [OF assms(1,3) True, folded d]
  note n = standard_numbers [where io = io and h = h0, OF assms(1-3) True h0, folded d]
  have N: "unat (blockCount (of_nat S) (of_nat B)) = N" using block_numbers(1) [OF assms(2), of B] assms(3,4) by (simp add: d)
  have "unat (LastUsableLBA h0 + 1) = N - 1 - T" using n(3,7) l(4) by (simp add: unat_word_ariths)
  moreover have "SelfLBA h0 = 1" "PartitionTableLBA h0 = 2" "unat (NoPartitionEntries h0) * unat (BytesPerPartitionEntry h0) = 16384"
    by (simp_all add: h0 standard_header_def NO_PARTITIONS_TO_ALLOCATE_def sizeof_GPT_PARTITION_ENTRY_def)
  moreover have "h = primary_header crc (standard_table io (of_nat B) (LastUsableLBA h0)) h0" "a = alternate_header crc h"
    "es = [partEFI io (of_nat B), partOS io (partEFI io (of_nat B)) (LastUsableLBA h0)]"
    using assms(5) by (simp_all add: standard_disk_def Let_def h0)
  ultimately have f: "SelfLBA h = 1" "unat (AlternateLBA h) = N - 1" "SelfLBA a = AlternateLBA h" "AlternateLBA a = 1" "unat (PartitionTableLBA h) = 2"
    "unat (FirstUsableLBA h) = 2 + T" "unat (LastUsableLBA h) = N - 2 - T" "unat (PartitionTableLBA a) = N - 1 - T"
    "unat (NoPartitionEntries h) * unat (BytesPerPartitionEntry h) = 16384"
    "es = [partEFI io (of_nat B), partOS io (partEFI io (of_nat B)) (LastUsableLBA h)]"
    using n(1-3) by (simp_all add: standard_fields)
  have "EndLBA (partOS io (partEFI io (of_nat B)) (LastUsableLBA h)) = LastUsableLBA h" by (simp add: partOS_def)
  moreover have "E \<le> E + F - 1" "E + F - 1 \<le> N - 2 - T" using l by linarith+
  ultimately have "list_all (\<lambda>e. FirstUsableLBA h \<le> StartLBA e \<and> StartLBA e \<le> EndLBA e \<and> EndLBA e \<le> LastUsableLBA h) es"
      "sorted_wrt (\<lambda>e f. EndLBA e < StartLBA f) es"
    using l n f by (simp_all add: word_le_nat_alt word_less_nat_alt)
  moreover have "2 * B + 16384 \<le> (2 + T) * B" "(N - 1 - T) * B + 16384 \<le> (N - 1) * B"
    using l(4) by (intro table_fits [OF _ l(5)]; simp)+
  moreover have "N - 1 + 1 = N" "2 + T \<le> N - 2 - T" "N - 2 - T < N - 1 - T" using l by auto
  ultimately show ?thesis using True unfolding gpt_layout_ok_def N Let_def f by simp
next
  case False
  let ?T = "partitionTableBlockCount (of_nat B)"
  have B: "0 < B" "B < 2 ^ 31" using assms(3,4) by auto
  have "(16384 + B - 1) div B < 2 ^ 32" by (rule le_less_trans [OF div_le_dividend]) (use B(2) in simp)
  moreover have "1 \<le> (16384 + B - 1) div B" using B(1) by (simp add: div_greater_zero_iff Suc_le_eq)
  ultimately have T: "1 \<le> unat ?T" "unat ?T < 2 ^ 32" unfolding block_numbers(2) [OF assms(2) B] by blast+
  have "FirstUsableLBA h = 2 + ?T" using assms(5) by (auto simp: standard_disk_def Let_def standard_fields standard_header_def)
  then have f: "3 \<le> unat (FirstUsableLBA h)" using T by (simp add: unat_word_ariths)
  have "1048576 div B \<le> 2" using False by (simp add: div_le_mono2 less_mult_imp_div_less flip: less_Suc_eq_le)
  moreover have "StartLBA (partEFI io (of_nat B)) = of_nat (1048576 div B)"
    using int_quot_nat [of 1048576 B] B(2) by (simp add: partEFI_def Let_def EFI_SYSTEM_PART_ADDRESS_def)
  ultimately have "unat (StartLBA (partEFI io (of_nat B))) \<le> 2" by (simp add: unat_of_nat_small)
  moreover have "partEFI io (of_nat B) \<in> set es" using assms(5) by (simp add: standard_disk_def Let_def)
  ultimately have "\<not> list_all (\<lambda>e. FirstUsableLBA h \<le> StartLBA e) es" using f
    by (auto simp: list_all_iff word_le_nat_alt intro!: bexI [of _ "partEFI io (of_nat B)"])
  then show ?thesis using False by (auto simp: gpt_layout_ok_def Let_def list_all_iff)
qed

theorem standard_layout_witness:
  "\<exists>h a es. (h, a, es) = standard_disk InitTableCRC32 \<lparr> host_ok = \<lambda>_. True, host_items = \<lambda>k n. n, host_guid = \<lambda>k. [] \<rparr> (of_nat 128) (of_nat 1048576) \<and>
    \<not> gpt_layout_ok (unat (blockCount (of_nat 128) (of_nat 1048576))) 1048576 h a es"
proof -
  obtain h a es where sd: "(h, a, es) = standard_disk InitTableCRC32 \<lparr> host_ok = \<lambda>_. True, host_items = \<lambda>k n. n, host_guid = \<lambda>k. [] \<rparr> (of_nat 128) (of_nat 1048576)"
    by (metis prod_cases3)
  then show ?thesis using standard_layout [OF _ _ _ _ sd] by fastforce
qed

section \<open>What is on the disk\<close>

definition read_bytes :: "(nat \<Rightarrow> BYTE) \<Rightarrow> nat \<Rightarrow> nat \<Rightarrow> BYTE list" where
  "read_bytes m p n = map m [p..<p + n]"

lemma read_put_same [simp]: "read_bytes (put_bytes p bs m) p (length bs) = bs"
  by (rule nth_equalityI) (simp_all add: read_bytes_def put_bytes_def)

lemma read_put_other: "p + length bs \<le> q \<or> q + n \<le> p \<Longrightarrow> read_bytes (put_bytes p bs m) q n = read_bytes m q n"
  by (auto simp: read_bytes_def put_bytes_def)

lemma read_append: "read_bytes m p (i + j) = read_bytes m p i @ read_bytes m (p + i) j"
  by (simp add: read_bytes_def upt_add_eq_append [of p "p + i" j] flip: add.assoc)

lemma lengths [simp]: "length (le16 w) = 2" "length (le32 x) = 4" "length (le64 y) = 8" "length (chs_bytes t) = 3"
  "length GPT_PARTITION_HEADER_SIGNATURE = 8" "length GPT_EFI_SYSTEM_PARTITION_UUID = 16" "length GPT_MICROSOFT_BASIC_DATA = 16"
  by (simp_all add: le16_def le32_def le64_def chs_bytes_def GPT_PARTITION_HEADER_SIGNATURE_def GPT_EFI_SYSTEM_PARTITION_UUID_def
      GPT_MICROSOFT_BASIC_DATA_def split: prod.splits)

text \<open>A host on which every call succeeds.\<close>

definition obliging :: "host \<Rightarrow> bool" where
  "obliging io \<longleftrightarrow> (\<forall>k. host_ok io k) \<and> (\<forall>k n. host_items io k n = n) \<and> (\<forall>k. length (host_guid io k) = 16)"

lemma structure_lengths:
  assumes "obliging io"
  shows "length (mbr_entry_bytes e) = 16"
    "length (header_bytes (primary_header crc t (standard_header io n k))) = 92"
    "length (header_bytes (alternate_header crc (primary_header crc t (standard_header io n k)))) = 92"
    "length (entry_bytes (partEFI io b)) = 128" "length (entry_bytes (partOS io efi z)) = 128"
  using assms
  by (simp_all add: obliging_def mbr_entry_bytes_def header_bytes_def primary_header_def alternate_header_def standard_header_def
      entry_bytes_def partEFI_def partOS_def Let_def name_length)

lemma sint_small: "unat w < 2 ^ 63 \<Longrightarrow> 0 \<le> sint (w :: SIZE)"
  using sint_of_nat_small [of "unat w", where 'a = 64] by simp

lemma file_ops:
  assumes "obliging io"
  shows "unat off < 2 ^ 63 \<Longrightarrow> file_seek io k off d = Inr (d\<lparr> fpos := unat off \<rparr>)"
    "length bs = n * sz \<Longrightarrow> file_write io k n sz bs d =
       Inr (d\<lparr> fdata := put_bytes (fpos d) bs (fdata d), fsize := max (fsize d) (fpos d + n * sz), fpos := fpos d + n * sz \<rparr>)"
    "n * sz \<le> length bs \<Longrightarrow> file_write io k n sz bs d =
       Inr (d\<lparr> fdata := put_bytes (fpos d) (take (n * sz) bs) (fdata d), fsize := max (fsize d) (fpos d + n * sz), fpos := fpos d + n * sz \<rparr>)"
  using assms by (simp_all add: obliging_def file_seek_def file_write_def sint_small Let_def min_def)

lemma offset_number:
  assumes "B < 2 ^ 31" "unat l * B < 2 ^ 63"
  shows "unat (l * scast (of_nat B :: INT32) :: SIZE) = unat l * B"
proof -
  have "unat (of_nat B :: SIZE) = B" using assms(1) by (simp add: unat_of_nat_small)
  then show ?thesis using assms by (simp add: scast_of_nat unat_word_ariths)
qed

text \<open>The contents of the file after the six writes, for a header at block 1 and its mirror at block \<open>K\<close>.\<close>

definition disk_image :: "nat \<Rightarrow> nat \<Rightarrow> BYTE list \<Rightarrow> BYTE list \<Rightarrow> BYTE list \<Rightarrow> nat \<Rightarrow> BYTE list \<Rightarrow> nat \<Rightarrow> BYTE" where
  "disk_image B K mbr hdr alt M table =
     put_bytes (M * B) (take 256 table) (put_bytes (2 * B) (take 256 table)
       (put_bytes (K * B) alt (put_bytes (1 * B) hdr (put_bytes 510 (le16 MBR_SIGNATURE) (put_bytes 446 mbr (\<lambda>_. 0))))))"

lemma write_disk_ok:
  assumes "obliging io" "B < 2 ^ 31" "512 \<le> B"
    and n: "n = blockCount (of_nat S) (of_nat B)" "unat n * B < 2 ^ 63"
    and h0: "h0 = standard_header io n (partitionTableBlockCount (of_nat B))"
    and t: "t = standard_table io (of_nat B) (LastUsableLBA h0)" and h: "h = primary_header crc t h0" and a: "a = alternate_header crc h"
    and k: "unat (SelfLBA a) < unat n" "unat (PartitionTableLBA a) < unat n" "2 < unat n" "256 \<le> length t"
  shows "\<exists>d. write_disk crc io (of_nat S) (of_nat B) = Inr d \<and>
    fdata d = disk_image B (unat (SelfLBA a)) (mbr_entry_bytes (protective_entry n)) (header_bytes h) (header_bytes a) (unat (PartitionTableLBA a)) t"
proof -
  have off: "l < n \<Longrightarrow> unat (l * scast (of_nat B :: INT32) :: SIZE) = unat l * B" "l < n \<Longrightarrow> unat l * B < 2 ^ 63" for l
  proof -
    assume "l < n"
    then have "unat l * B \<le> unat n * B" by (intro mult_le_mono1) (simp add: word_less_nat_alt)
    then show "unat l * B < 2 ^ 63" using n(2) by linarith
    then show "unat (l * scast (of_nat B :: INT32) :: SIZE) = unat l * B" by (rule offset_number [OF assms(2)])
  qed
  have s: "SelfLBA h = 1" "PartitionTableLBA h = 2" "SelfLBA a = AlternateLBA h"
    by (simp_all add: h a h0 standard_fields standard_header_def)
  have lens: "length (mbr_entry_bytes (protective_entry n)) = 16" "length (header_bytes h) = 92" "length (header_bytes a) = 92"
    using structure_lengths [OF assms(1)] by (simp_all add: h a h0)
  have sz: "unat (n * scast (of_nat B :: INT32) :: SIZE) = unat n * B" by (rule offset_number [OF assms(2) n(2)])
  have lt: "1 < n" "2 < n" "AlternateLBA h < n" "PartitionTableLBA a < n"
    using k by (simp_all add: word_less_nat_alt s)
  note o1 = off(1) [OF lt(1)] and o2 = off(1) [OF lt(2)] and o3 = off(1) [OF lt(3)] and o4 = off(1) [OF lt(4)]
  note b1 = off(2) [OF lt(1)] and b2 = off(2) [OF lt(2)] and b3 = off(2) [OF lt(3)] and b4 = off(2) [OF lt(4)]
  have tr: "file_truncate io 1 (n * scast (of_nat B :: INT32)) new_file = Inr \<lparr> fsize = unat n * B, fdata = \<lambda>_. 0, fpos = 0 \<rparr>"
    using assms(1) n(2) by (simp add: file_truncate_def obliging_def sint_small sz new_file_def fun_eq_iff)
  have ok: "host_ok io 6" using assms(1) by (simp add: obliging_def)
  note ops = file_ops [OF assms(1)]
  define d0 where "d0 = \<lparr> fsize = unat n * B, fdata = \<lambda>_. 0, fpos = 0 \<rparr>"
  have p: "\<exists>d1. write_protective io n d0 = Inr d1 \<and> fdata d1 = put_bytes 510 (le16 MBR_SIGNATURE) (put_bytes 446 (mbr_entry_bytes (protective_entry n)) (\<lambda>_. 0))"
    by (simp add: write_protective_def fbind_def ops lens MBR_PARTITION_TABLE_OFFSET_def MBR_SIGNATURE_OFFSET_def d0_def)
  then obtain d1 where d1: "write_protective io n d0 = Inr d1"
    "fdata d1 = put_bytes 510 (le16 MBR_SIGNATURE) (put_bytes 446 (mbr_entry_bytes (protective_entry n)) (\<lambda>_. 0))" by blast
  have "\<exists>d2. write_headers io (of_nat B) h a d1 = Inr d2 \<and> fdata d2 = put_bytes (unat (SelfLBA a) * B) (header_bytes a) (put_bytes (1 * B) (header_bytes h) (fdata d1))"
    using o1 o3 b1 b3 by (simp add: write_headers_def fbind_def ops lens s)
  then obtain d2 where d2: "write_headers io (of_nat B) h a d1 = Inr d2"
    "fdata d2 = put_bytes (unat (SelfLBA a) * B) (header_bytes a) (put_bytes (1 * B) (header_bytes h) (fdata d1))" by blast
  have "\<exists>d3. write_tables io (of_nat B) t h a d2 = Inr d3 \<and>
      fdata d3 = put_bytes (unat (PartitionTableLBA a) * B) (take 256 t) (put_bytes (2 * B) (take 256 t) (fdata d2))"
    using o2 o4 b2 b4 k(4) by (simp add: write_tables_def fbind_def ops STD_LAYOUT_PARTITION_COUNT_def s)
  then obtain d3 where d3: "write_tables io (of_nat B) t h a d2 = Inr d3"
    "fdata d3 = put_bytes (unat (PartitionTableLBA a) * B) (take 256 t) (put_bytes (2 * B) (take 256 t) (fdata d2))" by blast
  have "write_disk crc io (of_nat S) (of_nat B) = Inr d3"
    unfolding write_disk_def Let_def n(1) [symmetric] h0 [symmetric] t [symmetric] h [symmetric] a [symmetric] tr d0_def [symmetric]
    by (simp add: fbind_def d1 d2 d3 ok)
  then show ?thesis using d1(2) d2(2) d3(2) by (auto simp: disk_image_def)
qed

lemma read_zero: "(\<And>a. p \<le> a \<Longrightarrow> a < p + n \<Longrightarrow> m a = 0) \<Longrightarrow> read_bytes m p n = replicate n 0"
  by (rule nth_equalityI) (simp_all add: read_bytes_def)

lemma image_reads:
  assumes "512 \<le> B" "2 * B + 16384 \<le> M * B" "M * B + 16384 \<le> K * B"
    and "length mbr = 16" "length hdr = 92" "length alt = 92" "length t = 256"
  shows "read_bytes (disk_image B K mbr hdr alt M (t @ replicate 16128 0)) 446 16 = mbr"
    "read_bytes (disk_image B K mbr hdr alt M (t @ replicate 16128 0)) 510 2 = le16 MBR_SIGNATURE"
    "read_bytes (disk_image B K mbr hdr alt M (t @ replicate 16128 0)) B 92 = hdr"
    "read_bytes (disk_image B K mbr hdr alt M (t @ replicate 16128 0)) (K * B) 92 = alt"
    "read_bytes (disk_image B K mbr hdr alt M (t @ replicate 16128 0)) (2 * B) 16384 = t @ replicate 16128 0"
    "read_bytes (disk_image B K mbr hdr alt M (t @ replicate 16128 0)) (M * B) 16384 = t @ replicate 16128 0"
proof -
  let ?D = "disk_image B K mbr hdr alt M (t @ replicate 16128 0)"
  note same = read_put_same [of _ mbr] read_put_same [of _ hdr] read_put_same [of _ alt] read_put_same [of _ t] read_put_same [of _ "le16 MBR_SIGNATURE"]
  note other = read_put_other
  show "read_bytes ?D 446 16 = mbr" "read_bytes ?D 510 2 = le16 MBR_SIGNATURE" "read_bytes ?D B 92 = hdr" "read_bytes ?D (K * B) 92 = alt"
    using assms same by (simp_all add: disk_image_def read_put_other)
  have two: "read_bytes ?D (2 * B) 256 = t" "read_bytes ?D (M * B) 256 = t"
    using assms same by (simp_all add: disk_image_def read_put_other)
  have "read_bytes ?D (2 * B + 256) 16128 = replicate 16128 0" "read_bytes ?D (M * B + 256) 16128 = replicate 16128 0"
    using assms by (intro read_zero; simp add: disk_image_def put_bytes_def)+
  with two show "read_bytes ?D (2 * B) 16384 = t @ replicate 16128 0" "read_bytes ?D (M * B) 16384 = t @ replicate 16128 0"
    using read_append [of ?D "2 * B" 256 16128] read_append [of ?D "M * B" 256 16128] by simp_all
qed

lemma checksums:
  assumes "gChecksum h0 = 0" and h: "h = primary_header InitTableCRC32 t h0" and a: "a = alternate_header InitTableCRC32 h"
  shows "PartitionTableChecksum h = crc_reference t" "PartitionTableChecksum a = crc_reference t"
    "gChecksum h = crc_reference (header_bytes (h\<lparr> gChecksum := 0 \<rparr>))" "gChecksum a = crc_reference (header_bytes (a\<lparr> gChecksum := 0 \<rparr>))"
proof -
  have "h0\<lparr> PartitionTableChecksum := x, gChecksum := y, gChecksum := 0 \<rparr> = h0\<lparr> PartitionTableChecksum := x \<rparr>" for x y
    using assms(1) by simp
  then show "PartitionTableChecksum h = crc_reference t" "PartitionTableChecksum a = crc_reference t"
    "gChecksum h = crc_reference (header_bytes (h\<lparr> gChecksum := 0 \<rparr>))" "gChecksum a = crc_reference (header_bytes (a\<lparr> gChecksum := 0 \<rparr>))"
    by (simp_all add: a h primary_header_def alternate_header_def Let_def crc_by_table)
qed

text \<open>What a reader of the disk checks: both headers, both tables and all four checksums.\<close>

definition holds_gpt :: "(nat \<Rightarrow> BYTE) \<Rightarrow> nat \<Rightarrow> GPT_PARTITION_HEADER \<Rightarrow> GPT_PARTITION_HEADER \<Rightarrow> GPT_PARTITION_ENTRY list \<Rightarrow> bool" where
  "holds_gpt m B h a es \<longleftrightarrow>
     (let table = concat (map entry_bytes es) @ replicate (16384 - 128 * length es) 0
      in read_bytes m B 92 = header_bytes h \<and> read_bytes m (unat (SelfLBA a) * B) 92 = header_bytes a \<and>
         read_bytes m (unat (PartitionTableLBA h) * B) 16384 = table \<and> read_bytes m (unat (PartitionTableLBA a) * B) 16384 = table \<and>
         PartitionTableChecksum h = crc_reference table \<and> PartitionTableChecksum a = crc_reference table \<and>
         gChecksum h = crc_reference (header_bytes (h\<lparr> gChecksum := 0 \<rparr>)) \<and> gChecksum a = crc_reference (header_bytes (a\<lparr> gChecksum := 0 \<rparr>)))"

lemma table_split: "standard_table io b z = (entry_bytes (partEFI io b) @ entry_bytes (partOS io (partEFI io b) z)) @ replicate 16128 0"
  by (simp add: standard_table_def Let_def NO_PARTITIONS_TO_ALLOCATE_def sizeof_GPT_PARTITION_ENTRY_def STD_LAYOUT_PARTITION_COUNT_def)

lemma size_checks:
  assumes "128 \<le> S" "S < 2 ^ 31" "0 < B" "B < 2 ^ 31" "512 dvd B" "host_ok io 0"
  shows "Routine_MakeStandard crc io (of_nat S) (of_nat B) =
    (case write_disk crc io (of_nat S) (of_nat B) of Inl d \<Rightarrow> Inr (ROUTINE_FAIL, Some d) | Inr d \<Rightarrow> Inr (ROUTINE_OK, Some d))"
proof -
  have "sint (of_nat S :: INT32) = int S" "sint (of_nat B :: INT32) = int B" using assms(2,4) by (simp_all add: sint_of_nat_small)
  moreover have "(512 :: int) dvd int B" using assms(5) by (metis int_dvd_int_iff of_nat_numeral)
  then have "int B smod 512 = 0" by (simp add: signed_modulo_int_def mod_eq_0_iff_dvd)
  moreover have "(of_nat B :: INT32) \<noteq> 0" using assms(3,4) by (simp add: word_eq_unat unat_of_nat_small)
  ultimately show ?thesis using assms(1,6) by (simp add: Routine_MakeStandard_def MINIMUM_DISK_SIZE_MIB_def)
qed

lemma disk_reads_back:
  assumes "obliging io" "128 \<le> S" "S < 2 ^ 31" "512 \<le> B" "B \<le> 349525" "512 dvd B"
    and sd: "(h, a, es) = standard_disk InitTableCRC32 io (of_nat S) (of_nat B)"
  shows "\<exists>d. Routine_MakeStandard InitTableCRC32 io (of_nat S) (of_nat B) = Inr (ROUTINE_OK, Some d) \<and> holds_gpt (fdata d) B h a es \<and>
    read_bytes (fdata d) 446 16 = mbr_entry_bytes (protective_entry (blockCount (of_nat S) (of_nat B))) \<and> read_bytes (fdata d) 510 2 = [0x55, 0xAA]"
proof -
  define N T E F where d: "N = (S * 1048576 + B - 1) div B" "T = (16384 + B - 1) div B" "E = 1048576 div B" "F = 104857600 div B"
  define n where n: "n = blockCount (of_nat S) (of_nat B)"
  define h0 where h0: "h0 = standard_header io n (partitionTableBlockCount (of_nat B))"
  define t where t: "t = standard_table io (of_nat B) (LastUsableLBA h0)"
  note l = layout_bounds [OF assms(2,4,5), folded d]
  note num = standard_numbers [where io = io and h = h0, OF assms(2-5) h0 [unfolded n], folded d]
  have B: "0 < B" "B < 2 ^ 31" using assms(4,5) by auto
  have N: "unat n = N" using block_numbers(1) [OF assms(3) B] by (simp add: n d)
  have h: "h = primary_header InitTableCRC32 t h0" and a: "a = alternate_header InitTableCRC32 h"
    and es: "es = [partEFI io (of_nat B), partOS io (partEFI io (of_nat B)) (LastUsableLBA h0)]"
    using sd by (simp_all add: standard_disk_def Let_def h0 t n)
  have lba: "SelfLBA a = AlternateLBA h0" "PartitionTableLBA a = LastUsableLBA h0 + 1" "PartitionTableLBA h = 2"
    by (simp_all add: h a h0 standard_fields standard_header_def)
  have K: "unat (SelfLBA a) = N - 1" and M: "unat (PartitionTableLBA a) = N - 1 - T" and P: "unat (PartitionTableLBA h) = 2"
    using num l(4) by (simp_all add: lba unat_word_ariths)
  have "N * B < S * 1048576 + B" using ceil_bounds(2) [OF B(1), of "S * 1048576"] by (simp add: d)
  then have NB: "unat n * B < 2 ^ 63" using assms(3,5) N by simp
  have len: "length t = 16384" using structure_lengths(4,5) [OF assms(1)] by (simp add: t table_split)
  have "\<exists>d. write_disk InitTableCRC32 io (of_nat S) (of_nat B) = Inr d \<and>
    fdata d = disk_image B (unat (SelfLBA a)) (mbr_entry_bytes (protective_entry n)) (header_bytes h) (header_bytes a) (unat (PartitionTableLBA a)) t"
    by (rule write_disk_ok [OF assms(1) B(2) assms(4) n NB h0 t h a]) (use K M N l len in simp_all)
  then obtain dk where dk: "write_disk InitTableCRC32 io (of_nat S) (of_nat B) = Inr dk"
    "fdata dk = disk_image B (N - 1) (mbr_entry_bytes (protective_entry n)) (header_bytes h) (header_bytes a) (N - 1 - T) t" unfolding K M by blast
  have ts: "t = (entry_bytes (partEFI io (of_nat B)) @ entry_bytes (partOS io (partEFI io (of_nat B)) (LastUsableLBA h0))) @ replicate 16128 0"
    by (simp add: t table_split)
  have "(2 + T) * B \<le> (N - 1 - T) * B" using l(1,3,4) by (intro mult_le_mono1) linarith
  moreover have "2 * B + 16384 \<le> (2 + T) * B" "(N - 1 - T) * B + 16384 \<le> (N - 1) * B" using l(4) by (intro table_fits [OF _ l(5)]; simp)+
  ultimately have gaps: "2 * B + 16384 \<le> (N - 1 - T) * B" "(N - 1 - T) * B + 16384 \<le> (N - 1) * B" by linarith+
  have lens: "length (mbr_entry_bytes (protective_entry n)) = 16" "length (header_bytes h) = 92" "length (header_bytes a) = 92"
    "length (entry_bytes (partEFI io (of_nat B)) @ entry_bytes (partOS io (partEFI io (of_nat B)) (LastUsableLBA h0))) = 256"
    using structure_lengths [OF assms(1)] by (simp_all add: h a h0)
  note r = image_reads [OF assms(4) gaps lens, folded ts, folded dk(2)]
  have "gChecksum h0 = 0" by (simp add: h0 standard_header_def)
  note c = checksums [OF this h a]
  have "t = concat (map entry_bytes es) @ replicate (16384 - 128 * length es) 0" by (simp add: ts es)
  then have "holds_gpt (fdata dk) B h a es" using r c unfolding holds_gpt_def Let_def K M P by simp
  moreover have "Routine_MakeStandard InitTableCRC32 io (of_nat S) (of_nat B) = Inr (ROUTINE_OK, Some dk)"
    using size_checks [OF assms(2,3) B assms(6)] assms(1) dk(1) by (simp add: obliging_def)
  moreover have "le16 MBR_SIGNATURE = [0x55, 0xAA]" by (simp add: le16_def MBR_SIGNATURE_def)
  ultimately show ?thesis using r unfolding n by auto
qed

text \<open>
  C12: On a host on which every call succeeds, \<open>Routine_MakeStandard\<close> writes a disk that reads back as a valid partition
  table: for every size of at least 128 MiB and every block size that is a multiple of 512 up to 349525, the protective
  boot record, both headers and both tables (to the end of their 128 entries) are on the disk where the headers say,
  none of the writes damages another, and all four checksums are right.
\<close>
theorem disk_written:
  assumes "obliging io" "128 \<le> S" "S < 2 ^ 31" "512 \<le> B" "B \<le> 349525" "512 dvd B"
    and "(h, a, es) = standard_disk InitTableCRC32 io (of_nat S) (of_nat B)"
  shows "\<exists>d. Routine_MakeStandard InitTableCRC32 io (of_nat S) (of_nat B) = Inr (ROUTINE_OK, Some d) \<and> holds_gpt (fdata d) B h a es \<and>
    read_bytes (fdata d) 446 16 = mbr_entry_bytes (protective_entry (blockCount (of_nat S) (of_nat B))) \<and> read_bytes (fdata d) 510 2 = [0x55, 0xAA]"
  using assms by (rule disk_reads_back)

definition wit_host :: host where
  "wit_host = \<lparr> host_ok = \<lambda>_. True, host_items = \<lambda>k n. n, host_guid = \<lambda>k. replicate 16 (of_nat k) \<rparr>"

theorem disk_written_witness:
  "\<exists>h a es d. (h, a, es) = standard_disk InitTableCRC32 wit_host (of_nat 128) (of_nat 512) \<and>
    Routine_MakeStandard InitTableCRC32 wit_host (of_nat 128) (of_nat 512) = Inr (ROUTINE_OK, Some d) \<and> holds_gpt (fdata d) 512 h a es"
proof -
  obtain h a es where sd: "(h, a, es) = standard_disk InitTableCRC32 wit_host (of_nat 128) (of_nat 512)" by (metis prod_cases3)
  have "obliging wit_host" by (simp add: obliging_def wit_host_def)
  then show ?thesis using disk_written [OF _ _ _ _ _ _ sd] sd by fastforce
qed

text \<open>A block size of 0 passes the check, which only looks at positive ones.\<close>

lemma block_size_zero:
  assumes "128 \<le> S" "S < 2 ^ 31"
  shows "Routine_MakeStandard crc io (of_nat S) 0 = Inl DivideError"
proof -
  have "sint (of_nat S :: INT32) = int S" using assms(2) by (simp add: sint_of_nat_small)
  then show ?thesis using assms(1) by (simp add: Routine_MakeStandard_def MINIMUM_DISK_SIZE_MIB_def)
qed

end
