(* ===== verification/RoutineLib.thy ===== *)
theory RoutineLib
  imports MakeStandard
begin

text \<open>
  The command line of the host tools: \<^verbatim>\<open>Tools/RoutineLib/Source/RoutineLib.c\<close>, the routines of the disk image
  tool that \<^verbatim>\<open>Tools/Imgtool/Source/Main.c\<close> registers, and a call of the tool from its arguments to the disk.
  Counts of objects in memory are natural numbers; what the functions print is left out, except for the usage text,
  which is part of a routine.
\<close>

section \<open>Routines\<close>

definition ROUTINE_NOT_IMPLEMENTED :: INT32 where "ROUTINE_NOT_IMPLEMENTED = 2"
definition EXIT_SUCCESS :: INT32 where "EXIT_SUCCESS = 0"
definition EXIT_FAILURE :: INT32 where "EXIT_FAILURE = 1"

datatype RoutineParameterType = ROUTINE_PARAMETER_INTEGER | ROUTINE_PARAMETER_STRING | ROUTINE_PARAMETER_BOOLEAN

record RoutineParameter =
  rpType :: RoutineParameterType
  rpName :: string
  rpDescription :: string
  Optional :: bool
  IntValue :: INT32
  StrValue :: "string option"
  BitValue :: bool

text \<open>\<open>'h\<close> names the handlers; a null pointer is \<open>None\<close>.\<close>

record 'h Routine =
  roName :: string
  roDescription :: string
  Usage :: "string option"
  Parameters :: "RoutineParameter list"
  MinParameters :: nat
  Handler :: 'h

definition NumberOfParameters :: "'h Routine \<Rightarrow> nat" where
  "NumberOfParameters r = List.length (Parameters r)"

definition make_parameter :: "RoutineParameterType \<Rightarrow> string \<Rightarrow> string \<Rightarrow> bool \<Rightarrow> RoutineParameter" where
  "make_parameter ty n desc opt =
     \<lparr> rpType = ty, rpName = n, rpDescription = desc, Optional = opt, IntValue = 0, StrValue = None, BitValue = False \<rparr>"

definition MakeIntegerRoutineParameter :: "string \<Rightarrow> string \<Rightarrow> RoutineParameter" where
  "MakeIntegerRoutineParameter n desc = make_parameter ROUTINE_PARAMETER_INTEGER n desc False"

definition MakeStringRoutineParameter :: "string \<Rightarrow> string \<Rightarrow> RoutineParameter" where
  "MakeStringRoutineParameter n desc = make_parameter ROUTINE_PARAMETER_STRING n desc False"

definition MakeBooleanRoutineParameter :: "string \<Rightarrow> string \<Rightarrow> RoutineParameter" where
  "MakeBooleanRoutineParameter n desc = make_parameter ROUTINE_PARAMETER_BOOLEAN n desc False"

definition MakeOptIntegerRoutineParameter :: "string \<Rightarrow> string \<Rightarrow> INT32 \<Rightarrow> RoutineParameter" where
  "MakeOptIntegerRoutineParameter n desc defaultValue = (make_parameter ROUTINE_PARAMETER_INTEGER n desc True)\<lparr> IntValue := defaultValue \<rparr>"

definition MakeOptStringRoutineParameter :: "string \<Rightarrow> string \<Rightarrow> string \<Rightarrow> RoutineParameter" where
  "MakeOptStringRoutineParameter n desc defaultValue = (make_parameter ROUTINE_PARAMETER_STRING n desc True)\<lparr> StrValue := Some defaultValue \<rparr>"

definition MakeOptBooleanRoutineParameter :: "string \<Rightarrow> string \<Rightarrow> bool \<Rightarrow> RoutineParameter" where
  "MakeOptBooleanRoutineParameter n desc defaultValue = (make_parameter ROUTINE_PARAMETER_BOOLEAN n desc True)\<lparr> BitValue := defaultValue \<rparr>"

definition MakeRoutine :: "'h \<Rightarrow> string \<Rightarrow> string \<Rightarrow> 'h Routine" where
  "MakeRoutine h n desc = \<lparr> roName = n, roDescription = desc, Usage = None, Parameters = [], MinParameters = 0, Handler = h \<rparr>"

text \<open>\<open>mem\<close> says whether the memory for the longer array is there; a failed \<^verbatim>\<open>realloc\<close> loses the array.\<close>

definition AddRoutineParameter :: "bool \<Rightarrow> RoutineParameter \<Rightarrow> 'h Routine \<Rightarrow> (bool \<times> 'h Routine) kres" where
  "AddRoutineParameter mem param r =
     (if \<not> mem then (if Parameters r = [] then Inr (False, r) else Inl NullDeref)
      else Inr (True, r\<lparr> Parameters := Parameters r @ [param] \<rparr>))"

section \<open>Usage\<close>

definition digit :: "nat \<Rightarrow> char" where "digit d = char_of (48 + d)"

fun nat_dec :: "nat \<Rightarrow> string" where
  "nat_dec n = (if n < 10 then [digit n] else nat_dec (n div 10) @ [digit (n mod 10)])"

declare nat_dec.simps [simp del]

definition int_dec :: "int \<Rightarrow> string" where
  "int_dec i = (if i < 0 then ''-'' @ nat_dec (nat (- i)) else nat_dec (nat i))"

fun ParamTypeToStr :: "RoutineParameterType \<Rightarrow> string" where
  "ParamTypeToStr ROUTINE_PARAMETER_INTEGER = ''Int''"
| "ParamTypeToStr ROUTINE_PARAMETER_STRING = ''Str''"
| "ParamTypeToStr ROUTINE_PARAMETER_BOOLEAN = ''Bool''"

definition default_text :: "RoutineParameter \<Rightarrow> string" where
  "default_text p =
     (case rpType p of
        ROUTINE_PARAMETER_INTEGER \<Rightarrow> int_dec (sint (IntValue p))
      | ROUTINE_PARAMETER_BOOLEAN \<Rightarrow> (if BitValue p then ''True'' else ''False'')
      | ROUTINE_PARAMETER_STRING \<Rightarrow> (case StrValue p of None \<Rightarrow> ''(null)'' | Some s \<Rightarrow> s))"

definition usage_piece :: "RoutineParameter \<Rightarrow> string" where
  "usage_piece p =
     ''['' @ rpName p @ '':'' @ ParamTypeToStr (rpType p) @ ''](''  @ rpDescription p @ '')'' @
     (if Optional p then ''<Optional,ByDefault='' @ default_text p @ ''> '' else '' '')"

section \<open>Finalizing\<close>

text \<open>The loop stops when a parameter that is not optional follows an optional one.\<close>

definition old_usage :: "'h Routine \<Rightarrow> string" where
  "old_usage r = (case Usage r of None \<Rightarrow> [] | Some u \<Rightarrow> u)"

fun FinalizeLoop :: "nat \<Rightarrow> bool \<Rightarrow> bool \<Rightarrow> RoutineParameter list \<Rightarrow> 'h Routine \<Rightarrow> bool \<times> 'h Routine" where
  "FinalizeLoop i foundOpt populateUsage [] r = (True, r)"
| "FinalizeLoop i foundOpt populateUsage (param # ps) r =
     (if foundOpt \<and> \<not> Optional param then (False, r)
      else
        let r1 = (if \<not> foundOpt \<and> Optional param then r\<lparr> MinParameters := i \<rparr> else r);
            r2 = (if populateUsage then r1\<lparr> Usage := Some (old_usage r1 @ usage_piece param) \<rparr> else r1)
        in FinalizeLoop (Suc i) (foundOpt \<or> Optional param) populateUsage ps r2)"

definition FinalizeRoutine :: "bool \<Rightarrow> 'h Routine \<Rightarrow> bool \<times> 'h Routine" where
  "FinalizeRoutine populateUsage r =
     (let (ok, r1) = FinalizeLoop 0 False populateUsage (Parameters r) r
      in if \<not> ok then (False, r1)
         else
          let r2 = (if populateUsage \<and> NumberOfParameters r1 = 0 then r1\<lparr> Usage := Some ''As Is (Provide No Parameters)'' \<rparr> else r1);
              r3 = (if NumberOfParameters r2 \<noteq> 0 \<and> MinParameters r2 = 0 then r2\<lparr> MinParameters := NumberOfParameters r2 \<rparr> else r2)
          in (True, r3))"

section \<open>Registration\<close>

text \<open>The table and the count are separate variables: a failed \<^verbatim>\<open>realloc\<close> loses the table and keeps the count.\<close>

record 'h routine_table =
  g_pRoutines :: "'h Routine list option"
  g_szRoutines :: nat

definition RegisterRoutine :: "bool \<Rightarrow> 'h Routine \<Rightarrow> 'h routine_table \<Rightarrow> (bool \<times> 'h routine_table) kres" where
  "RegisterRoutine mem r t =
     (if \<not> mem then Inr (False, t\<lparr> g_pRoutines := None \<rparr>)
      else if g_pRoutines t = None \<and> g_szRoutines t \<noteq> 0 then Inl OutOfBounds
      else
        let old = (case g_pRoutines t of None \<Rightarrow> [] | Some rs \<Rightarrow> rs); (ok, r1) = FinalizeRoutine (Usage r = None) r
        in Inr (ok, \<lparr> g_pRoutines = Some (old @ [r1]), g_szRoutines = Suc (g_szRoutines t) \<rparr>))"

section \<open>Execution\<close>

text \<open>\<^verbatim>\<open>strtol\<close> in base 10: blanks, a sign, digits; \<open>None\<close> when there is no digit. The value is limited to 64 bits.\<close>

definition is_blank :: "char \<Rightarrow> bool" where
  "is_blank c \<longleftrightarrow> of_char c \<in> {9 :: nat, 10, 11, 12, 13, 32}"

definition is_digit :: "char \<Rightarrow> bool" where
  "is_digit c \<longleftrightarrow> 48 \<le> (of_char c :: nat) \<and> of_char c \<le> (57 :: nat)"

definition dec_value :: "string \<Rightarrow> nat" where
  "dec_value ds = foldl (\<lambda>a c. a * 10 + (of_char c - 48)) 0 ds"

definition limit_long :: "int \<Rightarrow> int" where
  "limit_long v = max (- (2 ^ 63)) (min (2 ^ 63 - 1) v)"

definition strtol10 :: "string \<Rightarrow> int option" where
  "strtol10 s =
     (let t = dropWhile is_blank s;
          (neg, u) = (case t of [] \<Rightarrow> (False, []) | c # cs \<Rightarrow> if c = CHR ''-'' then (True, cs) else if c = CHR ''+'' then (False, cs) else (False, t));
          ds = takeWhile is_digit u
      in if ds = [] then None else Some (limit_long (if neg then - int (dec_value ds) else int (dec_value ds))))"

text \<open>A Boolean that is neither word is reported and leaves the parameter as it was; the routine still runs.\<close>

definition assign_parameter :: "string \<Rightarrow> RoutineParameter \<Rightarrow> RoutineParameter option" where
  "assign_parameter arg param =
     (case rpType param of
        ROUTINE_PARAMETER_INTEGER \<Rightarrow> (case strtol10 arg of None \<Rightarrow> None | Some v \<Rightarrow> Some (param\<lparr> IntValue := word_of_int v \<rparr>))
      | ROUTINE_PARAMETER_STRING \<Rightarrow> Some (param\<lparr> StrValue := Some arg \<rparr>)
      | ROUTINE_PARAMETER_BOOLEAN \<Rightarrow>
          Some (if arg = ''False'' then param\<lparr> BitValue := False \<rparr> else if arg = ''True'' then param\<lparr> BitValue := True \<rparr> else param))"

fun AssignLoop :: "string list \<Rightarrow> RoutineParameter list \<Rightarrow> RoutineParameter list option" where
  "AssignLoop [] ps = Some ps"
| "AssignLoop (arg # args) [] = None"
| "AssignLoop (arg # args) (p # ps) =
     (case assign_parameter arg p of None \<Rightarrow> None
      | Some p1 \<Rightarrow> (case AssignLoop args ps of None \<Rightarrow> None | Some ps1 \<Rightarrow> Some (p1 # ps1)))"

text \<open>\<open>run\<close> calls a handler, on a state of its own. The result is the exit code.\<close>

fun ExecuteLoop :: "('h \<Rightarrow> 'h Routine \<Rightarrow> 'w \<Rightarrow> (INT32 \<times> 'w) kres) \<Rightarrow> string \<Rightarrow> string list \<Rightarrow> 'h Routine list \<Rightarrow> 'w \<Rightarrow> (INT32 \<times> 'w) kres" where
  "ExecuteLoop run rqroutname args [] w = Inr (EXIT_FAILURE, w)"
| "ExecuteLoop run rqroutname args (r # rs) w =
     (if roName r \<noteq> rqroutname then ExecuteLoop run rqroutname args rs w
      else if List.length args < MinParameters r then Inr (EXIT_FAILURE, w)
      else if List.length args > NumberOfParameters r then Inr (EXIT_FAILURE, w)
      else (case AssignLoop args (Parameters r) of
              None \<Rightarrow> Inr (EXIT_FAILURE, w)
            | Some ps \<Rightarrow> kbind (run (Handler r) (r\<lparr> Parameters := ps \<rparr>) w) (\<lambda>(result, w1).
                 Inr (if result = ROUTINE_OK then EXIT_SUCCESS else EXIT_FAILURE, w1))))"

definition RoutineLibExecute :: "('h \<Rightarrow> 'h Routine \<Rightarrow> 'w \<Rightarrow> (INT32 \<times> 'w) kres) \<Rightarrow> string list \<Rightarrow> 'h routine_table \<Rightarrow> 'w \<Rightarrow> (INT32 \<times> 'w) kres" where
  "RoutineLibExecute run argv t w =
     (case argv of
        [] \<Rightarrow> Inr (0, w)
      | rqroutname # args \<Rightarrow>
          (case g_pRoutines t of
             None \<Rightarrow> if g_szRoutines t = 0 then Inr (EXIT_FAILURE, w) else Inl NullDeref
           | Some rs \<Rightarrow> ExecuteLoop run rqroutname args rs w))"

section \<open>The disk image tool\<close>

datatype imgtool_handler = RoutineLib_Routine_Help | Routine_MakeStandard_handler | Routine_ReadMBR | Routine_ReadGPT

definition RoutineLibInit :: "bool \<Rightarrow> imgtool_handler routine_table \<Rightarrow> (bool \<times> imgtool_handler routine_table) kres" where
  "RoutineLibInit mem t = RegisterRoutine mem (MakeRoutine RoutineLib_Routine_Help ''Help'' ''Displays all available actions.'') t"

definition make_standard_routine :: "imgtool_handler Routine" where
  "make_standard_routine = (MakeRoutine Routine_MakeStandard_handler ''MakeStandard''
     ''Creates a disk image with a standard Ych OS layout, that is an EFI partition and the system partition. The PMBR (Protective Master Boot Record) and the GPT (GUID Partition Table) will also be created.'')
     \<lparr> Parameters := [MakeStringRoutineParameter ''DiskPath'' ''Path to the disk image, if it doesn't exist, it will be created.'',
        MakeIntegerRoutineParameter ''DiskSize'' ''The size of the disk image to be made, in MiB.'',
        MakeOptIntegerRoutineParameter ''BlockSize'' ''The size of each logical block/sector of the disk, in bytes. Must be a multiple of 512.'' 512] \<rparr>"

definition read_mbr_routine :: "imgtool_handler Routine" where
  "read_mbr_routine = (MakeRoutine Routine_ReadMBR ''ReadMBR'' ''Reads the Master Boot Record of a given disk file, primarily its Partition Table.'')
     \<lparr> Parameters := [MakeStringRoutineParameter ''DiskPath'' ''The path to the disk image.''] \<rparr>"

text \<open>The handler of this routine is the one of the routine before.\<close>

definition read_gpt_routine :: "imgtool_handler Routine" where
  "read_gpt_routine = (MakeRoutine Routine_ReadMBR ''ReadGPT'' ''Reads the GUID Partition Table of a given disk file, primarily its header and its Partition Table.'')
     \<lparr> Parameters := [MakeStringRoutineParameter ''DiskPath'' ''The path to the disk image.'',
        MakeOptIntegerRoutineParameter ''BlockSize'' ''The size of each logical block/sector of the disk, in bytes. Must be a multiple of 512.'' 512] \<rparr>"

text \<open>What a handler does to the file of the tool; the reading routines are stubs.\<close>

fun run_handler :: "DWORD list \<Rightarrow> host \<Rightarrow> imgtool_handler \<Rightarrow> imgtool_handler Routine \<Rightarrow> diskfile option \<Rightarrow> (INT32 \<times> diskfile option) kres" where
  "run_handler crc io RoutineLib_Routine_Help r w = Inr (ROUTINE_OK, w)"
| "run_handler crc io Routine_MakeStandard_handler r w = Routine_MakeStandard crc io (IntValue (Parameters r ! 1)) (IntValue (Parameters r ! 2))"
| "run_handler crc io Routine_ReadMBR r w = Inr (ROUTINE_NOT_IMPLEMENTED, w)"
| "run_handler crc io Routine_ReadGPT r w = Inr (ROUTINE_NOT_IMPLEMENTED, w)"

text \<open>\<^verbatim>\<open>main\<close>, with memory for its few hundred bytes; \<open>args\<close> are the arguments behind the name of the program.\<close>

definition imgtool_main :: "host \<Rightarrow> string list \<Rightarrow> (INT32 \<times> diskfile option) kres" where
  "imgtool_main io args =
     kbind (RoutineLibInit True \<lparr> g_pRoutines = None, g_szRoutines = 0 \<rparr>) (\<lambda>(ok, t0).
       if \<not> ok then Inr (EXIT_FAILURE, None)
       else
         kbind (RegisterRoutine True make_standard_routine t0) (\<lambda>(_, t1).
         kbind (RegisterRoutine True read_mbr_routine t1) (\<lambda>(_, t2).
         kbind (RegisterRoutine True read_gpt_routine t2) (\<lambda>(_, t3).
           RoutineLibExecute (run_handler InitTableCRC32 io) args t3 None))))"

section \<open>Parameters of a finalized routine\<close>

definition optional_last :: "RoutineParameter list \<Rightarrow> bool" where
  "optional_last ps \<longleftrightarrow> list_all Optional (dropWhile (\<lambda>q. \<not> Optional q) ps)"

definition mandatory :: "RoutineParameter list \<Rightarrow> nat" where
  "mandatory ps = List.length (takeWhile (\<lambda>q. \<not> Optional q) ps)"

lemma finalize_loop_ok:
  "fst (FinalizeLoop i b p ps r) \<longleftrightarrow> (if b then list_all Optional ps else optional_last ps)"
  by (induction i b p ps r rule: FinalizeLoop.induct) (auto simp: Let_def optional_last_def)

lemma finalize_loop_fields:
  "Parameters (snd (FinalizeLoop i b p ps r)) = Parameters r" "roName (snd (FinalizeLoop i b p ps r)) = roName r"
  "Handler (snd (FinalizeLoop i b p ps r)) = Handler r"
  by (induction i b p ps r rule: FinalizeLoop.induct) (simp_all add: Let_def)

lemma finalize_loop_min:
  "fst (FinalizeLoop i b p ps r) \<Longrightarrow> MinParameters (snd (FinalizeLoop i b p ps r)) =
     (if b \<or> \<not> list_ex Optional ps then MinParameters r else i + mandatory ps)"
  by (induction i b p ps r rule: FinalizeLoop.induct) (auto simp: Let_def mandatory_def split: if_splits)

lemma finalize_loop_usage:
  "fst (FinalizeLoop i b p ps r) \<Longrightarrow> Usage (snd (FinalizeLoop i b p ps r)) =
     (if p \<and> ps \<noteq> [] then Some (old_usage r @ concat (map usage_piece ps)) else Usage r)"
  by (induction i b p ps r rule: FinalizeLoop.induct) (auto simp: Let_def old_usage_def split: if_splits)

lemma mandatory_all: "\<not> list_ex Optional ps \<Longrightarrow> mandatory ps = List.length ps"
  by (induction ps) (simp_all add: mandatory_def)

lemma finalize_routine:
  assumes "MinParameters r = 0" "Usage r = None" "FinalizeRoutine True r = (ok, r1)"
  shows "ok \<longleftrightarrow> optional_last (Parameters r)" "Parameters r1 = Parameters r" "roName r1 = roName r" "Handler r1 = Handler r"
    "ok \<Longrightarrow> MinParameters r1 = (if mandatory (Parameters r) = 0 then NumberOfParameters r else mandatory (Parameters r))"
    "ok \<Longrightarrow> Usage r1 = Some (if Parameters r = [] then ''As Is (Provide No Parameters)'' else concat (map usage_piece (Parameters r)))"
proof -
  obtain b r2 where l: "FinalizeLoop 0 False True (Parameters r) r = (b, r2)" by (cases "FinalizeLoop 0 False True (Parameters r) r")
  note f = finalize_loop_fields [of 0 False True "Parameters r" r, unfolded l snd_conv]
  have b: "b \<longleftrightarrow> optional_last (Parameters r)" using finalize_loop_ok [of 0 False True "Parameters r" r] l by simp
  have mu: "MinParameters r2 = (if \<not> list_ex Optional (Parameters r) then 0 else mandatory (Parameters r))"
    "Usage r2 = (if Parameters r \<noteq> [] then Some (concat (map usage_piece (Parameters r))) else None)" if b
    using finalize_loop_min [of 0 False True "Parameters r" r] finalize_loop_usage [of 0 False True "Parameters r" r] that l assms(1,2)
    by (simp_all add: old_usage_def)
  show "ok \<longleftrightarrow> optional_last (Parameters r)" using assms(3) b by (auto simp: FinalizeRoutine_def l Let_def split: if_splits)
  show "Parameters r1 = Parameters r" "roName r1 = roName r" "Handler r1 = Handler r"
    using assms(3) f by (auto simp: FinalizeRoutine_def l Let_def split: if_splits)
  show "MinParameters r1 = (if mandatory (Parameters r) = 0 then NumberOfParameters r else mandatory (Parameters r))" if ok
    using assms(3) that f mu mandatory_all [of "Parameters r"]
    by (auto simp: FinalizeRoutine_def l Let_def NumberOfParameters_def split: if_splits)
  show "Usage r1 = Some (if Parameters r = [] then ''As Is (Provide No Parameters)'' else concat (map usage_piece (Parameters r)))" if ok
    using assms(3) that f mu by (auto simp: FinalizeRoutine_def l Let_def NumberOfParameters_def split: if_splits)
qed

section \<open>Decimal arguments\<close>

lemma of_char_digit: "d < 10 \<Longrightarrow> of_char (digit d) = (48 + d :: nat)"
  by (simp add: digit_def)

lemma digit_char: "d < 10 \<Longrightarrow> is_digit (digit d)" "d < 10 \<Longrightarrow> \<not> is_blank (digit d)"
  by (simp_all add: is_digit_def is_blank_def of_char_digit)

lemma nat_dec_digits: "list_all is_digit (nat_dec n) \<and> nat_dec n \<noteq> [] \<and> \<not> is_blank (hd (nat_dec n))"
proof (induction n rule: nat_dec.induct)
  case (1 n)
  then show ?case by (subst (1 2 3) nat_dec.simps) (auto simp: digit_char hd_append)
qed

lemma nat_dec_value: "dec_value (nat_dec n) = n"
proof (induction n rule: nat_dec.induct)
  case (1 n)
  then show ?case by (subst nat_dec.simps) (auto simp: dec_value_def of_char_digit)
qed

lemma strtol_nat: "n < 2 ^ 63 \<Longrightarrow> strtol10 (nat_dec n) = Some (int n)"
proof -
  assume n: "n < 2 ^ 63"
  obtain c cs where c: "nat_dec n = c # cs" using nat_dec_digits [of n] by (cases "nat_dec n") auto
  then have d: "is_digit c" "\<not> is_blank c" "list_all is_digit (c # cs)" using nat_dec_digits [of n] by auto
  have "c \<noteq> CHR ''-''" "c \<noteq> CHR ''+''" using d(1) by (auto simp: is_digit_def)
  moreover have "takeWhile is_digit (c # cs) = c # cs" using d(3) by (simp add: list_all_iff takeWhile_eq_all_conv)
  ultimately have "strtol10 (nat_dec n) = Some (limit_long (int (dec_value (nat_dec n))))"
    using d(2) unfolding c by (simp add: strtol10_def Let_def)
  then show ?thesis using n by (simp add: nat_dec_value limit_long_def)
qed

section \<open>A call of the tool\<close>

definition finished :: "'h Routine \<Rightarrow> 'h Routine" where
  "finished r = snd (FinalizeRoutine True r)"

lemma finished_fields:
  assumes "MinParameters r = 0" "Usage r = None"
  shows "Parameters (finished r) = Parameters r" "roName (finished r) = roName r" "Handler (finished r) = Handler r"
    "optional_last (Parameters r) \<Longrightarrow> MinParameters (finished r) = (if mandatory (Parameters r) = 0 then NumberOfParameters r else mandatory (Parameters r))"
  unfolding finished_def using finalize_routine [OF assms prod.collapse [symmetric]] by simp_all

lemma register_first: "Usage r = None \<Longrightarrow>
    RegisterRoutine True r \<lparr> g_pRoutines = None, g_szRoutines = 0 \<rparr> = Inr (fst (FinalizeRoutine True r), \<lparr> g_pRoutines = Some [finished r], g_szRoutines = 1 \<rparr>)"
  by (simp add: RegisterRoutine_def finished_def case_prod_unfold Let_def)

lemma register_next: "Usage r = None \<Longrightarrow>
    RegisterRoutine True r \<lparr> g_pRoutines = Some rs, g_szRoutines = n \<rparr> =
      Inr (fst (FinalizeRoutine True r), \<lparr> g_pRoutines = Some (rs @ [finished r]), g_szRoutines = Suc n \<rparr>)"
  by (simp add: RegisterRoutine_def finished_def case_prod_unfold Let_def)

definition help_routine :: "imgtool_handler Routine" where
  "help_routine = MakeRoutine RoutineLib_Routine_Help ''Help'' ''Displays all available actions.''"

lemma new_routines:
  "MinParameters help_routine = 0" "Usage help_routine = None" "MinParameters make_standard_routine = 0" "Usage make_standard_routine = None"
  "MinParameters read_mbr_routine = 0" "Usage read_mbr_routine = None" "MinParameters read_gpt_routine = 0" "Usage read_gpt_routine = None"
  by (simp_all add: help_routine_def make_standard_routine_def read_mbr_routine_def read_gpt_routine_def MakeRoutine_def)

lemma imgtool_dispatch:
  "imgtool_main io args = RoutineLibExecute (run_handler InitTableCRC32 io) args
     \<lparr> g_pRoutines = Some [finished help_routine, finished make_standard_routine, finished read_mbr_routine, finished read_gpt_routine], g_szRoutines = 4 \<rparr> None"
proof -
  have "optional_last (Parameters help_routine)" by (simp add: help_routine_def MakeRoutine_def optional_last_def)
  then have "fst (FinalizeRoutine True help_routine)"
    using finalize_routine(1) [OF new_routines(1,2) prod.collapse [symmetric]] by simp
  then show ?thesis
    by (simp add: imgtool_main_def RoutineLibInit_def register_first register_next new_routines eval_nat_numeral flip: help_routine_def)
qed

lemma tool_names:
  "roName (finished help_routine) = ''Help''" "roName (finished make_standard_routine) = ''MakeStandard''"
  "roName (finished read_mbr_routine) = ''ReadMBR''" "roName (finished read_gpt_routine) = ''ReadGPT''"
  using finished_fields(2) [OF new_routines(1,2)] finished_fields(2) [OF new_routines(3,4)] finished_fields(2) [OF new_routines(5,6)] finished_fields(2) [OF new_routines(7,8)]
  by (simp_all add: help_routine_def make_standard_routine_def read_mbr_routine_def read_gpt_routine_def MakeRoutine_def)

lemma make_standard_fields:
  "NumberOfParameters (finished make_standard_routine) = 3" "MinParameters (finished make_standard_routine) = 2"
  "Handler (finished make_standard_routine) = Routine_MakeStandard_handler"
  using finished_fields [OF new_routines(3,4)]
  by (simp_all add: make_standard_routine_def MakeRoutine_def NumberOfParameters_def optional_last_def mandatory_def make_parameter_def
      MakeStringRoutineParameter_def MakeIntegerRoutineParameter_def MakeOptIntegerRoutineParameter_def)

lemma make_standard_call:
  assumes "S < 2 ^ 31" "B < 2 ^ 31" "opts = [] \<and> B = 512 \<or> opts = [nat_dec B]"
  shows "imgtool_main io (''MakeStandard'' # path # nat_dec S # opts) =
    kbind (Routine_MakeStandard InitTableCRC32 io (of_nat S) (of_nat B)) (\<lambda>(result, w). Inr (if result = ROUTINE_OK then EXIT_SUCCESS else EXIT_FAILURE, w))"
proof -
  let ?r = "finished make_standard_routine"
  have n: "strtol10 (nat_dec S) = Some (int S)" "strtol10 (nat_dec B) = Some (int B)" using assms(1,2) by (intro strtol_nat; simp)+
  have "\<exists>ps. AssignLoop (path # nat_dec S # opts) (Parameters ?r) = Some ps \<and> IntValue (ps ! 1) = of_nat S \<and> IntValue (ps ! 2) = of_nat B"
    using assms(3) n finished_fields(1) [OF new_routines(3,4)]
    by (auto simp: make_standard_routine_def MakeRoutine_def make_parameter_def assign_parameter_def
      MakeStringRoutineParameter_def MakeIntegerRoutineParameter_def MakeOptIntegerRoutineParameter_def)
  then obtain ps where ps: "AssignLoop (path # nat_dec S # opts) (Parameters ?r) = Some ps" "IntValue (ps ! 1) = of_nat S" "IntValue (ps ! 2) = of_nat B" by blast
  have "List.length (path # nat_dec S # opts) \<in> {2, 3}" using assms(3) by auto
  then show ?thesis using ps by (auto simp: imgtool_dispatch RoutineLibExecute_def tool_names make_standard_fields)
qed

text \<open>
  \<open>FinalizeRoutine\<close> on a new routine accepts exactly the parameter lists whose optional parameters come last; the
  least number of arguments is then the number of parameters that are not optional, except that it is the number of
  all parameters when every one is optional (so that none can be left out); the usage text describes every parameter
  in order.
\<close>
theorem finalize_parameters:
  assumes "MinParameters r = 0" "Usage r = None"
  shows "case FinalizeRoutine True r of (ok, r1) \<Rightarrow>
    (ok \<longleftrightarrow> optional_last (Parameters r)) \<and> Parameters r1 = Parameters r \<and>
    (if ok then MinParameters r1 = (if mandatory (Parameters r) = 0 then NumberOfParameters r else mandatory (Parameters r)) \<and>
       Usage r1 = Some (if Parameters r = [] then ''As Is (Provide No Parameters)'' else concat (map usage_piece (Parameters r)))
     else True)"
  using finalize_routine [OF assms prod.collapse [symmetric]] by (simp add: case_prod_unfold)

theorem finalize_parameters_witness:
  "MinParameters (snd (FinalizeRoutine True ((MakeRoutine () ''r'' [])\<lparr> Parameters := [MakeOptStringRoutineParameter ''a'' [] [], MakeOptStringRoutineParameter ''b'' [] []] \<rparr>))) = 2"
  using finalize_parameters [of "(MakeRoutine () ''r'' [])\<lparr> Parameters := [MakeOptStringRoutineParameter ''a'' [] [], MakeOptStringRoutineParameter ''b'' [] []] \<rparr>"]
  by (simp add: MakeRoutine_def MakeOptStringRoutineParameter_def make_parameter_def optional_last_def mandatory_def NumberOfParameters_def case_prod_unfold)

text \<open>
  C13: A call of the tool with \<^verbatim>\<open>MakeStandard\<close>, a path, a size in MiB and perhaps a block size, all in decimal, makes a
  disk that reads back as a valid partition table for exactly that size and block size (512 when it is left out) and
  exits with success, on a host on which every call succeeds.
\<close>
theorem imgtool_makes_disk:
  assumes "obliging io" "128 \<le> S" "S < 2 ^ 31" "512 \<le> B" "B \<le> 349525" "512 dvd B"
    and "opts = [] \<and> B = 512 \<or> opts = [nat_dec B]"
    and "(h, a, es) = standard_disk InitTableCRC32 io (of_nat S) (of_nat B)"
  shows "\<exists>d. imgtool_main io (''MakeStandard'' # path # nat_dec S # opts) = Inr (EXIT_SUCCESS, Some d) \<and> holds_gpt (fdata d) B h a es"
proof -
  have B: "B < 2 ^ 31" using assms(5) by simp
  show ?thesis using disk_reads_back [OF assms(1-6,8)] by (auto simp: make_standard_call [OF assms(3) B assms(7)])
qed

theorem imgtool_makes_disk_witness:
  "\<exists>h a es d. (h, a, es) = standard_disk InitTableCRC32 wit_host (of_nat 256) (of_nat 512) \<and>
    imgtool_main wit_host [''MakeStandard'', ''disk.img'', nat_dec 256] = Inr (EXIT_SUCCESS, Some d) \<and> holds_gpt (fdata d) 512 h a es"
proof -
  obtain h a es where sd: "(h, a, es) = standard_disk InitTableCRC32 wit_host (of_nat 256) (of_nat 512)" by (metis prod_cases3)
  have "obliging wit_host" by (simp add: obliging_def wit_host_def)
  then show ?thesis using imgtool_makes_disk [where opts = "[]" and path = "''disk.img''", OF _ _ _ _ _ _ _ sd] sd by fastforce
qed

end
