(* ===== verification/Display.thy ===== *)
theory Display
  imports Krtl BootstrapArena Spinlock
begin

text \<open>
  Text on the screen: \<^verbatim>\<open>Kernel/Source/Earlyvideo/DisplaywideTextProtocol.c\<close>. The two frame buffers are functions
  from pixel numbers; the byte counts of the code are kept, and the last, partial pixel of a copy is merged byte by
  byte. The lock is the one of \<open>Spinlock\<close>: waiting for it while the caller holds it is \<open>Deadlock\<close>.
\<close>

section \<open>Colors and state\<close>

definition KRDWTP_MAKE_COLOR :: "DWORD \<Rightarrow> DWORD \<Rightarrow> DWORD \<Rightarrow> DWORD \<Rightarrow> DWORD" where
  "KRDWTP_MAKE_COLOR R G B A = push_bit 24 (A AND 0xFF) OR push_bit 16 (R AND 0xFF) OR push_bit 8 (G AND 0xFF) OR (B AND 0xFF)"

definition KRDWTP_FOREGROUND :: DWORD where "KRDWTP_FOREGROUND = KRDWTP_MAKE_COLOR 0xFF 0xFF 0xFF 0xFF"
definition KRDWTP_BACKGROUND :: DWORD where "KRDWTP_BACKGROUND = KRDWTP_MAKE_COLOR 0x00 0x00 0x00 0xFF"
definition KRDWTP_COLOR_WHITE :: DWORD where "KRDWTP_COLOR_WHITE = KRDWTP_MAKE_COLOR 0xFF 0xFF 0xFF 0xFF"
definition KRDWTP_COLOR_BLACK :: DWORD where "KRDWTP_COLOR_BLACK = KRDWTP_MAKE_COLOR 0x00 0x00 0x00 0xFF"
definition KRDWTP_COLOR_RED :: DWORD where "KRDWTP_COLOR_RED = KRDWTP_MAKE_COLOR 0xFF 0x00 0x00 0xFF"
definition KRDWTP_COLOR_GREEN :: DWORD where "KRDWTP_COLOR_GREEN = KRDWTP_MAKE_COLOR 0x00 0xFF 0x00 0xFF"
definition KRDWTP_COLOR_BLUE :: DWORD where "KRDWTP_COLOR_BLUE = KRDWTP_MAKE_COLOR 0x00 0x00 0xFF 0xFF"
definition KRDWTP_COLOR_YELLOW :: DWORD where "KRDWTP_COLOR_YELLOW = KRDWTP_MAKE_COLOR 0xFF 0xFF 0x00 0xFF"
definition KRDWTP_COLOR_PINK :: DWORD where "KRDWTP_COLOR_PINK = KRDWTP_MAKE_COLOR 0xFF 0x00 0xFF 0xFF"
definition KRDWTP_COLOR_CYAN :: DWORD where "KRDWTP_COLOR_CYAN = KRDWTP_MAKE_COLOR 0x00 0xFF 0xFF 0xFF"
definition KRDWTP_COLOR_PURPLE :: DWORD where "KRDWTP_COLOR_PURPLE = KRDWTP_MAKE_COLOR 0xB2 0x00 0xFF 0xFF"
definition KRDWTP_COLOR_ORANGE :: DWORD where "KRDWTP_COLOR_ORANGE = KRDWTP_MAKE_COLOR 0xFF 0x80 0x00 0xFF"
definition KRDWTP_COLOR_DARK_RED :: DWORD where "KRDWTP_COLOR_DARK_RED = KRDWTP_MAKE_COLOR 0x80 0x00 0x00 0xFF"
definition KRDWTP_COLOR_DARK_GREEN :: DWORD where "KRDWTP_COLOR_DARK_GREEN = KRDWTP_MAKE_COLOR 0x00 0x80 0x00 0xFF"
definition KRDWTP_COLOR_DARK_PURPLE :: DWORD where "KRDWTP_COLOR_DARK_PURPLE = KRDWTP_MAKE_COLOR 0x4B 0x00 0x6E 0xFF"

text \<open>A null pointer to the glyphs is \<open>None\<close>.\<close>

record KrDisplaywideTextProtocolFont =
  CharacterSet :: "BYTE list option"
  NumberOfEntries :: UINT
  ColumnsPerEntry :: BYTE
  RowsPerEntry :: BYTE
  ScaleFactor :: UINT
  bDirectionBit :: bool

type_synonym pixels = "nat \<Rightarrow> DWORD"

record KrDisplaywideTextProtocolState =
  FrameBufferSize :: UINT
  FrameBufferWidth :: UINT
  FrameBufferHeight :: UINT
  PixelsPerScanLine :: UINT
  CursorX :: UINT
  CursorY :: UINT
  AddrFrameBuffer :: UINTPTR
  AddrRamFrameBuffer :: UINTPTR
  BytesPerPixel :: UINT
  Font :: KrDisplaywideTextProtocolFont
  bUppercaseMode :: bool
  sg_DwtpSpinlock :: DWORD
  vram :: pixels
  ramfb :: pixels
  dwMeltdown :: bool

type_synonym dwtp = KrDisplaywideTextProtocolState

text \<open>The first \<open>n\<close> bytes of \<open>src\<close> over those of \<open>dst\<close>.\<close>

definition part_pixel :: "nat \<Rightarrow> DWORD \<Rightarrow> DWORD \<Rightarrow> DWORD" where
  "part_pixel r new old = (new AND mask (8 * r)) OR (old AND NOT (mask (8 * r)))"

definition copy_bytes :: "nat \<Rightarrow> pixels \<Rightarrow> pixels \<Rightarrow> pixels" where
  "copy_bytes n src dst = (\<lambda>i. if i < n div 4 then src i else if i = n div 4 then part_pixel (n mod 4) (src i) (dst i) else dst i)"

definition locked :: "(dwtp \<Rightarrow> ('a \<times> dwtp) kres) \<Rightarrow> dwtp \<Rightarrow> ('a \<times> dwtp) kres" where
  "locked body s =
     kbind (AcquireOrWaitSpinlock (sg_DwtpSpinlock s)) (\<lambda>l.
     kbind (body (s\<lparr> sg_DwtpSpinlock := l \<rparr>)) (\<lambda>(r, s1). Inr (r, s1\<lparr> sg_DwtpSpinlock := RelinquishSpinlock (sg_DwtpSpinlock s1) \<rparr>)))"

definition proc :: "(dwtp \<Rightarrow> dwtp kres) \<Rightarrow> dwtp \<Rightarrow> (unit \<times> dwtp) kres" where
  "proc body s = kbind (body s) (\<lambda>s1. Inr ((), s1))"

section \<open>Set-up\<close>

definition DwtpReplicateRamFrbufToVram :: "dwtp \<Rightarrow> dwtp" where
  "DwtpReplicateRamFrbufToVram s = s\<lparr> vram := copy_bytes (unat (FrameBufferSize s)) (ramfb s) (vram s) \<rparr>"

definition KrdwtpScaleFont :: "KrDisplaywideTextProtocolFont \<Rightarrow> BYTE \<Rightarrow> KrDisplaywideTextProtocolFont" where
  "KrdwtpScaleFont pFont Scale = pFont\<lparr> ScaleFactor := ScaleFactor pFont * ucast Scale \<rparr>"

definition KrdwtpInitialize :: "KrDisplaywideTextProtocolFont \<Rightarrow> UINTPTR \<Rightarrow> UINT \<Rightarrow> UINT \<Rightarrow> UINT \<Rightarrow> UINT \<Rightarrow> arena \<Rightarrow> dwtp \<Rightarrow> (arena \<times> dwtp) kres" where
  "KrdwtpInitialize font addr frsize width height ppsl a =
     locked (\<lambda>s.
       let (ram, a1) = KrBootstrapArenaAcquire a (ucast (frsize * 2));
           s1 = s\<lparr> FrameBufferSize := frsize, FrameBufferWidth := width, FrameBufferHeight := height, PixelsPerScanLine := ppsl,
                   CursorX := 0, CursorY := 0, AddrFrameBuffer := addr, AddrRamFrameBuffer := ram, BytesPerPixel := 4,
                   Font := font, bUppercaseMode := False \<rparr>
       in if ram = 0 \<and> frsize * 2 \<noteq> 0 then Inl NullDeref
          else Inr (a1, s1\<lparr> ramfb := copy_bytes (unat (frsize * 2)) (\<lambda>_. 0) (ramfb s1) \<rparr>))"

definition KrdwtpReloadFrameBuffer :: "UINTPTR \<Rightarrow> dwtp \<Rightarrow> (unit \<times> dwtp) kres" where
  "KrdwtpReloadFrameBuffer addr = locked (\<lambda>s. Inr ((), s\<lparr> AddrFrameBuffer := addr \<rparr>))"

definition KrdwtpSetUppercaseMode :: "bool \<Rightarrow> dwtp \<Rightarrow> (unit \<times> dwtp) kres" where
  "KrdwtpSetUppercaseMode enabled = locked (\<lambda>s. Inr ((), s\<lparr> bUppercaseMode := enabled \<rparr>))"

definition KrdwtpGetProtocolState :: "dwtp \<Rightarrow> dwtp" where
  "KrdwtpGetProtocolState s = s"

text \<open>A store of one pixel to both buffers, at a 32-bit index.\<close>

definition put_pixel :: "UINT \<Rightarrow> DWORD \<Rightarrow> dwtp \<Rightarrow> dwtp kres" where
  "put_pixel i color s =
     (if AddrFrameBuffer s = 0 \<or> AddrRamFrameBuffer s = 0 then Inl NullDeref
      else Inr (s\<lparr> vram := (vram s)(unat i := color), ramfb := (ramfb s)(unat i := color) \<rparr>))"

definition pixel_index :: "dwtp \<Rightarrow> UINT \<Rightarrow> UINT \<Rightarrow> UINT" where
  "pixel_index s x y = y * PixelsPerScanLine s + x"

definition KrdwtpResetState :: "DWORD \<Rightarrow> dwtp \<Rightarrow> (unit \<times> dwtp) kres" where
  "KrdwtpResetState ClearColor =
     locked (proc (\<lambda>s. let s0 = s\<lparr> CursorX := 0, CursorY := 0 \<rparr>
       in each (\<lambda>y. each (\<lambda>x s. put_pixel (pixel_index s (of_nat x) (of_nat y)) ClearColor s) [0..<unat (FrameBufferWidth s0)])
            [0..<unat (FrameBufferHeight s0)] s0))"

section \<open>Scrolling\<close>

definition entry_size :: "dwtp \<Rightarrow> UINT" where
  "entry_size s = ucast (RowsPerEntry (Font s)) * ScaleFactor (Font s)"

definition KrdwtpScroll_NoSpin :: "dwtp \<Rightarrow> dwtp" where
  "KrdwtpScroll_NoSpin s =
     (if CursorY s = 0 then s
      else
        let dwPhysStride = PixelsPerScanLine s * BytesPerPixel s;
            dwLogicalStride = entry_size s * dwPhysStride;
            moved = copy_bytes (unat (CursorY s * dwLogicalStride)) (\<lambda>i. ramfb s (i + unat dwLogicalStride div 4)) (ramfb s);
            first = unat (CursorY s * dwLogicalStride) div 4;
            cleared = (\<lambda>i. if first \<le> i \<and> i < first + unat dwLogicalStride div 4 then 0 else moved i);
            s1 = DwtpReplicateRamFrbufToVram (s\<lparr> ramfb := cleared \<rparr>)
        in s1\<lparr> CursorY := CursorY s1 - 1, CursorX := 0 \<rparr>)"

definition KrdwtpScroll :: "dwtp \<Rightarrow> (unit \<times> dwtp) kres" where
  "KrdwtpScroll = locked (\<lambda>s. Inr ((), KrdwtpScroll_NoSpin s))"

section \<open>Characters\<close>

text \<open>Whether the pixel of a column and a row of a glyph is lit, the glyph being at an index of the character set.\<close>

definition glyph_bit :: "KrDisplaywideTextProtocolFont \<Rightarrow> BYTE list \<Rightarrow> UINT \<Rightarrow> UINT \<Rightarrow> BYTE \<Rightarrow> bool kres" where
  "glyph_bit pFont cs glyph Row bt =
     (let dwBytesPerGlyph = (ucast (ColumnsPerEntry pFont) + 7) div 8 :: UINT;
          i = unat glyph + unat (Row * dwBytesPerGlyph) + unat bt div 8;
          iBit = (if bDirectionBit pFont then 7 - bt else bt mod 8)
      in if i \<ge> List.length cs then Inl OutOfBounds
         else if iBit \<ge> 32 then Inl UndefinedShift
         else Inr (bit (cs ! i) (unat iBit)))"

definition draw_glyph :: "BYTE list \<Rightarrow> CCHAR \<Rightarrow> DWORD \<Rightarrow> DWORD \<Rightarrow> dwtp \<Rightarrow> dwtp kres" where
  "draw_glyph cs Ch ForegroundColor BackgroundColor s0 =
     (let pFont = Font s0;
          dwBytesPerGlyph = (ucast (ColumnsPerEntry pFont) + 7) div 8 :: UINT;
          dwGlyphSize = ucast (RowsPerEntry pFont) * dwBytesPerGlyph;
          glyph = scast Ch * dwGlyphSize;
          dwStartX = CursorX s0 * ucast (ColumnsPerEntry pFont) * ScaleFactor pFont;
          dwStartY = CursorY s0 * ucast (RowsPerEntry pFont) * ScaleFactor pFont
      in each (\<lambda>Row. each (\<lambda>bt s.
           kbind (glyph_bit pFont cs glyph (of_nat Row) (of_nat bt)) (\<lambda>pxlit.
             each (\<lambda>ScalarY. each (\<lambda>ScalarX s.
               put_pixel (pixel_index s (dwStartX + of_nat bt * ScaleFactor pFont + of_nat ScalarX) (dwStartY + of_nat Row * ScaleFactor pFont + of_nat ScalarY))
                 (if pxlit then ForegroundColor else if dwMeltdown s then KRDWTP_COLOR_DARK_PURPLE else BackgroundColor) s)
               [0..<unat (ScaleFactor pFont)]) [0..<unat (ScaleFactor pFont)] s))
             [0..<unat (ColumnsPerEntry pFont)]) [0..<unat (RowsPerEntry pFont)] s0)"

text \<open>\<^verbatim>\<open>++CursorY > Height / rows\<close>, with the trap of a division by zero; then scrolling with or without the lock.\<close>

definition next_row :: "(dwtp \<Rightarrow> dwtp kres) \<Rightarrow> dwtp \<Rightarrow> dwtp kres" where
  "next_row scroll s =
     (let s1 = s\<lparr> CursorX := 0, CursorY := CursorY s + 1 \<rparr>
      in if entry_size s1 = 0 then Inl DivideError
         else if CursorY s1 > FrameBufferHeight s1 div entry_size s1 then scroll s1 else Inr s1)"

definition KrdwtpOutColoredCharacter_NoSpin :: "CCHAR \<Rightarrow> DWORD \<Rightarrow> DWORD \<Rightarrow> dwtp \<Rightarrow> dwtp kres" where
  "KrdwtpOutColoredCharacter_NoSpin Ch ForegroundColor BackgroundColor s =
     (case CharacterSet (Font s) of
        None \<Rightarrow> Inr s
      | Some cs \<Rightarrow>
          if AddrFrameBuffer s = 0 \<or> NumberOfEntries (Font s) \<ge> scast Ch then Inr s
          else if Ch = ch (CHR 0x0A) then next_row (\<lambda>s. Inr (KrdwtpScroll_NoSpin s)) s
          else
            let Ch' = (if bUppercaseMode s \<and> sint Ch \<ge> sint (ch (CHR ''a'')) \<and> sint Ch \<le> sint (ch (CHR ''z'')) then Ch - 32 else Ch);
                w = ucast (ColumnsPerEntry (Font s)) * ScaleFactor (Font s) :: UINT
            in kbind (draw_glyph cs Ch' ForegroundColor BackgroundColor s) (\<lambda>s1.
                 let s2 = s1\<lparr> CursorX := CursorX s1 + 1 \<rparr>
                 in if w = 0 then Inl DivideError
                    else if CursorX s2 \<ge> FrameBufferWidth s2 div w
                    then next_row (\<lambda>s. kbind (KrdwtpScroll s) (\<lambda>(_, s). Inr s)) s2
                    else Inr s2))"

definition KrdwtpOutColoredCharacter :: "CCHAR \<Rightarrow> DWORD \<Rightarrow> DWORD \<Rightarrow> dwtp \<Rightarrow> (unit \<times> dwtp) kres" where
  "KrdwtpOutColoredCharacter Ch fg bg = locked (proc (KrdwtpOutColoredCharacter_NoSpin Ch fg bg))"

definition KrdwtpOutCharacter_NoSpin :: "CCHAR \<Rightarrow> dwtp \<Rightarrow> dwtp kres" where
  "KrdwtpOutCharacter_NoSpin Ch = KrdwtpOutColoredCharacter_NoSpin Ch KRDWTP_COLOR_WHITE KRDWTP_BACKGROUND"

definition KrdwtpOutCharacter :: "CCHAR \<Rightarrow> dwtp \<Rightarrow> (unit \<times> dwtp) kres" where
  "KrdwtpOutCharacter Ch = KrdwtpOutColoredCharacter Ch KRDWTP_COLOR_WHITE KRDWTP_BACKGROUND"

section \<open>Text\<close>

text \<open>A string is the list of its characters before the terminator; the result is their number.\<close>

definition KrdwtpOutColoredText_NoSpin :: "CCHAR list \<Rightarrow> DWORD \<Rightarrow> DWORD \<Rightarrow> dwtp \<Rightarrow> (int \<times> dwtp) kres" where
  "KrdwtpOutColoredText_NoSpin pText fg bg s =
     kbind (each (\<lambda>c. KrdwtpOutColoredCharacter_NoSpin c fg bg) pText s) (\<lambda>s1. Inr (int (List.length pText), s1))"

definition KrdwtpOutColoredText :: "CCHAR list \<Rightarrow> DWORD \<Rightarrow> DWORD \<Rightarrow> dwtp \<Rightarrow> (int \<times> dwtp) kres" where
  "KrdwtpOutColoredText pText fg bg = locked (KrdwtpOutColoredText_NoSpin pText fg bg)"

definition KrdwtpOutText_NoSpin :: "CCHAR list \<Rightarrow> dwtp \<Rightarrow> (int \<times> dwtp) kres" where
  "KrdwtpOutText_NoSpin pText = KrdwtpOutColoredText_NoSpin pText KRDWTP_COLOR_WHITE KRDWTP_BACKGROUND"

definition KrdwtpOutText :: "CCHAR list \<Rightarrow> dwtp \<Rightarrow> (int \<times> dwtp) kres" where
  "KrdwtpOutText pText = KrdwtpOutColoredText pText KRDWTP_COLOR_WHITE KRDWTP_BACKGROUND"

section \<open>Formatted text\<close>

text \<open>The characters before the first null, as \<^verbatim>\<open>while (*pText)\<close> meets them; the fuel bounds their number.\<close>

fun text_at :: "nat \<Rightarrow> memory \<Rightarrow> UINTPTR \<Rightarrow> CCHAR list kres" where
  "text_at 0 mem p = Inl OutOfFuel"
| "text_at (Suc f) mem p = (if mem p = 0 then Inr [] else kbind (text_at f mem (p + 1)) (\<lambda>cs. Inr (mem p # cs)))"

definition out_string :: "nat \<Rightarrow> memory \<Rightarrow> UINTPTR \<Rightarrow> CCHAR list kres" where
  "out_string f mem p = (if p = 0 then Inr (chars ''(NULL)'') else text_at f mem p)"

text \<open>What a conversion prints, as one or two texts; arguments are read as in \<open>Krtl\<close>, numbers always in upper case.\<close>

definition OutConversion :: "nat \<Rightarrow> memory \<Rightarrow> CCHAR \<Rightarrow> QWORD list \<Rightarrow> (CCHAR list \<times> QWORD list) kres option" where
  "OutConversion f mem k args =
     (if k = ch (CHR ''c'') then Some (va_arg args (\<lambda>a. Inr [ucast a]))
      else if k = ch (CHR ''b'') then Some (va_arg args (\<lambda>a. Inr (chars (if as_UINT a \<noteq> 0 then ''true'' else ''false''))))
      else if k = ch (CHR ''s'') then Some (va_arg args (out_string f mem))
      else if k = ch (CHR ''d'') \<or> k = ch (CHR ''i'') then Some (va_arg args (\<lambda>a. FmtSigned (as_INT a)))
      else if k = ch (CHR ''u'') then Some (va_arg args (\<lambda>a. FmtUnsigned (as_UINT a) KRTL_RADIX_DECIMAL True))
      else if k = ch (CHR ''o'') then Some (va_arg args (\<lambda>a. FmtBuffer (KrtlSignedToString (\<lambda>_. 0) 1 (as_UINT a) KRTL_RADIX_OCTAL True) 1))
      else if k = ch (CHR ''X'') \<or> k = ch (CHR ''x'') then Some (va_arg args (\<lambda>a. FmtUnsigned (as_UINT a) KRTL_RADIX_HEXADECIMAL True))
      else if k = ch (CHR ''p'') then
        Some (va_arg args (\<lambda>a. kbind (FmtUnsigned a KRTL_RADIX_HEXADECIMAL True) (\<lambda>bs. Inr (chars ''0x'' @ bs))))
      else None)"

definition OutConversionR :: "CCHAR \<Rightarrow> QWORD list \<Rightarrow> (CCHAR list \<times> QWORD list) kres option" where
  "OutConversionR k args =
     (if k = ch (CHR ''u'') then Some (va_arg args (\<lambda>a. FmtUnsigned a KRTL_RADIX_DECIMAL True))
      else if k = ch (CHR ''X'') \<or> k = ch (CHR ''x'') then Some (va_arg args (\<lambda>a. FmtUnsigned a KRTL_RADIX_HEXADECIMAL True))
      else None)"

text \<open>The loop, with the number of characters written; an ill-formed format gives \<open>-1\<close> after what it has printed.\<close>

function FormatLoop :: "nat \<Rightarrow> memory \<Rightarrow> CCHAR list \<Rightarrow> QWORD list \<Rightarrow> int \<Rightarrow> dwtp \<Rightarrow> (int \<times> dwtp) kres" where
  "FormatLoop f mem pFmt args nwritten s =
     (case pFmt of
        [] \<Rightarrow> Inr (nwritten, s)
      | c # rest \<Rightarrow>
          if c \<noteq> ch (CHR ''%'') then kbind (KrdwtpOutCharacter_NoSpin c s) (\<lambda>s1. FormatLoop f mem rest args (nwritten + 1) s1)
          else (case rest of
                  [] \<Rightarrow> Inr (- 1, s)
                | k # rest' \<Rightarrow>
                    if k = ch (CHR ''%'') then kbind (KrdwtpOutCharacter_NoSpin k s) (\<lambda>s1. FormatLoop f mem rest' args (nwritten + 1) s1)
                    else if k = ch (CHR ''R'') then
                      (case rest' of
                         [] \<Rightarrow> Inr (- 1, s)
                       | k' # rest'' \<Rightarrow>
                           (case OutConversionR k' args of
                              None \<Rightarrow> Inr (- 1, s)
                            | Some r \<Rightarrow> kbind r (\<lambda>(bs, args'). kbind (KrdwtpOutText_NoSpin bs s) (\<lambda>(n, s1). FormatLoop f mem rest'' args' (nwritten + n) s1))))
                    else
                      (case OutConversion f mem k args of
                         None \<Rightarrow> Inr (- 1, s)
                       | Some r \<Rightarrow> kbind r (\<lambda>(bs, args'). kbind (KrdwtpOutText_NoSpin bs s) (\<lambda>(n, s1). FormatLoop f mem rest' args' (nwritten + n) s1)))))"
  by pat_completeness auto
termination by (relation "measure (\<lambda>(f, mem, fmt, args, n, s). List.length fmt)") auto

declare FormatLoop.simps [simp del]

definition KrdwtpOutFormatTextVariadic :: "nat \<Rightarrow> memory \<Rightarrow> CCHAR list \<Rightarrow> QWORD list \<Rightarrow> dwtp \<Rightarrow> (int \<times> dwtp) kres" where
  "KrdwtpOutFormatTextVariadic f mem pFmt args = locked (FormatLoop f mem pFmt args 0)"

definition KrdwtpOutFormatText :: "nat \<Rightarrow> memory \<Rightarrow> CCHAR list \<Rightarrow> QWORD list \<Rightarrow> dwtp \<Rightarrow> (int \<times> dwtp) kres" where
  "KrdwtpOutFormatText f mem pFmt args = KrdwtpOutFormatTextVariadic f mem pFmt args"

end
