(* ===== verification/DisplayCells.thy ===== *)
theory DisplayCells
  imports Display
begin

text \<open>
  Which pixels a character touches: drawing a glyph is a list of writes to both frame buffers, and on a screen whose
  geometry fits 32 bits those writes hit exactly the cell at the cursor.
\<close>

section \<open>Painting\<close>

definition paint :: "(nat \<times> DWORD) list \<Rightarrow> pixels \<Rightarrow> pixels" where
  "paint ws m = foldl (\<lambda>m (i, c). m(i := c)) m ws"

definition paint_both :: "(nat \<times> DWORD) list \<Rightarrow> dwtp \<Rightarrow> dwtp" where
  "paint_both ws s = s\<lparr> vram := paint ws (vram s), ramfb := paint ws (ramfb s) \<rparr>"

definition frame :: "dwtp \<Rightarrow> dwtp" where
  "frame s = s\<lparr> vram := \<lambda>_. 0, ramfb := \<lambda>_. 0 \<rparr>"

lemma paint_simps [simp]: "paint [] m = m" "paint (w # ws) m = paint ws (m(fst w := snd w))" "paint (ws @ ws') m = paint ws' (paint ws m)"
  by (simp_all add: paint_def case_prod_unfold)

lemma paint_both_simps [simp]: "paint_both [] s = s" "paint_both (ws @ ws') s = paint_both ws' (paint_both ws s)" "frame (paint_both ws s) = frame s"
  by (simp_all add: paint_both_def frame_def)

lemma frame_eq_iff: "frame s = frame t \<longleftrightarrow> FrameBufferSize s = FrameBufferSize t \<and> FrameBufferWidth s = FrameBufferWidth t \<and> FrameBufferHeight s = FrameBufferHeight t \<and>
    PixelsPerScanLine s = PixelsPerScanLine t \<and> CursorX s = CursorX t \<and> CursorY s = CursorY t \<and> AddrFrameBuffer s = AddrFrameBuffer t \<and>
    AddrRamFrameBuffer s = AddrRamFrameBuffer t \<and> BytesPerPixel s = BytesPerPixel t \<and> Font s = Font t \<and> bUppercaseMode s = bUppercaseMode t \<and>
    sg_DwtpSpinlock s = sg_DwtpSpinlock t \<and> dwMeltdown s = dwMeltdown t"
  by (cases s; cases t) (simp add: frame_def)

lemma each_paint:
  assumes "\<And>x t. x \<in> set xs \<Longrightarrow> frame t = frame s \<Longrightarrow> g x t = Inr (paint_both (V x) t)"
  shows "each g xs s = Inr (paint_both (concat (map V xs)) s)"
proof -
  have "each g ys t = Inr (paint_both (concat (map V ys)) t)" if "set ys \<subseteq> set xs" "frame t = frame s" for ys t
    using that by (induction ys arbitrary: t) (simp_all add: assms)
  then show ?thesis by blast
qed

lemma paint_value:
  assumes "\<And>w. w \<in> set ws \<Longrightarrow> snd w = C (fst w)"
  shows "paint ws m i = (if i \<in> fst ` set ws then C i else m i)"
  using assms by (induction ws arbitrary: m) auto

lemma put_pixel_paint:
  assumes "AddrFrameBuffer t \<noteq> 0" "AddrRamFrameBuffer t \<noteq> 0"
  shows "put_pixel i c t = Inr (paint_both [(unat i, c)] t)"
  using assms by (simp add: put_pixel_def paint_both_def)

section \<open>A screen\<close>

text \<open>The number of columns and rows of text, and a screen whose pixels can be numbered in 32 bits.\<close>

abbreviation fscale :: "dwtp \<Rightarrow> nat" where "fscale s \<equiv> unat (ScaleFactor (Font s))"
abbreviation frows :: "dwtp \<Rightarrow> nat" where "frows s \<equiv> unat (RowsPerEntry (Font s))"

definition screen_columns :: "dwtp \<Rightarrow> nat" where
  "screen_columns s = unat (FrameBufferWidth s) div (8 * fscale s)"

definition screen_rows :: "dwtp \<Rightarrow> nat" where
  "screen_rows s = unat (FrameBufferHeight s) div (frows s * fscale s)"

definition screen_fits :: "dwtp \<Rightarrow> bool" where
  "screen_fits s \<longleftrightarrow> AddrFrameBuffer s \<noteq> 0 \<and> AddrRamFrameBuffer s \<noteq> 0 \<and> BytesPerPixel s = 4 \<and>
     NumberOfEntries (Font s) = 0 \<and> ColumnsPerEntry (Font s) = 8 \<and> 0 < frows s \<and> 0 < fscale s \<and>
     (case CharacterSet (Font s) of None \<Rightarrow> False | Some cs \<Rightarrow> List.length cs = 128 * frows s) \<and>
     8 * fscale s \<le> unat (FrameBufferWidth s) \<and> FrameBufferWidth s \<le> PixelsPerScanLine s \<and>
     (unat (FrameBufferHeight s) + frows s * fscale s) * unat (PixelsPerScanLine s) * 4 < 2 ^ 32"

definition screen_ok :: "dwtp \<Rightarrow> bool" where
  "screen_ok s \<longleftrightarrow> screen_fits s \<and> unat (CursorX s) < screen_columns s \<and> unat (CursorY s) \<le> screen_rows s"

definition glyph_lit :: "KrDisplaywideTextProtocolFont \<Rightarrow> nat \<Rightarrow> nat \<Rightarrow> nat \<Rightarrow> bool" where
  "glyph_lit fnt c row col = bit (the (CharacterSet fnt) ! (c * unat (RowsPerEntry fnt) + row)) (if bDirectionBit fnt then 7 - col else col)"

lemma glyph_bit_lit:
  assumes "CharacterSet fnt = Some cs" "List.length cs = 128 * unat (RowsPerEntry fnt)" "ColumnsPerEntry fnt = 8"
    and "row < unat (RowsPerEntry fnt)" "col < 8" "c < 128"
  shows "glyph_bit fnt cs (of_nat c * (ucast (RowsPerEntry fnt) * ((ucast (ColumnsPerEntry fnt) + 7) div 8))) (of_nat row) (of_nat col) = Inr (glyph_lit fnt c row col)"
proof -
  have R: "unat (RowsPerEntry fnt) < 256" using unat_lt_exp [of "RowsPerEntry fnt"] by simp
  have b: "(ucast (ColumnsPerEntry fnt) + 7) div 8 = (1 :: UINT)" using assms(3) by simp
  have i: "unat (of_nat c * (ucast (RowsPerEntry fnt) * 1) :: UINT) = c * unat (RowsPerEntry fnt)"
  proof -
    have "c * unat (RowsPerEntry fnt) < 128 * 256" using assms(6) R by (intro mult_strict_mono) auto
    moreover have "unat (of_nat c :: UINT) = c" using assms(6) by (intro unat_of_nat_small) simp
    ultimately show ?thesis by (simp add: unat_word_ariths unat_ucast_up)
  qed
  have r: "unat (of_nat row * 1 :: UINT) = row" using assms(4) R by (simp add: unat_of_nat_small)
  have "(c + 1) * unat (RowsPerEntry fnt) \<le> 128 * unat (RowsPerEntry fnt)" using assms(6) by (intro mult_le_mono1) simp
  then have len: "c * unat (RowsPerEntry fnt) + row < List.length cs" unfolding add_mult_distrib using assms(2,4) by linarith
  have colu: "unat (of_nat col :: BYTE) = col" using assms(5) by (simp add: unat_of_nat_small)
  then have col: "of_nat col mod 8 = (of_nat col :: BYTE)" "unat (of_nat col :: BYTE) div 8 = 0" 
    using assms(5) by (simp_all add: word_unat_eq_iff unat_mod)
  have d: "unat (7 - of_nat col :: BYTE) = 7 - col" using assms(5) colu by (simp add: unat_sub word_le_nat_alt)
  have "7 - col < 32" "col < 32" using assms(5) by auto
  then show ?thesis
    using len col colu d by (simp add: glyph_bit_def b i [simplified] r [simplified] glyph_lit_def assms(1) Let_def word_le_nat_alt not_le)
qed


section \<open>The cell of a character\<close>

text \<open>The pixels of the cell at a column and a row of text, and the color a glyph gives each of them.\<close>

definition in_cell :: "dwtp \<Rightarrow> nat \<Rightarrow> bool" where
  "in_cell s i \<longleftrightarrow> i mod unat (PixelsPerScanLine s) div (8 * fscale s) = unat (CursorX s) \<and>
                   i div unat (PixelsPerScanLine s) div (frows s * fscale s) = unat (CursorY s)"

definition glyph_color :: "dwtp \<Rightarrow> nat \<Rightarrow> DWORD \<Rightarrow> DWORD \<Rightarrow> nat \<Rightarrow> DWORD" where
  "glyph_color s c fg bg i =
     (let x = i mod unat (PixelsPerScanLine s); y = i div unat (PixelsPerScanLine s)
      in if glyph_lit (Font s) c (y div fscale s mod frows s) (x div fscale s mod 8) then fg
         else if dwMeltdown s then KRDWTP_COLOR_DARK_PURPLE else bg)"

lemma three_digits:
  fixes q r t :: nat
  assumes "r < n" "t < k"
  shows "(q * n * k + r * k + t) div (n * k) = q" "(q * n * k + r * k + t) div k mod n = r"
proof -
  have "(q * n * k + r * k + t) div k = q * n + r"
    using assms(2) by (metis add.assoc add_mult_distrib div_mult_self3 add.commute add_0 div_less not_less_zero)
  then show "(q * n * k + r * k + t) div k mod n = r" "(q * n * k + r * k + t) div (n * k) = q"
    using assms(1) by (simp_all add: mult.commute [of n k] div_mult2_eq)
qed

lemma three_digits_conv:
  fixes x :: nat
  shows "x = x div (n * k) * n * k + (x div k mod n) * k + x mod k"
  by (metis (no_types, lifting) add_mult_distrib div_mult2_eq div_mult_mod_eq mult.commute)

lemma three_digits_less:
  fixes q r t :: nat
  assumes "q < Q" "r < n" "t < k"
  shows "q * n * k + r * k + t < Q * (n * k)"
proof -
  have "r * k + t < n * k" proof -
    have "(r + 1) * k \<le> n * k" using assms(2) by (intro mult_le_mono1) simp
    then show ?thesis using assms(3) unfolding add_mult_distrib by linarith
  qed
  moreover have "q * (n * k) + n * k \<le> Q * (n * k)" using assms(1) by (metis add.commute mult_Suc mult_le_mono1 Suc_leI)
  ultimately show ?thesis by (simp add: mult.assoc)
qed


abbreviation cell_x :: "dwtp \<Rightarrow> nat \<Rightarrow> nat \<Rightarrow> nat" where
  "cell_x s b sx \<equiv> unat (CursorX s) * 8 * fscale s + b * fscale s + sx"

abbreviation cell_y :: "dwtp \<Rightarrow> nat \<Rightarrow> nat \<Rightarrow> nat" where
  "cell_y s r sy \<equiv> unat (CursorY s) * frows s * fscale s + r * fscale s + sy"

abbreviation pitch :: "dwtp \<Rightarrow> nat" where "pitch s \<equiv> unat (PixelsPerScanLine s)"

lemma cell_x_less:
  assumes "screen_ok s" "b < 8" "sx < fscale s"
  shows "cell_x s b sx < pitch s"
proof -
  have "cell_x s b sx < screen_columns s * (8 * fscale s)" using assms by (intro three_digits_less) (auto simp: screen_ok_def)
  also have "\<dots> \<le> unat (FrameBufferWidth s)" by (simp add: screen_columns_def)
  also have "\<dots> \<le> pitch s" using assms(1) by (simp add: screen_ok_def screen_fits_def word_le_nat_alt)
  finally show ?thesis .
qed

lemma cell_index_less:
  assumes "screen_ok s" "r < frows s" "sy < fscale s" "b < 8" "sx < fscale s"
  shows "cell_y s r sy * pitch s + cell_x s b sx < 2 ^ 30"
proof -
  have "cell_y s r sy < (screen_rows s + 1) * (frows s * fscale s)"
    using assms by (intro three_digits_less) (auto simp: screen_ok_def)
  also have "\<dots> \<le> unat (FrameBufferHeight s) + frows s * fscale s" by (simp add: screen_rows_def)
  finally have "cell_y s r sy + 1 \<le> unat (FrameBufferHeight s) + frows s * fscale s" by simp
  then have "(cell_y s r sy + 1) * pitch s \<le> (unat (FrameBufferHeight s) + frows s * fscale s) * pitch s" by (rule mult_le_mono1)
  moreover have "(unat (FrameBufferHeight s) + frows s * fscale s) * pitch s * 4 < 2 ^ 32"
    using assms(1) by (simp add: screen_ok_def screen_fits_def)
  moreover note cell_x_less [OF assms(1,4,5)]
  moreover have "(cell_y s r sy + 1) * pitch s = cell_y s r sy * pitch s + pitch s" by simp
  moreover have "(2::nat) ^ 32 = 4 * 2 ^ 30" by simp
  ultimately show ?thesis by linarith
qed

lemma cell_pixel_index:
  assumes "screen_ok s" "r < frows s" "sy < fscale s" "b < 8" "sx < fscale s"
  shows "unat (pixel_index s (CursorX s * ucast (ColumnsPerEntry (Font s)) * ScaleFactor (Font s) + of_nat b * ScaleFactor (Font s) + of_nat sx)
                (CursorY s * ucast (RowsPerEntry (Font s)) * ScaleFactor (Font s) + of_nat r * ScaleFactor (Font s) + of_nat sy)) =
         cell_y s r sy * pitch s + cell_x s b sx"
proof -
  have c: "ucast (ColumnsPerEntry (Font s)) = (of_nat 8 :: UINT)" using assms(1) by (simp add: screen_ok_def screen_fits_def)
  have u: "ucast (RowsPerEntry (Font s)) = (of_nat (frows s) :: UINT)" by simp
  have "pixel_index s (CursorX s * ucast (ColumnsPerEntry (Font s)) * ScaleFactor (Font s) + of_nat b * ScaleFactor (Font s) + of_nat sx)
                (CursorY s * ucast (RowsPerEntry (Font s)) * ScaleFactor (Font s) + of_nat r * ScaleFactor (Font s) + of_nat sy) =
        of_nat (cell_y s r sy * pitch s + cell_x s b sx)"
    unfolding pixel_index_def c u of_nat_add of_nat_mult by simp
  moreover have "cell_y s r sy * pitch s + cell_x s b sx < 2 ^ LENGTH(32)" using cell_index_less [OF assms] by simp
  ultimately show ?thesis by (simp only: unat_of_nat_small)
qed

lemma in_cell_iff:
  assumes "screen_ok s"
  shows "in_cell s i \<longleftrightarrow> (\<exists>r < frows s. \<exists>b < 8. \<exists>sy < fscale s. \<exists>sx < fscale s. i = cell_y s r sy * pitch s + cell_x s b sx)"
proof
  have pos: "0 < frows s" "0 < fscale s" using assms by (simp_all add: screen_ok_def screen_fits_def)
  assume "in_cell s i"
  then have "i mod pitch s = cell_x s (i mod pitch s div fscale s mod 8) (i mod pitch s mod fscale s)"
    and "i div pitch s = cell_y s (i div pitch s div fscale s mod frows s) (i div pitch s mod fscale s)"
    unfolding in_cell_def by (metis three_digits_conv)+
  then have "i = cell_y s (i div pitch s div fscale s mod frows s) (i div pitch s mod fscale s) * pitch s +
                 cell_x s (i mod pitch s div fscale s mod 8) (i mod pitch s mod fscale s)"
    by (metis div_mult_mod_eq)
  then show "\<exists>r < frows s. \<exists>b < 8. \<exists>sy < fscale s. \<exists>sx < fscale s. i = cell_y s r sy * pitch s + cell_x s b sx"
    using pos by (meson mod_less_divisor zero_less_numeral)
next
  assume "\<exists>r < frows s. \<exists>b < 8. \<exists>sy < fscale s. \<exists>sx < fscale s. i = cell_y s r sy * pitch s + cell_x s b sx"
  then obtain r b sy sx where *: "r < frows s" "b < 8" "sy < fscale s" "sx < fscale s" "i = cell_y s r sy * pitch s + cell_x s b sx" by blast
  have "i mod pitch s = cell_x s b sx" "i div pitch s = cell_y s r sy" using cell_x_less [OF assms *(2,4)] unfolding *(5) by auto
  then show "in_cell s i" using three_digits(1) [OF *(2,4)] three_digits(1) [OF *(1,3)] by (simp add: in_cell_def)
qed

lemma glyph_color_cell:
  assumes "screen_ok s" "r < frows s" "sy < fscale s" "b < 8" "sx < fscale s"
  shows "glyph_color s c fg bg (cell_y s r sy * pitch s + cell_x s b sx) =
         (if glyph_lit (Font s) c r b then fg else if dwMeltdown s then KRDWTP_COLOR_DARK_PURPLE else bg)"
proof -
  have "(cell_y s r sy * pitch s + cell_x s b sx) mod pitch s = cell_x s b sx"
    "(cell_y s r sy * pitch s + cell_x s b sx) div pitch s = cell_y s r sy" using cell_x_less [OF assms(1,4,5)] by auto
  then show ?thesis using three_digits(2) [OF assms(4,5)] three_digits(2) [OF assms(2,3)] by (simp add: glyph_color_def Let_def)
qed


section \<open>Drawing\<close>

definition cell_writes :: "dwtp \<Rightarrow> nat \<Rightarrow> DWORD \<Rightarrow> DWORD \<Rightarrow> (nat \<times> DWORD) list" where
  "cell_writes s c fg bg =
     concat (map (\<lambda>r. concat (map (\<lambda>b. concat (map (\<lambda>sy. concat (map (\<lambda>sx.
       [(cell_y s r sy * pitch s + cell_x s b sx,
         if glyph_lit (Font s) c r b then fg else if dwMeltdown s then KRDWTP_COLOR_DARK_PURPLE else bg)])
       [0..<fscale s])) [0..<fscale s])) [0..<8])) [0..<frows s])"

lemma cell_writes_color:
  assumes "screen_ok s" "w \<in> set (cell_writes s c fg bg)"
  shows "snd w = glyph_color s c fg bg (fst w)"
  using assms by (auto simp: cell_writes_def glyph_color_cell)

lemma cell_writes_cell:
  assumes "screen_ok s"
  shows "i \<in> fst ` set (cell_writes s c fg bg) \<longleftrightarrow> in_cell s i"
proof -
  have "fst ` set (cell_writes s c fg bg) = (\<Union>r<frows s. \<Union>b<8. \<Union>sy<fscale s. (\<lambda>sx. cell_y s r sy * pitch s + cell_x s b sx) ` {..<fscale s})"
    by (simp add: cell_writes_def image_UN image_image atLeast0LessThan)
  then show ?thesis unfolding in_cell_iff [OF assms] by (simp only: UN_iff image_iff Bex_def lessThan_iff)
qed

lemma paint_cell:
  assumes "screen_ok s"
  shows "paint (cell_writes s c fg bg) m = (\<lambda>i. if in_cell s i then glyph_color s c fg bg i else m i)"
  using paint_value [OF cell_writes_color [OF assms]] by (auto simp: cell_writes_cell [OF assms])

lemma scast_ascii: "unat (c :: CCHAR) < 128 \<Longrightarrow> scast c = (of_nat (unat c) :: UINT)"
  using sint_of_nat_small [of "unat c", where 'a = 8] by (simp add: scast_eq)

lemma draw_glyph_writes:
  assumes "screen_ok s" "CharacterSet (Font s) = Some cs" "unat Ch < 128"
  shows "draw_glyph cs Ch fg bg s = Inr (paint_both (cell_writes s (unat Ch) fg bg) s)"
proof -
  have cs: "List.length cs = 128 * frows s" "ColumnsPerEntry (Font s) = 8" "unat (ColumnsPerEntry (Font s)) = 8"
    "AddrFrameBuffer s \<noteq> 0" "AddrRamFrameBuffer s \<noteq> 0"
    using assms(1,2) by (simp_all add: screen_ok_def screen_fits_def)
  note g = glyph_bit_lit [OF assms(2) cs(1,2) _ _ assms(3)]
  show ?thesis
    unfolding draw_glyph_def Let_def cell_writes_def cs(3) scast_ascii [OF assms(3)]
  proof (rule each_paint, goal_cases)
    case (1 r t)
    then have r: "r < frows s" by simp
    show ?case
    proof (rule each_paint, goal_cases)
      case (1 b u)
      then have b: "b < 8" "frame u = frame s" using \<open>frame t = frame s\<close> by simp_all
      show ?case
        unfolding g [OF r b(1)] kbind_Inr
      proof (rule each_paint, goal_cases)
        case (1 sy v)
        then have y: "sy < fscale s" "frame v = frame s" using b(2) by simp_all
        show ?case
        proof (rule each_paint, goal_cases)
          case (1 sx w)
          then have x: "sx < fscale s" and "frame w = frame s" using y(2) by simp_all
          then have w: "pixel_index w = pixel_index s" "dwMeltdown w = dwMeltdown s"
            "AddrFrameBuffer w \<noteq> 0" "AddrRamFrameBuffer w \<noteq> 0"
            using cs(4,5) by (simp_all add: frame_eq_iff pixel_index_def fun_eq_iff)
          show ?case by (simp add: put_pixel_paint w cell_pixel_index [OF assms(1) r y(1) b(1) x])
        qed
      qed
    qed
  qed
qed

end
