(* ===== verification/DisplayText.thy ===== *)
theory DisplayText
  imports DisplayCells
begin

text \<open>
  The cursor, the lock and the rows: what a character, a text and a formatted text leave on the screen, when they wait
  for ever, and what scrolling moves.
\<close>

section \<open>The cursor\<close>

lemma screen_okD:
  assumes "screen_ok s"
  shows "0 < frows s" "0 < fscale s" "ColumnsPerEntry (Font s) = 8" "NumberOfEntries (Font s) = 0" "BytesPerPixel s = 4"
    "AddrFrameBuffer s \<noteq> 0" "AddrRamFrameBuffer s \<noteq> 0" "CharacterSet (Font s) \<noteq> None" "8 \<le> pitch s"
    "unat (CursorX s) < screen_columns s" "unat (CursorY s) \<le> screen_rows s"
    "(unat (FrameBufferHeight s) + frows s * fscale s) * pitch s * 4 < 2 ^ 32"
proof -
  have f: "screen_fits s" using assms by (simp add: screen_ok_def)
  then show "0 < frows s" "0 < fscale s" "ColumnsPerEntry (Font s) = 8" "NumberOfEntries (Font s) = 0" "BytesPerPixel s = 4"
    "AddrFrameBuffer s \<noteq> 0" "AddrRamFrameBuffer s \<noteq> 0" "CharacterSet (Font s) \<noteq> None"
    "(unat (FrameBufferHeight s) + frows s * fscale s) * pitch s * 4 < 2 ^ 32"
    by (auto simp: screen_fits_def split: option.splits)
  have "8 * 1 \<le> 8 * fscale s" using f by (intro mult_le_mono2) (simp add: screen_fits_def)
  then show "8 \<le> pitch s" using f unfolding screen_fits_def word_le_nat_alt by linarith
  show "unat (CursorX s) < screen_columns s" "unat (CursorY s) \<le> screen_rows s" using assms by (simp_all add: screen_ok_def)
qed

lemma screen_height:
  assumes "screen_ok s"
  shows "unat (FrameBufferHeight s) + frows s * fscale s < 2 ^ 27" "frows s * fscale s < 2 ^ 27" "screen_rows s < 2 ^ 27"
proof -
  note d = screen_okD [OF assms]
  have "(unat (FrameBufferHeight s) + frows s * fscale s) * 8 \<le> (unat (FrameBufferHeight s) + frows s * fscale s) * pitch s"
    using d(9) by (rule mult_le_mono2)
  then show h: "unat (FrameBufferHeight s) + frows s * fscale s < 2 ^ 27"
    using le_less_trans [OF mult_le_mono1 [of _ _ 4] d(12)] by fastforce
  then show "frows s * fscale s < 2 ^ 27" by simp
  have "screen_rows s \<le> unat (FrameBufferHeight s)" by (simp add: screen_rows_def)
  then show "screen_rows s < 2 ^ 27" using h by simp
qed

lemma entry_size_nat:
  assumes "screen_ok s"
  shows "unat (entry_size s) = frows s * fscale s"
proof -
  have "entry_size s = of_nat (frows s * fscale s)" by (simp add: entry_size_def)
  moreover have "frows s * fscale s < 2 ^ LENGTH(32)" using screen_height(2) [OF assms] by simp
  ultimately show ?thesis by (simp only: unat_of_nat_small)
qed

lemma columns_nat:
  assumes "screen_ok s"
  shows "ucast (ColumnsPerEntry (Font s)) * ScaleFactor (Font s) \<noteq> (0 :: UINT)"
    "unat (FrameBufferWidth s div (ucast (ColumnsPerEntry (Font s)) * ScaleFactor (Font s))) = screen_columns s"
proof -
  have "8 * fscale s \<le> unat (FrameBufferWidth s)" using assms by (simp add: screen_ok_def screen_fits_def)
  then have "8 * fscale s < 2 ^ 32" using unat_lt_exp [of "FrameBufferWidth s"] by simp
  moreover have e: "ucast (ColumnsPerEntry (Font s)) * ScaleFactor (Font s) = (of_nat (8 * fscale s) :: UINT)"
    using screen_okD(3) [OF assms] by simp
  ultimately have u: "unat (ucast (ColumnsPerEntry (Font s)) * ScaleFactor (Font s) :: UINT) = 8 * fscale s"
    unfolding e by (intro unat_of_nat_small) simp
  then show "ucast (ColumnsPerEntry (Font s)) * ScaleFactor (Font s) \<noteq> (0 :: UINT)" using screen_okD(2) [OF assms] by auto
  show "unat (FrameBufferWidth s div (ucast (ColumnsPerEntry (Font s)) * ScaleFactor (Font s))) = screen_columns s"
    by (simp add: unat_div u screen_columns_def)
qed

lemma cursor_succ:
  assumes "screen_ok s"
  shows "unat (CursorX s + 1) = unat (CursorX s) + 1" "unat (CursorY s + 1) = unat (CursorY s) + 1"
proof -
  have "screen_columns s \<le> unat (FrameBufferWidth s)" by (simp add: screen_columns_def)
  then have "unat (CursorX s) + 1 < 2 ^ 32" using screen_okD(10) [OF assms] unat_lt_exp [of "FrameBufferWidth s"] by simp
  then show "unat (CursorX s + 1) = unat (CursorX s) + 1" by (simp add: unat_word_ariths)
  have "unat (CursorY s) + 1 < 2 ^ 32" using screen_okD(11) [OF assms] screen_height(3) [OF assms] by simp
  then show "unat (CursorY s + 1) = unat (CursorY s) + 1" by (simp add: unat_word_ariths)
qed

lemma line_full:
  assumes "screen_ok s"
  shows "FrameBufferWidth s div (ucast (ColumnsPerEntry (Font s)) * ScaleFactor (Font s)) \<le> CursorX s + 1 \<longleftrightarrow>
         \<not> unat (CursorX s) + 1 < screen_columns s"
  using columns_nat(2) [OF assms] cursor_succ(1) [OF assms] by (auto simp: word_le_nat_alt)

lemma frame_screen_ok: "frame s = frame t \<Longrightarrow> screen_ok s = screen_ok t"
  by (simp add: frame_eq_iff screen_ok_def screen_fits_def screen_columns_def screen_rows_def split: option.split)

lemma next_row_eq:
  assumes "screen_ok s"
  shows "next_row scroll (s\<lparr> CursorX := x \<rparr>) =
     (if unat (CursorY s) < screen_rows s then Inr (s\<lparr> CursorX := 0, CursorY := CursorY s + 1 \<rparr>)
      else scroll (s\<lparr> CursorX := 0, CursorY := CursorY s + 1 \<rparr>))"
proof -
  have "entry_size s \<noteq> 0" using entry_size_nat [OF assms] screen_okD(1,2) [OF assms] by auto
  moreover have "entry_size (s\<lparr> CursorX := 0, CursorY := CursorY s + 1 \<rparr>) = entry_size s" by (simp add: entry_size_def)
  moreover have "CursorY s + 1 > FrameBufferHeight s div entry_size s \<longleftrightarrow> \<not> unat (CursorY s) < screen_rows s"
    using cursor_succ(2) [OF assms] by (auto simp: word_less_nat_alt unat_div entry_size_nat [OF assms] screen_rows_def)
  ultimately show ?thesis by (simp add: next_row_def Let_def)
qed

text \<open>The character that is drawn for one that is given.\<close>

definition shown :: "dwtp \<Rightarrow> CCHAR \<Rightarrow> nat" where
  "shown s Ch = (if bUppercaseMode s \<and> 97 \<le> unat Ch \<and> unat Ch \<le> 122 then unat Ch - 32 else unat Ch)"

definition draw :: "CCHAR \<Rightarrow> DWORD \<Rightarrow> DWORD \<Rightarrow> dwtp \<Rightarrow> dwtp" where
  "draw Ch fg bg s = paint_both (cell_writes s (shown s Ch) fg bg) s"

lemma character_step:
  assumes "screen_ok s" "0 < unat Ch" "unat Ch < 128" "Ch \<noteq> ch (CHR 0x0A)"
  shows "KrdwtpOutColoredCharacter_NoSpin Ch fg bg s =
     (if unat (CursorX s) + 1 < screen_columns s then Inr ((draw Ch fg bg s)\<lparr> CursorX := CursorX s + 1 \<rparr>)
      else if unat (CursorY s) < screen_rows s then Inr ((draw Ch fg bg s)\<lparr> CursorX := 0, CursorY := CursorY s + 1 \<rparr>)
      else kbind (KrdwtpScroll ((draw Ch fg bg s)\<lparr> CursorX := 0, CursorY := CursorY s + 1 \<rparr>)) (\<lambda>(_, s). Inr s))"
proof -
  obtain cs where cs: "CharacterSet (Font s) = Some cs" using screen_okD(8) [OF assms(1)] by blast
  let ?C = "if bUppercaseMode s \<and> sint Ch \<ge> sint (ch (CHR ''a'')) \<and> sint Ch \<le> sint (ch (CHR ''z'')) then Ch - 32 else Ch"
  have si: "sint Ch = int (unat Ch)" using sint_of_nat_small [of "unat Ch", where 'a = 8] assms(3) by simp
  have "unat (Ch - 32) = unat Ch - 32" if "97 \<le> unat Ch" using that by (simp add: unat_sub word_le_nat_alt)
  then have C: "unat ?C = shown s Ch" by (auto simp: shown_def si ch_def simp del: of_nat_unat)
  have d: "draw_glyph cs ?C fg bg s = Inr (draw Ch fg bg s)"
    unfolding draw_def C [symmetric] using assms(3) by (intro draw_glyph_writes assms(1) cs) (simp add: C shown_def less_imp_diff_less)
  have "unat (scast Ch :: UINT) = unat Ch" unfolding scast_ascii [OF assms(3)] using assms(3) by (intro unat_of_nat_small) simp
  then have "scast Ch \<noteq> (0 :: UINT)" using assms(2) by auto
  then have n: "\<not> NumberOfEntries (Font s) \<ge> scast Ch" by (simp add: screen_okD(4) [OF assms(1)])
  have fr: "frame (draw Ch fg bg s) = frame s" by (simp add: draw_def)
  then have ok: "screen_ok (draw Ch fg bg s)" using assms(1) frame_screen_ok by blast
  have eq: "CursorX (draw Ch fg bg s) = CursorX s" "CursorY (draw Ch fg bg s) = CursorY s"
    "FrameBufferWidth (draw Ch fg bg s) = FrameBufferWidth s" "screen_rows (draw Ch fg bg s) = screen_rows s"
    using fr by (simp_all add: frame_eq_iff screen_rows_def)
  show ?thesis
    unfolding KrdwtpOutColoredCharacter_NoSpin_def Let_def
    using next_row_eq [OF ok] columns_nat(1) [OF assms(1)] line_full [OF assms(1)] n
    by (simp add: cs screen_okD(6) [OF assms(1)] assms(4) d eq)
qed


text \<open>What the buffers hold after a character.\<close>

lemma draw_pixels:
  assumes "screen_ok s"
  shows "vram (draw Ch fg bg s) = (\<lambda>i. if in_cell s i then glyph_color s (shown s Ch) fg bg i else vram s i)"
    "ramfb (draw Ch fg bg s) = (\<lambda>i. if in_cell s i then glyph_color s (shown s Ch) fg bg i else ramfb s i)"
  by (simp_all add: draw_def paint_both_def paint_cell [OF assms])

lemma draw_keeps: "frame (draw Ch fg bg s) = frame s"
  by (simp add: draw_def)

lemma null_ignored: "screen_ok s \<Longrightarrow> KrdwtpOutColoredCharacter_NoSpin 0 fg bg s = Inr s"
  by (simp add: KrdwtpOutColoredCharacter_NoSpin_def screen_okD split: option.splits)

lemma newline_step:
  assumes "screen_ok s"
  shows "KrdwtpOutColoredCharacter_NoSpin (ch (CHR 0x0A)) fg bg s =
     (let s1 = s\<lparr> CursorX := 0, CursorY := CursorY s + 1 \<rparr>
      in Inr (if unat (CursorY s) < screen_rows s then s1 else KrdwtpScroll_NoSpin s1))"
proof -
  have "next_row (\<lambda>s. Inr (KrdwtpScroll_NoSpin s)) s = next_row (\<lambda>s. Inr (KrdwtpScroll_NoSpin s)) (s\<lparr> CursorX := CursorX s \<rparr>)" by simp
  then show ?thesis
    using screen_okD(6,8,4) [OF assms] unfolding next_row_eq [OF assms]
    by (auto simp: KrdwtpOutColoredCharacter_NoSpin_def ch_def Let_def)
qed

lemma scroll_cursor:
  "CursorY s \<noteq> 0 \<Longrightarrow> frame (KrdwtpScroll_NoSpin s) = (frame s)\<lparr> CursorY := CursorY s - 1, CursorX := 0 \<rparr>"
  by (simp add: KrdwtpScroll_NoSpin_def DwtpReplicateRamFrbufToVram_def Let_def frame_def)

lemma screen_ok_cursor:
  "screen_ok s \<Longrightarrow> screen_ok (s\<lparr> CursorX := x, CursorY := y \<rparr>) \<longleftrightarrow> unat x < screen_columns s \<and> unat y \<le> screen_rows s"
  by (auto simp: screen_ok_def screen_fits_def screen_columns_def screen_rows_def split: option.splits)

lemma columns_pos: "screen_ok s \<Longrightarrow> 0 < screen_columns s"
  using screen_okD(10) by fastforce

section \<open>The screen stays well formed\<close>

lemma put_pixel_frame: "put_pixel i c s = Inr t \<Longrightarrow> frame t = frame s"
  by (auto simp: put_pixel_def frame_def split: if_splits)

lemma each_frame:
  assumes "\<And>x t u. g x t = Inr u \<Longrightarrow> frame u = frame t"
  shows "each g xs s = Inr u \<Longrightarrow> frame u = frame s"
proof (induction xs arbitrary: s)
  case (Cons x xs)
  then show ?case using assms by (cases "g x s") auto
qed simp

lemma draw_glyph_frame: "draw_glyph cs Ch fg bg s = Inr t \<Longrightarrow> frame t = frame s"
  unfolding draw_glyph_def Let_def
  by (erule each_frame [rotated], erule each_frame [rotated], drule kbind_eq_Inr [THEN iffD1], elim exE conjE,
      erule each_frame [rotated], erule each_frame [rotated], erule put_pixel_frame)


lemma KrdwtpScroll_taken [simp]: "sg_DwtpSpinlock s = 1 \<Longrightarrow> KrdwtpScroll s = Inl Deadlock"
  by (simp add: KrdwtpScroll_def locked_def)

definition printing :: "dwtp \<Rightarrow> bool" where
  "printing s \<longleftrightarrow> screen_ok s \<and> sg_DwtpSpinlock s = 1"

lemma printing_frame: "frame t = frame s \<Longrightarrow> printing t = printing s"
  unfolding printing_def using frame_screen_ok [of t s] by (simp add: frame_eq_iff)

lemma printing_cursor:
  "printing s \<Longrightarrow> unat x < screen_columns s \<Longrightarrow> unat y \<le> screen_rows s \<Longrightarrow> printing (s\<lparr> CursorX := x, CursorY := y \<rparr>)"
  by (simp add: printing_def screen_ok_cursor)

lemma next_row_keeps:
  assumes "printing s" "next_row scroll (s\<lparr> CursorX := x \<rparr>) = Inr t"
    and "\<And>u v. scroll u = Inr v \<Longrightarrow> sg_DwtpSpinlock u = 1 \<Longrightarrow> CursorY u \<noteq> 0 \<Longrightarrow> frame v = (frame u)\<lparr> CursorY := CursorY u - 1, CursorX := 0 \<rparr>"
  shows "printing t"
proof -
  have ok: "screen_ok s" "sg_DwtpSpinlock s = 1" using assms(1) by (simp_all add: printing_def)
  let ?s = "s\<lparr> CursorX := 0, CursorY := CursorY s + 1 \<rparr>"
  show ?thesis
  proof (cases "unat (CursorY s) < screen_rows s")
    case True
    then have "t = ?s" using assms(2) unfolding next_row_eq [OF ok(1)] by simp
    then show ?thesis using True printing_cursor [OF assms(1)] columns_pos [OF ok(1)] cursor_succ(2) [OF ok(1)] by simp
  next
    case False
    then have s: "scroll ?s = Inr t" using assms(2) unfolding next_row_eq [OF ok(1)] by simp
    have "CursorY ?s \<noteq> 0" using cursor_succ(2) [OF ok(1)] by auto
    then have "frame t = (frame ?s)\<lparr> CursorY := CursorY ?s - 1, CursorX := 0 \<rparr>" using assms(3) [OF s] ok(2) by simp
    then have "frame t = frame (s\<lparr> CursorX := 0, CursorY := CursorY s \<rparr>)" by (simp add: frame_def)
    then have "printing t = printing (s\<lparr> CursorX := 0, CursorY := CursorY s \<rparr>)" by (rule printing_frame)
    then show ?thesis
      using printing_cursor [OF assms(1), of 0 "CursorY s"] columns_pos [OF ok(1)] screen_okD(11) [OF ok(1)] by simp
  qed
qed

lemma character_keeps:
  assumes "printing s" "KrdwtpOutColoredCharacter_NoSpin Ch fg bg s = Inr t"
  shows "printing t"
proof -
  have ok: "screen_ok s" "sg_DwtpSpinlock s = 1" using assms(1) by (simp_all add: printing_def)
  obtain cs where cs: "CharacterSet (Font s) = Some cs" using screen_okD(8) [OF ok(1)] by blast
  have upd: "s = s\<lparr> CursorX := CursorX s \<rparr>" by simp
  show ?thesis
  proof (cases "NumberOfEntries (Font s) \<ge> scast Ch")
    case True
    then show ?thesis using assms by (simp add: KrdwtpOutColoredCharacter_NoSpin_def cs)
  next
    case new: False
    show ?thesis
    proof (cases "Ch = ch (CHR 0x0A)")
      case True
      then have "next_row (\<lambda>s. Inr (KrdwtpScroll_NoSpin s)) (s\<lparr> CursorX := CursorX s \<rparr>) = Inr t"
        using assms(2) new screen_okD(6) [OF ok(1)] by (simp add: KrdwtpOutColoredCharacter_NoSpin_def cs)
      then show ?thesis by (rule next_row_keeps [OF assms(1)]) (auto simp: scroll_cursor)
    next
      case False
      let ?C = "if bUppercaseMode s \<and> sint Ch \<ge> sint (ch (CHR ''a'')) \<and> sint Ch \<le> sint (ch (CHR ''z'')) then Ch - 32 else Ch"
      let ?W = "ucast (ColumnsPerEntry (Font s)) * ScaleFactor (Font s) :: UINT"
      have "kbind (draw_glyph cs ?C fg bg s) (\<lambda>u. let s2 = u\<lparr> CursorX := CursorX u + 1 \<rparr>
              in if FrameBufferWidth s2 div ?W \<le> CursorX s2
                 then next_row (\<lambda>s. kbind (KrdwtpScroll s) (\<lambda>(_, s). Inr s)) s2 else Inr s2) = Inr t"
        using assms(2) new False screen_okD(6) [OF ok(1)] columns_nat(1) [OF ok(1)]
        by (simp add: KrdwtpOutColoredCharacter_NoSpin_def cs Let_def)
      then obtain u where u: "draw_glyph cs ?C fg bg s = Inr u"
        and t: "(if FrameBufferWidth u div ?W \<le> CursorX u + 1
                 then next_row (\<lambda>s. kbind (KrdwtpScroll s) (\<lambda>(_, s). Inr s)) (u\<lparr> CursorX := CursorX u + 1 \<rparr>)
                 else Inr (u\<lparr> CursorX := CursorX u + 1 \<rparr>)) = Inr t"
        unfolding kbind_eq_Inr Let_def by auto
      have fr: "frame u = frame s" by (rule draw_glyph_frame [OF u])
      then have p: "printing u" using assms(1) printing_frame by blast
      then have pu: "screen_ok u" by (simp add: printing_def)
      have f: "Font s = Font u" using fr by (simp add: frame_eq_iff)
      show ?thesis
      proof (cases "unat (CursorX u) + 1 < screen_columns u")
        case True
        then have "t = u\<lparr> CursorX := CursorX u + 1 \<rparr>" using t line_full [OF pu] by (simp add: f)
        then have "t = u\<lparr> CursorX := CursorX u + 1, CursorY := CursorY u \<rparr>" by simp
        then show ?thesis
          using True printing_cursor [OF p, of "CursorX u + 1" "CursorY u"] cursor_succ(1) [OF pu] screen_okD(11) [OF pu] by simp
      next
        case False
        then have "next_row (\<lambda>s. kbind (KrdwtpScroll s) (\<lambda>(_, s). Inr s)) (u\<lparr> CursorX := CursorX u + 1 \<rparr>) = Inr t"
          using t line_full [OF pu] by (simp add: f)
        then show ?thesis by (rule next_row_keeps [OF p]) (auto simp: kbind_eq_Inr)
      qed
    qed
  qed
qed


lemma characters_keep:
  assumes "\<And>c s t. c \<in> set cs \<Longrightarrow> printing s \<Longrightarrow> g c s = Inr t \<Longrightarrow> printing t"
  shows "printing s \<Longrightarrow> each g cs s = Inr t \<Longrightarrow> printing t"
  using assms by (induction cs arbitrary: s) (auto simp: kbind_eq_Inr)

lemma text_keeps:
  assumes "printing s" "KrdwtpOutText_NoSpin pText s = Inr (n, t)"
  shows "printing t" "n = int (List.length pText)"
proof -
  have e: "each (\<lambda>c. KrdwtpOutColoredCharacter_NoSpin c KRDWTP_COLOR_WHITE KRDWTP_BACKGROUND) pText s = Inr t"
    and n: "n = int (List.length pText)"
    using assms(2) by (auto simp: KrdwtpOutText_NoSpin_def KrdwtpOutColoredText_NoSpin_def kbind_eq_Inr)
  show "printing t" by (rule characters_keep [OF character_keeps assms(1) e])
  show "n = int (List.length pText)" by (rule n)
qed

lemma white_keeps: "printing s \<Longrightarrow> KrdwtpOutCharacter_NoSpin c s = Inr t \<Longrightarrow> printing t"
  unfolding KrdwtpOutCharacter_NoSpin_def by (rule character_keeps)

lemma format_keeps:
  "printing s \<Longrightarrow> FormatLoop f mem pFmt args nwritten s = Inr (n, t) \<Longrightarrow> printing t"
proof (induction f mem pFmt args nwritten s arbitrary: n t rule: FormatLoop.induct)
  case (1 f mem pFmt args nwritten s)
  show ?case
    using "1.prems" unfolding FormatLoop.simps [of f mem pFmt args]
    by (auto simp: kbind_eq_Inr split: list.splits if_splits option.splits dest: white_keeps [OF "1.prems"(1)] text_keeps(1) [OF "1.prems"(1)] intro: "1.IH")
qed


section \<open>Lines that fit\<close>

text \<open>No line of the text reaches the last column, from a column the first one starts at.\<close>

fun lines_fit :: "nat \<Rightarrow> nat \<Rightarrow> CCHAR list \<Rightarrow> bool" where
  "lines_fit C x [] = True"
| "lines_fit C x (c # cs) =
     (if c = ch (CHR 0x0A) then lines_fit C 0 cs else 0 < unat c \<and> unat c < 128 \<and> x + 1 < C \<and> lines_fit C (x + 1) cs)"

lemma newline_moves:
  assumes "printing s" "KrdwtpOutColoredCharacter_NoSpin (ch (CHR 0x0A)) fg bg s = Inr t"
  shows "CursorX t = 0 \<and> screen_columns t = screen_columns s"
proof -
  have ok: "screen_ok s" using assms(1) by (simp add: printing_def)
  let ?s = "s\<lparr> CursorX := 0, CursorY := CursorY s + 1 \<rparr>"
  have "CursorY ?s \<noteq> 0" using cursor_succ(2) [OF ok] by auto
  from scroll_cursor [OF this] have "frame (KrdwtpScroll_NoSpin ?s) = (frame ?s)\<lparr> CursorY := CursorY ?s - 1, CursorX := 0 \<rparr>" .
  then have "frame (KrdwtpScroll_NoSpin ?s) = frame (s\<lparr> CursorX := 0 \<rparr>)" by (simp add: frame_def)
  then show ?thesis
    using assms(2) unfolding newline_step [OF ok] Let_def by (auto simp: frame_eq_iff screen_columns_def split: if_splits)
qed

lemma lines_print:
  "printing s \<Longrightarrow> lines_fit (screen_columns s) (unat (CursorX s)) pText \<Longrightarrow>
   \<exists>t. each (\<lambda>c. KrdwtpOutColoredCharacter_NoSpin c fg bg) pText s = Inr t \<and> printing t"
proof (induction pText arbitrary: s)
  case (Cons c cs)
  then have ok: "screen_ok s" by (simp add: printing_def)
  have "\<exists>u. KrdwtpOutColoredCharacter_NoSpin c fg bg s = Inr u \<and> lines_fit (screen_columns u) (unat (CursorX u)) cs"
  proof (cases "c = ch (CHR 0x0A)")
    case True
    then obtain u where u: "KrdwtpOutColoredCharacter_NoSpin (ch (CHR 0x0A)) fg bg s = Inr u"
      using newline_step [OF ok] by (simp add: Let_def)
    then show ?thesis using newline_moves [OF Cons.prems(1) u] Cons.prems(2) True by auto
  next
    case False
    then have c: "0 < unat c" "unat c < 128" "unat (CursorX s) + 1 < screen_columns s" "lines_fit (screen_columns s) (unat (CursorX s) + 1) cs"
      using Cons.prems(2) by auto
    have "screen_columns ((draw c fg bg s)\<lparr> CursorX := CursorX s + 1 \<rparr>) = screen_columns s"
      using draw_keeps [of c fg bg s] by (simp add: frame_eq_iff screen_columns_def)
    then show ?thesis using character_step [OF ok c(1,2) False] c(3,4) cursor_succ(1) [OF ok] by simp
  qed
  then obtain u where u: "KrdwtpOutColoredCharacter_NoSpin c fg bg s = Inr u" "lines_fit (screen_columns u) (unat (CursorX u)) cs" by blast
  show ?case using Cons.IH [OF character_keeps [OF Cons.prems(1) u(1)] u(2)] by (simp add: u(1))
qed simp

section \<open>Scrolling\<close>

lemma scroll_counts:
  assumes "screen_fits s" "unat (CursorY s) \<le> screen_rows s + 1"
  shows "unat (entry_size s * (PixelsPerScanLine s * BytesPerPixel s)) = frows s * fscale s * pitch s * 4"
    "unat (CursorY s * (entry_size s * (PixelsPerScanLine s * BytesPerPixel s))) = unat (CursorY s) * (frows s * fscale s * pitch s) * 4"
proof -
  have b: "BytesPerPixel s = of_nat 4" and h: "(unat (FrameBufferHeight s) + frows s * fscale s) * pitch s * 4 < 2 ^ 32"
    using assms(1) by (auto simp: screen_fits_def)
  have "frows s * fscale s * pitch s \<le> (unat (FrameBufferHeight s) + frows s * fscale s) * pitch s" by (intro mult_le_mono1) simp
  then have "frows s * fscale s * pitch s * 4 \<le> (unat (FrameBufferHeight s) + frows s * fscale s) * pitch s * 4" by (rule mult_le_mono1)
  then have 1: "frows s * fscale s * pitch s * 4 < 2 ^ LENGTH(32)" by (rule le_less_trans) (use h in simp)
  have "unat (CursorY s) * (frows s * fscale s) \<le> (screen_rows s + 1) * (frows s * fscale s)" using assms(2) by (rule mult_le_mono1)
  also have "\<dots> \<le> unat (FrameBufferHeight s) + frows s * fscale s" by (simp add: screen_rows_def)
  finally have "unat (CursorY s) * (frows s * fscale s) * pitch s * 4 \<le> (unat (FrameBufferHeight s) + frows s * fscale s) * pitch s * 4"
    by (intro mult_le_mono1)
  then have "unat (CursorY s) * (frows s * fscale s) * pitch s * 4 < 2 ^ LENGTH(32)" by (rule le_less_trans) (use h in simp)
  then have 2: "unat (CursorY s) * (frows s * fscale s * pitch s) * 4 < 2 ^ LENGTH(32)" by (simp only: mult.assoc)
  have e: "entry_size s * (PixelsPerScanLine s * BytesPerPixel s) = of_nat (frows s * fscale s * pitch s * 4)"
    by (simp add: entry_size_def b)
  then have "CursorY s * (entry_size s * (PixelsPerScanLine s * BytesPerPixel s)) = of_nat (unat (CursorY s) * (frows s * fscale s * pitch s) * 4)"
    by (simp add: mult.assoc)
  then show "unat (CursorY s * (entry_size s * (PixelsPerScanLine s * BytesPerPixel s))) = unat (CursorY s) * (frows s * fscale s * pitch s) * 4"
    using 2 by (simp only: unat_of_nat_small)
  show "unat (entry_size s * (PixelsPerScanLine s * BytesPerPixel s)) = frows s * fscale s * pitch s * 4"
    using 1 by (simp only: e unat_of_nat_small)
qed

lemma scroll_pixels:
  assumes "screen_fits s" "unat (CursorY s) \<le> screen_rows s + 1" "CursorY s \<noteq> 0" "unat (FrameBufferSize s) mod 4 = 0"
  shows "KrdwtpScroll_NoSpin s = (let row = frows s * fscale s * pitch s; used = unat (CursorY s) * row;
      up = (\<lambda>i. if i < used then ramfb s (i + row) else if i < used + row then 0 else ramfb s i)
    in s\<lparr> ramfb := up, vram := (\<lambda>i. if i < unat (FrameBufferSize s) div 4 then up i else vram s i), CursorY := CursorY s - 1, CursorX := 0 \<rparr>)"
proof -
  have p: "copy_bytes (n * 4) src dst = (\<lambda>i. if i < n then src i else dst i)" for n src dst
    by (auto simp: copy_bytes_def part_pixel_def)
  obtain n where n: "unat (FrameBufferSize s) = n * 4" using assms(4) by (metis add_0_right div_mult_mod_eq)
  show ?thesis
    using assms(3) unfolding KrdwtpScroll_NoSpin_def Let_def scroll_counts [OF assms(1,2)] DwtpReplicateRamFrbufToVram_def p
    by (simp add: n p fun_eq_iff)
qed


section \<open>What the screen shows\<close>

lemma unlocked_screen: "screen_ok s \<Longrightarrow> printing (s\<lparr> sg_DwtpSpinlock := 1 \<rparr>)"
  by (auto simp: printing_def screen_ok_def screen_fits_def screen_columns_def screen_rows_def split: option.splits)

lemma unlocked_draw:
  assumes "screen_ok s"
  shows "draw Ch fg bg (s\<lparr> sg_DwtpSpinlock := l \<rparr>) =
         s\<lparr> sg_DwtpSpinlock := l, vram := \<lambda>i. if in_cell s i then glyph_color s (shown s Ch) fg bg i else vram s i,
            ramfb := \<lambda>i. if in_cell s i then glyph_color s (shown s Ch) fg bg i else ramfb s i \<rparr>"
proof -
  have "cell_writes (s\<lparr> sg_DwtpSpinlock := l \<rparr>) c fg bg = cell_writes s c fg bg" for c by (simp add: cell_writes_def)
  moreover have "shown (s\<lparr> sg_DwtpSpinlock := l \<rparr>) Ch = shown s Ch" by (simp add: shown_def)
  ultimately show ?thesis by (simp add: draw_def paint_both_def paint_cell [OF assms])
qed

text \<open>The screen of two rows of two columns that the witnesses use: every glyph has a lit first column.\<close>

definition tiny_screen :: dwtp where
  "tiny_screen = \<lparr> FrameBufferSize = 256, FrameBufferWidth = 16, FrameBufferHeight = 4, PixelsPerScanLine = 16, CursorX = 0, CursorY = 0,
     AddrFrameBuffer = 0x1000, AddrRamFrameBuffer = 0x2000, BytesPerPixel = 4,
     Font = \<lparr> CharacterSet = Some (replicate 256 0x80), NumberOfEntries = 0, ColumnsPerEntry = 8, RowsPerEntry = 2, ScaleFactor = 1, bDirectionBit = True \<rparr>,
     bUppercaseMode = True, sg_DwtpSpinlock = 0, vram = \<lambda>_. 0, ramfb = \<lambda>_. 0, dwMeltdown = False \<rparr>"

lemma tiny_screen_ok:
  "unat x < 2 \<Longrightarrow> unat y \<le> 2 \<Longrightarrow> screen_ok (tiny_screen\<lparr> CursorX := x, CursorY := y \<rparr>)"
  "screen_columns (tiny_screen\<lparr> CursorX := x, CursorY := y \<rparr>) = 2" "screen_rows (tiny_screen\<lparr> CursorX := x, CursorY := y \<rparr>) = 2"
  by (simp_all add: screen_ok_def screen_fits_def screen_columns_def screen_rows_def tiny_screen_def)

lemma tiny_screen_start: "tiny_screen\<lparr> CursorX := 0, CursorY := 0 \<rparr> = tiny_screen" "screen_ok tiny_screen" "sg_DwtpSpinlock tiny_screen = 0"
  using tiny_screen_ok(1) [of 0 0] by (simp_all add: tiny_screen_def)

text \<open>
  C17: a printable character with room for the cursor behind it is drawn by \<^verbatim>\<open>KrdwtpOutColoredCharacter\<close> into both frame
  buffers: exactly the pixels of the cell at the cursor change, each to the foreground where its glyph is lit (scaled,
  in upper case if that mode is on) and else to the background, and the cursor moves on or to the next row.
\<close>

theorem character_drawn:
  assumes "screen_ok s" "sg_DwtpSpinlock s = 0" "0 < unat Ch" "unat Ch < 128" "Ch \<noteq> ch (CHR 0x0A)"
    and "unat (CursorX s) + 1 < screen_columns s \<or> unat (CursorY s) < screen_rows s"
  shows "KrdwtpOutColoredCharacter Ch fg bg s =
     Inr ((), s\<lparr> vram := \<lambda>i. if in_cell s i then glyph_color s (shown s Ch) fg bg i else vram s i,
                 ramfb := \<lambda>i. if in_cell s i then glyph_color s (shown s Ch) fg bg i else ramfb s i,
                 CursorX := (if unat (CursorX s) + 1 < screen_columns s then CursorX s + 1 else 0),
                 CursorY := (if unat (CursorX s) + 1 < screen_columns s then CursorY s else CursorY s + 1) \<rparr>)"
proof -
  let ?s = "s\<lparr> sg_DwtpSpinlock := 1 \<rparr>"
  have ok: "screen_ok ?s" using unlocked_screen [OF assms(1)] by (simp add: printing_def)
  have "screen_columns ?s = screen_columns s" "screen_rows ?s = screen_rows s" by (simp_all add: screen_columns_def screen_rows_def)
  then show ?thesis
    using character_step [OF ok assms(3-5), of fg bg] assms(2,6)
    by (auto simp: KrdwtpOutColoredCharacter_def locked_def proc_def unlocked_draw [OF assms(1)])
qed

theorem character_drawn_witness:
  "\<exists>t. KrdwtpOutColoredCharacter 0x61 5 6 tiny_screen = Inr ((), t) \<and> vram t 0 = 5 \<and> vram t 1 = 6 \<and> vram t 8 = 0 \<and> vram t 16 = 5 \<and>
       vram t 32 = 0 \<and> CursorX t = 1 \<and> CursorY t = 0"
  using character_drawn [OF tiny_screen_start(2,3), of "0x61" 5 6] tiny_screen_ok(2,3) [of 0 0]
  by (simp add: tiny_screen_start ch_def)
     (simp add: tiny_screen_def in_cell_def glyph_color_def glyph_lit_def shown_def bit_numeral_rec Let_def)

text \<open>
  C20: a printable character in the last column of the last row never returns: the row is full, and the scrolling it
  asks for waits for the lock that \<^verbatim>\<open>KrdwtpOutColoredCharacter\<close> itself holds.
\<close>

theorem full_screen_deadlocks:
  assumes "screen_ok s" "sg_DwtpSpinlock s = 0" "0 < unat Ch" "unat Ch < 128" "Ch \<noteq> ch (CHR 0x0A)"
    and "unat (CursorX s) + 1 = screen_columns s" "unat (CursorY s) = screen_rows s"
  shows "KrdwtpOutColoredCharacter Ch fg bg s = Inl Deadlock"
proof -
  let ?s = "s\<lparr> sg_DwtpSpinlock := 1 \<rparr>"
  have ok: "screen_ok ?s" using unlocked_screen [OF assms(1)] by (simp add: printing_def)
  have "screen_columns ?s = screen_columns s" "screen_rows ?s = screen_rows s" by (simp_all add: screen_columns_def screen_rows_def)
  then show ?thesis
    using character_step [OF ok assms(3-5), of fg bg] assms(2,6,7)
    by (simp add: KrdwtpOutColoredCharacter_def locked_def proc_def unlocked_draw [OF assms(1)])
qed

theorem full_screen_deadlocks_witness:
  "KrdwtpOutColoredCharacter 0x61 5 6 (tiny_screen\<lparr> CursorX := 1, CursorY := 2 \<rparr>) = Inl Deadlock"
  by (rule full_screen_deadlocks) (simp_all add: tiny_screen_ok ch_def, simp add: tiny_screen_def)

text \<open>
  C19: a text of seven-bit characters whose lines all end before the last column is always printed: every character
  returns, however many rows have to be scrolled, the whole text is counted, and the lock is free again.
\<close>

theorem short_lines_printed:
  assumes "screen_ok s" "sg_DwtpSpinlock s = 0" "lines_fit (screen_columns s) (unat (CursorX s)) pText"
  shows "\<exists>t. KrdwtpOutColoredText pText fg bg s = Inr (int (List.length pText), t) \<and> screen_ok t \<and> sg_DwtpSpinlock t = 0"
proof -
  let ?s = "s\<lparr> sg_DwtpSpinlock := 1 \<rparr>"
  have "screen_columns ?s = screen_columns s" by (simp add: screen_columns_def)
  then obtain t where t: "each (\<lambda>c. KrdwtpOutColoredCharacter_NoSpin c fg bg) pText ?s = Inr t" "printing t"
    using lines_print [OF unlocked_screen [OF assms(1)], of pText fg bg] assms(3) by auto
  then have "screen_ok (t\<lparr> sg_DwtpSpinlock := 0 \<rparr>)"
    by (auto simp: printing_def screen_ok_def screen_fits_def screen_columns_def screen_rows_def split: option.splits)
  then show ?thesis using t(1) assms(2) by (simp add: KrdwtpOutColoredText_def KrdwtpOutColoredText_NoSpin_def locked_def)
qed

theorem short_lines_printed_witness:
  "\<exists>t. KrdwtpOutColoredText (chars ''a'' @ [0x0A] @ chars ''b'' @ [0x0A, 0x0A, 0x0A] @ chars ''c'') 5 6 tiny_screen = Inr (7, t) \<and> screen_ok t"
  using short_lines_printed [OF tiny_screen_start(2,3), of "chars ''a'' @ [0x0A] @ chars ''b'' @ [0x0A, 0x0A, 0x0A] @ chars ''c''" 5 6]
    tiny_screen_ok(2) [of 0 0]
  by (auto simp: tiny_screen_start chars_def ch_def tiny_screen_def)

text \<open>
  C35: scrolling moves the used rows of text up by one, clears the row they leave, shows the result in the frame buffer
  and puts the cursor at the start of the row above; the lock is taken and given back.
\<close>

theorem scroll_shifts_rows:
  assumes "screen_fits s" "sg_DwtpSpinlock s = 0" "CursorY s \<noteq> 0" "unat (CursorY s) \<le> screen_rows s + 1" "unat (FrameBufferSize s) mod 4 = 0"
  shows "KrdwtpScroll s = (let row = frows s * fscale s * pitch s; used = unat (CursorY s) * row;
      up = (\<lambda>i. if i < used then ramfb s (i + row) else if i < used + row then 0 else ramfb s i)
    in Inr ((), s\<lparr> ramfb := up, vram := (\<lambda>i. if i < unat (FrameBufferSize s) div 4 then up i else vram s i),
                   CursorY := CursorY s - 1, CursorX := 0 \<rparr>))"
proof -
  let ?s = "s\<lparr> sg_DwtpSpinlock := 1 \<rparr>"
  have "screen_fits ?s" using assms(1) by (auto simp: screen_fits_def split: option.splits)
  moreover have "screen_rows ?s = screen_rows s" by (simp add: screen_rows_def)
  ultimately show ?thesis
    using scroll_pixels [of ?s] assms by (auto simp: KrdwtpScroll_def locked_def Let_def cong: if_cong)
qed

theorem scroll_shifts_rows_witness:
  "\<exists>t. KrdwtpScroll (tiny_screen\<lparr> CursorY := 1, ramfb := \<lambda>i. of_nat i \<rparr>) = Inr ((), t) \<and> vram t 3 = 35 \<and> vram t 40 = 0 \<and> vram t 64 = 0 \<and> CursorY t = 0"
  using scroll_shifts_rows [of "tiny_screen\<lparr> CursorY := 1, ramfb := \<lambda>i. of_nat i \<rparr>"]
  by (simp add: screen_fits_def screen_rows_def tiny_screen_def Let_def)

text \<open>On the row that the check of the code still lets the cursor reach, part of a cell lies below the frame buffer.\<close>

lemma last_row_outside:
  assumes "screen_ok s" "unat (CursorY s) = screen_rows s"
  shows "\<exists>i. in_cell s i \<and> unat (FrameBufferHeight s) * pitch s \<le> i"
proof -
  have p: "frows s - 1 < frows s" "fscale s - 1 < fscale s" "0 < fscale s" using screen_okD(1,2) [OF assms(1)] by simp_all
  let ?i = "cell_y s (frows s - 1) (fscale s - 1) * pitch s + cell_x s 0 0"
  have "in_cell s ?i" unfolding in_cell_iff [OF assms(1)] 
    by (rule exI [of _ "frows s - 1"], rule conjI, rule p, rule exI [of _ 0], rule conjI, simp,
        rule exI [of _ "fscale s - 1"], rule conjI, rule p, rule exI [of _ 0], simp add: p)
  moreover have "unat (FrameBufferHeight s) \<le> cell_y s (frows s - 1) (fscale s - 1)"
  proof -
    have "unat (FrameBufferHeight s) < (screen_rows s + 1) * (frows s * fscale s)"
      using dividend_less_div_times [of "frows s * fscale s" "unat (FrameBufferHeight s)"] p by (simp add: screen_rows_def algebra_simps)
    also have "\<dots> = cell_y s (frows s - 1) (fscale s - 1) + 1"
      using p by (cases "frows s"; cases "fscale s") (simp_all add: assms(2) algebra_simps)
    finally show ?thesis by simp
  qed
  ultimately show ?thesis by (meson mult_le_mono1 trans_le_add1)
qed



end
