(* ===== verification/Spec2Isabelle.thy ===== *)
theory Spec2Isabelle
  imports Apic RoutineLib DisplayText
begin

text \<open>
  Ych is a 64-bit kernel for x86. This development models its own logic, written in C, as executable functions and
  states what they do; the machine, the firmware and the devices are parameters.

  How the program fits together. The loader hands over a memory map and an arena. \<^verbatim>\<open>KrKernelStart\<close> sorts
  the map (\<^verbatim>\<open>Init/KrInitMemmap.c\<close>), builds the descriptor tables and the interrupt tables, the page
  bitmaps in the arena (\<^verbatim>\<open>Memory/Physmemmgmt.c\<close>), the kernel address space with its direct map
  (\<^verbatim>\<open>Memory/Virtmemmgmt.c\<close>, \<^verbatim>\<open>Memory/PrivateVMM\<close>) and the heap (\<^verbatim>\<open>Memory/Krnlheap.c\<close>);
  then it reads the ACPI tables, maps and programs the interrupt controllers, registers the built-in drivers,
  enumerates PCI functions into the device tree, pairs devices with drivers, starts the other processors and
  serves keyboard events. The physical memory manager gives pages to the page tables and to the allocator of
  region nodes; the address space reserves the ranges of the heap and of the devices; the heap gives memory to
  the device tree, the driver table and the timer queue; interrupts push keyboard events and run timers.

  Conventions. C integers are words of their width, so arithmetic wraps as in C; a pointer is a 64-bit word and
  the objects it may point to are a function from addresses, one per type of object. A function that can fault
  returns \<open>'a kres\<close> (\<open>YchPrelude\<close>): a fault (null or out-of-bounds access, division by zero, deadlock, meltdown,
  or no fuel left) or a value. State is passed and returned. Loops over linked structures, over firmware tables
  and over device status have fuel: one more than the length of the list they follow is enough, which the
  theorems prove by giving a result for every larger fuel; a device or a table can exhaust any fuel, and then
  \<open>OutOfFuel\<close> stands for a loop that does not end. Every fault of the program is a result of its model, and
  nothing is assumed about code that is not in the repository except in named hypotheses
  (\<open>io_apic_device\<close>: the documented behaviour of the registers of an I/O interrupt controller).

  The theories, in the order of their dependence, with the code they model (under \<^verbatim>\<open>Kernel/Source\<close>,
  with its headers under \<^verbatim>\<open>Kernel/Include\<close>):

    \<^item> \<open>YchPrelude\<close>: types of \<^verbatim>\<open>Krnlych.h\<close>, faults, bits, words, loops over lists.
    \<^item> \<open>BootstrapArena\<close>: \<^verbatim>\<open>Memory/BootstrapArena.c\<close>.
    \<^item> \<open>MemoryMap\<close>: \<^verbatim>\<open>Init/KrInitMemmap.c\<close>; sorting and the canonical map.
    \<^item> \<open>Meltdown\<close>: \<^verbatim>\<open>Core/meltdownstrings.c\<close> and the codes.
    \<^item> \<open>Spinlock\<close>: \<^verbatim>\<open>CPU/Spinlock.asm\<close> as a step relation; mutual exclusion.
    \<^item> \<open>PageBitmap\<close>, \<open>Physmem\<close>, \<open>PhysmemAcquire\<close>, \<open>PhysmemInit\<close>: \<^verbatim>\<open>Memory/Physmemmgmt.c\<close>; the bulk
      stores against single bits, acquisition and relinquishing on every branch, the invariant over any sequence of
      calls, initialisation.
    \<^item> \<open>PageSource\<close>: the contract of the page allocator as the locale \<open>page_source\<close>, interpreted on \<open>Physmem\<close>.
    \<^item> \<open>Krtl\<close>: \<^verbatim>\<open>KRTL\<close>; strings, numbers and formatting.
    \<^item> \<open>PageTable\<close>: \<^verbatim>\<open>Memory/PTE.c\<close>, \<^verbatim>\<open>CPU/PAT.c\<close> and the address macros.
    \<^item> \<open>RegionNodes\<close>, \<open>VirtMem\<close>, \<open>Dmap\<close>: the address space, its nodes, its direct map and static pages.
    \<^item> \<open>Kheap\<close>, \<open>HeapAlloc\<close>: \<^verbatim>\<open>Memory/Krnlheap.c\<close>; the contract of an allocator is the locale
      \<open>allocator\<close>, interpreted on the heap.
    \<^item> \<open>Mmio\<close>: \<^verbatim>\<open>Memory/MMIO.c\<close>, \<^verbatim>\<open>Intmgmt/IOAPIC.c\<close>.
    \<^item> \<open>Descriptors\<close>, \<open>Interrupts\<close>, \<open>Timers\<close>: \<^verbatim>\<open>CPU/GDT.c\<close>, \<^verbatim>\<open>CPU/IDT.c\<close>, \<^verbatim>\<open>CPU/PerCpu.c\<close>,
      \<^verbatim>\<open>CPU/Interrupt.c\<close>, \<^verbatim>\<open>Intmgmt/IRQAldist.c\<close>, \<^verbatim>\<open>Intmgmt/Timer.c\<close>.
    \<^item> \<open>Keycodes\<close>, \<open>KeyboardHub\<close>, \<open>Ps2Keyboard\<close>: \<^verbatim>\<open>HumanInterface\<close> and \<^verbatim>\<open>Devdriv/Keyboard\<close>; the hub
      is an interpretation of the locale \<open>bounded_fifo\<close>, on which the decoding theorem of the keyboard rests.
    \<^item> \<open>Acpi\<close>: \<^verbatim>\<open>ACPI/ACPI.c\<close>, \<^verbatim>\<open>Init/KrInitACPI.c\<close>.
    \<^item> \<open>DeviceTree\<close>, \<open>Pcie\<close>, \<open>BuiltinDrivers\<close>: \<^verbatim>\<open>Devdriv\<close>, \<^verbatim>\<open>ACPI/PCIe.c\<close>, \<^verbatim>\<open>Init/KrInitDrivers.c\<close>; the
      contract of drivers that only answer is the locale \<open>answering_drivers\<close>, interpreted on the built-in drivers.
  Bounds and fuel. Quicksort recurses on fuel one more than the number of entries; printing a number needs 65
  digits of fuel and a number's buffer 128; the heap's search is bounded by the number of blocks of at least 57
  bytes that fit into the heap; the pairing needs three times the number of devices plus the length of the driver
  table and three; the set-up of the device tree more than 65536, the number of PCI functions there can be.

  Not modelled: the loader in \<^verbatim>\<open>Boot\<close> and the assembly files, which are firmware calls and instructions
  (the spinlock apart); the service routines and their declarations in \<^verbatim>\<open>Init/ISRs.h\<close>; the glyphs in
  \<^verbatim>\<open>Earlyvideo/Dwtpfonts.c\<close>, which are data; the logging to the screen inside the functions above,
  which does not influence them; \<^verbatim>\<open>Init/KrKernelStart.c\<close>, which calls the components in order and prints.
\<close>

end
